(* ===== verification/Prelude.thy ===== *)
theory Prelude
  imports Main "HOL-Library.Word"
begin

text \<open>
  Shared vocabulary of the development: Rust's \<open>Result\<close> as a sum with its bind, the
  checked integer operations of the standard library, little-endian and big-endian
  integer encodings, checked slicing of byte strings, and the list lemmas that more than
  one component needs.  The collection \<open>res_rules\<close> holds the equations that turn
  "this chain of guards returned \<open>Ok\<close>" into the conjunction of its guards.
\<close>

named_theorems res_rules "inversion of Result-valued guard chains"

section \<open>Types\<close>

type_synonym byte = "8 word"
type_synonym bytes = "byte list"
type_synonym ('e, 'a) res = "'e + 'a"

section \<open>Result\<close>

definition bind_res :: "('e, 'a) res \<Rightarrow> ('a \<Rightarrow> ('e, 'b) res) \<Rightarrow> ('e, 'b) res" where
  "bind_res r f = (case r of Inl e \<Rightarrow> Inl e | Inr x \<Rightarrow> f x)"

definition ok_or :: "'e \<Rightarrow> 'a option \<Rightarrow> ('e, 'a) res" where
  "ok_or e opt = (case opt of None \<Rightarrow> Inl e | Some x \<Rightarrow> Inr x)"

definition map_err :: "('e \<Rightarrow> 'f) \<Rightarrow> ('e, 'a) res \<Rightarrow> ('f, 'a) res" where
  "map_err g r = (case r of Inl e \<Rightarrow> Inl (g e) | Inr x \<Rightarrow> Inr x)"

definition is_ok :: "('e, 'a) res \<Rightarrow> bool" where
  "is_ok r = (case r of Inl _ \<Rightarrow> False | Inr _ \<Rightarrow> True)"

definition guard_res :: "bool \<Rightarrow> 'e \<Rightarrow> ('e, 'a) res \<Rightarrow> ('e, 'a) res" where
  \<comment> \<open>\<open>if bad { return Err(e); } rest\<close>\<close>
  "guard_res bad e rest = (if bad then Inl e else rest)"

lemma bind_res_simps [simp]:
  "bind_res (Inl e) f = Inl e"
  "bind_res (Inr x) f = f x"
  by (simp_all add: bind_res_def)

lemma ok_or_simps [simp]:
  "ok_or e None = Inl e"
  "ok_or e (Some x) = Inr x"
  by (simp_all add: ok_or_def)

lemma map_err_simps [simp]:
  "map_err g (Inl e) = Inl (g e)"
  "map_err g (Inr x) = Inr x"
  by (simp_all add: map_err_def)

lemma is_ok_simps [simp]:
  "is_ok (Inl e) = False"
  "is_ok (Inr x) = True"
  by (simp_all add: is_ok_def)

lemma guard_res_simps [simp]:
  "guard_res True e r = Inl e"
  "guard_res False e r = r"
  by (simp_all add: guard_res_def)

lemma bind_res_Inr [res_rules]:
  "bind_res r f = Inr y \<longleftrightarrow> (\<exists>x. r = Inr x \<and> f x = Inr y)"
  by (cases r) auto

lemma bind_res_Inl:
  "bind_res r f = Inl e \<longleftrightarrow> r = Inl e \<or> (\<exists>x. r = Inr x \<and> f x = Inl e)"
  by (cases r) auto

lemma ok_or_Inr [res_rules]: "ok_or e opt = Inr x \<longleftrightarrow> opt = Some x"
  by (cases opt) auto

lemma ok_or_Inl: "ok_or e opt = Inl f \<longleftrightarrow> opt = None \<and> f = e"
  by (cases opt) auto

lemma map_err_Inr [res_rules]: "map_err g r = Inr x \<longleftrightarrow> r = Inr x"
  by (cases r) auto

lemma guard_res_Inr [res_rules]: "guard_res bad e r = Inr x \<longleftrightarrow> \<not> bad \<and> r = Inr x"
  by (simp add: guard_res_def)

lemma guard_res_Inl: "guard_res bad e r = Inl f \<longleftrightarrow> (bad \<and> e = f) \<or> (\<not> bad \<and> r = Inl f)"
  by (auto simp: guard_res_def)

lemma ex_unit_iff: "(\<exists>u :: unit. P u) \<longleftrightarrow> P ()"
  by auto

lemma is_ok_iff: "is_ok r \<longleftrightarrow> (\<exists>x. r = Inr x)"
  by (cases r) auto

lemma bind_res_cong [fundef_cong]:
  assumes "r = s" and "\<And>x. s = Inr x \<Longrightarrow> f x = g x"
  shows "bind_res r f = bind_res s g"
  using assms by (cases s) auto

lemma guard_res_cong [fundef_cong]:
  assumes "b = c" and "e = f" and "\<not> c \<Longrightarrow> r = s"
  shows "guard_res b e r = guard_res c f s"
  using assms by (cases c) auto

text \<open>\<open>iter().map(f).collect::<Result<Vec<_>, _>>()\<close>: the first error wins.\<close>

fun collect_res :: "('a \<Rightarrow> ('e, 'b) res) \<Rightarrow> 'a list \<Rightarrow> ('e, 'b list) res" where
  "collect_res f [] = Inr []"
| "collect_res f (x # xs) =
     bind_res (f x) (\<lambda>y. bind_res (collect_res f xs) (\<lambda>ys. Inr (y # ys)))"

lemma collect_res_Inr:
  "collect_res f xs = Inr ys \<longleftrightarrow> list_all2 (\<lambda>x y. f x = Inr y) xs ys"
  by (induction xs arbitrary: ys) (auto simp: res_rules list_all2_Cons1)

section \<open>Checked integers\<close>

text \<open>
  Unsigned machine integers are natural numbers; the operations of the source that can
  leave the type's range say so.  \<open>usize\<close> is 64 bits wide, as on every platform the
  application is built for.
\<close>

definition checked_add64 :: "nat \<Rightarrow> nat \<Rightarrow> nat option" where
  "checked_add64 a b = (if a + b < 2 ^ 64 then Some (a + b) else None)"

definition checked_sub :: "nat \<Rightarrow> nat \<Rightarrow> nat option" where
  "checked_sub a b = (if b \<le> a then Some (a - b) else None)"

definition checked_div :: "nat \<Rightarrow> nat \<Rightarrow> nat option" where
  "checked_div a b = (if b = 0 then None else Some (a div b))"

definition checked_sub_i64 :: "int \<Rightarrow> int \<Rightarrow> int option" where
  "checked_sub_i64 a b = (if - (2 ^ 63) \<le> a - b \<and> a - b < 2 ^ 63 then Some (a - b) else None)"

lemma checked_add64_Some [res_rules]:
  "checked_add64 a b = Some c \<longleftrightarrow> c = a + b \<and> a + b < 2 ^ 64"
  by (auto simp: checked_add64_def)

lemma checked_sub_Some [res_rules]: "checked_sub a b = Some c \<longleftrightarrow> b \<le> a \<and> c = a - b"
  by (auto simp: checked_sub_def)

lemma checked_div_Some [res_rules]: "checked_div a b = Some c \<longleftrightarrow> b \<noteq> 0 \<and> c = a div b"
  by (auto simp: checked_div_def)

text \<open>\<open>iter().try_fold(0u64, |sum, x| sum.checked_add(x))\<close>.\<close>

fun try_sum64 :: "nat \<Rightarrow> nat list \<Rightarrow> nat option" where
  "try_sum64 acc [] = Some acc"
| "try_sum64 acc (x # xs) =
     (case checked_add64 acc x of None \<Rightarrow> None | Some acc' \<Rightarrow> try_sum64 acc' xs)"

lemma try_sum64_Some: "try_sum64 acc xs = Some s \<Longrightarrow> s = acc + sum_list xs"
proof (induction xs arbitrary: acc)
  case (Cons x xs)
  then have "try_sum64 (acc + x) xs = Some s"
    by (auto simp: res_rules split: option.splits)
  from Cons.IH [OF this] show ?case by simp
qed simp

lemma try_sum64_total: "acc + sum_list xs < 2 ^ 64 \<Longrightarrow> try_sum64 acc xs = Some (acc + sum_list xs)"
  by (induction xs arbitrary: acc) (auto simp: checked_add64_def)

lemma try_sum64_iff: "acc < 2 ^ 64 \<Longrightarrow> try_sum64 acc xs = Some s \<longleftrightarrow> s = acc + sum_list xs \<and> s < 2 ^ 64"
proof (induction xs arbitrary: acc)
  case (Cons x xs)
  then show ?case by (cases "acc + x < 2 ^ 64") (auto simp: checked_add64_def add.assoc)
qed auto

section \<open>Integer encodings\<close>

fun le_bytes :: "nat \<Rightarrow> nat \<Rightarrow> bytes" where
  "le_bytes 0 n = []"
| "le_bytes (Suc k) n = of_nat n # le_bytes k (n div 256)"

fun of_le_bytes :: "bytes \<Rightarrow> nat" where
  "of_le_bytes [] = 0"
| "of_le_bytes (b # bs) = unat b + 256 * of_le_bytes bs"

definition be_bytes :: "nat \<Rightarrow> nat \<Rightarrow> bytes" where
  "be_bytes k n = rev (le_bytes k n)"

definition of_be_bytes :: "bytes \<Rightarrow> nat" where
  "of_be_bytes bs = of_le_bytes (rev bs)"

lemma length_le_bytes [simp]: "length (le_bytes k n) = k"
  by (induction k arbitrary: n) auto

text \<open>Evaluation of the encodings and of \<open>replicate\<close> at numerals, for the examples.\<close>

lemma le_bytes_numeral:
  "le_bytes (numeral k) n = of_nat n # le_bytes (pred_numeral k) (n div 256)"
  by (subst numeral_eq_Suc) (rule le_bytes.simps(2))

lemma replicate_numeral: "replicate (numeral k) x = x # replicate (pred_numeral k) x"
  by (subst numeral_eq_Suc) (rule replicate_Suc)

lemmas numeral_eval = le_bytes_numeral replicate_numeral

lemma unat_of_nat_byte: "unat (of_nat n :: byte) = n mod 256"
  by (simp add: unat_of_nat)

lemma of_le_bytes_le_bytes: "of_le_bytes (le_bytes k n) = n mod 256 ^ k"
proof (induction k arbitrary: n)
  case 0
  show ?case by simp
next
  case (Suc k)
  have "n mod 256 + 256 * (n div 256 mod 256 ^ k) = n mod (256 * 256 ^ k)"
    by (metis add.commute mod_mult2_eq)
  then show ?case by (simp add: Suc.IH unat_of_nat_byte)
qed

lemma of_le_bytes_bound: "of_le_bytes bs < 256 ^ length bs"
proof (induction bs)
  case (Cons b bs)
  have "unat b < 256" using unsigned_less [of b] by simp
  with Cons.IH show ?case by simp
qed simp

lemma le_bytes_of_le_bytes: "length bs = k \<Longrightarrow> le_bytes k (of_le_bytes bs) = bs"
proof (induction bs arbitrary: k)
  case (Cons b bs)
  have b: "unat b < 256" using unsigned_less [of b] by simp
  obtain m where k: "k = Suc m" and m: "length bs = m" using Cons.prems by auto
  have "unat (of_nat (unat b + 256 * of_le_bytes bs) :: byte) = unat b"
    by (simp only: unat_of_nat_byte) (simp add: b)
  then have "of_nat (unat b + 256 * of_le_bytes bs) = b"
    by (rule unsigned_word_eqI)
  moreover have "(unat b + 256 * of_le_bytes bs) div 256 = of_le_bytes bs" using b by simp
  ultimately show ?case using k Cons.IH [OF m] by simp
qed simp

lemma le_bytes_inject:
  assumes "le_bytes k m = le_bytes k n" and "m < 256 ^ k" and "n < 256 ^ k"
  shows "m = n"
  by (metis assms mod_less of_le_bytes_le_bytes)

section \<open>Checked slices\<close>

definition take_exact :: "nat \<Rightarrow> 'a list \<Rightarrow> ('a list \<times> 'a list) option" where
  \<comment> \<open>\<open>remaining.get(..count)\<close> followed by \<open>&remaining[count..]\<close>\<close>
  "take_exact n xs = (if n \<le> length xs then Some (take n xs, drop n xs) else None)"

lemma take_exact_append [simp]: "length xs = n \<Longrightarrow> take_exact n (xs @ ys) = Some (xs, ys)"
  by (simp add: take_exact_def)

lemma take_exact_Some [res_rules]:
  "take_exact n xs = Some (ys, zs) \<longleftrightarrow> xs = ys @ zs \<and> length ys = n"
  by (auto simp: take_exact_def)

definition nth_opt :: "'a list \<Rightarrow> nat \<Rightarrow> 'a option" where
  \<comment> \<open>slice \<open>get\<close>\<close>
  "nth_opt xs i = (if i < length xs then Some (xs ! i) else None)"

lemma nth_opt_Some [res_rules]: "nth_opt xs i = Some x \<longleftrightarrow> i < length xs \<and> xs ! i = x"
  by (auto simp: nth_opt_def)

lemma nth_opt_None: "nth_opt xs i = None \<longleftrightarrow> length xs \<le> i"
  by (auto simp: nth_opt_def)

lemma card_set_eq_length_iff: "card (set xs) = length xs \<longleftrightarrow> distinct xs"
  using card_distinct distinct_card by blast

section \<open>Decoders that consume a prefix\<close>

text \<open>
  The contract between a writer \<open>put\<close> and a reader \<open>get\<close> that takes a prefix of its
  input and hands back the rest: on the values the format can carry, reading what was
  written gives the value, and nothing else is ever accepted.
\<close>

locale prefix_codec =
  fixes put :: "'a \<Rightarrow> bytes"
    and get :: "bytes \<Rightarrow> ('e, 'a \<times> bytes) res"
    and ok :: "'a \<Rightarrow> bool"
  assumes get_put: "ok x \<Longrightarrow> get (put x @ rest) = Inr (x, rest)"
    and get_sound: "get bs = Inr (x, rest) \<Longrightarrow> ok x \<and> bs = put x @ rest"
begin

lemma get_iff: "get bs = Inr (x, rest) \<longleftrightarrow> ok x \<and> bs = put x @ rest"
proof
  assume "get bs = Inr (x, rest)"
  then show "ok x \<and> bs = put x @ rest" by (rule get_sound)
next
  assume "ok x \<and> bs = put x @ rest"
  then show "get bs = Inr (x, rest)" using get_put [of x rest] by (simp only:)
qed

lemma put_prefix_free:
  assumes "ok x" and "ok y" and "put x @ r = put y @ s"
  shows "x = y \<and> r = s"
proof -
  have "get (put x @ r) = Inr (y, s)" using get_put [OF assms(2), of s] assms(3) by (simp only:)
  then show ?thesis using get_put [OF assms(1), of r] by simp
qed

end

section \<open>Prefix-free encodings\<close>

text \<open>
  The writer's half of that contract, for encodings whose reader is not part of the code:
  nonempty, and no encoding followed by anything can be read as another value's.
\<close>

definition prefix_code :: "('a \<Rightarrow> bool) \<Rightarrow> ('a \<Rightarrow> bytes) \<Rightarrow> bool" where
  "prefix_code ok f \<longleftrightarrow>
     (\<forall>x. ok x \<longrightarrow> f x \<noteq> []) \<and>
     (\<forall>x y r s. ok x \<longrightarrow> ok y \<longrightarrow> f x @ r = f y @ s \<longrightarrow> x = y \<and> r = s)"

lemma prefix_codeD:
  "\<lbrakk>prefix_code ok f; f x @ r = f y @ s; ok x; ok y\<rbrakk> \<Longrightarrow> x = y \<and> r = s"
  unfolding prefix_code_def by blast

lemma prefix_code_inject: "\<lbrakk>prefix_code ok f; f x = f y; ok x; ok y\<rbrakk> \<Longrightarrow> x = y"
  using prefix_codeD [of ok f x "[]" y "[]"] by simp

lemma prefix_code_fixed:
  assumes "0 < n" and "\<And>x. ok x \<Longrightarrow> length (f x) = n" and "\<And>x y. \<lbrakk>ok x; ok y; f x = f y\<rbrakk> \<Longrightarrow> x = y"
  shows "prefix_code ok f"
proof -
  have "f x \<noteq> []" if "ok x" for x using assms(1) assms(2) [OF that] by auto
  moreover have "x = y \<and> r = s" if "ok x" "ok y" "f x @ r = f y @ s" for x y r s
  proof -
    have "f x = f y \<and> r = s" using that assms(2) by simp
    then show ?thesis using assms(3) that(1,2) by blast
  qed
  ultimately show ?thesis unfolding prefix_code_def by blast
qed

lemma prefix_code_le_bytes: "0 < k \<Longrightarrow> prefix_code (\<lambda>n. n < 256 ^ k) (le_bytes k)"
  by (rule prefix_code_fixed) (auto dest: le_bytes_inject)

lemma prefix_code_concat:
  assumes code: "prefix_code ok f" and "list_all ok xs" and "list_all ok ys"
    and "concat (map f xs) = concat (map f ys)"
  shows "xs = ys"
  using assms(2-)
proof (induction xs arbitrary: ys)
  case Nil
  then show ?case using code by (cases ys) (auto simp: prefix_code_def)
next
  case (Cons x xs)
  then obtain y zs where ys: "ys = y # zs" using code by (cases ys) (auto simp: prefix_code_def)
  have "x = y \<and> concat (map f xs) = concat (map f zs)"
    using prefix_codeD [OF code] Cons.prems ys by simp
  then show ?case using Cons.IH [of zs] Cons.prems ys by simp
qed

end
