(* ===== verification/Bitcoin_Types.thy ===== *)
theory Bitcoin_Types
  imports Prelude "HOL-Library.List_Lexorder"
begin

text \<open>
  The data of the Bitcoin library that the wallet code reads and builds (outpoints,
  inputs, outputs, transactions), and the library functions it calls.  The library is not
  part of the repository, so its functions are the fields of one record, \<open>btc_api\<close>,
  which every definition that calls the library takes as its first argument.  What a
  theorem needs of them is a named predicate on that record, each the documented behaviour
  of the function it talks about.  The ordering of outpoints is the derived one (first the
  transaction identifier, then the index); it decides the iteration order of the ordered
  sets the code builds.
\<close>

type_synonym txid = bytes
type_synonym block_hash = bytes
type_synonym script = bytes

datatype outpoint = OutPoint (op_txid: txid) (op_vout: nat)

instantiation outpoint :: linorder
begin

definition less_eq_outpoint :: "outpoint \<Rightarrow> outpoint \<Rightarrow> bool" where
  "less_eq_outpoint a b \<longleftrightarrow>
     op_txid a < op_txid b \<or> (op_txid a = op_txid b \<and> op_vout a \<le> op_vout b)"

definition less_outpoint :: "outpoint \<Rightarrow> outpoint \<Rightarrow> bool" where
  "less_outpoint a b \<longleftrightarrow>
     op_txid a < op_txid b \<or> (op_txid a = op_txid b \<and> op_vout a < op_vout b)"

instance
  by standard (auto simp: less_eq_outpoint_def less_outpoint_def intro: outpoint.expand)

end

record txin =
  ti_prev :: outpoint
  ti_script_sig :: script
  ti_sequence :: nat
  ti_witness :: "bytes list"

record txout =
  to_value :: nat
  to_script :: script

record transaction =
  tx_version :: int
  tx_lock_time :: nat
  tx_input :: "txin list"
  tx_output :: "txout list"

datatype child_number = Normal nat | Hardened nat

definition is_hardened :: "child_number \<Rightarrow> bool" where
  "is_hardened c = (case c of Normal _ \<Rightarrow> False | Hardened _ \<Rightarrow> True)"

lemma is_hardened_simps [simp]: "\<not> is_hardened (Normal i)" "is_hardened (Hardened i)"
  by (simp_all add: is_hardened_def)

record btc_api =
  lib_txid :: "transaction \<Rightarrow> txid"                       \<comment> \<open>\<open>Transaction::compute_txid\<close>\<close>
  lib_deserialize :: "bytes \<Rightarrow> transaction option"        \<comment> \<open>\<open>consensus::deserialize\<close>\<close>
  lib_is_coinbase :: "transaction \<Rightarrow> bool"                \<comment> \<open>\<open>Transaction::is_coinbase\<close>\<close>
  lib_is_null :: "outpoint \<Rightarrow> bool"                       \<comment> \<open>\<open>OutPoint::is_null\<close>\<close>
  lib_push_int :: "nat \<Rightarrow> script"                         \<comment> \<open>\<open>Builder::new().push_int(n)\<close>\<close>
  lib_ser_outpoint :: "outpoint \<Rightarrow> bytes"                 \<comment> \<open>\<open>consensus::serialize\<close>\<close>
  lib_deser_outpoint :: "bytes \<Rightarrow> outpoint option"
  lib_ser_txout :: "txout \<Rightarrow> bytes"
  lib_ser_script :: "script \<Rightarrow> bytes"
  lib_ser_amount :: "nat \<Rightarrow> bytes"
  lib_ser_sequence :: "nat \<Rightarrow> bytes"
  lib_sha256 :: "bytes \<Rightarrow> bytes"                          \<comment> \<open>\<open>sha256::Hash::hash\<close>\<close>
  lib_new_op_return :: "bytes \<Rightarrow> script"                  \<comment> \<open>\<open>ScriptBuf::new_op_return\<close>\<close>
  lib_is_op_return :: "script \<Rightarrow> bool"                    \<comment> \<open>\<open>Script::is_op_return\<close>\<close>
  lib_minimal_non_dust :: "script \<Rightarrow> nat"                 \<comment> \<open>\<open>Script::minimal_non_dust\<close>\<close>
  lib_tx_weight :: "transaction \<Rightarrow> nat"                   \<comment> \<open>\<open>Transaction::weight\<close>\<close>
  lib_txout_weight :: "txout \<Rightarrow> nat"                      \<comment> \<open>\<open>TxOut::weight\<close>\<close>
  lib_to_p2wsh :: "script \<Rightarrow> script"                      \<comment> \<open>\<open>Script::to_p2wsh\<close>\<close>
  lib_is_p2wsh :: "script \<Rightarrow> bool"                        \<comment> \<open>\<open>Script::is_p2wsh\<close>\<close>

text \<open>\<open>Amount::MAX_MONEY\<close> and \<open>Amount::ONE_BTC\<close> in satoshis.\<close>

definition max_money :: nat where "max_money = 2100000000000000"
definition one_btc :: nat where "one_btc = 100000000"

definition prevouts :: "transaction \<Rightarrow> outpoint list" where
  "prevouts tx = map ti_prev (tx_input tx)"

section \<open>Documented behaviour of the library\<close>

text \<open>
  An outpoint is the 32 bytes of the transaction identifier and a 32-bit index; its
  consensus encoding takes 36 bytes and decodes to itself.
\<close>

definition wf_outpoint :: "outpoint \<Rightarrow> bool" where
  "wf_outpoint p \<longleftrightarrow> length (op_txid p) = 32 \<and> op_vout p < 2 ^ 32"

definition outpoint_codec :: "btc_api \<Rightarrow> bool" where
  "outpoint_codec L \<longleftrightarrow>
     (\<forall>p. wf_outpoint p \<longrightarrow> length (lib_ser_outpoint L p) = 36 \<and>
        lib_deser_outpoint L (lib_ser_outpoint L p) = Some p) \<and>
     (\<forall>bs p. length bs = 36 \<longrightarrow> lib_deser_outpoint L bs = Some p \<longrightarrow>
        wf_outpoint p \<and> lib_ser_outpoint L p = bs)"

text \<open>\<open>OP_RETURN\<close> scripts: the opcode \<open>0x6a\<close>, then for an 87-byte payload
  \<open>OP_PUSHDATA1\<close>, the length and the payload.\<close>

definition op_return_layout :: "btc_api \<Rightarrow> bool" where
  "op_return_layout L \<longleftrightarrow>
     (\<forall>p. length p = 87 \<longrightarrow> lib_new_op_return L p = 0x6a # 0x4c # 87 # p) \<and>
     (\<forall>s. lib_is_op_return L s \<longleftrightarrow> (\<exists>t. s = 0x6a # t))"

definition sha256_digest :: "btc_api \<Rightarrow> bool" where
  "sha256_digest L \<longleftrightarrow> (\<forall>m. length (lib_sha256 L m) = 32)"

text \<open>
  Consensus encodings can be read back from the front of a stream: no encoding is empty, and
  none is a prefix of another value's.  The values are those the types of the source hold.
\<close>

definition wf_script :: "script \<Rightarrow> bool" where
  "wf_script s \<longleftrightarrow> length s < 2 ^ 64"

definition wf_txout :: "txout \<Rightarrow> bool" where
  "wf_txout t \<longleftrightarrow> to_value t < 2 ^ 64 \<and> wf_script (to_script t)"

definition wf_txin :: "txin \<Rightarrow> bool" where
  "wf_txin i \<longleftrightarrow> wf_outpoint (ti_prev i) \<and> ti_sequence i < 2 ^ 32"

definition wf_tx :: "transaction \<Rightarrow> bool" where
  "wf_tx tx \<longleftrightarrow> - (2 ^ 31) \<le> tx_version tx \<and> tx_version tx < 2 ^ 31 \<and> tx_lock_time tx < 2 ^ 32 \<and>
     list_all wf_txin (tx_input tx) \<and> list_all wf_txout (tx_output tx)"

definition wire_codec :: "btc_api \<Rightarrow> bool" where
  "wire_codec L \<longleftrightarrow>
     prefix_code wf_outpoint (lib_ser_outpoint L) \<and>
     prefix_code (\<lambda>v. v < 2 ^ 64) (lib_ser_amount L) \<and>
     prefix_code (\<lambda>n. n < 2 ^ 32) (lib_ser_sequence L) \<and>
     prefix_code wf_script (lib_ser_script L) \<and>
     prefix_code wf_txout (lib_ser_txout L)"

section \<open>A concrete library for examples\<close>

text \<open>
  An instance for the evaluated examples: the outpoint and \<open>OP_RETURN\<close> encodings are the
  consensus ones; identifiers and digests are simple stand-ins of the right length, and
  scripts carry a fixed-width length.
\<close>

definition demo_hash :: "bytes \<Rightarrow> bytes" where
  "demo_hash m = le_bytes 4 (length m) @ replicate 28 (foldr (+) m 0)"

definition demo_txid :: "transaction \<Rightarrow> txid" where
  "demo_txid tx = le_bytes 4 (tx_lock_time tx) @ replicate 28 0"

definition demo_ser_script :: "script \<Rightarrow> bytes" where
  "demo_ser_script s = le_bytes 8 (length s) @ s"

definition demo_api :: btc_api where
  "demo_api = \<lparr>
     lib_txid = demo_txid,
     lib_deserialize = (\<lambda>bs. None),
     lib_is_coinbase = (\<lambda>tx. case tx_input tx of [i] \<Rightarrow> ti_prev i = OutPoint (replicate 32 0) (2 ^ 32 - 1) | _ \<Rightarrow> False),
     lib_is_null = (\<lambda>p. p = OutPoint (replicate 32 0) (2 ^ 32 - 1)),
     lib_push_int = (\<lambda>n. [1, of_nat n]),
     lib_ser_outpoint = (\<lambda>p. op_txid p @ le_bytes 4 (op_vout p)),
     lib_deser_outpoint = (\<lambda>bs. if length bs = 36
        then Some (OutPoint (take 32 bs) (of_le_bytes (drop 32 bs))) else None),
     lib_ser_txout = (\<lambda>t. le_bytes 8 (to_value t) @ demo_ser_script (to_script t)),
     lib_ser_script = demo_ser_script,
     lib_ser_amount = le_bytes 8,
     lib_ser_sequence = le_bytes 4,
     lib_sha256 = demo_hash,
     lib_new_op_return = (\<lambda>p. 0x6a # 0x4c # of_nat (length p) # p),
     lib_is_op_return = (\<lambda>s. case s of [] \<Rightarrow> False | b # _ \<Rightarrow> b = 0x6a),
     lib_minimal_non_dust = (\<lambda>s. if s \<noteq> [] \<and> hd s = 0x6a then 0 else 330),
     lib_tx_weight = (\<lambda>tx. 164 * length (tx_input tx) + 124 * length (tx_output tx) + 40),
     lib_txout_weight = (\<lambda>t. 36 + 4 * length (to_script t)),
     lib_to_p2wsh = (\<lambda>s. 0 # 32 # demo_hash s),
     lib_is_p2wsh = (\<lambda>s. length s = 34 \<and> take 2 s = [0, 32])\<rparr>"

lemma demo_outpoint_codec: "outpoint_codec demo_api"
proof -
  have "of_le_bytes (le_bytes 4 (op_vout p)) = op_vout p" if "wf_outpoint p" for p
    using that by (simp add: of_le_bytes_le_bytes wf_outpoint_def)
  moreover have "of_le_bytes (drop 32 bs) < 2 ^ 32" if "length bs = 36" for bs :: bytes
    using of_le_bytes_bound [of "drop 32 bs"] that by simp
  ultimately show ?thesis
    by (auto simp: outpoint_codec_def demo_api_def wf_outpoint_def le_bytes_of_le_bytes)
qed

lemma demo_op_return_layout: "op_return_layout demo_api"
  by (auto simp: op_return_layout_def demo_api_def split: list.splits)

lemma demo_sha256_digest: "sha256_digest demo_api"
  by (simp add: sha256_digest_def demo_api_def demo_hash_def)

lemma prefix_code_u32: "prefix_code (\<lambda>n. n < 2 ^ 32) (le_bytes 4)"
  using prefix_code_le_bytes [of 4] by simp

lemma prefix_code_u64: "prefix_code (\<lambda>n. n < 2 ^ 64) (le_bytes 8)"
  using prefix_code_le_bytes [of 8] by simp

lemma demo_ser_script_code: "prefix_code wf_script demo_ser_script"
  unfolding prefix_code_def
proof (intro conjI allI impI)
  show "demo_ser_script s \<noteq> []" for s
    by (simp add: demo_ser_script_def numeral_eval)
  fix s t r q
  assume wf: "wf_script s" "wf_script t" and eq: "demo_ser_script s @ r = demo_ser_script t @ q"
  have "length s = length t \<and> s @ r = t @ q"
    using prefix_codeD [OF prefix_code_u64, of "length s" "s @ r" "length t" "t @ q"] wf eq
    by (simp add: wf_script_def demo_ser_script_def)
  then show "s = t" and "r = q" by auto
qed

lemma demo_wire_codec: "wire_codec demo_api"
  unfolding wire_codec_def
proof (intro conjI)
  have "p = q" if "op_txid p @ le_bytes 4 (op_vout p) = op_txid q @ le_bytes 4 (op_vout q)"
    "wf_outpoint p" "wf_outpoint q" for p q
    using that prefix_code_inject [OF prefix_code_u32]
    by (simp add: wf_outpoint_def outpoint.expand)
  then show "prefix_code wf_outpoint (lib_ser_outpoint demo_api)"
    by (intro prefix_code_fixed [where n = 36]) (auto simp: demo_api_def wf_outpoint_def)
  show "prefix_code (\<lambda>v. v < 2 ^ 64) (lib_ser_amount demo_api)"
    "prefix_code (\<lambda>n. n < 2 ^ 32) (lib_ser_sequence demo_api)"
    using prefix_code_u64 prefix_code_u32 by (simp_all add: demo_api_def)
  show "prefix_code wf_script (lib_ser_script demo_api)"
    using demo_ser_script_code by (simp add: demo_api_def)
  have "t = u \<and> r = q" if eq: "le_bytes 8 (to_value t) @ demo_ser_script (to_script t) @ r =
      le_bytes 8 (to_value u) @ demo_ser_script (to_script u) @ q" and wf: "wf_txout t" "wf_txout u" for t u r q
    using prefix_codeD [OF prefix_code_u64 eq] prefix_codeD [OF demo_ser_script_code, of "to_script t" r "to_script u" q] wf
    by (cases t; cases u) (simp add: wf_txout_def)
  note inject = this
  show "prefix_code wf_txout (lib_ser_txout demo_api)"
    unfolding prefix_code_def
  proof (intro conjI allI impI)
    show "lib_ser_txout demo_api t \<noteq> []" for t by (simp add: demo_api_def numeral_eval)
    fix t u r q
    assume "wf_txout t" "wf_txout u" "lib_ser_txout demo_api t @ r = lib_ser_txout demo_api u @ q"
    then have "t = u \<and> r = q" by (intro inject) (simp_all add: demo_api_def)
    then show "t = u" and "r = q" by simp_all
  qed
qed

end
