(* ===== verification/Chain.thy ===== *)
theory Chain
  imports Prelude
begin

text \<open>
  \<open>coincube-core/src/chain.rs\<close>: the identity of the chain a Cube lives on, its three
  spellings (data directory, Connect network string, Bitcoin-library network) and their
  parsers.
\<close>

datatype chain_id =
    Bitcoin
  | Testnet
  | Testnet4
  | Signet
  | Regtest
  | BitcoinBlake2b
  | BitcoinBlake2bTestnet4

text \<open>The library's network type: what an address encoding is keyed on.\<close>

datatype network = Net_Bitcoin | Net_Testnet | Net_Testnet4 | Net_Signet | Net_Regtest

definition all_chains :: "chain_id list" where
  "all_chains = [Bitcoin, Testnet, Testnet4, Signet, Regtest, BitcoinBlake2b, BitcoinBlake2bTestnet4]"

fun bitcoin_network :: "chain_id \<Rightarrow> network" where
  "bitcoin_network Bitcoin = Net_Bitcoin"
| "bitcoin_network BitcoinBlake2b = Net_Bitcoin"
| "bitcoin_network Testnet = Net_Testnet"
| "bitcoin_network Testnet4 = Net_Testnet4"
| "bitcoin_network BitcoinBlake2bTestnet4 = Net_Testnet4"
| "bitcoin_network Signet = Net_Signet"
| "bitcoin_network Regtest = Net_Regtest"

fun api_str :: "chain_id \<Rightarrow> string" where
  "api_str Bitcoin = ''mainnet''"
| "api_str Testnet = ''testnet''"
| "api_str Testnet4 = ''testnet4''"
| "api_str Signet = ''signet''"
| "api_str Regtest = ''regtest''"
| "api_str BitcoinBlake2b = ''bitcoin-blake2b''"
| "api_str BitcoinBlake2bTestnet4 = ''bitcoin-blake2b-testnet4''"

definition from_api_str :: "string \<Rightarrow> chain_id option" where
  "from_api_str s = List.find (\<lambda>c. api_str c = s) all_chains"

fun dir_name :: "chain_id \<Rightarrow> string" where
  "dir_name Bitcoin = ''bitcoin''"
| "dir_name Testnet = ''testnet''"
| "dir_name Testnet4 = ''testnet4''"
| "dir_name Signet = ''signet''"
| "dir_name Regtest = ''regtest''"
| "dir_name BitcoinBlake2b = ''bitcoin-blake2b''"
| "dir_name BitcoinBlake2bTestnet4 = ''bitcoin-blake2b-testnet4''"

definition from_dir_name :: "string \<Rightarrow> chain_id option" where
  "from_dir_name s = List.find (\<lambda>c. dir_name c = s) all_chains"

fun is_blake2b :: "chain_id \<Rightarrow> bool" where
  "is_blake2b BitcoinBlake2b = True"
| "is_blake2b BitcoinBlake2bTestnet4 = True"
| "is_blake2b _ = False"

fun from_network :: "network \<Rightarrow> chain_id" where
  "from_network Net_Bitcoin = Bitcoin"
| "from_network Net_Testnet = Testnet"
| "from_network Net_Testnet4 = Testnet4"
| "from_network Net_Signet = Signet"
| "from_network Net_Regtest = Regtest"

datatype unknown_chain_id = UnknownChainId string

definition chain_from_str :: "string \<Rightarrow> (unknown_chain_id, chain_id) res" where
  "chain_from_str s = ok_or (UnknownChainId s) (from_dir_name s)"

text \<open>The (Bitcoin chain, fork chain) pairs the claim code accepts, written out in each of
  its callers as one \<open>matches!\<close>.\<close>

fun fork_pair :: "chain_id \<Rightarrow> chain_id \<Rightarrow> bool" where
  "fork_pair Bitcoin BitcoinBlake2b = True"
| "fork_pair Testnet4 BitcoinBlake2bTestnet4 = True"
| "fork_pair _ _ = False"

section \<open>Spellings and parsers\<close>

lemma all_chains_complete: "c \<in> set all_chains"
  by (cases c) (simp_all add: all_chains_def)

lemma inj_api_str: "inj api_str"
proof (rule injI)
  fix a b assume "api_str a = api_str b"
  then show "a = b" by (cases a; cases b) simp_all
qed

lemma inj_dir_name: "inj dir_name"
proof (rule injI)
  fix a b assume "dir_name a = dir_name b"
  then show "a = b" by (cases a; cases b) simp_all
qed

text \<open>
  The contract of a textual identity: a spelling that tells the chains apart and a parser
  that searches the spellings.  Its clients learn that parsing is exact.
\<close>

locale chain_spelling =
  fixes spell :: "chain_id \<Rightarrow> string" and parse :: "string \<Rightarrow> chain_id option"
  assumes spell_inj: "spell a = spell b \<Longrightarrow> a = b"
    and parse_find: "parse s = List.find (\<lambda>c. spell c = s) all_chains"
begin

lemma parse_iff: "parse s = Some c \<longleftrightarrow> spell c = s"
proof
  assume "parse s = Some c"
  then show "spell c = s" by (auto simp: parse_find find_Some_iff)
next
  assume s: "spell c = s"
  then have "parse s \<noteq> None"
    using all_chains_complete by (auto simp: parse_find find_None_iff)
  then obtain d where d: "parse s = Some d" by blast
  then have "spell d = s" by (auto simp: parse_find find_Some_iff)
  with s d show "parse s = Some c" by (auto dest: spell_inj)
qed

lemma parse_spell: "parse (spell c) = Some c"
  by (simp add: parse_iff)

end

interpretation api: chain_spelling api_str from_api_str
  by unfold_locales (auto simp: from_api_str_def dest: injD [OF inj_api_str])

interpretation dir: chain_spelling dir_name from_dir_name
  by unfold_locales (auto simp: from_dir_name_def dest: injD [OF inj_dir_name])

lemma chain_from_str_iff: "chain_from_str s = Inr c \<longleftrightarrow> dir_name c = s"
  by (simp add: chain_from_str_def res_rules dir.parse_iff)

text \<open>The projection to the library's network loses exactly the fork identity.\<close>

lemma from_network_projects: "bitcoin_network (from_network n) = n"
  by (cases n) simp_all

lemma from_network_not_blake2b: "\<not> is_blake2b (from_network n)"
  by (cases n) simp_all

lemma from_network_bitcoin_network:
  "from_network (bitcoin_network c) = c \<longleftrightarrow> \<not> is_blake2b c"
  by (cases c) simp_all

lemma fork_pair_iff:
  "fork_pair b f \<longleftrightarrow>
     (b = Bitcoin \<and> f = BitcoinBlake2b) \<or> (b = Testnet4 \<and> f = BitcoinBlake2bTestnet4)"
  by (cases b; cases f) simp_all

lemma fork_pair_same_encoding: "fork_pair b f \<Longrightarrow> bitcoin_network f = bitcoin_network b"
  by (auto simp: fork_pair_iff)

text \<open>
  C23.  Both textual identities of a chain are exact: a Connect string parses to a chain
  precisely when it is that chain's string, a directory segment precisely when it is that
  chain's directory (so \<open>FromStr\<close> rejects \<open>mainnet\<close>, and no string is filed under a
  default), and going through the library's network recovers the chain unless it is a
  Blake2b fork, which no \<open>Network\<close> converts to.
\<close>

theorem chain_identity_exact:
  "(from_api_str s = Some c \<longleftrightarrow> api_str c = s) \<and>
   (chain_from_str s = Inr c \<longleftrightarrow> dir_name c = s) \<and>
   chain_from_str ''mainnet'' = Inl (UnknownChainId ''mainnet'') \<and>
   (from_network (bitcoin_network c) = c \<longleftrightarrow> \<not> is_blake2b c) \<and>
   \<not> is_blake2b (from_network n)"
proof -
  have "chain_from_str ''mainnet'' = Inl (UnknownChainId ''mainnet'')"
    by (simp add: chain_from_str_def from_dir_name_def all_chains_def)
  then show ?thesis
    by (simp add: api.parse_iff chain_from_str_iff from_network_bitcoin_network
        from_network_not_blake2b)
qed

end
