(* ===== verification/Psbt.thy ===== *)
theory Psbt
  imports Bitcoin_Types Chain
begin

text \<open>
  Partially signed transactions (the fields of the Bitcoin library's \<open>Psbt\<close>, \<open>psbt::Input\<close> and
  \<open>psbt::Output\<close>; ordered maps are their association lists in key order) and
  \<open>coincube-core/src/descriptors/mod.rs\<close>: deriving a wallet script, filling in PSBT metadata
  from it, and the weight bounds the fee checks use.  Miniscript itself is not part of the
  repository: its functions are the fields of \<open>desc_api\<close>, keyed by the descriptor's text.
\<close>

section \<open>PSBT data\<close>

type_synonym pubkey = bytes
type_synonym key_source = "bytes \<times> child_number list"  \<comment> \<open>fingerprint and path\<close>

datatype ecdsa_sighash = SigAll | SigNone | SigSingle | SigAllAcp | SigNoneAcp | SigSingleAcp

record full_pubkey =
  fp_inner :: pubkey
  fp_compressed :: bool

record ecdsa_sig =
  sg_der :: bytes
  sg_type :: ecdsa_sighash

record psbt_in =
  pi_non_witness_utxo :: "transaction option"
  pi_witness_utxo :: "txout option"
  pi_partial_sigs :: "(full_pubkey \<times> ecdsa_sig) list"
  pi_sighash_type :: "nat option"
  pi_redeem_script :: "script option"
  pi_witness_script :: "script option"
  pi_bip32_derivation :: "(pubkey \<times> key_source) list"
  pi_final_script_sig :: "script option"
  pi_final_script_witness :: "bytes list option"
  pi_preimages :: "(bytes \<times> bytes) list"
  pi_tap_key_sig :: "bytes option"
  pi_tap_script_sigs :: "(bytes \<times> bytes) list"
  pi_tap_scripts :: "(bytes \<times> bytes) list"
  pi_tap_key_origins :: "(pubkey \<times> key_source) list"
  pi_tap_internal_key :: "bytes option"
  pi_tap_merkle_root :: "bytes option"
  pi_proprietary :: "(bytes \<times> bytes) list"
  pi_unknown :: "(bytes \<times> bytes) list"

record psbt_out =
  po_redeem_script :: "script option"
  po_witness_script :: "script option"
  po_bip32_derivation :: "(pubkey \<times> key_source) list"
  po_tap_internal_key :: "bytes option"
  po_tap_tree :: "bytes option"
  po_tap_key_origins :: "(pubkey \<times> key_source) list"
  po_proprietary :: "(bytes \<times> bytes) list"
  po_unknown :: "(bytes \<times> bytes) list"

record psbt =
  ps_unsigned_tx :: transaction
  ps_version :: nat
  ps_xpub :: "(bytes \<times> key_source) list"
  ps_proprietary :: "(bytes \<times> bytes) list"
  ps_unknown :: "(bytes \<times> bytes) list"
  ps_inputs :: "psbt_in list"
  ps_outputs :: "psbt_out list"

definition psbt_in_default :: psbt_in where
  "psbt_in_default = \<lparr>pi_non_witness_utxo = None, pi_witness_utxo = None, pi_partial_sigs = [],
     pi_sighash_type = None, pi_redeem_script = None, pi_witness_script = None, pi_bip32_derivation = [],
     pi_final_script_sig = None, pi_final_script_witness = None, pi_preimages = [], pi_tap_key_sig = None,
     pi_tap_script_sigs = [], pi_tap_scripts = [], pi_tap_key_origins = [], pi_tap_internal_key = None,
     pi_tap_merkle_root = None, pi_proprietary = [], pi_unknown = []\<rparr>"

definition psbt_out_default :: psbt_out where
  "psbt_out_default = \<lparr>po_redeem_script = None, po_witness_script = None, po_bip32_derivation = [],
     po_tap_internal_key = None, po_tap_tree = None, po_tap_key_origins = [], po_proprietary = [],
     po_unknown = []\<rparr>"

section \<open>Descriptors\<close>

datatype descriptor = Descriptor (descriptor_text: string)

datatype derived_single_desc =
    WshDesc script script "(pubkey \<times> key_source) list"  \<comment> \<open>scriptPubKey, witness script, key origins\<close>
  | TrDesc script string                                   \<comment> \<open>scriptPubKey, the derived descriptor's text\<close>

datatype placeholder = TapScript nat | TapControlBlock nat | OtherPlaceholder  \<comment> \<open>with serialized length\<close>

record plan =
  pl_witness_size :: nat
  pl_template :: "placeholder list"

record desc_api =
  lib_derive :: "descriptor \<Rightarrow> bool \<Rightarrow> nat \<Rightarrow> derived_single_desc"  \<comment> \<open>change branch?, index: \<open>translate_pk\<close>\<close>
  lib_is_tr :: "descriptor \<Rightarrow> bool"
  lib_explicit_script :: "descriptor \<Rightarrow> script option"  \<comment> \<open>of the receive branch at index 0\<close>
  lib_primary_plan :: "descriptor \<Rightarrow> plan"              \<comment> \<open>\<open>plan\<close> with the primary path's keys as assets\<close>
  lib_max_weight_to_satisfy :: "descriptor \<Rightarrow> nat"
  lib_update_in :: "string \<Rightarrow> psbt_in \<Rightarrow> psbt_in option"   \<comment> \<open>\<open>update_with_descriptor_unchecked\<close>\<close>
  lib_update_out :: "string \<Rightarrow> psbt_out \<Rightarrow> psbt_out option"

datatype address = Address network script

definition address_script :: "address \<Rightarrow> script" where
  "address_script a = (case a of Address _ s \<Rightarrow> s)"

definition varint_len :: "nat \<Rightarrow> nat" where
  "varint_len n = (if n < 0xFD then 1 else if n \<le> 0xFFFF then 3 else if n \<le> 0xFFFFFFFF then 5 else 9)"

definition is_taproot :: "desc_api \<Rightarrow> descriptor \<Rightarrow> bool" where
  "is_taproot D d = lib_is_tr D d"

definition derive :: "desc_api \<Rightarrow> descriptor \<Rightarrow> bool \<Rightarrow> child_number \<Rightarrow> derived_single_desc option" where
  \<comment> \<open>\<open>change_descriptor()\<close> or \<open>receive_descriptor()\<close>, then \<open>derive\<close>; \<open>None\<close>: the assertion
    that the index is not hardened fails\<close>
  "derive D d is_change index = (case index of Hardened _ \<Rightarrow> None | Normal i \<Rightarrow> Some (lib_derive D d is_change i))"

definition script_pubkey :: "derived_single_desc \<Rightarrow> script" where
  "script_pubkey dd = (case dd of WshDesc s _ _ \<Rightarrow> s | TrDesc s _ \<Rightarrow> s)"

definition desc_address :: "derived_single_desc \<Rightarrow> network \<Rightarrow> address" where
  "desc_address dd net = Address net (script_pubkey dd)"

definition update_psbt_in :: "desc_api \<Rightarrow> derived_single_desc \<Rightarrow> psbt_in \<Rightarrow> psbt_in" where
  "update_psbt_in D dd i =
     (case dd of
        WshDesc _ ws origins \<Rightarrow> i\<lparr>pi_bip32_derivation := origins, pi_witness_script := Some ws\<rparr>
      | TrDesc _ text \<Rightarrow> (case lib_update_in D text i of None \<Rightarrow> i | Some i' \<Rightarrow> i'))"

definition update_change_psbt_out :: "desc_api \<Rightarrow> derived_single_desc \<Rightarrow> psbt_out \<Rightarrow> psbt_out" where
  "update_change_psbt_out D dd out =
     (case dd of
        WshDesc _ _ origins \<Rightarrow> out\<lparr>po_bip32_derivation := origins\<rparr>
      | TrDesc _ text \<Rightarrow> (case lib_update_out D text out of None \<Rightarrow> out | Some out' \<Rightarrow> out'))"

definition max_sat_weight :: "desc_api \<Rightarrow> descriptor \<Rightarrow> bool \<Rightarrow> nat" where
  "max_sat_weight D d use_primary_path =
     (if use_primary_path then
        (let plan = lib_primary_plan D d in
         pl_witness_size plan +
         (case lib_explicit_script D d of
            Some s \<Rightarrow> varint_len (length s) + length s
          | None \<Rightarrow>
              sum_list (map (\<lambda>e. case e of TapScript n \<Rightarrow> varint_len n | TapControlBlock n \<Rightarrow> varint_len n
                                 | OtherPlaceholder \<Rightarrow> 0) (pl_template plan))))
      else lib_max_weight_to_satisfy D d + 1)"

definition unsigned_tx_max_weight ::
  "btc_api \<Rightarrow> desc_api \<Rightarrow> descriptor \<Rightarrow> transaction \<Rightarrow> bool \<Rightarrow> nat option" where
  \<comment> \<open>\<open>None\<close>: an \<open>unwrap\<close> of a checked operation fails\<close>
  "unsigned_tx_max_weight L D d tx use_primary_path =
     (let num_inputs = length (tx_input tx);
          sat = max_sat_weight D d use_primary_path * num_inputs;
          marker = (if num_inputs > 0 \<and> list_all (\<lambda>i. ti_witness i = []) (tx_input tx) then 2 else 0)
      in if sat \<ge> 2 ^ 64 then None
         else Option.bind (checked_add64 (lib_tx_weight L tx) sat) (\<lambda>w. checked_add64 w marker))"

definition unsigned_tx_max_vbytes ::
  "btc_api \<Rightarrow> desc_api \<Rightarrow> descriptor \<Rightarrow> transaction \<Rightarrow> bool \<Rightarrow> nat option" where
  "unsigned_tx_max_vbytes L D d tx use_primary_path =
     Option.bind (unsigned_tx_max_weight L D d tx use_primary_path) (\<lambda>w.
     Option.bind (checked_add64 w 3) (\<lambda>w. Some (w div 4)))"

section \<open>Facts\<close>

lemma address_script_desc [simp]: "address_script (desc_address dd net) = script_pubkey dd"
  by (simp add: address_script_def desc_address_def)

lemma derive_Some [res_rules]: "derive D d c i = Some dd \<longleftrightarrow> (\<exists>n. i = Normal n \<and> dd = lib_derive D d c n)"
  by (auto simp: derive_def split: child_number.splits)

lemma derive_total: "\<not> is_hardened i \<Longrightarrow> \<exists>dd. derive D d c i = Some dd"
  by (cases i) (simp_all add: derive_def)

text \<open>
  The virtual size rounds the weight up: it is positive and covers the satisfied weight.
\<close>

lemma unsigned_tx_max_vbytes_bound:
  assumes "unsigned_tx_max_vbytes L D d tx primary = Some v"
  shows "lib_tx_weight L tx + max_sat_weight D d primary * length (tx_input tx) \<le> 4 * v"
  using assms
  by (auto simp: unsigned_tx_max_vbytes_def unsigned_tx_max_weight_def Let_def res_rules bind_eq_Some_conv
      split: if_splits)

end
