(* ===== verification/Coin_Selection.thy ===== *)
theory Coin_Selection
  imports Psbt
begin

text \<open>
  \<open>select_coins_for_spend\<close> of \<open>coincube-core/src/spend.rs\<close>.  The branch-and-bound coin
  selector is a library: its state is the type variable of \<open>select_api\<close> and its functions are
  that record's fields; \<open>selector_laws\<close> states the documented behaviour the wallet relies
  on.  Fee rates are whole satoshis per virtual byte, which is what the one caller passes (a
  \<open>u16\<close> converted to \<open>f32\<close>, exact).  Scores are the library's floats, kept as their 32 bits.
\<close>

section \<open>Data\<close>

definition DUST_OUTPUT_SATS :: nat where "DUST_OUTPUT_SATS = 500"
definition LONG_TERM_FEERATE_VB :: nat where "LONG_TERM_FEERATE_VB = 5"
definition TXIN_BASE_WEIGHT :: nat where "TXIN_BASE_WEIGHT = (32 + 4 + 4 + 1) * 4"
definition WITNESS_SCALE_FACTOR :: nat where "WITNESS_SCALE_FACTOR = 4"

record ancestor_info =
  an_vsize :: nat
  an_fee :: nat

record candidate_coin =
  cc_outpoint :: outpoint
  cc_amount :: nat
  cc_deriv_index :: child_number
  cc_is_change :: bool
  cc_must_select :: bool
  cc_sequence :: "nat option"
  cc_ancestor_info :: "ancestor_info option"

record coin_selection_res =
  sr_selected :: "candidate_coin list"
  sr_change_amount :: nat
  sr_max_change_amount :: nat
  sr_fee_for_ancestors :: nat

datatype select_error =
    InsufficientFunds nat
  | SelectPanicked   \<comment> \<open>a failed assertion or \<open>expect\<close>\<close>
  | SelectDiverged   \<comment> \<open>the fallback loop did not end; never happens, by \<open>select_more_ends\<close>\<close>

text \<open>The library's types.\<close>

record sel_candidate =
  sc_input_count :: nat
  sc_value :: nat
  sc_weight :: nat
  sc_is_segwit :: bool

record drain_weights =
  dw_output_weight :: nat
  dw_spend_weight :: nat
  dw_n_outputs :: nat

record drain =
  dr_weights :: drain_weights
  dr_value :: nat

record change_policy =
  cp_weights :: drain_weights
  cp_min_value :: nat
  cp_feerate :: nat
  cp_long_term :: nat

record sel_target =
  tg_rate :: nat
  tg_replace :: "nat option"
  tg_value_sum :: nat
  tg_weight_sum :: nat
  tg_n_outputs :: nat

type_synonym score = "32 word"

record 's metric =
  mt_score :: "'s \<Rightarrow> score option"
  mt_bound :: "'s \<Rightarrow> score option"
  mt_ordering :: bool

record 's select_api =
  sel_new :: "sel_candidate list \<Rightarrow> 's"
  sel_candidates :: "'s \<Rightarrow> sel_candidate list"
  sel_select :: "'s \<Rightarrow> nat \<Rightarrow> 's"
  sel_selected :: "'s \<Rightarrow> nat list"                       \<comment> \<open>\<open>selected_indices\<close>, increasing\<close>
  sel_drain :: "'s \<Rightarrow> sel_target \<Rightarrow> change_policy \<Rightarrow> drain"
  sel_is_some :: "drain \<Rightarrow> bool"
  sel_target_met :: "'s \<Rightarrow> sel_target \<Rightarrow> drain \<Rightarrow> bool"
  sel_excess :: "'s \<Rightarrow> sel_target \<Rightarrow> drain \<Rightarrow> int"
  sel_run_bnb :: "'s \<Rightarrow> 's metric \<Rightarrow> nat \<Rightarrow> 's option"
  sel_sort_pwu :: "'s \<Rightarrow> 's"
  sel_select_next :: "'s \<Rightarrow> 's option"
  sel_lowest_fee :: "sel_target \<Rightarrow> nat \<Rightarrow> change_policy \<Rightarrow> 's metric"
  sel_fee_of_weight :: "nat \<Rightarrow> nat \<Rightarrow> nat"  \<comment> \<open>\<open>(weight as f32 * feerate.spwu()).ceil()\<close>\<close>

section \<open>Operations\<close>

text \<open>The metric of the source: the library's lowest-fee metric, refusing changeless solutions.\<close>

definition lowest_fee_change_condition ::
  "'s select_api \<Rightarrow> sel_target \<Rightarrow> nat \<Rightarrow> change_policy \<Rightarrow> bool \<Rightarrow> 's metric" where
  "lowest_fee_change_condition S target long_term pol must_have_change =
     (let lf = sel_lowest_fee S target long_term pol in
      \<lparr>mt_score = (\<lambda>cs. let d = sel_drain S cs target pol in
                     if \<not> sel_is_some S d \<and> must_have_change then None else mt_score lf cs),
       mt_bound = mt_bound lf,
       mt_ordering = mt_ordering lf\<rparr>)"

definition extra_weight :: "nat \<Rightarrow> candidate_coin \<Rightarrow> nat option" where
  \<comment> \<open>\<open>None\<close>: the division by a zero fee rate or the multiplication panics\<close>
  "extra_weight feerate_vb cand =
     (case cc_ancestor_info cand of
        None \<Rightarrow> Some 0
      | Some info \<Rightarrow>
          Option.bind (checked_div (an_fee info) feerate_vb) (\<lambda>at_feerate.
          let extra = (an_vsize info - at_feerate) * WITNESS_SCALE_FACTOR
          in if extra < 2 ^ 64 then Some extra else None))"

fun build_candidates ::
  "nat \<Rightarrow> nat \<Rightarrow> bool \<Rightarrow> (outpoint \<times> nat) list \<Rightarrow> candidate_coin list \<Rightarrow>
   (sel_candidate list \<times> (outpoint \<times> nat) list) option" where
  "build_candidates feerate_vb max_input_weight is_segwit added [] = Some ([], added)"
| "build_candidates feerate_vb max_input_weight is_segwit added (cand # cands) =
     Option.bind (extra_weight feerate_vb cand) (\<lambda>extra.
     if map_of added (cc_outpoint cand) \<noteq> None then None
     else
       Option.bind (checked_add64 max_input_weight extra) (\<lambda>weight.
       Option.bind (build_candidates feerate_vb max_input_weight is_segwit
                      ((cc_outpoint cand, extra) # added) cands) (\<lambda>(rest, added).
       Some (\<lparr>sc_input_count = 1, sc_value = cc_amount cand, sc_weight = weight,
              sc_is_segwit = is_segwit\<rparr> # rest, added))))"

fun preselect :: "'s select_api \<Rightarrow> 's \<Rightarrow> nat \<Rightarrow> candidate_coin list \<Rightarrow> 's" where
  "preselect S s i [] = s"
| "preselect S s i (cand # cands) =
     preselect S (if cc_must_select cand then sel_select S s i else s) (i + 1) cands"

fun select_more ::
  "'s select_api \<Rightarrow> sel_target \<Rightarrow> change_policy \<Rightarrow> drain_weights \<Rightarrow> bool \<Rightarrow> nat \<Rightarrow> 's \<Rightarrow> (select_error, 's) res" where
  "select_more S target pol dws must_have_change 0 s = Inl SelectDiverged"
| "select_more S target pol dws must_have_change (Suc fuel) s =
     (let d = sel_drain S s target pol in
      if sel_target_met S s target d \<and> (sel_is_some S d \<or> \<not> must_have_change) then Inr s
      else case sel_select_next S s of
             Some s' \<Rightarrow> select_more S target pol dws must_have_change fuel s'
           | None \<Rightarrow>
               let d = (if must_have_change then \<lparr>dr_weights = dws, dr_value = DUST_OUTPUT_SATS\<rparr> else d)
               in Inl (InsufficientFunds (nat \<bar>sel_excess S s target d\<bar>)))"

definition bnb_rounds :: "nat \<Rightarrow> nat" where
  \<comment> \<open>without debug assertions\<close>
  "bnb_rounds n = (if n \<ge> 500 then 1000 else if n \<ge> 100 then 10000 else 100000)"

definition select_target :: "btc_api \<Rightarrow> transaction \<Rightarrow> nat \<Rightarrow> nat option \<Rightarrow> nat \<Rightarrow> sel_target" where
  "select_target L base_tx feerate_vb replaced_fee out_weight =
     \<lparr>tg_rate = feerate_vb, tg_replace = replaced_fee,
      tg_value_sum = sum_list (map to_value (tx_output base_tx)) mod 2 ^ 64,
      tg_weight_sum = out_weight, tg_n_outputs = length (tx_output base_tx)\<rparr>"

definition select_policy :: "nat \<Rightarrow> drain_weights \<Rightarrow> change_policy" where
  "select_policy feerate_vb dws =
     \<lparr>cp_weights = dws, cp_min_value = DUST_OUTPUT_SATS - 1, cp_feerate = feerate_vb,
      cp_long_term = LONG_TERM_FEERATE_VB\<rparr>"

definition run_selection ::
  "'s select_api \<Rightarrow> sel_target \<Rightarrow> change_policy \<Rightarrow> drain_weights \<Rightarrow> bool \<Rightarrow> nat \<Rightarrow> 's \<Rightarrow> (select_error, 's) res" where
  "run_selection S target pol dws must_have_change n s =
     (case sel_run_bnb S s (lowest_fee_change_condition S target LONG_TERM_FEERATE_VB pol must_have_change)
             (bnb_rounds n) of
        Some s' \<Rightarrow> Inr s'
      | None \<Rightarrow> select_more S target pol dws must_have_change (n + 1) (sel_sort_pwu S s))"

definition selection_result ::
  "'s select_api \<Rightarrow> sel_target \<Rightarrow> change_policy \<Rightarrow> drain_weights \<Rightarrow> nat \<Rightarrow> (outpoint \<times> nat) list \<Rightarrow>
   candidate_coin list \<Rightarrow> 's \<Rightarrow> (select_error, coin_selection_res) res" where
  "selection_result S target pol dws feerate_vb added coins s =
     (let change_amount = dr_value (sel_drain S s target pol);
          max_change = nat (max 0 (sel_excess S s target \<lparr>dr_weights = dws, dr_value = 0\<rparr>))
      in
      bind_res (collect_res (\<lambda>i. ok_or SelectPanicked (nth_opt coins i)) (sel_selected S s)) (\<lambda>selected.
      bind_res (collect_res (\<lambda>c. ok_or SelectPanicked (map_of added (cc_outpoint c))) selected) (\<lambda>weights.
      bind_res (ok_or SelectPanicked (try_sum64 0 weights)) (\<lambda>total_added_weight.
      Inr \<lparr>sr_selected = selected, sr_change_amount = change_amount, sr_max_change_amount = max_change,
           sr_fee_for_ancestors = sel_fee_of_weight S total_added_weight feerate_vb\<rparr>))))"

definition select_coins_for_spend ::
  "'s select_api \<Rightarrow> btc_api \<Rightarrow> candidate_coin list \<Rightarrow> transaction \<Rightarrow> txout \<Rightarrow> nat \<Rightarrow> nat option \<Rightarrow> nat \<Rightarrow>
   bool \<Rightarrow> bool \<Rightarrow> (select_error, coin_selection_res) res" where
  "select_coins_for_spend S L coins base_tx change_txo feerate_vb replaced_fee sat_weight is_segwit must_have_change =
     bind_res (ok_or SelectPanicked (try_sum64 0 (map (lib_txout_weight L) (tx_output base_tx)))) (\<lambda>out_weight.
     let max_input_weight = TXIN_BASE_WEIGHT + sat_weight;
         dws = \<lparr>dw_output_weight = lib_txout_weight L change_txo, dw_spend_weight = max_input_weight, dw_n_outputs = 1\<rparr>;
         target = select_target L base_tx feerate_vb replaced_fee out_weight;
         pol = select_policy feerate_vb dws
     in
     bind_res (ok_or SelectPanicked (build_candidates feerate_vb max_input_weight is_segwit [] coins))
       (\<lambda>(candidates, added).
     bind_res (run_selection S target pol dws must_have_change (length coins)
                 (preselect S (sel_new S candidates) 0 coins)) (\<lambda>s.
     selection_result S target pol dws feerate_vb added coins s)))"

section \<open>The library's contract\<close>

definition sel_ok :: "'s select_api \<Rightarrow> sel_candidate list \<Rightarrow> 's \<Rightarrow> bool" where
  "sel_ok S cs s \<longleftrightarrow> sel_candidates S s = cs \<and> sorted (sel_selected S s) \<and> distinct (sel_selected S s) \<and> set (sel_selected S s) \<subseteq> {..<length cs}"

definition law_new :: "'s select_api \<Rightarrow> bool" where
  "law_new S \<longleftrightarrow> (\<forall>cs. sel_ok S cs (sel_new S cs) \<and> sel_selected S (sel_new S cs) = [])"

definition law_select :: "'s select_api \<Rightarrow> bool" where
  "law_select S \<longleftrightarrow> (\<forall>cs s i. sel_ok S cs s \<longrightarrow> i < length cs \<longrightarrow> sel_ok S cs (sel_select S s i) \<and>
     set (sel_selected S (sel_select S s i)) = insert i (set (sel_selected S s)))"

definition law_bnb :: "'s select_api \<Rightarrow> bool" where
  \<comment> \<open>a solution keeps what was selected and has a score\<close>
  "law_bnb S \<longleftrightarrow> (\<forall>cs s m r s'. sel_ok S cs s \<longrightarrow> sel_run_bnb S s m r = Some s' \<longrightarrow> sel_ok S cs s' \<and>
     set (sel_selected S s) \<subseteq> set (sel_selected S s') \<and> mt_score m s' \<noteq> None)"

definition law_sort :: "'s select_api \<Rightarrow> bool" where
  "law_sort S \<longleftrightarrow> (\<forall>cs s. sel_ok S cs s \<longrightarrow> sel_ok S cs (sel_sort_pwu S s) \<and>
     set (sel_selected S (sel_sort_pwu S s)) = set (sel_selected S s))"

definition law_next :: "'s select_api \<Rightarrow> bool" where
  "law_next S \<longleftrightarrow> (\<forall>cs s s'. sel_ok S cs s \<longrightarrow> sel_select_next S s = Some s' \<longrightarrow> sel_ok S cs s' \<and>
     (\<exists>i. i \<notin> set (sel_selected S s) \<and> set (sel_selected S s') = insert i (set (sel_selected S s))))"

definition law_score :: "'s select_api \<Rightarrow> bool" where
  \<comment> \<open>the lowest-fee metric scores only selections that meet the target\<close>
  "law_score S \<longleftrightarrow> (\<forall>cs s t l pol. sel_ok S cs s \<longrightarrow> mt_score (sel_lowest_fee S t l pol) s \<noteq> None \<longrightarrow>
     sel_target_met S s t (sel_drain S s t pol))"

definition law_drain :: "'s select_api \<Rightarrow> bool" where
  \<comment> \<open>the policy's minimum is exclusive\<close>
  "law_drain S \<longleftrightarrow> (\<forall>s t pol. if sel_is_some S (sel_drain S s t pol)
     then cp_min_value pol < dr_value (sel_drain S s t pol) else dr_value (sel_drain S s t pol) = 0)"

definition selector_laws :: "'s select_api \<Rightarrow> bool" where
  "selector_laws S \<longleftrightarrow> law_new S \<and> law_select S \<and> law_bnb S \<and> law_sort S \<and> law_next S \<and> law_score S \<and> law_drain S"

lemma selector_lawsD:
  assumes "selector_laws S"
  shows "law_new S" "law_select S" "law_bnb S" "law_sort S" "law_next S" "law_score S" "law_drain S"
  using assms by (simp_all add: selector_laws_def)

lemma selector_laws_new:
  assumes "selector_laws S"
  shows "sel_ok S cs (sel_new S cs) \<and> sel_selected S (sel_new S cs) = []"
  using selector_lawsD(1) [OF assms] unfolding law_new_def by blast

lemma selector_laws_select:
  assumes "selector_laws S" and "sel_ok S cs s" and "i < length cs"
  shows "sel_ok S cs (sel_select S s i) \<and> set (sel_selected S (sel_select S s i)) = insert i (set (sel_selected S s))"
  using selector_lawsD(2) [OF assms(1)] assms(2,3) unfolding law_select_def by blast

lemma selector_laws_bnb:
  assumes "selector_laws S" and "sel_ok S cs s" and "sel_run_bnb S s m r = Some s'"
  shows "sel_ok S cs s' \<and> set (sel_selected S s) \<subseteq> set (sel_selected S s') \<and> mt_score m s' \<noteq> None"
  using selector_lawsD(3) [OF assms(1)] assms(2,3) unfolding law_bnb_def by blast

lemma selector_laws_sort:
  assumes "selector_laws S" and "sel_ok S cs s"
  shows "sel_ok S cs (sel_sort_pwu S s) \<and> set (sel_selected S (sel_sort_pwu S s)) = set (sel_selected S s)"
  using selector_lawsD(4) [OF assms(1)] assms(2) unfolding law_sort_def by blast

lemma selector_laws_next:
  assumes "selector_laws S" and "sel_ok S cs s" and "sel_select_next S s = Some s'"
  shows "sel_ok S cs s' \<and> (\<exists>i. i \<notin> set (sel_selected S s) \<and> set (sel_selected S s') = insert i (set (sel_selected S s)))"
  using selector_lawsD(5) [OF assms(1)] assms(2,3) unfolding law_next_def by blast

lemma selector_laws_score:
  assumes "selector_laws S" and "sel_ok S cs s" and "mt_score (sel_lowest_fee S t l pol) s \<noteq> None"
  shows "sel_target_met S s t (sel_drain S s t pol)"
  using selector_lawsD(6) [OF assms(1)] assms(2,3) unfolding law_score_def by blast

lemma selector_laws_drain:
  assumes "selector_laws S"
  shows "if sel_is_some S (sel_drain S s t pol) then cp_min_value pol < dr_value (sel_drain S s t pol)
     else dr_value (sel_drain S s t pol) = 0"
  using selector_lawsD(7) [OF assms] unfolding law_drain_def by blast

section \<open>What a selection is\<close>

lemma preselect_ok:
  assumes laws: "selector_laws S"
  shows "sel_ok S cs s \<Longrightarrow> i + length coins \<le> length cs \<Longrightarrow>
    sel_ok S cs (preselect S s i coins) \<and>
    set (sel_selected S (preselect S s i coins)) =
      set (sel_selected S s) \<union> {i + k | k. k < length coins \<and> cc_must_select (coins ! k)}"
proof (induction coins arbitrary: s i)
  case (Cons c coins)
  let ?s = "if cc_must_select c then sel_select S s i else s"
  have ok: "sel_ok S cs ?s" "set (sel_selected S ?s) = (if cc_must_select c then {i} else {}) \<union> set (sel_selected S s)"
    using selector_laws_select [OF laws Cons.prems(1), of i] Cons.prems by auto
  have split: "{i + k | k. k < length (c # coins) \<and> cc_must_select ((c # coins) ! k)} =
      (if cc_must_select c then {i} else {}) \<union> {i + 1 + k | k. k < length coins \<and> cc_must_select (coins ! k)}"
  proof (rule set_eqI, rule iffI)
    fix x assume "x \<in> {i + k | k. k < length (c # coins) \<and> cc_must_select ((c # coins) ! k)}"
    then obtain k where "x = i + k" "k < Suc (length coins)" "cc_must_select ((c # coins) ! k)" by auto
    then show "x \<in> (if cc_must_select c then {i} else {}) \<union>
        {i + 1 + k | k. k < length coins \<and> cc_must_select (coins ! k)}"
      by (cases k) auto
  next
    fix x assume "x \<in> (if cc_must_select c then {i} else {}) \<union>
        {i + 1 + k | k. k < length coins \<and> cc_must_select (coins ! k)}"
    then consider "cc_must_select c" "x = i + 0" | k where "x = i + Suc k" "k < length coins" "cc_must_select (coins ! k)"
      by (auto split: if_splits)
    then show "x \<in> {i + k | k. k < length (c # coins) \<and> cc_must_select ((c # coins) ! k)}"
      by cases (auto intro: exI [of _ 0] exI [of _ "Suc k" for k])
  qed
  have "sel_ok S cs (preselect S ?s (i + 1) coins) \<and> set (sel_selected S (preselect S ?s (i + 1) coins)) =
      set (sel_selected S ?s) \<union> {i + 1 + k | k. k < length coins \<and> cc_must_select (coins ! k)}"
    using Cons.prems(2) by (intro Cons.IH ok(1)) simp
  then show ?case unfolding split using ok(2) by auto
qed simp

text \<open>
  The fallback loop ends: each round selects one more candidate, so one more round than there
  are candidates is enough.
\<close>

lemma sel_ok_size: "sel_ok S cs s \<Longrightarrow> card (set (sel_selected S s)) \<le> length cs"
  unfolding sel_ok_def using card_mono [of "{..<length cs}" "set (sel_selected S s)"] by simp

lemma select_more_ends:
  assumes laws: "selector_laws S"
  shows "sel_ok S cs s \<Longrightarrow> length cs < n + card (set (sel_selected S s)) \<Longrightarrow>
    select_more S t pol dws must n s \<noteq> Inl SelectDiverged"
proof (induction n arbitrary: s)
  case 0
  then show ?case using sel_ok_size [OF 0(1)] by simp
next
  case (Suc n)
  show ?case
  proof (cases "sel_select_next S s")
    case (Some s')
    note nx = selector_laws_next [OF laws Suc.prems(1) Some]
    then have "card (set (sel_selected S s')) = Suc (card (set (sel_selected S s)))" by auto
    then have "select_more S t pol dws must n s' \<noteq> Inl SelectDiverged" using nx Suc.prems(2) by (intro Suc.IH) auto
    then show ?thesis using Some by (simp add: Let_def)
  qed (simp add: Let_def)
qed

lemma select_more_ok:
  assumes laws: "selector_laws S"
  shows "sel_ok S cs s \<Longrightarrow> select_more S t pol dws must n s = Inr s' \<Longrightarrow>
    sel_ok S cs s' \<and> set (sel_selected S s) \<subseteq> set (sel_selected S s') \<and>
    sel_target_met S s' t (sel_drain S s' t pol) \<and> (must \<longrightarrow> sel_is_some S (sel_drain S s' t pol))"
proof (induction n arbitrary: s)
  case (Suc n)
  show ?case
  proof (cases "sel_target_met S s t (sel_drain S s t pol) \<and> (sel_is_some S (sel_drain S s t pol) \<or> \<not> must)")
    case True
    then show ?thesis using Suc.prems by (auto simp: Let_def)
  next
    case False
    then obtain s1 where s1: "sel_select_next S s = Some s1" "select_more S t pol dws must n s1 = Inr s'"
      using Suc.prems(2) by (auto simp: Let_def split: option.splits if_splits)
    show ?thesis
      using selector_laws_next [OF laws Suc.prems(1) s1(1)] Suc.IH [OF _ s1(2)] by auto
  qed
qed simp

lemma run_selection_ok:
  assumes laws: "selector_laws S" and s: "sel_ok S cs s" and n: "length cs = n"
  shows "run_selection S t pol dws must n s \<noteq> Inl SelectDiverged"
    and "run_selection S t pol dws must n s = Inr s' \<Longrightarrow>
      sel_ok S cs s' \<and> set (sel_selected S s) \<subseteq> set (sel_selected S s') \<and>
      sel_target_met S s' t (sel_drain S s' t pol) \<and> (must \<longrightarrow> sel_is_some S (sel_drain S s' t pol))"
proof -
  note sorted = selector_laws_sort [OF laws s]
  have "select_more S t pol dws must (n + 1) (sel_sort_pwu S s) \<noteq> Inl SelectDiverged"
    using sorted n by (intro select_more_ends [OF laws]) auto
  then show "run_selection S t pol dws must n s \<noteq> Inl SelectDiverged"
    by (simp add: run_selection_def split: option.splits)
  assume run: "run_selection S t pol dws must n s = Inr s'"
  let ?m = "lowest_fee_change_condition S t LONG_TERM_FEERATE_VB pol must"
  show "sel_ok S cs s' \<and> set (sel_selected S s) \<subseteq> set (sel_selected S s') \<and>
      sel_target_met S s' t (sel_drain S s' t pol) \<and> (must \<longrightarrow> sel_is_some S (sel_drain S s' t pol))"
  proof (cases "sel_run_bnb S s ?m (bnb_rounds n)")
    case None
    then have "select_more S t pol dws must (n + 1) (sel_sort_pwu S s) = Inr s'"
      using run by (simp add: run_selection_def)
    then show ?thesis using select_more_ok [OF laws] sorted by blast
  next
    case (Some s1)
    then have "s1 = s'" using run by (simp add: run_selection_def)
    note bnb = selector_laws_bnb [OF laws s Some [unfolded this]]
    have "must \<longrightarrow> sel_is_some S (sel_drain S s' t pol)"
      and "mt_score (sel_lowest_fee S t LONG_TERM_FEERATE_VB pol) s' \<noteq> None"
      using bnb by (auto simp: lowest_fee_change_condition_def Let_def split: if_splits)
    then show ?thesis using bnb selector_laws_score [OF laws] by blast
  qed
qed

lemma build_candidates_ok:
  "build_candidates f w seg added coins = Some (cands, added') \<Longrightarrow>
   length cands = length coins \<and> distinct (map cc_outpoint coins) \<and>
   set (map cc_outpoint coins) \<inter> dom (map_of added) = {} \<and>
   dom (map_of added') = dom (map_of added) \<union> set (map cc_outpoint coins)"
proof (induction coins arbitrary: added cands)
  case (Cons c coins)
  from Cons.prems obtain extra weight rest where steps: "map_of added (cc_outpoint c) = None"
    "build_candidates f w seg ((cc_outpoint c, extra) # added) coins = Some (rest, added')"
    and cands: "length cands = Suc (length rest)"
    by (auto simp: bind_eq_Some_conv split: if_splits)
  show ?case using Cons.IH [OF steps(2)] steps(1) cands by auto
qed simp

text \<open>
  What the callers rely on: the result is a subset of the candidates in candidate order without
  repetition, contains every coin that must be selected, and carries change of at least 500
  satoshis or none.
\<close>

definition selection_ok :: "candidate_coin list \<Rightarrow> bool \<Rightarrow> coin_selection_res \<Rightarrow> bool" where
  "selection_ok coins must_have_change r \<longleftrightarrow>
     distinct (map cc_outpoint coins) \<and>
     (\<exists>idx. sorted idx \<and> distinct idx \<and> set idx \<subseteq> {..<length coins} \<and> sr_selected r = map ((!) coins) idx) \<and>
     {c \<in> set coins. cc_must_select c} \<subseteq> set (sr_selected r) \<and>
     (sr_change_amount r = 0 \<or> DUST_OUTPUT_SATS \<le> sr_change_amount r) \<and>
     (must_have_change \<longrightarrow> DUST_OUTPUT_SATS \<le> sr_change_amount r)"

lemma selection_ok_outpoints:
  assumes "selection_ok coins must_have_change r"
  shows "distinct (map cc_outpoint (sr_selected r))" and "distinct (sr_selected r)" and "set (sr_selected r) \<subseteq> set coins"
proof -
  obtain idx where idx: "distinct idx" "set idx \<subseteq> {..<length coins}" "sr_selected r = map ((!) coins) idx"
    and ops: "distinct (map cc_outpoint coins)"
    using assms by (auto simp: selection_ok_def)
  have "inj_on ((!) (map cc_outpoint coins)) (set idx)" using inj_on_nth [OF ops, of "set idx"] idx(2) by auto
  moreover have "map cc_outpoint (sr_selected r) = map ((!) (map cc_outpoint coins)) idx"
    using idx(2,3) by auto
  ultimately show ops': "distinct (map cc_outpoint (sr_selected r))" using idx(1) by (simp add: distinct_map)
  then show "distinct (sr_selected r)" by (simp add: distinct_map)
  show "set (sr_selected r) \<subseteq> set coins" using idx(2,3) by auto
qed

text \<open>When every coin must be selected, the selection is the candidates in their order.\<close>

lemma selection_ok_all:
  assumes ok: "selection_ok coins must_have_change r" and all: "\<forall>c \<in> set coins. cc_must_select c"
  shows "sr_selected r = coins"
proof -
  obtain idx where idx: "sorted idx" "distinct idx" "set idx \<subseteq> {..<length coins}" "sr_selected r = map ((!) coins) idx"
    and ops: "distinct (map cc_outpoint coins)" and must: "set coins \<subseteq> set (sr_selected r)"
    using ok all unfolding selection_ok_def by blast
  have "k \<in> set idx" if k: "k < length coins" for k
  proof -
    have "coins ! k \<in> set (sr_selected r)" using must k by auto
    then obtain j where j: "j \<in> set idx" "coins ! j = coins ! k" using idx(4) by auto
    moreover have "distinct coins" using ops by (simp add: distinct_map)
    ultimately have "j = k" using k idx(3) nth_eq_iff_index_eq [of coins j k] by auto
    then show ?thesis using j(1) by simp
  qed
  then have "set idx = set [0..<length coins]" using idx(3) by auto
  then have "idx = [0..<length coins]"
    using idx(1,2) by (intro sorted_distinct_set_unique) simp_all
  then show ?thesis using idx(4) by (simp add: map_nth)
qed

lemma selection_result_ok:
  assumes laws: "selector_laws S" and s: "sel_ok S cs s" "length cs = length coins" "distinct (map cc_outpoint coins)"
    and must: "\<forall>k < length coins. cc_must_select (coins ! k) \<longrightarrow> k \<in> set (sel_selected S s)"
    and change: "must_have_change \<longrightarrow> sel_is_some S (sel_drain S s t pol)" and pol: "cp_min_value pol = DUST_OUTPUT_SATS - 1"
    and r: "selection_result S t pol dws f added coins s = Inr r"
  shows "selection_ok coins must_have_change r"
proof -
  let ?idx = "sel_selected S s"
  have idx: "sorted ?idx" "distinct ?idx" "set ?idx \<subseteq> {..<length coins}" using s by (auto simp: sel_ok_def)
  have "list_all2 (\<lambda>i c. nth_opt coins i = Some c) ?idx (sr_selected r)"
    and amount: "sr_change_amount r = dr_value (sel_drain S s t pol)"
    using r by (auto simp: selection_result_def Let_def res_rules collect_res_Inr)
  then have sel: "sr_selected r = map ((!) coins) ?idx"
    by (auto simp: list_all2_conv_all_nth res_rules intro: nth_equalityI)
  have "c \<in> set (sr_selected r)" if c: "c \<in> set coins" "cc_must_select c" for c
  proof -
    obtain k where "k < length coins" "coins ! k = c" using c(1) by (auto simp: in_set_conv_nth)
    then show ?thesis using must c(2) sel by auto
  qed
  moreover have "sr_change_amount r = 0 \<or> DUST_OUTPUT_SATS \<le> sr_change_amount r"
    and "must_have_change \<longrightarrow> DUST_OUTPUT_SATS \<le> sr_change_amount r"
    using selector_laws_drain [OF laws, of s t pol] change pol amount
    by (auto simp: DUST_OUTPUT_SATS_def split: if_splits)
  ultimately show ?thesis
    unfolding selection_ok_def using idx sel s(3) by auto
qed

lemma collect_never_diverges: "collect_res (\<lambda>x. ok_or SelectPanicked (g x)) xs \<noteq> Inl SelectDiverged"
  by (induction xs) (auto simp: bind_res_Inl ok_or_Inl)

lemma select_coins_ok:
  assumes laws: "selector_laws S"
  shows "select_coins_for_spend S L coins tx ch f rf w seg must \<noteq> Inl SelectDiverged"
    and "select_coins_for_spend S L coins tx ch f rf w seg must = Inr r \<Longrightarrow> selection_ok coins must r"
proof -
  have start: "sel_ok S cands (preselect S (sel_new S cands) 0 coins) \<and>
      set (sel_selected S (preselect S (sel_new S cands) 0 coins)) = {k. k < length coins \<and> cc_must_select (coins ! k)}"
    if "length cands = length coins" for cands
    using preselect_ok [OF laws, of cands "sel_new S cands" 0 coins] selector_laws_new [OF laws, of cands] that by simp
  have no_diverge: "selection_result S t pol dws f added coins s \<noteq> Inl SelectDiverged" for t pol dws added s
    by (auto simp: selection_result_def Let_def bind_res_Inl collect_never_diverges ok_or_Inl)
  have no_run: "run_selection S t pol dws must (length coins) (preselect S (sel_new S cands) 0 coins) \<noteq> Inl SelectDiverged"
    if "length cands = length coins" for cands t pol dws
    using run_selection_ok(1) [OF laws] start [OF that] that by blast
  show "select_coins_for_spend S L coins tx ch f rf w seg must \<noteq> Inl SelectDiverged"
    using no_run no_diverge
    by (auto simp: select_coins_for_spend_def Let_def bind_res_Inl ok_or_Inl res_rules dest!: build_candidates_ok)
  assume "select_coins_for_spend S L coins tx ch f rf w seg must = Inr r"
  then obtain ow cands added s where
    ow: "try_sum64 0 (map (lib_txout_weight L) (tx_output tx)) = Some ow" and
    cands: "build_candidates f (TXIN_BASE_WEIGHT + w) seg [] coins = Some (cands, added)" and
    run: "run_selection S (select_target L tx f rf ow) (select_policy f \<lparr>dw_output_weight = lib_txout_weight L ch,
        dw_spend_weight = TXIN_BASE_WEIGHT + w, dw_n_outputs = 1\<rparr>) \<lparr>dw_output_weight = lib_txout_weight L ch,
        dw_spend_weight = TXIN_BASE_WEIGHT + w, dw_n_outputs = 1\<rparr> must (length coins)
        (preselect S (sel_new S cands) 0 coins) = Inr s" and
    res: "selection_result S (select_target L tx f rf ow) (select_policy f \<lparr>dw_output_weight = lib_txout_weight L ch,
        dw_spend_weight = TXIN_BASE_WEIGHT + w, dw_n_outputs = 1\<rparr>) \<lparr>dw_output_weight = lib_txout_weight L ch,
        dw_spend_weight = TXIN_BASE_WEIGHT + w, dw_n_outputs = 1\<rparr> f added coins s = Inr r"
    by (auto simp: select_coins_for_spend_def Let_def res_rules)
  note b = build_candidates_ok [OF cands]
  note st = start [of cands]
  show "selection_ok coins must r"
    using run_selection_ok(2) [OF laws _ _ run] st b res
    by (intro selection_result_ok [OF laws _ _ _ _ _ _ res]) (auto simp: select_policy_def)
qed

text \<open>
  C20.  Coin selection, for any selector with the library's documented behaviour, always returns:
  the fallback loop ends within one round more than there are candidates.  A successful selection
  is over candidates with pairwise distinct outpoints, takes each at most once, includes every
  coin marked \<open>must_select\<close>, and its change is either absent or at least 500 satoshis; when
  change is required it is at least 500 satoshis.
\<close>

theorem select_coins_sound:
  assumes "selector_laws S"
  shows "select_coins_for_spend S L coins tx change feerate replaced weight segwit must_have_change \<noteq> Inl SelectDiverged \<and>
    (\<forall>r. select_coins_for_spend S L coins tx change feerate replaced weight segwit must_have_change = Inr r \<longrightarrow>
       distinct (map cc_outpoint coins) \<and> distinct (sr_selected r) \<and>
       set (sr_selected r) \<subseteq> set coins \<and> (\<forall>c \<in> set coins. cc_must_select c \<longrightarrow> c \<in> set (sr_selected r)) \<and>
       (sr_change_amount r = 0 \<or> 500 \<le> sr_change_amount r) \<and>
       (must_have_change \<longrightarrow> 500 \<le> sr_change_amount r))"
proof (intro conjI allI impI)
  show "select_coins_for_spend S L coins tx change feerate replaced weight segwit must_have_change \<noteq> Inl SelectDiverged"
    by (rule select_coins_ok(1) [OF assms])
  fix r
  assume "select_coins_for_spend S L coins tx change feerate replaced weight segwit must_have_change = Inr r"
  note ok = select_coins_ok(2) [OF assms this]
  then have ops: "distinct (map cc_outpoint coins)"
    and rest: "{c \<in> set coins. cc_must_select c} \<subseteq> set (sr_selected r)"
      "sr_change_amount r = 0 \<or> 500 \<le> sr_change_amount r" "must_have_change \<longrightarrow> 500 \<le> sr_change_amount r"
    by (auto simp: selection_ok_def DUST_OUTPUT_SATS_def)
  show "distinct (map cc_outpoint coins)" by (rule ops)
  show "distinct (sr_selected r)" "set (sr_selected r) \<subseteq> set coins" by (rule selection_ok_outpoints [OF ok])+
  show "\<forall>c \<in> set coins. cc_must_select c \<longrightarrow> c \<in> set (sr_selected r)" using rest(1) by blast
  show "sr_change_amount r = 0 \<or> 500 \<le> sr_change_amount r" using rest(2) .
  show "500 \<le> sr_change_amount r" if must_have_change using rest(3) that by blast
qed

section \<open>Example\<close>

text \<open>
  A selector that satisfies the laws: it never finds a branch-and-bound solution, takes candidates
  in index order and charges a flat 300 virtual bytes.
\<close>

type_synonym demo_sel = "sel_candidate list \<times> nat list"

definition demo_sum :: "demo_sel \<Rightarrow> nat" where
  "demo_sum s = sum_list (map (\<lambda>i. sc_value (fst s ! i)) (snd s))"

definition demo_drain :: "demo_sel \<Rightarrow> sel_target \<Rightarrow> change_policy \<Rightarrow> drain" where
  "demo_drain s t pol = \<lparr>dr_weights = cp_weights pol,
     dr_value = (let d = demo_sum s - (tg_value_sum t + tg_rate t * 300) in if cp_min_value pol < d then d else 0)\<rparr>"

definition demo_met :: "demo_sel \<Rightarrow> sel_target \<Rightarrow> drain \<Rightarrow> bool" where
  "demo_met s t d \<longleftrightarrow> tg_value_sum t + tg_rate t * 300 + dr_value d \<le> demo_sum s"

definition demo_select_next :: "demo_sel \<Rightarrow> demo_sel option" where
  "demo_select_next s = (case filter (\<lambda>i. i \<notin> set (snd s)) [0..<length (fst s)] of
     [] \<Rightarrow> None | i # _ \<Rightarrow> Some (fst s, insort i (snd s)))"

definition demo_selector :: "demo_sel select_api" where
  "demo_selector = \<lparr>
     sel_new = (\<lambda>cs. (cs, [])),
     sel_candidates = fst,
     sel_select = (\<lambda>s i. (fst s, if i \<in> set (snd s) then snd s else insort i (snd s))),
     sel_selected = snd,
     sel_drain = demo_drain,
     sel_is_some = (\<lambda>d. 0 < dr_value d),
     sel_target_met = demo_met,
     sel_excess = (\<lambda>s t d. int (demo_sum s) - int (tg_value_sum t + tg_rate t * 300 + dr_value d)),
     sel_run_bnb = (\<lambda>s m r. None),
     sel_sort_pwu = (\<lambda>s. s),
     sel_select_next = demo_select_next,
     sel_lowest_fee = (\<lambda>t l pol. \<lparr>mt_score = (\<lambda>s. if demo_met s t (demo_drain s t pol) then Some 0 else None),
        mt_bound = (\<lambda>s. None), mt_ordering = False\<rparr>),
     sel_fee_of_weight = (\<lambda>w f. (w * f + 3) div 4)\<rparr>"

lemma demo_next:
  assumes "distinct (snd s)" and "set (snd s) \<subseteq> {..<length (fst s)}" and "demo_select_next s = Some s'"
  shows "fst s' = fst s \<and> (sorted (snd s) \<longrightarrow> sorted (snd s')) \<and> distinct (snd s') \<and> set (snd s') \<subseteq> {..<length (fst s)} \<and>
    (\<exists>i. i \<notin> set (snd s) \<and> set (snd s') = insert i (set (snd s)))"
proof -
  obtain i rest where f: "filter (\<lambda>i. i \<notin> set (snd s)) [0..<length (fst s)] = i # rest"
    and s': "s' = (fst s, insort i (snd s))"
    using assms(3) by (auto simp: demo_select_next_def split: list.splits)
  have "i \<in> set (filter (\<lambda>i. i \<notin> set (snd s)) [0..<length (fst s)])" unfolding f by simp
  then have "i < length (fst s)" "i \<notin> set (snd s)" by auto
  then show ?thesis using assms(1,2) s' by (auto simp: distinct_insort set_insort_key sorted_insort)
qed

lemma demo_selector_laws: "selector_laws demo_selector"
  unfolding selector_laws_def
proof (intro conjI)
  show "law_new demo_selector" by (simp add: law_new_def sel_ok_def demo_selector_def)
  show "law_select demo_selector"
    by (auto simp: law_select_def sel_ok_def demo_selector_def distinct_insort set_insort_key sorted_insort)
  show "law_bnb demo_selector" by (simp add: law_bnb_def demo_selector_def)
  show "law_sort demo_selector" by (simp add: law_sort_def demo_selector_def sel_ok_def)
  show "law_next demo_selector"
    unfolding law_next_def
  proof (intro allI impI)
    fix cs s s'
    assume "sel_ok demo_selector cs s" "sel_select_next demo_selector s = Some s'"
    then show "sel_ok demo_selector cs s' \<and> (\<exists>i. i \<notin> set (sel_selected demo_selector s) \<and>
        set (sel_selected demo_selector s') = insert i (set (sel_selected demo_selector s)))"
      using demo_next [of s s'] by (simp add: sel_ok_def demo_selector_def)
  qed
  show "law_score demo_selector" by (simp add: law_score_def demo_selector_def)
  show "law_drain demo_selector" by (simp add: law_drain_def demo_selector_def demo_drain_def Let_def)
qed

definition demo_coin :: "nat \<Rightarrow> candidate_coin" where
  "demo_coin n = \<lparr>cc_outpoint = OutPoint (replicate 32 (of_nat n)) 0, cc_amount = 100000, cc_deriv_index = Normal n,
     cc_is_change = False, cc_must_select = True, cc_sequence = None, cc_ancestor_info = None\<rparr>"

definition demo_base :: transaction where
  "demo_base = \<lparr>tx_version = 2, tx_lock_time = 0, tx_input = [], tx_output = []\<rparr>"

lemma demo_selection:
  "select_coins_for_spend demo_selector demo_api [demo_coin 1, demo_coin 2] demo_base \<lparr>to_value = 0, to_script = [1]\<rparr>
     3 None 100 True True = Inr \<lparr>sr_selected = [demo_coin 1, demo_coin 2], sr_change_amount = 199100,
       sr_max_change_amount = 199100, sr_fee_for_ancestors = 0\<rparr>"
  by (simp add: select_coins_for_spend_def demo_base_def demo_coin_def extra_weight_def checked_add64_def
      TXIN_BASE_WEIGHT_def select_target_def select_policy_def run_selection_def selection_result_def
      demo_selector_def demo_drain_def demo_met_def demo_sum_def DUST_OUTPUT_SATS_def nth_opt_def Let_def numeral_eval)

theorem select_coins_witness:
  "select_coins_for_spend demo_selector demo_api [demo_coin 1, demo_coin 2] demo_base \<lparr>to_value = 0, to_script = [1]\<rparr>
     3 None 100 True True \<noteq> Inl SelectDiverged \<and>
   (500 :: nat) \<le> 199100 \<and> set [demo_coin 1, demo_coin 2] \<subseteq> set [demo_coin 1, demo_coin 2]"
  using select_coins_sound [OF demo_selector_laws, of demo_api "[demo_coin 1, demo_coin 2]" demo_base
      "\<lparr>to_value = 0, to_script = [1]\<rparr>" 3 None 100 True True] demo_selection by simp

end
