(* ===== verification/Spend.thy ===== *)
theory Spend
  imports Coin_Selection
begin

text \<open>
  \<open>coincube-core/src/spend.rs\<close>: input authentication, the sanity checks of a spend, the lock time
  against fee sniping, and the construction of a spend from coin selection to the checked PSBT.
  The previous-transaction store (\<open>TxGetter\<close>) is a function from identifiers; panics (failed
  assertions and \<open>expect\<close>) are the error \<open>SpendPanicked\<close>.  The sum of output values is a plain
  \<open>u64\<close> sum in the source, which wraps in release builds; it is reduced modulo \<open>2 ^ 64\<close> here.
\<close>

section \<open>Data\<close>

definition MAX_FEE :: nat where "MAX_FEE = one_btc"
definition MAX_FEERATE :: nat where "MAX_FEERATE = 1000"
definition MAX_ANTI_FEE_SNIPING_TIP_AGE_SECS :: nat where "MAX_ANTI_FEE_SNIPING_TIP_AGE_SECS = 8 * 60 * 60"
definition ENABLE_RBF_NO_LOCKTIME :: nat where "ENABLE_RBF_NO_LOCKTIME = 0xFFFFFFFD"

datatype insane_fee_info = NegativeFee | InvalidFeerateInfo | TooHighFee nat | TooHighFeerate nat

datatype input_auth_error =
    MissingPreviousTransaction
  | TxidMismatch txid txid
  | InvalidVout nat nat
  | InvalidAmount nat
  | AmountMismatch nat nat
  | ScriptMismatch
  | WitnessUtxoConflict

datatype spend_error =
    InvalidImportedWallet string
  | InvalidFeerate nat
  | FeeEstimationFailed
  | InvalidOutputValue nat
  | InsaneFees insane_fee_info
  | SanityCheckFailure psbt
  | InputAuthentication outpoint input_auth_error
  | CoinSelectionError select_error
  | SpendPanicked

record addr_info =
  ai_index :: child_number
  ai_is_change :: bool

record spend_output_address =
  so_addr :: address
  so_info :: "addr_info option"

datatype spend_tx_fees = Regular nat | Rbf nat nat

datatype create_spend_warning = ChangeAddedToFee nat | AdditionalFeeForAncestors nat

record create_spend_res =
  cs_psbt :: psbt
  cs_has_change :: bool
  cs_warnings :: "create_spend_warning list"

type_synonym tx_getter = "txid \<Rightarrow> transaction option"

section \<open>Checks\<close>

definition check_output_value :: "nat \<Rightarrow> (spend_error, unit) res" where
  "check_output_value v = (if v > max_money \<or> v < DUST_OUTPUT_SATS then Inl (InvalidOutputValue v) else Inr ())"

definition authenticate_previous_output ::
  "btc_api \<Rightarrow> outpoint \<Rightarrow> transaction option \<Rightarrow> txout option \<Rightarrow> (input_auth_error, txout) res" where
  "authenticate_previous_output L outpoint previous_tx witness_utxo =
     bind_res (ok_or MissingPreviousTransaction previous_tx) (\<lambda>previous_tx.
     let actual = lib_txid L previous_tx in
     guard_res (actual \<noteq> op_txid outpoint) (TxidMismatch (op_txid outpoint) actual)
     (bind_res (ok_or (InvalidVout (op_vout outpoint) (length (tx_output previous_tx)))
                  (nth_opt (tx_output previous_tx) (op_vout outpoint))) (\<lambda>output.
      guard_res (to_value output > max_money) (InvalidAmount (to_value output))
      (guard_res (case witness_utxo of None \<Rightarrow> False | Some w \<Rightarrow> w \<noteq> output) WitnessUtxoConflict
       (Inr output)))))"

definition authenticate_psbt_input :: "btc_api \<Rightarrow> txin \<Rightarrow> psbt_in \<Rightarrow> (spend_error, txout) res" where
  "authenticate_psbt_input L txin psbt_in =
     map_err (InputAuthentication (ti_prev txin))
       (authenticate_previous_output L (ti_prev txin) (pi_non_witness_utxo psbt_in) (pi_witness_utxo psbt_in))"

fun sum_inputs :: "btc_api \<Rightarrow> psbt \<Rightarrow> nat \<Rightarrow> (psbt_in \<times> txin) list \<Rightarrow> (spend_error, nat) res" where
  \<comment> \<open>the loop over \<open>psbt.inputs.iter().zip(tx.input.iter())\<close>\<close>
  "sum_inputs L psbt value_in [] = Inr value_in"
| "sum_inputs L psbt value_in ((pin, txin) # rest) =
     guard_res (pi_bip32_derivation pin = [] \<and> pi_tap_key_origins pin = []) (SanityCheckFailure psbt)
     (bind_res (authenticate_psbt_input L txin pin) (\<lambda>authenticated.
      bind_res (ok_or (SanityCheckFailure psbt) (checked_add64 value_in (to_value authenticated))) (\<lambda>value_in.
        sum_inputs L psbt value_in rest)))"

definition value_out :: "transaction \<Rightarrow> nat" where
  "value_out tx = sum_list (map to_value (tx_output tx)) mod 2 ^ 64"

definition sanity_check_psbt ::
  "btc_api \<Rightarrow> desc_api \<Rightarrow> descriptor \<Rightarrow> psbt \<Rightarrow> bool \<Rightarrow> (spend_error, unit) res" where
  "sanity_check_psbt L D spent_desc psbt use_primary_path =
    (let tx = ps_unsigned_tx psbt in
     guard_res (length (ps_inputs psbt) \<noteq> length (tx_input tx) \<or>
                length (ps_outputs psbt) \<noteq> length (tx_output tx) \<or> tx_output tx = []) (SanityCheckFailure psbt)
     (bind_res (sum_inputs L psbt 0 (zip (ps_inputs psbt) (tx_input tx))) (\<lambda>value_in.
      bind_res (ok_or (InsaneFees NegativeFee) (checked_sub value_in (value_out tx))) (\<lambda>abs_fee.
      guard_res (abs_fee > MAX_FEE) (InsaneFees (TooHighFee abs_fee))
      (bind_res (ok_or SpendPanicked (unsigned_tx_max_vbytes L D spent_desc tx use_primary_path)) (\<lambda>tx_vb.
       bind_res (ok_or (InsaneFees InvalidFeerateInfo) (checked_div abs_fee tx_vb)) (\<lambda>feerate_sats_vb.
       guard_res (\<not> (1 \<le> feerate_sats_vb \<and> feerate_sats_vb \<le> MAX_FEERATE))
         (InsaneFees (TooHighFeerate feerate_sats_vb))
       (guard_res (list_ex (\<lambda>txo. to_value txo < lib_minimal_non_dust L (to_script txo)) (tx_output tx))
          (SanityCheckFailure psbt) (Inr ()))))))))) "

definition reverify_spend_before_broadcast ::
  "btc_api \<Rightarrow> desc_api \<Rightarrow> descriptor \<Rightarrow> psbt \<Rightarrow> (spend_error, unit) res" where
  "reverify_spend_before_broadcast L D main_descriptor psbt =
     (case sanity_check_psbt L D main_descriptor psbt True of
        Inr _ \<Rightarrow> Inr ()
      | Inl primary_err \<Rightarrow>
          if is_ok (sanity_check_psbt L D main_descriptor psbt False) then Inr () else Inl primary_err)"

section \<open>Lock time\<close>

definition LOCK_TIME_THRESHOLD :: nat where "LOCK_TIME_THRESHOLD = 500000000"

definition anti_fee_sniping_locktime :: "nat \<Rightarrow> nat \<Rightarrow> nat \<Rightarrow> nat option \<Rightarrow> nat option" where
  \<comment> \<open>whole seconds and the nanoseconds of \<open>now\<close>; \<open>None\<close>: \<open>LockTime::from_height\<close> refuses the height\<close>
  "anti_fee_sniping_locktime now_secs nanos tip_height tip_time_secs =
     (case tip_time_secs of
        None \<Rightarrow> Some 0
      | Some tip_time \<Rightarrow>
          if now_secs - tip_time \<le> MAX_ANTI_FEE_SNIPING_TIP_AGE_SECS then
            (let delta = (if nanos mod 10 = 1 then (nanos mod 1000) div 10 + 1 else 0);
                 height = tip_height - delta
             in if height < LOCK_TIME_THRESHOLD then Some height else None)
          else Some 0)"

section \<open>Construction\<close>

definition is_relative_lock_time :: "nat \<Rightarrow> bool" where
  "is_relative_lock_time sequence \<longleftrightarrow> sequence < 2 ^ 31"

definition own_psbt_out :: "desc_api \<Rightarrow> descriptor \<Rightarrow> addr_info option \<Rightarrow> (spend_error, psbt_out) res" where
  "own_psbt_out D d info =
     (case info of
        None \<Rightarrow> Inr psbt_out_default
      | Some ai \<Rightarrow> bind_res (ok_or SpendPanicked (derive D d (ai_is_change ai) (ai_index ai))) (\<lambda>dd.
          Inr (update_change_psbt_out D dd psbt_out_default)))"

definition destination_output ::
  "desc_api \<Rightarrow> descriptor \<Rightarrow> spend_output_address \<times> nat \<Rightarrow> (spend_error, txout \<times> psbt_out) res" where
  "destination_output D d dest =
     bind_res (check_output_value (snd dest)) (\<lambda>_.
     bind_res (own_psbt_out D d (so_info (fst dest))) (\<lambda>out.
     Inr (\<lparr>to_value = snd dest, to_script = address_script (so_addr (fst dest))\<rparr>, out)))"

definition derived_desc :: "desc_api \<Rightarrow> descriptor \<Rightarrow> candidate_coin \<Rightarrow> derived_single_desc option" where
  "derived_desc D d coin = derive D d (cc_is_change coin) (cc_deriv_index coin)"

definition spend_input ::
  "btc_api \<Rightarrow> desc_api \<Rightarrow> descriptor \<Rightarrow> tx_getter \<Rightarrow> candidate_coin \<Rightarrow> (spend_error, txin \<times> psbt_in) res" where
  \<comment> \<open>the loop body over the selected coins\<close>
  "spend_input L D d getter cand =
     (let sequence = (case cc_sequence cand of None \<Rightarrow> ENABLE_RBF_NO_LOCKTIME | Some s \<Rightarrow> s);
          txin = \<lparr>ti_prev = cc_outpoint cand, ti_script_sig = [], ti_sequence = sequence, ti_witness = []\<rparr>
      in
      bind_res (ok_or SpendPanicked (derived_desc D d cand)) (\<lambda>coin_desc.
      let pin = update_psbt_in D coin_desc psbt_in_default;
          previous_tx = getter (op_txid (cc_outpoint cand))
      in
      bind_res (map_err (InputAuthentication (cc_outpoint cand))
                  (authenticate_previous_output L (cc_outpoint cand) previous_tx None)) (\<lambda>authenticated.
      guard_res (to_value authenticated \<noteq> cc_amount cand)
        (InputAuthentication (cc_outpoint cand) (AmountMismatch (cc_amount cand) (to_value authenticated)))
      (guard_res (to_script authenticated \<noteq> script_pubkey coin_desc)
         (InputAuthentication (cc_outpoint cand) ScriptMismatch)
      (Inr (txin, pin\<lparr>pi_witness_utxo := Some authenticated, pi_non_witness_utxo := previous_tx\<rparr>))))))"

definition create_spend_with_poison ::
  "'s select_api \<Rightarrow> btc_api \<Rightarrow> desc_api \<Rightarrow> descriptor \<Rightarrow> tx_getter \<Rightarrow> (spend_output_address \<times> nat) list \<Rightarrow>
   candidate_coin list \<Rightarrow> spend_tx_fees \<Rightarrow> spend_output_address \<Rightarrow> nat \<Rightarrow> script option \<Rightarrow>
   (spend_error, create_spend_res) res" where
  "create_spend_with_poison S L D d getter destinations candidate_coins fees change_addr locktime poison =
    (let (feerate_vb, replaced_fee) = (case fees of Regular f \<Rightarrow> (f, None) | Rbf f fee \<Rightarrow> (f, Some fee));
         is_self_send = (destinations = [])
     in
     guard_res (feerate_vb < 1) (InvalidFeerate feerate_vb)
     (bind_res (collect_res (destination_output D d) destinations) (\<lambda>dests.
      let poison_outs = (case poison of None \<Rightarrow> [] | Some s \<Rightarrow> [(\<lparr>to_value = 0, to_script = s\<rparr>, psbt_out_default)]);
          outs = dests @ poison_outs;
          tx = \<lparr>tx_version = 2, tx_lock_time = locktime, tx_input = [], tx_output = map fst outs\<rparr>;
          change_txo = \<lparr>to_value = 2 ^ 64 - 1, to_script = address_script (so_addr change_addr)\<rparr>;
          use_primary_path = (\<not> list_ex (\<lambda>c. case cc_sequence c of None \<Rightarrow> False | Some q \<Rightarrow> is_relative_lock_time q)
                                candidate_coins)
      in
      guard_res (feerate_vb \<ge> 2 ^ 16) (InsaneFees (TooHighFeerate feerate_vb))
      (bind_res (map_err CoinSelectionError
         (select_coins_for_spend S L candidate_coins tx change_txo feerate_vb replaced_fee
            (max_sat_weight D d use_primary_path) True is_self_send)) (\<lambda>sel.
       let has_change = sr_change_amount sel > 0 in
       bind_res (if has_change then
                   bind_res (check_output_value (sr_change_amount sel)) (\<lambda>_.
                   bind_res (own_psbt_out D d (so_info change_addr)) (\<lambda>out.
                   Inr [(change_txo\<lparr>to_value := sr_change_amount sel\<rparr>, out)]))
                 else Inr []) (\<lambda>change_outs.
       let warnings = (if \<not> has_change \<and> sr_max_change_amount sel > 0
                       then [ChangeAddedToFee (sr_max_change_amount sel)] else []) @
                      (if sr_fee_for_ancestors sel > 0
                       then [AdditionalFeeForAncestors (sr_fee_for_ancestors sel)] else [])
       in
       bind_res (collect_res (spend_input L D d getter) (sr_selected sel)) (\<lambda>ins.
       let psbt = \<lparr>ps_unsigned_tx = tx\<lparr>tx_input := map fst ins, tx_output := map fst (outs @ change_outs)\<rparr>,
                   ps_version = 0, ps_xpub = [], ps_proprietary = [], ps_unknown = [],
                   ps_inputs = map snd ins, ps_outputs = map snd (outs @ change_outs)\<rparr>
       in
       bind_res (sanity_check_psbt L D d psbt use_primary_path) (\<lambda>_.
       Inr \<lparr>cs_psbt = psbt, cs_has_change = has_change, cs_warnings = warnings\<rparr>)))))))) "

definition create_spend ::
  "'s select_api \<Rightarrow> btc_api \<Rightarrow> desc_api \<Rightarrow> descriptor \<Rightarrow> tx_getter \<Rightarrow> (spend_output_address \<times> nat) list \<Rightarrow>
   candidate_coin list \<Rightarrow> spend_tx_fees \<Rightarrow> spend_output_address \<Rightarrow> nat \<Rightarrow> (spend_error, create_spend_res) res" where
  "create_spend S L D d getter destinations candidate_coins fees change_addr locktime =
     create_spend_with_poison S L D d getter destinations candidate_coins fees change_addr locktime None"

section \<open>Authentication and sanity\<close>

lemma authenticate_iff:
  "authenticate_previous_output L p previous_tx w = Inr out \<longleftrightarrow>
     (\<exists>tx. previous_tx = Some tx \<and> lib_txid L tx = op_txid p \<and> op_vout p < length (tx_output tx) \<and>
        tx_output tx ! op_vout p = out) \<and> to_value out \<le> max_money \<and> (\<forall>u. w = Some u \<longrightarrow> u = out)"
proof (cases previous_tx)
  case (Some tx)
  show ?thesis
    by (cases w) (auto simp: Some authenticate_previous_output_def Let_def guard_res_def nth_opt_def)
qed (simp add: authenticate_previous_output_def)

text \<open>The outputs an authenticated PSBT spends, in input order.\<close>

definition spends :: "btc_api \<Rightarrow> (psbt_in \<times> txin) list \<Rightarrow> txout list \<Rightarrow> bool" where
  "spends L ins outs \<longleftrightarrow>
     list_all2 (\<lambda>i out. (pi_bip32_derivation (fst i) \<noteq> [] \<or> pi_tap_key_origins (fst i) \<noteq> []) \<and>
       authenticate_previous_output L (ti_prev (snd i)) (pi_non_witness_utxo (fst i)) (pi_witness_utxo (fst i)) = Inr out)
     ins outs"

lemma sum_inputs_iff:
  "acc < 2 ^ 64 \<Longrightarrow> sum_inputs L psbt acc ins = Inr v \<longleftrightarrow>
     (\<exists>outs. spends L ins outs \<and> v = acc + sum_list (map to_value outs) \<and> v < 2 ^ 64)"
proof (induction ins arbitrary: acc)
  case Nil
  then show ?case by (auto simp: spends_def)
next
  case (Cons i ins)
  obtain pin txin where i: "i = (pin, txin)" by (cases i)
  let ?auth = "authenticate_previous_output L (ti_prev txin) (pi_non_witness_utxo pin) (pi_witness_utxo pin)"
  have step: "sum_inputs L psbt acc (i # ins) = Inr v \<longleftrightarrow>
      (pi_bip32_derivation pin \<noteq> [] \<or> pi_tap_key_origins pin \<noteq> []) \<and>
      (\<exists>out. ?auth = Inr out \<and> acc + to_value out < 2 ^ 64 \<and> sum_inputs L psbt (acc + to_value out) ins = Inr v)"
    unfolding i by (auto simp: res_rules authenticate_psbt_input_def)
  have rest: "spends L (i # ins) outs \<longleftrightarrow> (\<exists>out outs'. outs = out # outs' \<and>
      (pi_bip32_derivation pin \<noteq> [] \<or> pi_tap_key_origins pin \<noteq> []) \<and> ?auth = Inr out \<and> spends L ins outs')" for outs
    unfolding spends_def i by (auto simp: list_all2_Cons1)
  show ?case (is "?run \<longleftrightarrow> ?spec")
  proof
    assume ?run
    then obtain out where out: "pi_bip32_derivation pin \<noteq> [] \<or> pi_tap_key_origins pin \<noteq> []" "?auth = Inr out"
      "acc + to_value out < 2 ^ 64" "sum_inputs L psbt (acc + to_value out) ins = Inr v"
      unfolding step by blast
    obtain outs where "spends L ins outs" "v = acc + to_value out + sum_list (map to_value outs)" "v < 2 ^ 64"
      using Cons.IH [OF out(3)] out(4) by blast
    then have "spends L (i # ins) (out # outs) \<and> v = acc + sum_list (map to_value (out # outs)) \<and> v < 2 ^ 64"
      using out unfolding rest by simp
    then show ?spec by blast
  next
    assume ?spec
    then obtain outs where outs: "spends L (i # ins) outs" "v = acc + sum_list (map to_value outs)" "v < 2 ^ 64"
      by blast
    then obtain out outs' where o1: "outs = out # outs'" "pi_bip32_derivation pin \<noteq> [] \<or> pi_tap_key_origins pin \<noteq> []"
      "?auth = Inr out" "spends L ins outs'" unfolding rest by blast
    have "acc + to_value out < 2 ^ 64" using outs(2,3) o1(1) by simp
    moreover from this have "sum_inputs L psbt (acc + to_value out) ins = Inr v"
      using Cons.IH o1(1,4) outs(2,3) by auto
    ultimately show ?run unfolding step using o1(2,3) by blast
  qed
qed

lemma sanity_check_iff:
  "sanity_check_psbt L D d psbt primary = Inr () \<longleftrightarrow>
     (let tx = ps_unsigned_tx psbt in
      length (ps_inputs psbt) = length (tx_input tx) \<and> length (ps_outputs psbt) = length (tx_output tx) \<and>
      tx_output tx \<noteq> [] \<and>
      (\<exists>outs vb fee. spends L (zip (ps_inputs psbt) (tx_input tx)) outs \<and>
         sum_list (map to_value outs) < 2 ^ 64 \<and> sum_list (map to_value outs) = value_out tx + fee \<and>
         fee \<le> MAX_FEE \<and> unsigned_tx_max_vbytes L D d tx primary = Some vb \<and>
         0 < vb \<and> vb \<le> fee \<and> fee < (MAX_FEERATE + 1) * vb) \<and>
      (\<forall>txo \<in> set (tx_output tx). lib_minimal_non_dust L (to_script txo) \<le> to_value txo))"
proof -
  have rate: "1 \<le> fee div vb \<and> fee div vb \<le> MAX_FEERATE \<longleftrightarrow> vb \<le> fee \<and> fee < (MAX_FEERATE + 1) * vb"
    if "vb \<noteq> 0" for fee vb
    using that by (simp add: div_less_iff_less_mult less_Suc_eq_le [symmetric] div_greater_zero_iff Suc_le_eq)
  have dust: "\<not> list_ex (\<lambda>txo. to_value txo < lib_minimal_non_dust L (to_script txo)) outs \<longleftrightarrow>
      (\<forall>txo \<in> set outs. lib_minimal_non_dust L (to_script txo) \<le> to_value txo)" for outs
    by (auto simp: list_ex_iff not_less)
  have body: "sanity_check_psbt L D d psbt primary = Inr () \<longleftrightarrow>
     (let tx = ps_unsigned_tx psbt in
      length (ps_inputs psbt) = length (tx_input tx) \<and> length (ps_outputs psbt) = length (tx_output tx) \<and>
      tx_output tx \<noteq> [] \<and>
      (\<exists>v vb. sum_inputs L psbt 0 (zip (ps_inputs psbt) (tx_input tx)) = Inr v \<and> value_out tx \<le> v \<and>
         v - value_out tx \<le> MAX_FEE \<and> unsigned_tx_max_vbytes L D d tx primary = Some vb \<and> vb \<noteq> 0 \<and>
         1 \<le> (v - value_out tx) div vb \<and> (v - value_out tx) div vb \<le> MAX_FEERATE) \<and>
      \<not> list_ex (\<lambda>txo. to_value txo < lib_minimal_non_dust L (to_script txo)) (tx_output tx))"
    by (auto simp: sanity_check_psbt_def Let_def res_rules)
  have money: "(\<exists>v vb. sum_inputs L psbt 0 ins = Inr v \<and> o1 \<le> v \<and> v - o1 \<le> MAX_FEE \<and> vbs = Some vb \<and> vb \<noteq> 0 \<and>
         1 \<le> (v - o1) div vb \<and> (v - o1) div vb \<le> MAX_FEERATE) \<longleftrightarrow>
     (\<exists>outs vb fee. spends L ins outs \<and> sum_list (map to_value outs) < 2 ^ 64 \<and>
         sum_list (map to_value outs) = o1 + fee \<and> fee \<le> MAX_FEE \<and> vbs = Some vb \<and>
         0 < vb \<and> vb \<le> fee \<and> fee < (MAX_FEERATE + 1) * vb)" (is "?a \<longleftrightarrow> ?b") for ins o1 vbs
  proof
    assume ?a
    then obtain v vb where v: "sum_inputs L psbt 0 ins = Inr v" "o1 \<le> v" "v - o1 \<le> MAX_FEE" "vbs = Some vb"
      "vb \<noteq> 0" and "1 \<le> (v - o1) div vb \<and> (v - o1) div vb \<le> MAX_FEERATE" by blast
    then have "vb \<le> v - o1" "v - o1 < (MAX_FEERATE + 1) * vb" using rate by blast+
    moreover obtain outs where "spends L ins outs" "v = sum_list (map to_value outs)" "v < 2 ^ 64"
      using v(1) sum_inputs_iff [of 0 L psbt ins v] by auto
    moreover note v
    ultimately show ?b by (intro exI [of _ outs] exI [of _ vb] exI [of _ "v - o1"]) simp
  next
    assume ?b
    then obtain outs vb fee where "spends L ins outs" "sum_list (map to_value outs) < 2 ^ 64"
      "sum_list (map to_value outs) = o1 + fee" "fee \<le> MAX_FEE" "vbs = Some vb" "0 < vb" "vb \<le> fee"
      "fee < (MAX_FEERATE + 1) * vb" by blast
    then show ?a using sum_inputs_iff [of 0 L psbt ins] rate [of vb fee]
      by (intro exI [of _ "o1 + fee"] exI [of _ vb]) auto
  qed
  show ?thesis unfolding body dust Let_def money ..
qed

lemma reverify_iff:
  "reverify_spend_before_broadcast L D d psbt = Inr () \<longleftrightarrow>
     (\<exists>primary. sanity_check_psbt L D d psbt primary = Inr ())"
  by (auto simp: reverify_spend_before_broadcast_def is_ok_iff ex_bool_eq split: sum.splits)

text \<open>
  C11.  What the last gate before broadcast lets through: with output values that do not overflow
  64 bits, \<open>reverify_spend_before_broadcast\<close> accepts a PSBT exactly when its input and output
  counts match the transaction, which has an output; every input carries key origins and its
  complete previous transaction, whose identifier and output index the outpoint commits to and
  whose output any \<open>witness_utxo\<close> repeats; the amounts so authenticated exceed the outputs by a fee
  of at most one bitcoin and, on the primary or on the recovery path's size bound, from 1 to
  under 1,001 satoshis per virtual byte; and no output is dust.
\<close>

theorem reverify_exact:
  assumes no_overflow: "sum_list (map to_value (tx_output (ps_unsigned_tx psbt))) < 2 ^ 64"
  shows "reverify_spend_before_broadcast L D d psbt = Inr () \<longleftrightarrow>
    length (ps_inputs psbt) = length (tx_input (ps_unsigned_tx psbt)) \<and>
    length (ps_outputs psbt) = length (tx_output (ps_unsigned_tx psbt)) \<and> tx_output (ps_unsigned_tx psbt) \<noteq> [] \<and>
    (\<exists>spent fee primary vb.
       list_all2 (\<lambda>(pin, txin) out.
           (pi_bip32_derivation pin \<noteq> [] \<or> pi_tap_key_origins pin \<noteq> []) \<and>
           (\<exists>prev. pi_non_witness_utxo pin = Some prev \<and> lib_txid L prev = op_txid (ti_prev txin) \<and>
              op_vout (ti_prev txin) < length (tx_output prev) \<and> tx_output prev ! op_vout (ti_prev txin) = out) \<and>
           to_value out \<le> 2100000000000000 \<and> (\<forall>u. pi_witness_utxo pin = Some u \<longrightarrow> u = out))
         (zip (ps_inputs psbt) (tx_input (ps_unsigned_tx psbt))) spent \<and>
       sum_list (map to_value spent) < 2 ^ 64 \<and>
       sum_list (map to_value spent) = sum_list (map to_value (tx_output (ps_unsigned_tx psbt))) + fee \<and>
       fee \<le> 100000000 \<and> unsigned_tx_max_vbytes L D d (ps_unsigned_tx psbt) primary = Some vb \<and>
       0 < vb \<and> vb \<le> fee \<and> fee < 1001 * vb) \<and>
    (\<forall>txo \<in> set (tx_output (ps_unsigned_tx psbt)). lib_minimal_non_dust L (to_script txo) \<le> to_value txo)"
proof -
  have out: "value_out (ps_unsigned_tx psbt) = sum_list (map to_value (tx_output (ps_unsigned_tx psbt)))"
    using no_overflow by (simp add: value_out_def)
  have ins: "(\<lambda>(pin, txin) out.
      (pi_bip32_derivation pin \<noteq> [] \<or> pi_tap_key_origins pin \<noteq> []) \<and>
      (\<exists>prev. pi_non_witness_utxo pin = Some prev \<and> lib_txid L prev = op_txid (ti_prev txin) \<and>
         op_vout (ti_prev txin) < length (tx_output prev) \<and> tx_output prev ! op_vout (ti_prev txin) = out) \<and>
      to_value out \<le> 2100000000000000 \<and> (\<forall>u. pi_witness_utxo pin = Some u \<longrightarrow> u = out)) =
    (\<lambda>i out. (pi_bip32_derivation (fst i) \<noteq> [] \<or> pi_tap_key_origins (fst i) \<noteq> []) \<and>
       authenticate_previous_output L (ti_prev (snd i)) (pi_non_witness_utxo (fst i)) (pi_witness_utxo (fst i)) = Inr out)"
    by (simp add: fun_eq_iff authenticate_iff max_money_def)
  have limits: "MAX_FEE = 100000000" "MAX_FEERATE + 1 = 1001"
    by (simp_all add: MAX_FEE_def one_btc_def MAX_FEERATE_def)
  show ?thesis
    unfolding reverify_iff sanity_check_iff Let_def ins spends_def [symmetric] out limits by blast
qed

section \<open>A concrete wallet for examples\<close>

definition demo_script :: "bool \<Rightarrow> nat \<Rightarrow> script" where
  "demo_script change n = [if change then 1 else 0, of_nat n]"

definition demo_desc :: desc_api where
  "demo_desc = \<lparr>
     lib_derive = (\<lambda>d c n. WshDesc (demo_script c n) [] [([2], ([0], [Normal n]))]),
     lib_is_tr = (\<lambda>d. False),
     lib_explicit_script = (\<lambda>d. Some []),
     lib_primary_plan = (\<lambda>d. \<lparr>pl_witness_size = 99, pl_template = []\<rparr>),
     lib_max_weight_to_satisfy = (\<lambda>d. 199),
     lib_update_in = (\<lambda>t i. None),
     lib_update_out = (\<lambda>t out. None)\<rparr>"

definition demo_prev :: "nat \<Rightarrow> transaction" where
  \<comment> \<open>pays 100,000 satoshis to receive script \<open>n\<close>\<close>
  "demo_prev n = \<lparr>tx_version = 2, tx_lock_time = n,
     tx_input = [\<lparr>ti_prev = OutPoint (replicate 32 7) 0, ti_script_sig = [], ti_sequence = 0, ti_witness = []\<rparr>],
     tx_output = [\<lparr>to_value = 100000, to_script = demo_script False n\<rparr>]\<rparr>"

definition demo_psbt :: "nat list \<Rightarrow> psbt" where
  \<comment> \<open>one input of 100,000 satoshis and the given output values\<close>
  "demo_psbt vs = \<lparr>
     ps_unsigned_tx = \<lparr>tx_version = 2, tx_lock_time = 0,
       tx_input = [\<lparr>ti_prev = OutPoint (demo_txid (demo_prev 1)) 0, ti_script_sig = [], ti_sequence = 0, ti_witness = []\<rparr>],
       tx_output = map (\<lambda>v. \<lparr>to_value = v, to_script = demo_script True 1\<rparr>) vs\<rparr>,
     ps_version = 0, ps_xpub = [], ps_proprietary = [], ps_unknown = [],
     ps_inputs = [psbt_in_default\<lparr>pi_non_witness_utxo := Some (demo_prev 1), pi_bip32_derivation := [([2], ([0], []))]\<rparr>],
     ps_outputs = map (\<lambda>v. psbt_out_default) vs\<rparr>"

lemmas demo_spend_defs = demo_psbt_def demo_prev_def demo_desc_def demo_script_def psbt_in_default_def
  psbt_out_default_def demo_api_def unsigned_tx_max_vbytes_def unsigned_tx_max_weight_def max_sat_weight_def
  varint_len_def checked_add64_def Let_def

theorem reverify_witness:
  "reverify_spend_before_broadcast demo_api demo_desc (Descriptor ''d'') (demo_psbt [60000, 39000]) = Inr ()"
proof -
  have "sum_list (map to_value (tx_output (ps_unsigned_tx (demo_psbt [60000, 39000])))) < 2 ^ 64"
    by (simp add: demo_psbt_def)
  note spec = reverify_exact [OF this, of demo_api demo_desc "Descriptor ''d''"]
  show ?thesis
    unfolding spec
    by (intro conjI, simp_all add: demo_spend_defs,
        rule exI [of _ "[\<lparr>to_value = 100000, to_script = [0, 1]\<rparr>]"],
        intro conjI exI [of _ "1000 :: nat"] exI [of _ True]) simp_all
qed

text \<open>
  C24.  The hypothesis on overflow is needed.  The source adds the output values with a plain sum:
  built without overflow checks, two outputs of about \<open>2 ^ 63\<close> satoshis add up to 99,000, and a
  transaction that pays out far more than its inputs passes every check.
\<close>

theorem reverify_accepts_wrapped_outputs:
  "reverify_spend_before_broadcast demo_api demo_desc (Descriptor ''d'') (demo_psbt [2 ^ 63, 2 ^ 63 + 99000]) = Inr () \<and>
   sum_list (map to_value (tx_output (ps_unsigned_tx (demo_psbt [2 ^ 63, 2 ^ 63 + 99000])))) > 100000"
proof
  have "spends demo_api (zip (ps_inputs (demo_psbt vs)) (tx_input (ps_unsigned_tx (demo_psbt vs))))
      [\<lparr>to_value = 100000, to_script = demo_script False 1\<rparr>]" for vs
    by (simp add: spends_def authenticate_iff max_money_def demo_spend_defs)
  then have "sanity_check_psbt demo_api demo_desc (Descriptor ''d'') (demo_psbt [2 ^ 63, 2 ^ 63 + 99000]) True = Inr ()"
    unfolding sanity_check_iff Let_def
    by (auto simp: value_out_def MAX_FEE_def one_btc_def MAX_FEERATE_def demo_spend_defs
        intro!: exI [of _ "[\<lparr>to_value = 100000, to_script = demo_script False 1\<rparr>]"])
  then show "reverify_spend_before_broadcast demo_api demo_desc (Descriptor ''d'') (demo_psbt [2 ^ 63, 2 ^ 63 + 99000]) = Inr ()"
    unfolding reverify_iff by blast
qed (simp add: demo_psbt_def)

section \<open>The lock time\<close>

text \<open>
  The lock time is 0 when the tip is unknown or older than eight hours; otherwise it is the
  tip height or up to 100 blocks below it, and never below zero.  The \<open>expect\<close> in it holds for
  every tip height below 500,000,000.
\<close>

theorem anti_fee_sniping_bounds:
  assumes "tip_height < 500000000"
  shows "\<exists>lock. anti_fee_sniping_locktime now nanos tip_height tip_time = Some lock \<and> lock \<le> tip_height \<and>
    (if (\<exists>t. tip_time = Some t \<and> now \<le> t + 28800)
     then tip_height \<le> lock + 100 \<and> (nanos mod 10 \<noteq> 1 \<longrightarrow> lock = tip_height) \<and>
          (nanos mod 10 = 1 \<longrightarrow> lock < tip_height \<or> lock = 0)
     else lock = 0)"
proof (cases tip_time)
  case (Some t)
  have young: "now - t \<le> MAX_ANTI_FEE_SNIPING_TIP_AGE_SECS \<longleftrightarrow> now \<le> t + 28800"
    by (simp add: MAX_ANTI_FEE_SNIPING_TIP_AGE_SECS_def le_diff_conv add.commute)
  have "nanos mod 1000 div 10 + 1 \<le> 100"
    using less_mult_imp_div_less [of "nanos mod 1000" 100 10] by simp
  moreover have "h \<le> h - Suc x + 100" if "x + 1 \<le> 100" for h x :: nat using that by arith
  ultimately show ?thesis
    using assms Some young by (auto simp: anti_fee_sniping_locktime_def Let_def LOCK_TIME_THRESHOLD_def)
qed (simp add: anti_fee_sniping_locktime_def)

theorem anti_fee_sniping_witness:
  "\<exists>lock. anti_fee_sniping_locktime 1000 991 850000 (Some 900) = Some lock \<and> lock < 850000 \<and> 849900 \<le> lock"
proof -
  have "(850000 :: nat) < 500000000" and recent: "\<exists>t. Some (900 :: nat) = Some t \<and> 1000 \<le> t + 28800" by simp_all
  from anti_fee_sniping_bounds [OF this(1), of 1000 991 "Some 900"] show ?thesis by auto
qed

end
