(* ===== verification/Spend_Construction.thy ===== *)
theory Spend_Construction
  imports Spend
begin

text \<open>
  What \<open>create_spend_with_poison\<close> of \<open>coincube-core/src/spend.rs\<close> builds: its inputs, its outputs
  and its fee, for every mode (coin control, sweep, poison).
\<close>

section \<open>One input\<close>

definition coin_output :: "desc_api \<Rightarrow> descriptor \<Rightarrow> candidate_coin \<Rightarrow> txout" where
  \<comment> \<open>the output a wallet coin must be: its amount at its derived script\<close>
  "coin_output D d c = \<lparr>to_value = cc_amount c,
     to_script = (case derived_desc D d c of None \<Rightarrow> [] | Some dd \<Rightarrow> script_pubkey dd)\<rparr>"

definition coin_txin :: "candidate_coin \<Rightarrow> txin" where
  "coin_txin c = \<lparr>ti_prev = cc_outpoint c, ti_script_sig = [],
     ti_sequence = (case cc_sequence c of None \<Rightarrow> ENABLE_RBF_NO_LOCKTIME | Some s \<Rightarrow> s), ti_witness = []\<rparr>"

definition owned_coin :: "btc_api \<Rightarrow> desc_api \<Rightarrow> descriptor \<Rightarrow> tx_getter \<Rightarrow> candidate_coin \<Rightarrow> bool" where
  \<comment> \<open>the outpoint commits to a known transaction that pays the coin's amount to its derived script\<close>
  "owned_coin L D d getter c \<longleftrightarrow>
     derived_desc D d c \<noteq> None \<and> cc_amount c \<le> max_money \<and>
     (\<exists>prev. getter (op_txid (cc_outpoint c)) = Some prev \<and>
        lib_txid L prev = op_txid (cc_outpoint c) \<and> op_vout (cc_outpoint c) < length (tx_output prev) \<and>
        tx_output prev ! op_vout (cc_outpoint c) = coin_output D d c)"

definition coin_psbt_in :: "desc_api \<Rightarrow> descriptor \<Rightarrow> tx_getter \<Rightarrow> candidate_coin \<Rightarrow> psbt_in" where
  "coin_psbt_in D d getter c =
     (case derived_desc D d c of None \<Rightarrow> psbt_in_default | Some dd \<Rightarrow> update_psbt_in D dd psbt_in_default)
       \<lparr>pi_witness_utxo := Some (coin_output D d c), pi_non_witness_utxo := getter (op_txid (cc_outpoint c))\<rparr>"

lemma ti_prev_coin_txin [simp]: "ti_prev (coin_txin c) = cc_outpoint c"
  by (simp add: coin_txin_def)

lemma txout_eqI: "to_value a = to_value b \<Longrightarrow> to_script a = to_script b \<Longrightarrow> a = b" for a b :: txout
  by (cases a; cases b) simp

lemma spend_input_iff:
  "spend_input L D d getter c = Inr i \<longleftrightarrow> owned_coin L D d getter c \<and> i = (coin_txin c, coin_psbt_in D d getter c)"
proof (cases "derived_desc D d c")
  case (Some dd)
  show ?thesis
  proof (cases "getter (op_txid (cc_outpoint c))")
    case None
    then show ?thesis by (simp add: Some spend_input_def Let_def owned_coin_def authenticate_previous_output_def)
  next
    case prev: (Some prev)
    have out: "out = coin_output D d c \<longleftrightarrow> to_value out = cc_amount c \<and> to_script out = script_pubkey dd" for out
      by (auto simp: coin_output_def Some intro: txout_eqI)
    show ?thesis
      by (cases i) (auto simp: Some prev spend_input_def Let_def owned_coin_def res_rules authenticate_iff out
          coin_txin_def coin_psbt_in_def)
  qed
qed (simp add: spend_input_def Let_def owned_coin_def)

lemma owned_coin_authenticates:
  assumes "owned_coin L D d getter c"
  shows "authenticate_previous_output L (cc_outpoint c) (pi_non_witness_utxo (coin_psbt_in D d getter c))
      (pi_witness_utxo (coin_psbt_in D d getter c)) = Inr (coin_output D d c)"
  using assms by (auto simp: owned_coin_def coin_psbt_in_def authenticate_iff coin_output_def)

lemma collect_spend_input:
  "collect_res (spend_input L D d getter) coins = Inr ins \<longleftrightarrow>
     (\<forall>c \<in> set coins. owned_coin L D d getter c) \<and> ins = map (\<lambda>c. (coin_txin c, coin_psbt_in D d getter c)) coins"
proof (induction coins arbitrary: ins)
  case (Cons c coins)
  show ?case using Cons.IH by (auto simp: res_rules spend_input_iff)
qed auto

section \<open>The whole construction\<close>

definition primary_path :: "candidate_coin list \<Rightarrow> bool" where
  "primary_path coins \<longleftrightarrow>
     \<not> list_ex (\<lambda>c. case cc_sequence c of None \<Rightarrow> False | Some q \<Rightarrow> is_relative_lock_time q) coins"

definition poison_outputs :: "script option \<Rightarrow> txout list" where
  "poison_outputs poison = (case poison of None \<Rightarrow> [] | Some s \<Rightarrow> [\<lparr>to_value = 0, to_script = s\<rparr>])"

definition change_outputs :: "spend_output_address \<Rightarrow> nat \<Rightarrow> txout list" where
  "change_outputs addr amount =
     (if amount > 0 then [\<lparr>to_value = amount, to_script = address_script (so_addr addr)\<rparr>] else [])"

definition dest_output :: "spend_output_address \<times> nat \<Rightarrow> txout" where
  "dest_output dest = \<lparr>to_value = snd dest, to_script = address_script (so_addr (fst dest))\<rparr>"

definition own_out :: "desc_api \<Rightarrow> descriptor \<Rightarrow> addr_info option \<Rightarrow> psbt_out" where
  "own_out D d info = (case own_psbt_out D d info of Inl _ \<Rightarrow> psbt_out_default | Inr out \<Rightarrow> out)"

text \<open>The PSBT that the selected coins and the change amount determine.\<close>

definition built_psbt ::
  "desc_api \<Rightarrow> descriptor \<Rightarrow> tx_getter \<Rightarrow> (spend_output_address \<times> nat) list \<Rightarrow> spend_output_address \<Rightarrow> nat \<Rightarrow>
   script option \<Rightarrow> candidate_coin list \<Rightarrow> nat \<Rightarrow> psbt" where
  "built_psbt D d getter dests change_addr locktime poison selected change = \<lparr>
     ps_unsigned_tx = \<lparr>tx_version = 2, tx_lock_time = locktime, tx_input = map coin_txin selected,
       tx_output = map dest_output dests @ poison_outputs poison @ change_outputs change_addr change\<rparr>,
     ps_version = 0, ps_xpub = [], ps_proprietary = [], ps_unknown = [],
     ps_inputs = map (coin_psbt_in D d getter) selected,
     ps_outputs = map (\<lambda>dest. own_out D d (so_info (fst dest))) dests @ map (\<lambda>_. psbt_out_default) (poison_outputs poison) @
       map (\<lambda>_. own_out D d (so_info change_addr)) (change_outputs change_addr change)\<rparr>"

text \<open>A successful construction, taken apart.\<close>

definition built ::
  "btc_api \<Rightarrow> desc_api \<Rightarrow> descriptor \<Rightarrow> tx_getter \<Rightarrow> (spend_output_address \<times> nat) list \<Rightarrow> candidate_coin list \<Rightarrow>
   spend_output_address \<Rightarrow> nat \<Rightarrow> script option \<Rightarrow> candidate_coin list \<Rightarrow> nat \<Rightarrow> create_spend_res \<Rightarrow> bool" where
  "built L D d getter dests coins change_addr locktime poison selected change r \<longleftrightarrow>
     cs_psbt r = built_psbt D d getter dests change_addr locktime poison selected change \<and>
     (\<forall>c \<in> set selected. owned_coin L D d getter c) \<and>
     (\<forall>dest \<in> set dests. DUST_OUTPUT_SATS \<le> snd dest \<and> snd dest \<le> max_money) \<and>
     (change = 0 \<or> (DUST_OUTPUT_SATS \<le> change \<and> change \<le> max_money)) \<and>
     cs_has_change r = (change > 0) \<and>
     sanity_check_psbt L D d (cs_psbt r) (primary_path coins) = Inr ()"

lemma check_output_value_iff: "check_output_value v = Inr () \<longleftrightarrow> DUST_OUTPUT_SATS \<le> v \<and> v \<le> max_money"
  by (auto simp: check_output_value_def)

lemma collect_destinations:
  assumes "collect_res (destination_output D d) dests = Inr outs"
  shows "map fst outs = map dest_output dests \<and> map snd outs = map (\<lambda>dest. own_out D d (so_info (fst dest))) dests \<and>
    (\<forall>dest \<in> set dests. DUST_OUTPUT_SATS \<le> snd dest \<and> snd dest \<le> max_money)"
proof -
  have "list_all2 (\<lambda>dest out. out = (dest_output dest, own_out D d (so_info (fst dest))) \<and>
      DUST_OUTPUT_SATS \<le> snd dest \<and> snd dest \<le> max_money) dests outs"
    using assms unfolding collect_res_Inr
    by (rule list_all2_mono)
      (auto simp: destination_output_def res_rules check_output_value_iff dest_output_def own_out_def)
  then show ?thesis by (induction rule: list_all2_induct) auto
qed

lemma create_spend_built:
  assumes laws: "selector_laws S"
    and run: "create_spend_with_poison S L D d getter dests coins fees change_addr locktime poison = Inr r"
  shows "\<exists>sel. selection_ok coins (dests = []) sel \<and>
    built L D d getter dests coins change_addr locktime poison (sr_selected sel) (sr_change_amount sel) r"
proof -
  obtain f rf where fees: "(case fees of Regular f \<Rightarrow> (f, None) | Rbf f fee \<Rightarrow> (f, Some fee)) = (f, rf)"
    by fastforce
  let ?poison = "case poison of None \<Rightarrow> [] | Some s \<Rightarrow> [(\<lparr>to_value = 0, to_script = s\<rparr>, psbt_out_default)]"
  let ?txo = "\<lparr>to_value = 2 ^ 64 - 1, to_script = address_script (so_addr change_addr)\<rparr>"
  from run obtain outs sel ch ins where
    outs: "collect_res (destination_output D d) dests = Inr outs" and
    sel: "select_coins_for_spend S L coins \<lparr>tx_version = 2, tx_lock_time = locktime, tx_input = [],
        tx_output = map fst (outs @ ?poison)\<rparr> ?txo f rf (max_sat_weight D d (primary_path coins)) True (dests = []) = Inr sel" and
    ch: "(if sr_change_amount sel > 0 then
        bind_res (check_output_value (sr_change_amount sel)) (\<lambda>_.
        bind_res (own_psbt_out D d (so_info change_addr)) (\<lambda>out.
        Inr [(?txo\<lparr>to_value := sr_change_amount sel\<rparr>, out)])) else Inr []) = Inr ch" and
    ins: "collect_res (spend_input L D d getter) (sr_selected sel) = Inr ins" and
    r: "cs_psbt r = \<lparr>ps_unsigned_tx = \<lparr>tx_version = 2, tx_lock_time = locktime, tx_input = map fst ins,
          tx_output = map fst (outs @ ?poison @ ch)\<rparr>, ps_version = 0, ps_xpub = [], ps_proprietary = [],
          ps_unknown = [], ps_inputs = map snd ins, ps_outputs = map snd (outs @ ?poison @ ch)\<rparr>"
      "cs_has_change r = (sr_change_amount sel > 0)" and
    sane: "sanity_check_psbt L D d (cs_psbt r) (primary_path coins) = Inr ()"
    unfolding create_spend_with_poison_def primary_path_def [symmetric] fees Let_def prod.case
    by (simp only: res_rules) auto
  have ch_outs: "map fst ch = change_outputs change_addr (sr_change_amount sel)"
    "map snd ch = map (\<lambda>_. own_out D d (so_info change_addr)) (change_outputs change_addr (sr_change_amount sel))"
    "sr_change_amount sel = 0 \<or> (DUST_OUTPUT_SATS \<le> sr_change_amount sel \<and> sr_change_amount sel \<le> max_money)"
    using ch by (auto simp: res_rules check_output_value_iff change_outputs_def own_out_def split: if_splits)
  have poison: "map fst ?poison = poison_outputs poison" "map snd ?poison = map (\<lambda>_. psbt_out_default) (poison_outputs poison)"
    by (simp_all add: poison_outputs_def split: option.splits)
  have ins': "map fst ins = map coin_txin (sr_selected sel)" "map snd ins = map (coin_psbt_in D d getter) (sr_selected sel)"
    "\<forall>c \<in> set (sr_selected sel). owned_coin L D d getter c"
    using ins by (simp_all add: collect_spend_input)
  have "cs_psbt r = built_psbt D d getter dests change_addr locktime poison (sr_selected sel) (sr_change_amount sel)"
    unfolding r(1) map_append ins' ch_outs poison built_psbt_def using collect_destinations [OF outs] by simp
  then show ?thesis
    using select_coins_ok(2) [OF laws sel] collect_destinations [OF outs] ins'(3) ch_outs(3) r(2) sane
    by (intro exI [of _ sel]) (simp add: built_def)
qed

section \<open>Amounts\<close>

lemma spends_owned:
  assumes "\<forall>c \<in> set coins. owned_coin L D d getter c"
    and "spends L (zip (map (coin_psbt_in D d getter) coins) (map coin_txin coins)) outs"
  shows "outs = map (coin_output D d) coins"
  using assms
proof (induction coins arbitrary: outs)
  case (Cons c cs)
  from Cons.prems(2) obtain o1 os where outs: "outs = o1 # os"
    "spends L (zip (map (coin_psbt_in D d getter) cs) (map coin_txin cs)) os"
    "authenticate_previous_output L (cc_outpoint c) (pi_non_witness_utxo (coin_psbt_in D d getter c))
      (pi_witness_utxo (coin_psbt_in D d getter c)) = Inr o1"
    by (auto simp: spends_def list_all2_Cons1)
  then show ?case using Cons.IH [OF _ outs(2)] Cons.prems(1) owned_coin_authenticates [of L D d getter c] by simp
qed (simp add: spends_def)

lemma sum_coin_outputs: "sum_list (map to_value (map (coin_output D d) cs)) = sum_list (map cc_amount cs)"
  by (induction cs) (simp_all add: coin_output_def)

lemma built_amounts:
  assumes b: "built L D d getter dests coins change_addr locktime poison selected change r"
  shows "\<exists>fee vb. sum_list (map cc_amount selected) = value_out (ps_unsigned_tx (cs_psbt r)) + fee \<and> fee \<le> MAX_FEE \<and>
    unsigned_tx_max_vbytes L D d (ps_unsigned_tx (cs_psbt r)) (primary_path coins) = Some vb \<and>
    vb \<le> fee \<and> fee < (MAX_FEERATE + 1) * vb \<and> sum_list (map cc_amount selected) < 2 ^ 64"
proof -
  let ?psbt = "cs_psbt r"
  from b have psbt: "?psbt = built_psbt D d getter dests change_addr locktime poison selected change"
    and own: "\<forall>c \<in> set selected. owned_coin L D d getter c"
    and sane: "sanity_check_psbt L D d ?psbt (primary_path coins) = Inr ()" unfolding built_def by blast+
  have inp: "tx_input (ps_unsigned_tx ?psbt) = map coin_txin selected"
      "ps_inputs ?psbt = map (coin_psbt_in D d getter) selected"
    by (simp_all add: psbt built_psbt_def)
  from sane obtain outs vb fee where o1: "spends L (zip (ps_inputs ?psbt) (tx_input (ps_unsigned_tx ?psbt))) outs"
    "sum_list (map to_value outs) < 2 ^ 64" "sum_list (map to_value outs) = value_out (ps_unsigned_tx ?psbt) + fee"
    "fee \<le> MAX_FEE" "unsigned_tx_max_vbytes L D d (ps_unsigned_tx ?psbt) (primary_path coins) = Some vb"
    "vb \<le> fee" "fee < (MAX_FEERATE + 1) * vb"
    unfolding sanity_check_iff Let_def by blast
  have "outs = map (coin_output D d) selected" using spends_owned [OF own] o1(1) inp by simp
  then have "sum_list (map to_value outs) = sum_list (map cc_amount selected)" by (simp only: sum_coin_outputs)
  then show ?thesis using o1 by (intro exI [of _ fee] exI [of _ vb]) simp
qed

text \<open>
  C8.  A created spend is what was asked for.  Whatever the coins, destinations and fees, if
  \<open>create_spend\<close> succeeds: it spends each of some distinct candidate coins once, among them every
  coin that had to be selected, and nothing else; each input carries the coin's complete previous
  transaction, whose committed output pays exactly the wallet's amount to the script derived for
  that coin, and repeats that output as \<open>witness_utxo\<close>; its outputs are the destinations in order,
  each within the dust and money limits, then the poison script if any, then at most one change
  output of at least 500 satoshis to the change address; and, output values not overflowing, inputs
  minus outputs is a fee of at most one bitcoin and from 1 to under 1,001 satoshis per virtual byte.
\<close>

theorem create_spend_sound:
  assumes laws: "selector_laws S"
    and run: "create_spend_with_poison S L D d getter dests coins fees change_addr locktime poison = Inr r"
    and no_overflow: "sum_list (map to_value (tx_output (ps_unsigned_tx (cs_psbt r)))) < 2 ^ 64"
  shows "\<exists>selected change fee vb.
    distinct (map cc_outpoint selected) \<and> set selected \<subseteq> set coins \<and>
    (\<forall>c \<in> set coins. cc_must_select c \<longrightarrow> c \<in> set selected) \<and>
    prevouts (ps_unsigned_tx (cs_psbt r)) = map cc_outpoint selected \<and>
    list_all2 (\<lambda>c pin. \<exists>prev out dd. derived_desc D d c = Some dd \<and> getter (op_txid (cc_outpoint c)) = Some prev \<and>
        pi_non_witness_utxo pin = Some prev \<and> lib_txid L prev = op_txid (cc_outpoint c) \<and>
        op_vout (cc_outpoint c) < length (tx_output prev) \<and> tx_output prev ! op_vout (cc_outpoint c) = out \<and>
        out = \<lparr>to_value = cc_amount c, to_script = script_pubkey dd\<rparr> \<and> pi_witness_utxo pin = Some out)
      selected (ps_inputs (cs_psbt r)) \<and>
    (\<forall>dest \<in> set dests. 500 \<le> snd dest \<and> snd dest \<le> max_money) \<and>
    (change = [] \<or> (\<exists>amount. 500 \<le> amount \<and> amount \<le> max_money \<and>
        change = [\<lparr>to_value = amount, to_script = address_script (so_addr change_addr)\<rparr>])) \<and>
    tx_output (ps_unsigned_tx (cs_psbt r)) =
      map (\<lambda>(a, v). \<lparr>to_value = v, to_script = address_script (so_addr a)\<rparr>) dests @
      (case poison of None \<Rightarrow> [] | Some s \<Rightarrow> [\<lparr>to_value = 0, to_script = s\<rparr>]) @ change \<and>
    sum_list (map cc_amount selected) = sum_list (map to_value (tx_output (ps_unsigned_tx (cs_psbt r)))) + fee \<and>
    fee \<le> 100000000 \<and> unsigned_tx_max_vbytes L D d (ps_unsigned_tx (cs_psbt r)) (primary_path coins) = Some vb \<and>
    vb \<le> fee \<and> fee < 1001 * vb"
proof -
  obtain sel where ok: "selection_ok coins (dests = []) sel"
    and b: "built L D d getter dests coins change_addr locktime poison (sr_selected sel) (sr_change_amount sel) r"
    using create_spend_built [OF laws run] by blast
  let ?sel = "sr_selected sel" and ?change = "change_outputs change_addr (sr_change_amount sel)"
  obtain fee vb where amounts: "sum_list (map cc_amount ?sel) = value_out (ps_unsigned_tx (cs_psbt r)) + fee"
    "fee \<le> MAX_FEE" "unsigned_tx_max_vbytes L D d (ps_unsigned_tx (cs_psbt r)) (primary_path coins) = Some vb"
    "vb \<le> fee" "fee < (MAX_FEERATE + 1) * vb"
    using built_amounts [OF b] by blast
  have sel: "distinct (map cc_outpoint ?sel)" "set ?sel \<subseteq> set coins"
    "\<forall>c \<in> set coins. cc_must_select c \<longrightarrow> c \<in> set ?sel"
    using selection_ok_outpoints [OF ok] ok by (auto simp: selection_ok_def)
  have pre: "prevouts (ps_unsigned_tx (cs_psbt r)) = map cc_outpoint ?sel"
    using b by (simp add: built_def built_psbt_def prevouts_def comp_def)
  have ins: "list_all2 (\<lambda>c pin. \<exists>prev out dd. derived_desc D d c = Some dd \<and> getter (op_txid (cc_outpoint c)) = Some prev \<and>
        pi_non_witness_utxo pin = Some prev \<and> lib_txid L prev = op_txid (cc_outpoint c) \<and>
        op_vout (cc_outpoint c) < length (tx_output prev) \<and> tx_output prev ! op_vout (cc_outpoint c) = out \<and>
        out = \<lparr>to_value = cc_amount c, to_script = script_pubkey dd\<rparr> \<and> pi_witness_utxo pin = Some out)
      ?sel (ps_inputs (cs_psbt r))"
    using b
    by (auto simp: built_def built_psbt_def list_all2_map2 owned_coin_def coin_psbt_in_def coin_output_def
        intro!: list.rel_refl_strong)
  have outs: "tx_output (ps_unsigned_tx (cs_psbt r)) =
      map (\<lambda>(a, v). \<lparr>to_value = v, to_script = address_script (so_addr a)\<rparr>) dests @
      (case poison of None \<Rightarrow> [] | Some s \<Rightarrow> [\<lparr>to_value = 0, to_script = s\<rparr>]) @ ?change"
    using b by (simp add: built_def built_psbt_def poison_outputs_def dest_output_def case_prod_beta')
  have limits: "\<forall>dest \<in> set dests. 500 \<le> snd dest \<and> snd dest \<le> max_money"
    "?change = [] \<or> (\<exists>amount. 500 \<le> amount \<and> amount \<le> max_money \<and>
        ?change = [\<lparr>to_value = amount, to_script = address_script (so_addr change_addr)\<rparr>])"
    using b by (auto simp: built_def DUST_OUTPUT_SATS_def change_outputs_def)
  have out_sum: "value_out (ps_unsigned_tx (cs_psbt r)) = sum_list (map to_value (tx_output (ps_unsigned_tx (cs_psbt r))))"
    using no_overflow by (simp add: value_out_def)
  have caps: "MAX_FEE = 100000000" "MAX_FEERATE + 1 = 1001" by (simp_all add: MAX_FEE_def one_btc_def MAX_FEERATE_def)
  note money = amounts [unfolded out_sum caps]
  show ?thesis
    by (intro exI [of _ ?sel] exI [of _ ?change] exI [of _ fee] exI [of _ vb] conjI; fact)
qed

section \<open>Example\<close>

text \<open>
  Sweeps of two coins of 100,000 satoshis each, at 300 satoshis per unit of feerate, to the change
  script with a given index, with and without a poison output.
\<close>

abbreviation demo_d :: descriptor where "demo_d \<equiv> Descriptor ''toy''"

definition demo_getter :: tx_getter where
  "demo_getter t = find (\<lambda>prev. demo_txid prev = t) [demo_prev 1, demo_prev 2, demo_prev 3]"

definition demo_wallet_coin :: "nat \<Rightarrow> candidate_coin" where
  "demo_wallet_coin n = \<lparr>cc_outpoint = OutPoint (demo_txid (demo_prev n)) 0, cc_amount = 100000,
     cc_deriv_index = Normal n, cc_is_change = False, cc_must_select = True, cc_sequence = None,
     cc_ancestor_info = None\<rparr>"

definition demo_change :: "network \<Rightarrow> nat \<Rightarrow> spend_output_address" where
  "demo_change net n = \<lparr>so_addr = Address net (demo_script True n),
     so_info = Some \<lparr>ai_index = Normal n, ai_is_change = True\<rparr>\<rparr>"

abbreviation demo_coins :: "nat \<Rightarrow> nat \<Rightarrow> candidate_coin list" where
  "demo_coins a b \<equiv> [demo_wallet_coin a, demo_wallet_coin b]"

abbreviation demo_built :: "nat \<Rightarrow> nat \<Rightarrow> network \<Rightarrow> nat \<Rightarrow> script option \<Rightarrow> nat \<Rightarrow> psbt" where
  "demo_built a b net n poison f \<equiv>
     built_psbt demo_desc demo_d demo_getter [] (demo_change net n) 0 poison (demo_coins a b) (200000 - f * 300)"

lemma demo_txid_prev: "a < 256 \<Longrightarrow> b < 256 \<Longrightarrow> demo_txid (demo_prev a) = demo_txid (demo_prev b) \<longleftrightarrow> a = b"
proof
  assume "a < 256" "b < 256" "demo_txid (demo_prev a) = demo_txid (demo_prev b)"
  then have "le_bytes 4 a = le_bytes 4 b" by (simp add: demo_txid_def demo_prev_def)
  then have "a mod 256 ^ 4 = b mod 256 ^ 4" using of_le_bytes_le_bytes by metis
  then show "a = b" using \<open>a < 256\<close> \<open>b < 256\<close> by simp
qed simp

lemma demo_getter_prev: "n \<in> {1, 2, 3} \<Longrightarrow> demo_getter (demo_txid (demo_prev n)) = Some (demo_prev n)"
  by (auto simp: demo_getter_def demo_txid_prev simp del: One_nat_def)

lemma demo_coin_simps [simp]:
  "cc_outpoint (demo_wallet_coin n) = OutPoint (demo_txid (demo_prev n)) 0"
  "cc_amount (demo_wallet_coin n) = 100000" "cc_deriv_index (demo_wallet_coin n) = Normal n"
  "cc_sequence (demo_wallet_coin n) = None" "cc_must_select (demo_wallet_coin n)"
  "derived_desc demo_desc d (demo_wallet_coin n) = Some (WshDesc (demo_script False n) [] [([2], ([0], [Normal n]))])"
  by (simp_all add: demo_wallet_coin_def derived_desc_def derive_def demo_desc_def)

lemma demo_owned: "n \<in> {1, 2, 3} \<Longrightarrow> owned_coin demo_api demo_desc demo_d demo_getter (demo_wallet_coin n)"
  by (simp add: owned_coin_def demo_getter_prev max_money_def coin_output_def script_pubkey_def del: One_nat_def)
    (simp add: demo_api_def demo_prev_def)

lemma spends_coins:
  assumes "\<forall>c \<in> set coins. owned_coin L D d getter c \<and> pi_bip32_derivation (coin_psbt_in D d getter c) \<noteq> []"
  shows "spends L (zip (map (coin_psbt_in D d getter) coins) (map coin_txin coins)) (map (coin_output D d) coins)"
  using assms owned_coin_authenticates by (auto simp: spends_def list_all2_conv_all_nth)

lemma demo_selection_sweep:
  assumes "a \<noteq> b" and "a < 256" and "b < 256" and f: "f \<in> {1, 2, 3}"
    and "sum_list (map to_value (tx_output tx)) = 0" and "sum_list (map (lib_txout_weight demo_api) (tx_output tx)) < 2 ^ 64"
  shows "select_coins_for_spend demo_selector demo_api (demo_coins a b) tx txo f None 100 True True =
    Inr \<lparr>sr_selected = demo_coins a b, sr_change_amount = 200000 - f * 300,
      sr_max_change_amount = 200000 - f * 300, sr_fee_for_ancestors = 0\<rparr>"
proof -
  have "try_sum64 0 (map (lib_txout_weight demo_api) (tx_output tx)) =
      Some (sum_list (map (lib_txout_weight demo_api) (tx_output tx)))"
    using try_sum64_total [of 0] assms(6) by simp
  moreover have "select_target demo_api tx f None w = \<lparr>tg_rate = f, tg_replace = None, tg_value_sum = 0,
      tg_weight_sum = w, tg_n_outputs = length (tx_output tx)\<rparr>" for w
    unfolding select_target_def assms(5) by simp
  moreover have "demo_txid (demo_prev a) \<noteq> demo_txid (demo_prev b)" using assms(1-3) by (simp add: demo_txid_prev)
  ultimately show ?thesis
    using f by (auto simp: select_coins_for_spend_def demo_wallet_coin_def extra_weight_def checked_add64_def
      TXIN_BASE_WEIGHT_def select_policy_def run_selection_def selection_result_def
      demo_selector_def demo_drain_def demo_met_def demo_sum_def DUST_OUTPUT_SATS_def nth_opt_def Let_def numeral_eval)
qed

lemma demo_sat_weight: "max_sat_weight demo_desc demo_d True = 100"
  by (simp add: max_sat_weight_def demo_desc_def varint_len_def)

lemma demo_built_sane:
  assumes coins: "a \<in> {1, 2, 3}" "b \<in> {1, 2, 3}" and f: "f \<in> {1, 2, 3}"
    and dust: "\<forall>s. poison = Some s \<longrightarrow> lib_minimal_non_dust demo_api s = 0"
  shows "sanity_check_psbt demo_api demo_desc demo_d (demo_built a b net n poison f) True = Inr ()"
proof -
  let ?psbt = "demo_built a b net n poison f" and ?outs = "map (coin_output demo_desc demo_d) (demo_coins a b)"
  have parts: "ps_inputs ?psbt = map (coin_psbt_in demo_desc demo_d demo_getter) (demo_coins a b)"
    "tx_input (ps_unsigned_tx ?psbt) = map coin_txin (demo_coins a b)"
    "tx_output (ps_unsigned_tx ?psbt) = poison_outputs poison @ [\<lparr>to_value = 200000 - f * 300, to_script = demo_script True n\<rparr>]"
    "length (ps_outputs ?psbt) = length (tx_output (ps_unsigned_tx ?psbt))"
    using f by (auto simp: built_psbt_def change_outputs_def demo_change_def address_script_def)
  have ins: "spends demo_api (zip (ps_inputs ?psbt) (tx_input (ps_unsigned_tx ?psbt))) ?outs"
    unfolding parts
    by (rule spends_coins) (use coins in \<open>simp add: demo_owned coin_psbt_in_def update_psbt_in_def del: One_nat_def\<close>)
  have total_in: "sum_list (map to_value ?outs) = 200000" unfolding sum_coin_outputs by simp
  have "value_out (ps_unsigned_tx ?psbt) = 200000 - f * 300"
    using f by (auto simp: value_out_def parts poison_outputs_def split: option.splits)
  then have money: "sum_list (map to_value ?outs) = value_out (ps_unsigned_tx ?psbt) + f * 300"
    "sum_list (map to_value ?outs) < 2 ^ 64" unfolding total_in using f by auto
  have "lib_tx_weight demo_api tx = 164 * length (tx_input tx) + 124 * length (tx_output tx) + 40" for tx
    by (simp add: demo_api_def)
  then have "\<exists>vb. unsigned_tx_max_vbytes demo_api demo_desc demo_d (ps_unsigned_tx ?psbt) True = Some vb \<and> vb \<in> {174, 205}"
    unfolding unsigned_tx_max_vbytes_def unsigned_tx_max_weight_def Let_def demo_sat_weight
    by (simp only: parts) (cases poison; simp add: poison_outputs_def coin_txin_def checked_add64_def)
  then obtain vb where vb: "unsigned_tx_max_vbytes demo_api demo_desc demo_d (ps_unsigned_tx ?psbt) True = Some vb"
    "vb \<in> {174, 205}" by blast
  have fee: "f * 300 \<le> MAX_FEE" "0 < vb" "vb \<le> f * 300" "f * 300 < (MAX_FEERATE + 1) * vb"
    using f vb(2) by (auto simp: MAX_FEE_def one_btc_def MAX_FEERATE_def)
  have "\<forall>txo \<in> set (tx_output (ps_unsigned_tx ?psbt)). lib_minimal_non_dust demo_api (to_script txo) \<le> to_value txo"
    using dust f by (auto simp: parts poison_outputs_def demo_api_def split: option.splits)
  moreover have "length (ps_inputs ?psbt) = length (tx_input (ps_unsigned_tx ?psbt))" "tx_output (ps_unsigned_tx ?psbt) \<noteq> []"
    by (simp_all add: parts)
  ultimately show ?thesis
    unfolding sanity_check_iff Let_def using parts(4) ins money vb(1) fee by blast
qed

lemma demo_sweep_ok:
  assumes coins: "a \<in> {1, 2, 3}" "b \<in> {1, 2, 3}" "a \<noteq> b" and f: "f \<in> {1, 2, 3}"
    and poison: "\<forall>s. poison = Some s \<longrightarrow> lib_minimal_non_dust demo_api s = 0 \<and> length s < 100"
  shows "create_spend_with_poison demo_selector demo_api demo_desc demo_d demo_getter [] (demo_coins a b) (Regular f)
      (demo_change net n) 0 poison =
    Inr \<lparr>cs_psbt = demo_built a b net n poison f, cs_has_change = True, cs_warnings = []\<rparr>"
proof -
  have out: "own_psbt_out demo_desc demo_d (so_info (demo_change net n)) = Inr (own_out demo_desc demo_d (so_info (demo_change net n)))"
    by (simp add: own_out_def own_psbt_out_def derive_def demo_change_def)
  have ins: "collect_res (spend_input demo_api demo_desc demo_d demo_getter) (demo_coins a b) =
      Inr (map (\<lambda>c. (coin_txin c, coin_psbt_in demo_desc demo_d demo_getter c)) (demo_coins a b))"
    unfolding collect_spend_input using coins by (simp add: demo_owned del: One_nat_def)
  have small: "sum_list (map (lib_txout_weight demo_api) (map fst (case poison of None \<Rightarrow> []
      | Some s \<Rightarrow> [(\<lparr>to_value = 0, to_script = s\<rparr>, psbt_out_default)]))) < 2 ^ 64"
    using poison by (auto simp: demo_api_def split: option.splits)
  have zero: "sum_list (map to_value (map fst (case poison of None \<Rightarrow> []
      | Some s \<Rightarrow> [(\<lparr>to_value = 0, to_script = s\<rparr>, psbt_out_default)]))) = 0"
    by (cases poison) simp_all
  have bounds: "a < 256" "b < 256" "\<not> f < 1" "\<not> 2 ^ 16 \<le> f" "500 \<le> 200000 - f * 300" using coins f by auto
  have value_ok: "check_output_value (200000 - f * 300) = Inr ()"
    using bounds by (simp add: check_output_value_iff DUST_OUTPUT_SATS_def max_money_def)
  have sane: "sanity_check_psbt demo_api demo_desc demo_d (demo_built a b net n poison f) True = Inr ()"
    using demo_built_sane [OF coins(1,2) f] poison by blast
  have sel: "select_coins_for_spend demo_selector demo_api (demo_coins a b)
      \<lparr>tx_version = 2, tx_lock_time = 0, tx_input = [], tx_output = map fst (case poison of None \<Rightarrow> []
      | Some s \<Rightarrow> [(\<lparr>to_value = 0, to_script = s\<rparr>, psbt_out_default)])\<rparr> txo f None 100 True True =
    Inr \<lparr>sr_selected = demo_coins a b, sr_change_amount = 200000 - f * 300,
      sr_max_change_amount = 200000 - f * 300, sr_fee_for_ancestors = 0\<rparr>" for txo
    by (rule demo_selection_sweep) (use coins(3) f small zero bounds in simp_all)
  have built: "demo_built a b net n poison f = \<lparr>ps_unsigned_tx = \<lparr>tx_version = 2, tx_lock_time = 0,
        tx_input = map coin_txin (demo_coins a b),
        tx_output = map fst (case poison of None \<Rightarrow> [] | Some s \<Rightarrow> [(\<lparr>to_value = 0, to_script = s\<rparr>, psbt_out_default)]) @
          [\<lparr>to_value = 200000 - f * 300, to_script = address_script (so_addr (demo_change net n))\<rparr>]\<rparr>,
      ps_version = 0, ps_xpub = [], ps_proprietary = [], ps_unknown = [],
      ps_inputs = map (coin_psbt_in demo_desc demo_d demo_getter) (demo_coins a b),
      ps_outputs = map snd (case poison of None \<Rightarrow> [] | Some s \<Rightarrow> [(\<lparr>to_value = 0, to_script = s\<rparr>, psbt_out_default)]) @
        [own_out demo_desc demo_d (so_info (demo_change net n))]\<rparr>"
    using f by (auto simp: built_psbt_def change_outputs_def poison_outputs_def split: option.splits)
  note ins' = ins [unfolded list.map]
  define v where "v = 200000 - f * 300"
  have "0 < v" using bounds by (simp add: v_def)
  moreover note sane [unfolded built, folded v_def] bounds
  ultimately show ?thesis
    unfolding create_spend_with_poison_def v_def [symmetric]
    by (simp add: demo_sat_weight built [folded v_def] sel [folded v_def] value_ok [folded v_def] out ins' Let_def
        del: collect_res.simps(2) One_nat_def)
qed

theorem create_spend_witness:
  "\<exists>selected fee. distinct (map cc_outpoint selected) \<and> demo_wallet_coin 1 \<in> set selected \<and>
     prevouts (ps_unsigned_tx (demo_built 1 2 Net_Bitcoin 9 (Some [0x6a]) 3)) = map cc_outpoint selected \<and>
     sum_list (map cc_amount selected) = 199100 + fee \<and> fee \<le> 100000000"
proof -
  let ?r = "\<lparr>cs_psbt = demo_built 1 2 Net_Bitcoin 9 (Some [0x6a]) 3, cs_has_change = True, cs_warnings = []\<rparr>"
  have run: "create_spend_with_poison demo_selector demo_api demo_desc demo_d demo_getter [] (demo_coins 1 2) (Regular 3)
      (demo_change Net_Bitcoin 9) 0 (Some [0x6a]) = Inr ?r"
    by (rule demo_sweep_ok) (simp_all add: demo_api_def)
  have outs: "sum_list (map to_value (tx_output (ps_unsigned_tx (cs_psbt ?r)))) = 199100"
    by (simp add: built_psbt_def poison_outputs_def change_outputs_def)
  then have "sum_list (map to_value (tx_output (ps_unsigned_tx (cs_psbt ?r)))) < 2 ^ 64" by simp
  from create_spend_sound [OF demo_selector_laws run this] outs obtain selected fee where
    "distinct (map cc_outpoint selected)" "\<forall>c \<in> set (demo_coins 1 2). cc_must_select c \<longrightarrow> c \<in> set selected"
    "prevouts (ps_unsigned_tx (cs_psbt ?r)) = map cc_outpoint selected"
    "sum_list (map cc_amount selected) = 199100 + fee" "fee \<le> 100000000"
    by (simp only:) blast
  then show ?thesis by (intro exI [of _ selected] exI [of _ fee]) simp
qed

end
