(* ===== verification/Ancestry.thy ===== *)
theory Ancestry
  imports Bitcoin_Types
begin

text \<open>
  \<open>coincube-core/src/claim_ancestry.rs\<close>: the structural verifier of a dependency path
  from a selected output to a coinbase.  \<open>verify\<close> is the source's two loops; the
  inductive predicate \<open>dep_path\<close> says what a dependency path is, independently of the
  order in which the code checks it.
\<close>

section \<open>Data\<close>

definition MAX_PATH_TRANSACTIONS :: nat where "MAX_PATH_TRANSACTIONS = 64"
definition MAX_TRANSACTION_BYTES :: nat where "MAX_TRANSACTION_BYTES = 400000"
definition MAX_PATH_BYTES :: nat where "MAX_PATH_BYTES = 4000000"

record link =
  lk_transaction :: bytes
  lk_parent_input :: "nat option"

datatype anc_error =
    InvalidSelection
  | PathLimit
  | ByteLimit
  | InvalidTransaction
  | WrongTransaction
  | InvalidOutput
  | InvalidInput
  | RepeatedTransaction
  | IncompletePath
  | InvalidTerminal
  | InvalidCoinbaseHeight
  | Panicked \<comment> \<open>not a variant of the source: an out-of-range index would panic here\<close>

record coinbase_dependency =
  cd_selected :: outpoint
  cd_root :: outpoint
  cd_coinbase :: transaction
  cd_txids :: "txid list"

section \<open>Operations\<close>

definition starts_with :: "bytes \<Rightarrow> bytes \<Rightarrow> bool" where
  "starts_with s p \<longleftrightarrow> take (length p) s = p"

definition check_height_commitment ::
  "btc_api \<Rightarrow> coinbase_dependency \<Rightarrow> nat \<Rightarrow> (anc_error, unit) res" where
  "check_height_commitment L dep height =
     guard_res (height > 2 ^ 31 - 1) InvalidCoinbaseHeight
       (case tx_input (cd_coinbase dep) of
          [] \<Rightarrow> Inl Panicked
        | inp # _ \<Rightarrow>
            (let script = ti_script_sig inp; expected = lib_push_int L height
             in guard_res (\<not> (2 \<le> length script \<and> length script \<le> 100) \<or> \<not> starts_with script expected)
                  InvalidCoinbaseHeight (Inr ())))"

fun check_bytes :: "nat \<Rightarrow> link list \<Rightarrow> (anc_error, unit) res" where
  "check_bytes n [] = Inr ()"
| "check_bytes n (l # ls) =
     bind_res (ok_or ByteLimit (checked_add64 n (length (lk_transaction l)))) (\<lambda>n'.
       guard_res (length (lk_transaction l) > MAX_TRANSACTION_BYTES \<or> n' > MAX_PATH_BYTES) ByteLimit
         (check_bytes n' ls))"

fun verify_links ::
  "btc_api \<Rightarrow> outpoint \<Rightarrow> outpoint \<Rightarrow> txid set \<Rightarrow> txid list \<Rightarrow> link list \<Rightarrow>
   (anc_error, coinbase_dependency) res" where
  "verify_links L selected expected seen txids [] = Inl IncompletePath"
| "verify_links L selected expected seen txids (l # ls) =
     bind_res (ok_or InvalidTransaction (lib_deserialize L (lk_transaction l))) (\<lambda>tx.
     let txid = lib_txid L tx in
     guard_res (txid \<in> seen) RepeatedTransaction
     (guard_res (txid \<noteq> op_txid expected) WrongTransaction
     (guard_res (nth_opt (tx_output tx) (op_vout expected) = None) InvalidOutput
     (if lib_is_coinbase L tx then
        guard_res (lk_parent_input l \<noteq> None \<or> ls \<noteq> []) InvalidTerminal
          (Inr \<lparr>cd_selected = selected, cd_root = expected, cd_coinbase = tx, cd_txids = txids @ [txid]\<rparr>)
      else
        bind_res (ok_or IncompletePath (lk_parent_input l)) (\<lambda>input.
        bind_res (ok_or InvalidInput (nth_opt (tx_input tx) input)) (\<lambda>inp.
        guard_res (lib_is_null L (ti_prev inp)) InvalidInput
          (verify_links L selected (ti_prev inp) (insert txid seen) (txids @ [txid]) ls)))))))"

definition verify :: "btc_api \<Rightarrow> outpoint \<Rightarrow> link list \<Rightarrow> (anc_error, coinbase_dependency) res" where
  "verify L selected links =
     guard_res (lib_is_null L selected) InvalidSelection
     (guard_res (links = [] \<or> length links > MAX_PATH_TRANSACTIONS) PathLimit
     (bind_res (check_bytes 0 links) (\<lambda>_.
        verify_links L selected selected {} [] links)))"

section \<open>What a dependency path is\<close>

text \<open>
  \<open>dep_path L p links txs root cb\<close>: \<open>links\<close> decode to \<open>txs\<close>; the first pays the
  outpoint \<open>p\<close>; each but the last is no coinbase and names one of its inputs, whose
  previous output the next pays; the last is the coinbase \<open>cb\<close>, paying \<open>root\<close>.
\<close>

inductive dep_path ::
  "btc_api \<Rightarrow> outpoint \<Rightarrow> link list \<Rightarrow> transaction list \<Rightarrow> outpoint \<Rightarrow> transaction \<Rightarrow> bool"
  for L :: btc_api where
  coinbase:
    "\<lbrakk>lib_deserialize L raw = Some tx; lib_txid L tx = op_txid p; op_vout p < length (tx_output tx);
      lib_is_coinbase L tx\<rbrakk>
     \<Longrightarrow> dep_path L p [\<lparr>lk_transaction = raw, lk_parent_input = None\<rparr>] [tx] p tx"
| spend:
    "\<lbrakk>lib_deserialize L raw = Some tx; lib_txid L tx = op_txid p; op_vout p < length (tx_output tx);
      \<not> lib_is_coinbase L tx; i < length (tx_input tx); q = ti_prev (tx_input tx ! i);
      \<not> lib_is_null L q; dep_path L q ls txs root cb\<rbrakk>
     \<Longrightarrow> dep_path L p (\<lparr>lk_transaction = raw, lk_parent_input = Some i\<rparr> # ls) (tx # txs) root cb"

inductive_cases dep_path_NilE: "dep_path L p [] txs root cb"
inductive_cases dep_path_ConsE: "dep_path L p (l # ls) txs root cb"

lemma dep_path_length: "dep_path L p ls txs root cb \<Longrightarrow> length txs = length ls \<and> ls \<noteq> []"
  by (induction rule: dep_path.induct) auto

lemma dep_path_coinbase: "dep_path L p ls txs root cb \<Longrightarrow> last txs = cb \<and> lib_is_coinbase L cb"
  by (induction rule: dep_path.induct) (auto dest: dep_path_length)

text \<open>The verifying loop computes exactly the distinct dependency paths.\<close>

lemma link_eq_iff: "l = \<lparr>lk_transaction = r, lk_parent_input = i\<rparr> \<longleftrightarrow>
    lk_transaction l = r \<and> lk_parent_input l = i"
  by (cases l) auto

lemma verify_links_iff:
  "verify_links L selected p seen acc links = Inr dep \<longleftrightarrow>
     (\<exists>txs. dep_path L p links txs (cd_root dep) (cd_coinbase dep) \<and>
        distinct (map (lib_txid L) txs) \<and> set (map (lib_txid L) txs) \<inter> seen = {} \<and>
        cd_txids dep = acc @ map (lib_txid L) txs \<and> cd_selected dep = selected)"
proof (induction links arbitrary: p seen acc)
  case Nil
  show ?case by (auto elim: dep_path_NilE)
next
  case (Cons l ls)
  show ?case (is "?run \<longleftrightarrow> ?spec")
  proof
    assume ?run
    then obtain tx where tx: "lib_deserialize L (lk_transaction l) = Some tx"
      and fresh: "lib_txid L tx \<notin> seen" and id: "lib_txid L tx = op_txid p"
      and out: "op_vout p < length (tx_output tx)"
      by (auto simp: res_rules Let_def nth_opt_None)
    note facts = tx fresh id out
    show ?spec
    proof (cases "lib_is_coinbase L tx")
      case True
      with \<open>?run\<close> facts have l: "l = \<lparr>lk_transaction = lk_transaction l, lk_parent_input = None\<rparr>" "ls = []"
        and dep: "dep = \<lparr>cd_selected = selected, cd_root = p, cd_coinbase = tx, cd_txids = acc @ [lib_txid L tx]\<rparr>"
        by (auto simp: res_rules nth_opt_def)
      have "dep_path L p [l] [tx] p tx"
        by (subst l(1)) (rule dep_path.coinbase [OF tx id out True])
      with l(2) dep fresh show ?thesis by (intro exI [of _ "[tx]"]) simp
    next
      case False
      with \<open>?run\<close> facts obtain i where i: "lk_parent_input l = Some i" "i < length (tx_input tx)"
        "\<not> lib_is_null L (ti_prev (tx_input tx ! i))"
        and run: "verify_links L selected (ti_prev (tx_input tx ! i)) (insert (lib_txid L tx) seen)
          (acc @ [lib_txid L tx]) ls = Inr dep"
        by (auto simp: res_rules nth_opt_def Let_def split: if_splits)
      from Cons.IH [THEN iffD1, OF run] obtain txs
        where path: "dep_path L (ti_prev (tx_input tx ! i)) ls txs (cd_root dep) (cd_coinbase dep)"
        and more: "distinct (map (lib_txid L) txs)"
          "set (map (lib_txid L) txs) \<inter> insert (lib_txid L tx) seen = {}"
          "cd_txids dep = (acc @ [lib_txid L tx]) @ map (lib_txid L) txs" "cd_selected dep = selected"
        by blast
      have "l = \<lparr>lk_transaction = lk_transaction l, lk_parent_input = Some i\<rparr>"
        using i(1) by (simp add: link_eq_iff)
      then have "dep_path L p (l # ls) (tx # txs) (cd_root dep) (cd_coinbase dep)"
        using dep_path.spend [OF tx id out False i(2) refl i(3) path] by simp
      with more fresh show ?thesis by (intro exI [of _ "tx # txs"]) auto
    qed
  next
    assume ?spec
    then obtain txs where path: "dep_path L p (l # ls) txs (cd_root dep) (cd_coinbase dep)"
      and more: "distinct (map (lib_txid L) txs)" "set (map (lib_txid L) txs) \<inter> seen = {}"
        "cd_txids dep = acc @ map (lib_txid L) txs" "cd_selected dep = selected" by blast
    from path show ?run
    proof (cases rule: dep_path.cases)
      case (coinbase raw)
      with more show ?thesis by (cases dep) (simp add: nth_opt_def)
    next
      case (spend raw tx i txs')
      then have "verify_links L selected (ti_prev (tx_input tx ! i)) (insert (lib_txid L tx) seen) (acc @ [lib_txid L tx]) ls = Inr dep"
        using more by (intro Cons.IH [THEN iffD2]) (auto intro!: exI [of _ txs'])
      with spend more show ?thesis by (simp add: nth_opt_def Let_def)
    qed
  qed
qed

lemma check_bytes_iff:
  "check_bytes n links = Inr () \<longleftrightarrow>
     (\<forall>l \<in> set links. length (lk_transaction l) \<le> MAX_TRANSACTION_BYTES) \<and>
     (links \<noteq> [] \<longrightarrow> n + (\<Sum>l \<leftarrow> links. length (lk_transaction l)) \<le> MAX_PATH_BYTES)"
proof (induction links arbitrary: n)
  case (Cons l ls)
  have small: "m \<le> MAX_PATH_BYTES \<Longrightarrow> m < 2 ^ 64" for m
    by (simp add: MAX_PATH_BYTES_def)
  have step: "check_bytes n (l # ls) = Inr () \<longleftrightarrow>
      length (lk_transaction l) \<le> MAX_TRANSACTION_BYTES \<and> n + length (lk_transaction l) \<le> MAX_PATH_BYTES \<and>
      check_bytes (n + length (lk_transaction l)) ls = Inr ()"
    by (auto simp: res_rules dest: small)
  show ?case unfolding step Cons.IH by (cases "ls = []") auto
qed simp

lemma verify_iff:
  "verify L selected links = Inr dep \<longleftrightarrow>
     \<not> lib_is_null L selected \<and> length links \<le> MAX_PATH_TRANSACTIONS \<and>
     (\<forall>l \<in> set links. length (lk_transaction l) \<le> MAX_TRANSACTION_BYTES) \<and>
     (\<Sum>l \<leftarrow> links. length (lk_transaction l)) \<le> MAX_PATH_BYTES \<and>
     (\<exists>txs. dep_path L selected links txs (cd_root dep) (cd_coinbase dep) \<and>
        distinct (map (lib_txid L) txs) \<and> cd_txids dep = map (lib_txid L) txs) \<and>
     cd_selected dep = selected"
  by (auto simp: verify_def res_rules verify_links_iff check_bytes_iff dest: dep_path_length)

lemma check_height_commitment_iff:
  "check_height_commitment L dep height = Inr () \<longleftrightarrow>
     height < 2 ^ 31 \<and>
     (\<exists>inp rest tail. tx_input (cd_coinbase dep) = inp # rest \<and>
        ti_script_sig inp = lib_push_int L height @ tail \<and>
        2 \<le> length (ti_script_sig inp) \<and> length (ti_script_sig inp) \<le> 100)"
proof -
  have pre: "starts_with s p \<longleftrightarrow> (\<exists>t. s = p @ t)" for s p
    unfolding starts_with_def by (metis append_eq_conv_conj append_take_drop_id)
  show ?thesis
    by (auto simp: check_height_commitment_def res_rules pre Let_def split: list.splits)
qed

section \<open>Examples\<close>

definition demo_coinbase :: transaction where
  "demo_coinbase = \<lparr>tx_version = 2, tx_lock_time = 2,
     tx_input = [\<lparr>ti_prev = OutPoint (replicate 32 0) (2 ^ 32 - 1), ti_script_sig = [1, 5, 0],
                  ti_sequence = 0, ti_witness = []\<rparr>],
     tx_output = [\<lparr>to_value = 50, to_script = [1]\<rparr>]\<rparr>"

definition demo_spend :: transaction where
  "demo_spend = \<lparr>tx_version = 2, tx_lock_time = 1,
     tx_input = [\<lparr>ti_prev = OutPoint (demo_txid demo_coinbase) 0, ti_script_sig = [],
                  ti_sequence = 0, ti_witness = []\<rparr>],
     tx_output = [\<lparr>to_value = 40, to_script = [1]\<rparr>]\<rparr>"

definition path_api :: btc_api where
  "path_api = demo_api\<lparr>lib_deserialize :=
     (\<lambda>bs. if bs = [1] then Some demo_spend else if bs = [2] then Some demo_coinbase else None)\<rparr>"

definition demo_links :: "link list" where
  "demo_links = [\<lparr>lk_transaction = [1], lk_parent_input = Some 0\<rparr>, \<lparr>lk_transaction = [2], lk_parent_input = None\<rparr>]"

lemmas demo_path_defs = path_api_def demo_api_def demo_spend_def demo_coinbase_def demo_links_def
  demo_txid_def

lemma demo_dep_path:
  "dep_path path_api (OutPoint (demo_txid demo_spend) 0) demo_links [demo_spend, demo_coinbase]
     (OutPoint (demo_txid demo_coinbase) 0) demo_coinbase"
  unfolding demo_links_def
  by (rule dep_path.spend [where q = "OutPoint (demo_txid demo_coinbase) 0"];
      (rule dep_path.coinbase)?)
    (simp_all add: demo_path_defs numeral_eval)

text \<open>
  C15.  \<open>verify\<close> accepts exactly the bounded dependency paths: the selection is not null,
  at most 64 links of at most 400,000 bytes each and 4,000,000 together, which decode to
  pairwise distinct transactions forming a path from the selected output to a coinbase; the
  reported root, coinbase and identifiers are those of that path.
\<close>

theorem verify_exact:
  "verify L selected links = Inr dep \<longleftrightarrow>
     \<not> lib_is_null L selected \<and> length links \<le> 64 \<and>
     (\<forall>l \<in> set links. length (lk_transaction l) \<le> 400000) \<and>
     (\<Sum>l \<leftarrow> links. length (lk_transaction l)) \<le> 4000000 \<and>
     cd_selected dep = selected \<and>
     (\<exists>txs. dep_path L selected links txs (cd_root dep) (cd_coinbase dep) \<and>
        distinct (map (lib_txid L) txs) \<and> cd_txids dep = map (lib_txid L) txs)"
  by (auto simp: verify_iff MAX_PATH_TRANSACTIONS_def MAX_TRANSACTION_BYTES_def MAX_PATH_BYTES_def)

theorem verify_exact_witness:
  "verify path_api (OutPoint (demo_txid demo_spend) 0) demo_links =
     Inr \<lparr>cd_selected = OutPoint (demo_txid demo_spend) 0, cd_root = OutPoint (demo_txid demo_coinbase) 0,
          cd_coinbase = demo_coinbase, cd_txids = [demo_txid demo_spend, demo_txid demo_coinbase]\<rparr>"
proof -
  have "\<exists>txs. dep_path path_api (OutPoint (demo_txid demo_spend) 0) demo_links txs
       (OutPoint (demo_txid demo_coinbase) 0) demo_coinbase \<and>
     distinct (map (lib_txid path_api) txs) \<and>
     [demo_txid demo_spend, demo_txid demo_coinbase] = map (lib_txid path_api) txs"
    using demo_dep_path by (intro exI [of _ "[demo_spend, demo_coinbase]"])
      (simp add: demo_path_defs numeral_eval)
  then show ?thesis
    by (subst verify_exact) (simp add: demo_path_defs numeral_eval)
qed

end
