(* ===== verification/Claim.thy ===== *)
theory Claim
  imports Bitcoin_Types Chain
begin

text \<open>
  \<open>coincube-core/src/claim.rs\<close>: the assessment of supplied chain observations before a
  claim's second step may go to preflight.  The observations are records, the verdicts a
  datatype, and \<open>assess\<close> is the source's sequence of early returns.  Timestamps are
  signed 64-bit integers and heights unsigned 64-bit ones; the two checked subtractions and
  the checked additions are written out.
\<close>

section \<open>Data\<close>

definition MIN_CONFIRMATIONS :: nat where "MIN_CONFIRMATIONS = 6"

record block_ref =
  br_height :: nat
  br_hash :: block_hash

datatype poison = OpReturn | InputAncestry

record claim_plan =
  cp_bitcoin_chain :: chain_id
  cp_fork_chain :: chain_id
  cp_step1 :: transaction
  cp_claimed_prevouts :: "outpoint list"
  cp_poison :: poison
  cp_previous_confirmation :: "block_ref option"
  cp_tracked_txid :: "txid option"

definition step1_txid :: "btc_api \<Rightarrow> claim_plan \<Rightarrow> txid" where
  "step1_txid L plan =
     (case cp_tracked_txid plan of Some t \<Rightarrow> t | None \<Rightarrow> lib_txid L (cp_step1 plan))"

datatype deployment_state =
    Unconfigured
  | ConfigurationError
  | Unavailable
  | RpcUnavailable
  | Malformed
  | ForkAbsent
  | ForkInactive
  | RdtsAbsent
  | RdtsUnsupported
  | Flagday (fd_height: nat) (fd_expiry_time: int) (fd_active: bool)

record deployment_observation =
  do_chain :: chain_id
  do_tip :: block_ref
  do_state :: deployment_state
  do_observed_at :: int

datatype fork_presence = PresenceUnknown | Present | NotObserved

record fork_observation =
  fo_chain :: chain_id
  fo_step1_txid :: txid
  fo_step1_presence :: fork_presence
  fo_tip :: block_ref
  fo_median_time_past :: int
  fo_observed_at :: int

datatype transaction_location =
    LocationUnknown
  | LocationUnconfirmed
  | LocationConfirmed (loc_txid: txid) (loc_block: block_ref) (loc_best_hash: block_hash)

record bitcoin_observation =
  bo_chain :: chain_id
  bo_tip :: block_ref
  bo_location :: transaction_location
  bo_observed_at :: int

record policy =
  max_observation_age_seconds :: int
  expiry_margin_seconds :: int

record preflight_tips =
  pt_bitcoin :: block_ref
  pt_fork :: block_ref

datatype assessment =
    InvalidPlan
  | WrongChain
  | AssessUnknown
  | StaleObservation
  | Deployment deployment_state
  | RdtsScheduled
  | RdtsInactive
  | RdtsExpired
  | ExpiryMargin
  | InputProofUnsupported
  | PoisonMissing
  | Step1AlreadyOnFork
  | WaitingForConfirmation
  | WaitingForDepth nat
  | AssessReorged
  | NeedsPreflightRecheck
  | ObservationsEligibleForPreflight

section \<open>Operations\<close>

definition fresh :: "int \<Rightarrow> int \<Rightarrow> int \<Rightarrow> bool" where
  "fresh observed_at now max_age \<longleftrightarrow>
     observed_at \<ge> 0 \<and>
     (case checked_sub_i64 now observed_at of
        None \<Rightarrow> False
      | Some age \<Rightarrow> age \<ge> 0 \<and> age \<le> max_age)"

definition assess_deployment ::
  "fork_observation \<Rightarrow> deployment_observation \<Rightarrow> policy \<Rightarrow> (assessment, unit) res" where
  "assess_deployment fork deployment pol =
     (if expiry_margin_seconds pol \<le> 0 then Inl InvalidPlan
      else case do_state deployment of
        Flagday height expiry_time active \<Rightarrow>
          (case checked_add64 (br_height (fo_tip fork)) 1 of
             None \<Rightarrow> Inl AssessUnknown
           | Some next_height \<Rightarrow>
               if expiry_time \<le> 0 \<or>
                  (active \<and> (next_height < height \<or> fo_median_time_past fork \<ge> expiry_time))
               then Inl (Deployment Malformed)
               else if \<not> active then
                 Inl (if fo_median_time_past fork \<ge> expiry_time then RdtsExpired
                      else if next_height < height then RdtsScheduled
                      else RdtsInactive)
               else if (case checked_sub_i64 expiry_time (fo_median_time_past fork) of
                          None \<Rightarrow> True
                        | Some remaining \<Rightarrow> remaining \<le> expiry_margin_seconds pol)
               then Inl ExpiryMargin
               else Inr ())
      | state \<Rightarrow> Inl (Deployment state))"

datatype bitcoin_confirmation_t =
    ConfUnknown
  | ConfUnconfirmed
  | ConfReorged
  | ConfConfirmed (confirmations: nat)

definition bitcoin_confirmation ::
  "txid \<Rightarrow> block_ref option \<Rightarrow> bitcoin_observation \<Rightarrow> bitcoin_confirmation_t" where
  "bitcoin_confirmation expected_txid previous bitcoin =
     (case bo_location bitcoin of
        LocationUnknown \<Rightarrow> ConfUnknown
      | LocationUnconfirmed \<Rightarrow>
          (if previous \<noteq> None then ConfReorged else ConfUnconfirmed)
      | LocationConfirmed txid block best_hash \<Rightarrow>
          if txid \<noteq> expected_txid then ConfUnknown
          else if br_hash block \<noteq> best_hash \<or>
                  (case previous of None \<Rightarrow> False | Some p \<Rightarrow> p \<noteq> block)
          then ConfReorged
          else case Option.bind (checked_sub (br_height (bo_tip bitcoin)) (br_height block))
                      (\<lambda>d. checked_add64 d 1) of
                 Some c \<Rightarrow> ConfConfirmed c
               | None \<Rightarrow> ConfUnknown)"

definition plan_invalid :: "btc_api \<Rightarrow> claim_plan \<Rightarrow> policy \<Rightarrow> bool" where
  "plan_invalid L plan pol \<longleftrightarrow>
     (let claimed = set (cp_claimed_prevouts plan);
          actual = set (prevouts (cp_step1 plan))
      in claimed = {} \<or>
         card claimed \<noteq> length (cp_claimed_prevouts plan) \<or>
         card actual \<noteq> length (tx_input (cp_step1 plan)) \<or>
         \<not> claimed \<subseteq> actual \<or>
         list_ex (lib_is_null L) (prevouts (cp_step1 plan)) \<or>
         tx_output (cp_step1 plan) = [] \<or>
         max_observation_age_seconds pol \<le> 0 \<or>
         (cp_poison plan \<noteq> InputAncestry \<and> expiry_margin_seconds pol \<le> 0))"

definition carries_poison :: "btc_api \<Rightarrow> transaction \<Rightarrow> bool" where
  "carries_poison L tx \<longleftrightarrow>
     list_ex (\<lambda>out. lib_is_op_return L (to_script out) \<and> length (to_script out) > 83) (tx_output tx)"

definition assess ::
  "btc_api \<Rightarrow> claim_plan \<Rightarrow> bitcoin_observation \<Rightarrow> fork_observation \<Rightarrow> deployment_observation \<Rightarrow>
   policy \<Rightarrow> int \<Rightarrow> preflight_tips option \<Rightarrow> assessment" where
  "assess L plan bitcoin fork deployment pol now preflight =
     (if \<not> fork_pair (cp_bitcoin_chain plan) (cp_fork_chain plan) \<or>
         bo_chain bitcoin \<noteq> cp_bitcoin_chain plan \<or>
         fo_chain fork \<noteq> cp_fork_chain plan \<or>
         do_chain deployment \<noteq> cp_fork_chain plan
      then WrongChain
      else if plan_invalid L plan pol then InvalidPlan
      else if \<not> fresh (bo_observed_at bitcoin) now (max_observation_age_seconds pol) \<or>
              \<not> fresh (fo_observed_at fork) now (max_observation_age_seconds pol) \<or>
              \<not> fresh (do_observed_at deployment) now (max_observation_age_seconds pol)
      then StaleObservation
      else if fo_tip fork \<noteq> do_tip deployment \<or> fo_median_time_past fork < 0 then AssessUnknown
      else if cp_poison plan = InputAncestry then InputProofUnsupported
      else if \<not> carries_poison L (cp_step1 plan) then PoisonMissing
      else if fo_step1_txid fork \<noteq> step1_txid L plan then AssessUnknown
      else case fo_step1_presence fork of
        PresenceUnknown \<Rightarrow> AssessUnknown
      | Present \<Rightarrow> Step1AlreadyOnFork
      | NotObserved \<Rightarrow>
         (case assess_deployment fork deployment pol of
            Inl refused \<Rightarrow> refused
          | Inr _ \<Rightarrow>
             (case bitcoin_confirmation (step1_txid L plan) (cp_previous_confirmation plan) bitcoin of
                ConfUnknown \<Rightarrow> AssessUnknown
              | ConfUnconfirmed \<Rightarrow> WaitingForConfirmation
              | ConfReorged \<Rightarrow> AssessReorged
              | ConfConfirmed c \<Rightarrow>
                  if c < MIN_CONFIRMATIONS then WaitingForDepth c
                  else if \<not> (case preflight of
                               None \<Rightarrow> False
                             | Some tips \<Rightarrow> pt_bitcoin tips = bo_tip bitcoin \<and> pt_fork tips = fo_tip fork)
                  then NeedsPreflightRecheck
                  else ObservationsEligibleForPreflight)))"

section \<open>Properties\<close>

lemma fresh_iff:
  assumes "now < 2 ^ 63"
  shows "fresh t now age \<longleftrightarrow> 0 \<le> t \<and> t \<le> now \<and> now - t \<le> age"
  using assms by (auto simp: fresh_def checked_sub_i64_def split: option.splits)

lemma assess_deployment_ok_iff:
  assumes "0 \<le> fo_median_time_past fork"
    and "\<forall>h e a. do_state d = Flagday h e a \<longrightarrow> e < 2 ^ 63"
  shows "assess_deployment fork d pol = Inr () \<longleftrightarrow>
     0 < expiry_margin_seconds pol \<and>
     (\<exists>h e. do_state d = Flagday h e True \<and> br_height (fo_tip fork) + 1 < 2 ^ 64 \<and>
        h \<le> br_height (fo_tip fork) + 1 \<and>
        fo_median_time_past fork + expiry_margin_seconds pol < e)"
proof (cases "do_state d")
  case (Flagday h e a)
  with assms(2) have "e < 2 ^ 63" by blast
  with Flagday assms(1) show ?thesis
    by (auto simp: assess_deployment_def checked_add64_def checked_sub_i64_def
        split: option.splits if_splits)
qed (auto simp: assess_deployment_def)

lemma bitcoin_confirmation_confirmed_iff:
  "bitcoin_confirmation t previous bitcoin = ConfConfirmed c \<longleftrightarrow>
     (\<exists>block. bo_location bitcoin = LocationConfirmed t block (br_hash block) \<and>
        (\<forall>p. previous = Some p \<longrightarrow> p = block) \<and>
        br_height block \<le> br_height (bo_tip bitcoin) \<and>
        c = br_height (bo_tip bitcoin) - br_height block + 1 \<and> c < 2 ^ 64)"
  by (auto simp: bitcoin_confirmation_def checked_sub_def checked_add64_def
      split: transaction_location.splits option.splits if_splits)

lemma plan_valid_iff:
  "\<not> plan_invalid L plan pol \<longleftrightarrow>
     cp_claimed_prevouts plan \<noteq> [] \<and> distinct (cp_claimed_prevouts plan) \<and>
     distinct (prevouts (cp_step1 plan)) \<and>
     set (cp_claimed_prevouts plan) \<subseteq> set (prevouts (cp_step1 plan)) \<and>
     (\<forall>p \<in> set (prevouts (cp_step1 plan)). \<not> lib_is_null L p) \<and>
     tx_output (cp_step1 plan) \<noteq> [] \<and> 0 < max_observation_age_seconds pol \<and>
     (cp_poison plan = OpReturn \<longrightarrow> 0 < expiry_margin_seconds pol)"
proof -
  have "length (tx_input (cp_step1 plan)) = length (prevouts (cp_step1 plan))"
    by (simp add: prevouts_def)
  moreover have "cp_poison plan \<noteq> InputAncestry \<longleftrightarrow> cp_poison plan = OpReturn"
    by (cases "cp_poison plan") auto
  ultimately show ?thesis
    unfolding plan_invalid_def Let_def
    by (auto simp: card_set_eq_length_iff list_ex_iff)
qed

lemma carries_poison_iff:
  "carries_poison L tx \<longleftrightarrow>
     (\<exists>out \<in> set (tx_output tx). lib_is_op_return L (to_script out) \<and> 83 < length (to_script out))"
  by (auto simp: carries_poison_def list_ex_iff)

lemma assess_reaches_eligible:
  "assess L plan bitcoin fork d pol now preflight = ObservationsEligibleForPreflight \<longleftrightarrow>
     fork_pair (cp_bitcoin_chain plan) (cp_fork_chain plan) \<and>
     bo_chain bitcoin = cp_bitcoin_chain plan \<and> fo_chain fork = cp_fork_chain plan \<and>
     do_chain d = cp_fork_chain plan \<and> \<not> plan_invalid L plan pol \<and>
     fresh (bo_observed_at bitcoin) now (max_observation_age_seconds pol) \<and>
     fresh (fo_observed_at fork) now (max_observation_age_seconds pol) \<and>
     fresh (do_observed_at d) now (max_observation_age_seconds pol) \<and>
     fo_tip fork = do_tip d \<and> 0 \<le> fo_median_time_past fork \<and>
     cp_poison plan = OpReturn \<and> carries_poison L (cp_step1 plan) \<and>
     fo_step1_txid fork = step1_txid L plan \<and> fo_step1_presence fork = NotObserved \<and>
     assess_deployment fork d pol = Inr () \<and>
     (\<exists>c. bitcoin_confirmation (step1_txid L plan) (cp_previous_confirmation plan) bitcoin =
            ConfConfirmed c \<and> MIN_CONFIRMATIONS \<le> c) \<and>
     preflight = Some \<lparr>pt_bitcoin = bo_tip bitcoin, pt_fork = fo_tip fork\<rparr>"
proof -
  have refused: "assess_deployment fork d pol \<noteq> Inl ObservationsEligibleForPreflight"
    by (auto simp: assess_deployment_def split: deployment_state.splits option.splits)
  have tips: "(case preflight of None \<Rightarrow> False
       | Some tips \<Rightarrow> pt_bitcoin tips = bo_tip bitcoin \<and> pt_fork tips = fo_tip fork) \<longleftrightarrow>
     preflight = Some \<lparr>pt_bitcoin = bo_tip bitcoin, pt_fork = fo_tip fork\<rparr>"
    by (auto split: option.splits)
  show ?thesis
    unfolding assess_def tips
    using refused
    by (auto split: fork_presence.splits sum.splits bitcoin_confirmation_t.splits poison.splits
        if_splits; cases "cp_poison plan"; simp)
qed

lemma bitcoin_confirmation_reorged_iff:
  "bitcoin_confirmation t previous bitcoin = ConfReorged \<longleftrightarrow>
     (bo_location bitcoin = LocationUnconfirmed \<and> previous \<noteq> None) \<or>
     (\<exists>block best. bo_location bitcoin = LocationConfirmed t block best \<and>
        (br_hash block \<noteq> best \<or> (\<exists>p. previous = Some p \<and> p \<noteq> block)))"
  by (auto simp: bitcoin_confirmation_def split: transaction_location.splits option.splits if_splits)

text \<open>
  C1.  The verdict "eligible for preflight" is given exactly when every condition of the
  claim holds at once: matching chain pair on all three observations; distinct, non-null
  inputs that contain the nonempty, distinct claimed outpoints; all three observations no
  older than the policy allows; the fork observation and the deployment observation at the
  same tip; step 1 carries an \<open>OP_RETURN\<close> output over the fork's 83-byte limit and is not
  observed on the fork; the deployment is active for the next block with more than the
  margin left before expiry, measured on the fork's median time; step 1 is at least six
  deep on Bitcoin's best chain in the block recorded before, if any; and the fresh tips equal
  the observed ones.  No checked operation of the code changes this reading within the
  64-bit ranges of its types.
\<close>

theorem assess_eligible_iff:
  assumes now: "now < 2 ^ 63"
    and expiry: "\<forall>h e a. do_state d = Flagday h e a \<longrightarrow> e < 2 ^ 63"
  shows "assess L plan bitcoin fork d pol now preflight = ObservationsEligibleForPreflight \<longleftrightarrow>
     fork_pair (cp_bitcoin_chain plan) (cp_fork_chain plan) \<and>
     bo_chain bitcoin = cp_bitcoin_chain plan \<and>
     fo_chain fork = cp_fork_chain plan \<and> do_chain d = cp_fork_chain plan \<and>
     cp_claimed_prevouts plan \<noteq> [] \<and> distinct (cp_claimed_prevouts plan) \<and>
     distinct (prevouts (cp_step1 plan)) \<and>
     set (cp_claimed_prevouts plan) \<subseteq> set (prevouts (cp_step1 plan)) \<and>
     (\<forall>p \<in> set (prevouts (cp_step1 plan)). \<not> lib_is_null L p) \<and>
     (\<forall>t \<in> {bo_observed_at bitcoin, fo_observed_at fork, do_observed_at d}.
        0 \<le> t \<and> t \<le> now \<and> now - t \<le> max_observation_age_seconds pol) \<and>
     0 < max_observation_age_seconds pol \<and>
     fo_tip fork = do_tip d \<and> 0 \<le> fo_median_time_past fork \<and> cp_poison plan = OpReturn \<and>
     (\<exists>out \<in> set (tx_output (cp_step1 plan)).
        lib_is_op_return L (to_script out) \<and> 83 < length (to_script out)) \<and>
     fo_step1_txid fork = step1_txid L plan \<and> fo_step1_presence fork = NotObserved \<and>
     0 < expiry_margin_seconds pol \<and>
     (\<exists>h e. do_state d = Flagday h e True \<and> br_height (fo_tip fork) + 1 < 2 ^ 64 \<and>
        h \<le> br_height (fo_tip fork) + 1 \<and>
        fo_median_time_past fork + expiry_margin_seconds pol < e) \<and>
     (\<exists>block. bo_location bitcoin = LocationConfirmed (step1_txid L plan) block (br_hash block) \<and>
        (\<forall>p. cp_previous_confirmation plan = Some p \<longrightarrow> p = block) \<and>
        br_height block + 5 \<le> br_height (bo_tip bitcoin) \<and>
        br_height (bo_tip bitcoin) - br_height block + 1 < 2 ^ 64) \<and>
     preflight = Some \<lparr>pt_bitcoin = bo_tip bitcoin, pt_fork = fo_tip fork\<rparr>"
    (is "?eligible \<longleftrightarrow> ?spec")
proof -
  have depth: "(\<exists>c. bitcoin_confirmation t prev bitcoin = ConfConfirmed c \<and> MIN_CONFIRMATIONS \<le> c) \<longleftrightarrow>
    (\<exists>block. bo_location bitcoin = LocationConfirmed t block (br_hash block) \<and>
        (\<forall>p. prev = Some p \<longrightarrow> p = block) \<and>
        br_height block + 5 \<le> br_height (bo_tip bitcoin) \<and>
        br_height (bo_tip bitcoin) - br_height block + 1 < 2 ^ 64)" for t prev
    unfolding bitcoin_confirmation_confirmed_iff MIN_CONFIRMATIONS_def by fastforce
  have outs: "carries_poison L tx \<Longrightarrow> tx_output tx \<noteq> []" for tx
    by (auto simp: carries_poison_iff)
  show ?thesis
  proof (cases "0 \<le> fo_median_time_past fork")
    case True
    note gate = assess_deployment_ok_iff [OF True expiry]
    show ?thesis
      unfolding assess_reaches_eligible plan_valid_iff fresh_iff [OF now] depth gate
      using outs [of "cp_step1 plan"] by (auto simp: carries_poison_iff)
  next
    case False
    then show ?thesis unfolding assess_reaches_eligible by simp
  qed
qed

definition demo_step1 :: transaction where
  "demo_step1 = \<lparr>tx_version = 2, tx_lock_time = 7,
     tx_input = [\<lparr>ti_prev = OutPoint (replicate 32 1) 0, ti_script_sig = [], ti_sequence = 0, ti_witness = []\<rparr>],
     tx_output = [\<lparr>to_value = 0, to_script = 0x6a # replicate 89 0\<rparr>]\<rparr>"

definition demo_plan :: claim_plan where
  "demo_plan = \<lparr>cp_bitcoin_chain = Bitcoin, cp_fork_chain = BitcoinBlake2b, cp_step1 = demo_step1,
     cp_claimed_prevouts = [OutPoint (replicate 32 1) 0], cp_poison = OpReturn,
     cp_previous_confirmation = None, cp_tracked_txid = Some [9]\<rparr>"

theorem assess_eligible_witness:
  "assess demo_api demo_plan
     \<lparr>bo_chain = Bitcoin, bo_tip = \<lparr>br_height = 105, br_hash = [2]\<rparr>,
      bo_location = LocationConfirmed [9] \<lparr>br_height = 100, br_hash = [1]\<rparr> [1], bo_observed_at = 50\<rparr>
     \<lparr>fo_chain = BitcoinBlake2b, fo_step1_txid = [9], fo_step1_presence = NotObserved,
      fo_tip = \<lparr>br_height = 90, br_hash = [3]\<rparr>, fo_median_time_past = 1000, fo_observed_at = 55\<rparr>
     \<lparr>do_chain = BitcoinBlake2b, do_tip = \<lparr>br_height = 90, br_hash = [3]\<rparr>,
      do_state = Flagday 91 2000 True, do_observed_at = 60\<rparr>
     \<lparr>max_observation_age_seconds = 10, expiry_margin_seconds = 100\<rparr> 60
     (Some \<lparr>pt_bitcoin = \<lparr>br_height = 105, br_hash = [2]\<rparr>, pt_fork = \<lparr>br_height = 90, br_hash = [3]\<rparr>\<rparr>)
   = ObservationsEligibleForPreflight"
  by (subst assess_eligible_iff)
    (simp_all add: demo_plan_def demo_step1_def demo_api_def prevouts_def step1_txid_def)

end
