(* ===== verification/Poison.thy ===== *)
theory Poison
  imports Claim
begin

text \<open>
  \<open>coincube-core/src/split_poison.rs\<close>: the 90-byte \<open>OP_RETURN\<close> script that step 1 of a
  claim carries, its writer and its reader.  The \<open>BTreeSet\<close> of outpoints is a finite set
  read in increasing order.
\<close>

section \<open>Data\<close>

definition TAG :: bytes where
  "TAG = [0x52, 0x45, 0x50, 0x4c, 0x41, 0x59, 0x2d, 0x50, 0x52, 0x4f, 0x54, 0x45, 0x43, 0x54]"

definition PAYLOAD_VERSION :: byte where "PAYLOAD_VERSION = 1"
definition PAYLOAD_LEN :: nat where "PAYLOAD_LEN = 87"
definition SCRIPT_LEN :: nat where "SCRIPT_LEN = 90"

record split_poison_details_t =
  pd_version :: byte
  pd_chain :: chain_id
  pd_fork_marker :: block_hash
  pd_input_commitment :: bytes

section \<open>Operations\<close>

fun chain_byte :: "chain_id \<Rightarrow> byte option" where
  "chain_byte Bitcoin = Some 0"
| "chain_byte Testnet4 = Some 1"
| "chain_byte _ = None"

definition copy_at :: "nat \<Rightarrow> 'a list \<Rightarrow> 'a list \<Rightarrow> 'a list" where
  \<comment> \<open>\<open>dst[i..i + src.len()].copy_from_slice(src)\<close>\<close>
  "copy_at i src dst = take i dst @ src @ drop (i + length src) dst"

definition input_commitment :: "btc_api \<Rightarrow> outpoint set \<Rightarrow> bytes" where
  "input_commitment L outpoints =
     lib_sha256 L (concat (map (lib_ser_outpoint L) (sorted_list_of_set outpoints)))"

definition poison_payload :: "byte \<Rightarrow> block_hash \<Rightarrow> bytes \<Rightarrow> bytes" where
  "poison_payload cb fork_marker commitment =
     copy_at 48 commitment (copy_at 16 fork_marker
       ((copy_at 0 TAG (replicate PAYLOAD_LEN 0))[14 := PAYLOAD_VERSION, 15 := cb]))"

definition split_poison_script :: "btc_api \<Rightarrow> chain_id \<Rightarrow> block_hash \<Rightarrow> outpoint set \<Rightarrow> script option" where
  "split_poison_script L chain fork_marker outpoints =
     (case chain_byte chain of
        None \<Rightarrow> None
      | Some cb \<Rightarrow>
          Some (lib_new_op_return L (poison_payload cb fork_marker (input_commitment L outpoints))))"

definition slice :: "nat \<Rightarrow> nat \<Rightarrow> 'a list \<Rightarrow> 'a list" where
  \<comment> \<open>\<open>xs[i..j]\<close>\<close>
  "slice i j xs = take (j - i) (drop i xs)"

definition split_poison_details :: "script \<Rightarrow> split_poison_details_t option" where
  "split_poison_details s =
     (if length s \<noteq> SCRIPT_LEN \<or> take 3 s \<noteq> [0x6a, 0x4c, of_nat PAYLOAD_LEN] then None
      else
        let payload = drop 3 s in
        if take 14 payload \<noteq> TAG \<or> payload ! 14 \<noteq> PAYLOAD_VERSION \<or> drop 80 payload \<noteq> replicate 7 0
        then None
        else
          (let chain = (if payload ! 15 = 0 then Some Bitcoin
                        else if payload ! 15 = 1 then Some Testnet4 else None)
           in case chain of
                None \<Rightarrow> None
              | Some chain \<Rightarrow>
                  Some \<lparr>pd_version = payload ! 14, pd_chain = chain,
                        pd_fork_marker = slice 16 48 payload,
                        pd_input_commitment = slice 48 80 payload\<rparr>))"

definition split_poison_fork_marker :: "script \<Rightarrow> block_hash option" where
  "split_poison_fork_marker s = map_option pd_fork_marker (split_poison_details s)"

section \<open>Layout\<close>

lemma length_TAG [simp]: "length TAG = 14"
  by (simp add: TAG_def)

lemma length_copy_at [simp]: "i + length src \<le> length dst \<Longrightarrow> length (copy_at i src dst) = length dst"
  by (simp add: copy_at_def)

text \<open>The writer's sequence of copies into a zeroed array lays the fields out end to end.\<close>

lemma poison_payload_layout:
  assumes "length m = 32" and "length c = 32"
  shows "poison_payload cb m c = TAG @ [PAYLOAD_VERSION, cb] @ m @ c @ replicate 7 0"
proof -
  let ?p = "(copy_at 0 TAG (replicate PAYLOAD_LEN 0))[14 := PAYLOAD_VERSION, 15 := cb]"
  have p: "?p = TAG @ [PAYLOAD_VERSION, cb] @ replicate 71 0"
    by (simp add: copy_at_def PAYLOAD_LEN_def TAG_def numeral_eval)
  show ?thesis
    unfolding poison_payload_def p by (simp add: copy_at_def assms)
qed

lemma length_poison_payload: "\<lbrakk>length m = 32; length c = 32\<rbrakk> \<Longrightarrow> length (poison_payload cb m c) = PAYLOAD_LEN"
  by (simp add: poison_payload_layout PAYLOAD_LEN_def)

lemma new_op_return_payload:
  "\<lbrakk>op_return_layout L; length m = 32; length c = 32\<rbrakk> \<Longrightarrow>
   lib_new_op_return L (poison_payload cb m c) = [0x6a, 0x4c, 87] @ TAG @ [PAYLOAD_VERSION, cb] @ m @ c @ replicate 7 0"
  using length_poison_payload [of m c cb]
  by (simp add: op_return_layout_def poison_payload_layout PAYLOAD_LEN_def)

lemma chain_byte_cases: "chain_byte c = Some b \<longleftrightarrow> (c = Bitcoin \<and> b = 0) \<or> (c = Testnet4 \<and> b = 1)"
  by (cases c) auto

lemma split_at: "length xs = n + k \<Longrightarrow> \<exists>a b. xs = a @ b \<and> length a = n \<and> length b = k"
  by (rule exI [of _ "take n xs"], rule exI [of _ "drop n xs"]) simp

lemma payload_split:
  assumes "length p = 87" and "take 14 p = TAG" and "drop 80 p = replicate 7 0"
  shows "p = TAG @ [p ! 14, p ! 15] @ slice 16 48 p @ slice 48 80 p @ replicate 7 0"
proof -
  obtain a r where p: "p = a @ r" "length a = 14" "length r = 73" using split_at [of p 14 73] assms(1) by auto
  obtain v b r2 where r: "r = v # b # r2" "length r2 = 71"
    using p(3) by (cases r; cases "tl r") auto
  obtain m r3 where r2: "r2 = m @ r3" "length m = 32" "length r3 = 39" using split_at [of r2 32 39] r(2) by auto
  obtain c z where r3: "r3 = c @ z" "length c = 32" "length z = 7" using split_at [of r3 32 7] r2(3) by auto
  show ?thesis
    using assms p r r2 r3 by (simp add: slice_def nth_append)
qed

lemma split_poison_details_layout:
  assumes "length m = 32" and "length c = 32" and "chain_byte chain = Some cb"
  shows "split_poison_details ([0x6a, 0x4c, 87] @ TAG @ [PAYLOAD_VERSION, cb] @ m @ c @ replicate 7 0) =
    Some \<lparr>pd_version = PAYLOAD_VERSION, pd_chain = chain, pd_fork_marker = m, pd_input_commitment = c\<rparr>"
  using assms
  by (auto simp: split_poison_details_def SCRIPT_LEN_def PAYLOAD_LEN_def slice_def nth_append
      chain_byte_cases Let_def)

lemma split_poison_details_sound:
  assumes "split_poison_details s = Some d"
  shows "pd_version d = PAYLOAD_VERSION \<and> length (pd_fork_marker d) = 32 \<and>
    length (pd_input_commitment d) = 32 \<and>
    (\<exists>cb. chain_byte (pd_chain d) = Some cb \<and>
       s = [0x6a, 0x4c, 87] @ TAG @ [PAYLOAD_VERSION, cb] @ pd_fork_marker d @ pd_input_commitment d @ replicate 7 0)"
proof -
  let ?p = "drop 3 s"
  have len: "length s = 90" and head: "take 3 s = [0x6a, 0x4c, 87]"
    and fields: "take 14 ?p = TAG" "?p ! 14 = PAYLOAD_VERSION" "drop 80 ?p = replicate 7 0"
    and chain: "chain_byte (pd_chain d) = Some (?p ! 15)"
    and d: "pd_version d = ?p ! 14" "pd_fork_marker d = slice 16 48 ?p" "pd_input_commitment d = slice 48 80 ?p"
    using assms by (auto simp: split_poison_details_def SCRIPT_LEN_def PAYLOAD_LEN_def Let_def
        split: if_splits)
  have "s = [0x6a, 0x4c, 87] @ ?p" using append_take_drop_id [of 3 s] unfolding head by simp
  moreover have "?p = TAG @ [PAYLOAD_VERSION, ?p ! 15] @ pd_fork_marker d @ pd_input_commitment d @ replicate 7 0"
    using payload_split [of ?p] fields len d by simp
  ultimately have "s = [0x6a, 0x4c, 87] @ TAG @ [PAYLOAD_VERSION, ?p ! 15] @ pd_fork_marker d @
      pd_input_commitment d @ replicate 7 0" by (simp only: append_assoc)
  moreover have "length (slice 16 48 ?p) = 32" "length (slice 48 80 ?p) = 32"
    using len by (simp_all add: slice_def)
  ultimately show ?thesis using chain d fields(2) by metis
qed

text \<open>
  C17.  The reader accepts exactly the scripts the format allows: a script decodes to
  details \<open>d\<close> if and only if \<open>d\<close> names a chain that has a payload byte, carries version 1
  and two 32-byte fields, and the script is the \<open>OP_RETURN\<close> of the payload the writer lays
  out for those fields.  In particular no two details share a script.
\<close>

theorem poison_reader_exact:
  assumes "op_return_layout L"
  shows "split_poison_details s = Some d \<longleftrightarrow>
    pd_version d = 1 \<and> length (pd_fork_marker d) = 32 \<and> length (pd_input_commitment d) = 32 \<and>
    (\<exists>cb. chain_byte (pd_chain d) = Some cb \<and>
       s = lib_new_op_return L (poison_payload cb (pd_fork_marker d) (pd_input_commitment d)))"
proof
  assume "split_poison_details s = Some d"
  from split_poison_details_sound [OF this]
  show "pd_version d = 1 \<and> length (pd_fork_marker d) = 32 \<and> length (pd_input_commitment d) = 32 \<and>
    (\<exists>cb. chain_byte (pd_chain d) = Some cb \<and>
       s = lib_new_op_return L (poison_payload cb (pd_fork_marker d) (pd_input_commitment d)))"
    by (auto simp: new_op_return_payload [OF assms] PAYLOAD_VERSION_def)
next
  assume r: "pd_version d = 1 \<and> length (pd_fork_marker d) = 32 \<and> length (pd_input_commitment d) = 32 \<and>
    (\<exists>cb. chain_byte (pd_chain d) = Some cb \<and>
       s = lib_new_op_return L (poison_payload cb (pd_fork_marker d) (pd_input_commitment d)))"
  then show "split_poison_details s = Some d"
    using split_poison_details_layout [of "pd_fork_marker d" "pd_input_commitment d" "pd_chain d"]
    by (cases d) (auto simp: new_op_return_payload [OF assms] PAYLOAD_VERSION_def)
qed

theorem poison_reader_witness:
  "split_poison_details (lib_new_op_return demo_api (poison_payload 1 (replicate 32 7) (replicate 32 8))) =
     Some \<lparr>pd_version = 1, pd_chain = Testnet4, pd_fork_marker = replicate 32 7, pd_input_commitment = replicate 32 8\<rparr>"
  by (subst poison_reader_exact [OF demo_op_return_layout]) simp

lemma split_poison_script_reads:
  assumes "op_return_layout L" and "sha256_digest L" and "length marker = 32"
    and "split_poison_script L chain marker S = Some s"
  shows "length s = 90" and "lib_is_op_return L s" and "chain \<in> {Bitcoin, Testnet4}"
    and "split_poison_details s = Some \<lparr>pd_version = 1, pd_chain = chain, pd_fork_marker = marker,
      pd_input_commitment = input_commitment L S\<rparr>"
    and "split_poison_fork_marker s = Some marker"
proof -
  have commit: "length (input_commitment L S) = 32"
    using assms(2) by (simp add: input_commitment_def sha256_digest_def)
  obtain cb where cb: "chain_byte chain = Some cb"
    using assms(4) by (auto simp: split_poison_script_def split: option.splits)
  have s: "s = [0x6a, 0x4c, 87] @ TAG @ [PAYLOAD_VERSION, cb] @ marker @ input_commitment L S @ replicate 7 0"
    using assms(4) cb by (simp add: split_poison_script_def new_op_return_payload [OF assms(1,3) commit])
  show "split_poison_details s = Some \<lparr>pd_version = 1, pd_chain = chain, pd_fork_marker = marker,
      pd_input_commitment = input_commitment L S\<rparr>"
    unfolding s using split_poison_details_layout [OF assms(3) commit cb] by (simp add: PAYLOAD_VERSION_def)
  then show "split_poison_fork_marker s = Some marker" by (simp add: split_poison_fork_marker_def)
  show "length s = 90" using assms(3) commit by (simp add: s)
  show "lib_is_op_return L s" using assms(1) by (simp add: op_return_layout_def s)
  show "chain \<in> {Bitcoin, Testnet4}" using cb by (auto simp: chain_byte_cases)
qed

text \<open>
  C18.  What step 1 carries: for a 32-byte marker the writer succeeds exactly on the two
  Bitcoin chains a step 1 can run on; the script is 90 bytes, the reader returns the
  chain, the marker and the commitment to the sorted outpoint set, and a transaction
  with an output paying to it passes the poison test of the claim assessment, whose limit is
  83 bytes.
\<close>

theorem poison_writer_exact:
  assumes "op_return_layout L" and "sha256_digest L" and "length marker = 32"
  shows "(split_poison_script L chain marker S = None \<longleftrightarrow> chain \<notin> {Bitcoin, Testnet4}) \<and>
    (\<forall>s. split_poison_script L chain marker S = Some s \<longrightarrow>
       length s = SCRIPT_LEN \<and>
       split_poison_details s = Some \<lparr>pd_version = 1, pd_chain = chain, pd_fork_marker = marker,
         pd_input_commitment = lib_sha256 L (concat (map (lib_ser_outpoint L) (sorted_list_of_set S)))\<rparr> \<and>
       split_poison_fork_marker s = Some marker \<and>
       (\<forall>tx out. out \<in> set (tx_output tx) \<longrightarrow> to_script out = s \<longrightarrow> carries_poison L tx))"
proof -
  have "split_poison_script L chain marker S = None \<longleftrightarrow> chain \<notin> {Bitcoin, Testnet4}"
    by (cases chain) (simp_all add: split_poison_script_def)
  moreover have "carries_poison L tx"
    if "split_poison_script L chain marker S = Some s" "out \<in> set (tx_output tx)" "to_script out = s" for s tx out
    using that split_poison_script_reads(1,2) [OF assms that(1)] by (force simp: carries_poison_iff)
  ultimately show ?thesis
    using split_poison_script_reads(1,4,5) [OF assms] by (simp add: SCRIPT_LEN_def input_commitment_def)
qed

theorem poison_writer_witness:
  "split_poison_details (the (split_poison_script demo_api Testnet4 (replicate 32 7) {OutPoint (replicate 32 1) 0})) =
     Some \<lparr>pd_version = 1, pd_chain = Testnet4, pd_fork_marker = replicate 32 7,
       pd_input_commitment = demo_hash (replicate 32 1 @ replicate 4 0)\<rparr>"
proof -
  let ?p = "OutPoint (replicate 32 1) 0"
  have marker: "length (replicate 32 7) = 32" by (rule length_replicate)
  obtain s where s: "split_poison_script demo_api Testnet4 (replicate 32 7) {?p} = Some s"
    by (simp add: split_poison_script_def)
  have "lib_sha256 demo_api (concat (map (lib_ser_outpoint demo_api) (sorted_list_of_set {?p}))) =
      demo_hash (replicate 32 1 @ replicate 4 0)"
    by (simp add: demo_api_def numeral_eval)
  then show ?thesis
    using poison_writer_exact [OF demo_op_return_layout demo_sha256_digest marker, of Testnet4 "{?p}"] s
    by (simp only: option.sel)
qed

end
