(* ===== verification/Claim_Spend.thy ===== *)
theory Claim_Spend
  imports Spend_Construction Ancestry Poison
begin

text \<open>
  \<open>coincube-core/src/claim_spend.rs\<close>: the unsigned transactions of a claim.  Step 1 is a
  self-transfer of shared coins on Bitcoin, poisoned by an \<open>OP_RETURN\<close> output or by an input with
  a Bitcoin-only ancestry; the fork sweep spends the same shared coins on the fork.  Each can be
  rebuilt from a recorded transaction.  The section on sweeps states what these constructors rely
  on in the spend builder as a locale, interpreted on \<open>create_spend_with_poison\<close>.
\<close>

section \<open>Data\<close>

datatype claim_error =
    InvalidRequest string
  | FundingBelowFee chain_id
  | SpendErr spend_error
  | ClaimPanicked  \<comment> \<open>an index or an assertion of the code fails\<close>

record poison_self_transfer =
  st_psbt :: psbt
  st_descriptor :: descriptor
  st_chain :: chain_id
  st_change_index :: child_number
  st_warnings :: "create_spend_warning list"

record ancestry_self_transfer =
  at_transfer :: poison_self_transfer
  at_poison_input :: outpoint
  at_poison_derivation :: "child_number \<times> bool"
  at_claimed_prevouts :: "outpoint list"

record claim_fork_sweep =
  fs_psbt :: psbt
  fs_chain :: chain_id
  fs_bitcoin_step1 :: txid
  fs_fork_marker :: "outpoint option"
  fs_descriptor :: descriptor
  fs_change_index :: child_number
  fs_warnings :: "create_spend_warning list"

section \<open>The Bitcoin self-transfer\<close>

definition verified_return_address ::
  "btc_api \<Rightarrow> desc_api \<Rightarrow> poison_self_transfer \<Rightarrow> (claim_error, address) res" where
  "verified_return_address L D t =
     bind_res (ok_or ClaimPanicked (derive D (st_descriptor t) True (st_change_index t))) (\<lambda>destination.
     case filter (\<lambda>out. \<not> lib_is_op_return L (to_script out)) (tx_output (ps_unsigned_tx (st_psbt t))) of
       [] \<Rightarrow> Inl (InvalidRequest ''Claim has no return output'')
     | out # others \<Rightarrow>
         guard_res (others \<noteq> [] \<or> to_value out = 0 \<or> to_script out \<noteq> script_pubkey destination)
           (InvalidRequest ''Claim return output does not match this Vault's change address'')
           (Inr (desc_address destination (bitcoin_network (st_chain t)))))"

fun check_coins ::
  "btc_api \<Rightarrow> desc_api \<Rightarrow> descriptor \<Rightarrow> derived_single_desc \<Rightarrow> outpoint set \<Rightarrow> nat \<Rightarrow> candidate_coin list \<Rightarrow>
   (claim_error, outpoint set) res" where
  \<comment> \<open>the loop over \<open>coins\<close>: the outpoints seen and the running total\<close>
  "check_coins L D d destination seen tot [] = Inr seen"
| "check_coins L D d destination seen tot (coin # coins) =
     guard_res (lib_is_null L (cc_outpoint coin) \<or> cc_outpoint coin \<in> seen \<or> is_hardened (cc_deriv_index coin))
       (InvalidRequest ''Unique non-null outpoints and normal derivation indices required'')
     (bind_res (case checked_add64 tot (cc_amount coin) of
          Some n \<Rightarrow> if n \<le> max_money then Inr n else Inl (InvalidRequest ''Input total exceeds Bitcoin money range'')
        | None \<Rightarrow> Inl (InvalidRequest ''Input total exceeds Bitcoin money range'')) (\<lambda>tot.
      bind_res (ok_or ClaimPanicked (derive D d (cc_is_change coin) (cc_deriv_index coin))) (\<lambda>branch.
      guard_res (script_pubkey branch = script_pubkey destination)
        (InvalidRequest ''Change must not reuse a selected source script'')
        (check_coins L D d destination (insert (cc_outpoint coin) seen) tot coins))))"

definition own_change :: "derived_single_desc \<Rightarrow> network \<Rightarrow> child_number \<Rightarrow> spend_output_address" where
  "own_change destination network change_index =
     \<lparr>so_addr = desc_address destination network, so_info = Some \<lparr>ai_index = change_index, ai_is_change = True\<rparr>\<rparr>"

definition select_all :: "candidate_coin list \<Rightarrow> candidate_coin list" where
  "select_all coins = map (\<lambda>coin. coin\<lparr>cc_must_select := True\<rparr>) coins"

definition create_self_transfer ::
  "'s select_api \<Rightarrow> btc_api \<Rightarrow> desc_api \<Rightarrow> chain_id \<Rightarrow> descriptor \<Rightarrow> tx_getter \<Rightarrow> candidate_coin list \<Rightarrow>
   child_number \<Rightarrow> nat \<Rightarrow> nat \<Rightarrow> block_hash option \<Rightarrow> (claim_error, poison_self_transfer) res" where
  "create_self_transfer S L D chain d getter coins change_index feerate_vb locktime fork_marker =
     bind_res (case chain of
         Bitcoin \<Rightarrow> Inr Net_Bitcoin
       | Testnet4 \<Rightarrow> Inr Net_Testnet4
       | _ \<Rightarrow> Inl (InvalidRequest ''Bitcoin mainnet or testnet4 source required'')) (\<lambda>network.
     guard_res (is_taproot D d \<or> is_hardened change_index \<or> coins = [])
       (InvalidRequest ''Native P2WSH, nonempty inputs and a normal change index required'')
     (bind_res (ok_or ClaimPanicked (derive D d True change_index)) (\<lambda>destination.
      bind_res (check_coins L D d destination {} 0 coins) (\<lambda>seen.
      bind_res (case fork_marker of
          None \<Rightarrow> Inr None
        | Some marker \<Rightarrow> bind_res (ok_or (InvalidRequest ''Bitcoin mainnet or testnet4 source required'')
            (split_poison_script L chain marker seen)) (\<lambda>s. Inr (Some s))) (\<lambda>poison.
      bind_res (map_err SpendErr (create_spend_with_poison S L D d getter [] (select_all coins) (Regular feerate_vb)
          (own_change destination network change_index) locktime poison)) (\<lambda>result.
      Inr \<lparr>st_psbt = cs_psbt result, st_descriptor = d, st_chain = chain, st_change_index = change_index,
           st_warnings = cs_warnings result\<rparr>))))))"

definition create_poison_self_transfer ::
  "'s select_api \<Rightarrow> btc_api \<Rightarrow> desc_api \<Rightarrow> chain_id \<Rightarrow> descriptor \<Rightarrow> tx_getter \<Rightarrow> candidate_coin list \<Rightarrow>
   child_number \<Rightarrow> nat \<Rightarrow> nat \<Rightarrow> block_hash \<Rightarrow> (claim_error, poison_self_transfer) res" where
  "create_poison_self_transfer S L D chain d getter coins change_index feerate_vb locktime fork_marker =
     create_self_transfer S L D chain d getter coins change_index feerate_vb locktime (Some fork_marker)"

definition estimate_ancestry_self_transfer_vbytes ::
  "btc_api \<Rightarrow> desc_api \<Rightarrow> outpoint \<Rightarrow> descriptor \<Rightarrow> nat \<Rightarrow> (claim_error, nat) res" where
  \<comment> \<open>the third argument is the library's null outpoint, that of \<open>TxIn::default()\<close>\<close>
  "estimate_ancestry_self_transfer_vbytes L D null_outpoint d shared_count =
     guard_res (is_taproot D d \<or> shared_count = 0) (InvalidRequest ''Native P2WSH and at least one shared coin required'')
     (bind_res (case checked_add64 shared_count 1 of
          Some count \<Rightarrow> if count \<le> 20001 then Inr count else Inl (InvalidRequest ''Too many Claim inputs to estimate'')
        | None \<Rightarrow> Inl (InvalidRequest ''Too many Claim inputs to estimate'')) (\<lambda>input_count.
      bind_res (ok_or ClaimPanicked (derive D d True (Normal 0))) (\<lambda>change.
      ok_or ClaimPanicked (unsigned_tx_max_vbytes L D d
        \<lparr>tx_version = 2, tx_lock_time = 0,
         tx_input = replicate input_count
           \<lparr>ti_prev = null_outpoint, ti_script_sig = [], ti_sequence = 0xFFFFFFFF, ti_witness = []\<rparr>,
         tx_output = [\<lparr>to_value = 0, to_script = script_pubkey change\<rparr>]\<rparr> True))))"

definition owned_spend_fee :: "candidate_coin list \<Rightarrow> psbt \<Rightarrow> (claim_error, nat) res" where
  "owned_spend_fee coins psbt =
     ok_or (InvalidRequest ''Invalid owned spend fee'')
       (case (try_sum64 0 (map cc_amount coins), try_sum64 0 (map to_value (tx_output (ps_unsigned_tx psbt)))) of
          (Some inputs, Some outputs) \<Rightarrow> checked_sub inputs outputs
        | _ \<Rightarrow> None)"

definition funded_by :: "chain_id \<Rightarrow> string \<Rightarrow> candidate_coin list \<Rightarrow> outpoint \<Rightarrow> psbt \<Rightarrow> (claim_error, candidate_coin) res" where
  \<comment> \<open>the designated coin pays the whole fee\<close>
  "funded_by chain missing coins marker psbt =
     bind_res (ok_or (InvalidRequest missing) (find (\<lambda>coin. cc_outpoint coin = marker) coins)) (\<lambda>funding.
     bind_res (owned_spend_fee coins psbt) (\<lambda>fee.
     guard_res (cc_amount funding < fee) (FundingBelowFee chain) (Inr funding)))"

definition create_ancestry_self_transfer ::
  "'s select_api \<Rightarrow> btc_api \<Rightarrow> desc_api \<Rightarrow> chain_id \<Rightarrow> descriptor \<Rightarrow> tx_getter \<Rightarrow> candidate_coin list \<Rightarrow>
   child_number \<Rightarrow> nat \<Rightarrow> nat \<Rightarrow> coinbase_dependency \<Rightarrow> (claim_error, ancestry_self_transfer) res" where
  "create_ancestry_self_transfer S L D chain d getter coins change_index feerate_vb locktime dependency =
     (let poison_input = cd_selected dependency in
     guard_res (chain \<noteq> Bitcoin \<or> length coins < 2 \<or>
                length (filter (\<lambda>coin. cc_outpoint coin = poison_input) coins) \<noteq> 1)
       (InvalidRequest ''Mainnet, one selected ancestry input and nonempty claimed inputs required'')
     (bind_res (create_self_transfer S L D chain d getter coins change_index feerate_vb locktime None) (\<lambda>transfer.
      let claimed_prevouts = filter (\<lambda>p. p \<noteq> poison_input) (prevouts (ps_unsigned_tx (st_psbt transfer))) in
      bind_res (funded_by Bitcoin ''Selected ancestry input is missing'' coins poison_input (st_psbt transfer)) (\<lambda>selected.
      Inr \<lparr>at_transfer = transfer, at_poison_input = poison_input,
           at_poison_derivation = (cc_deriv_index selected, cc_is_change selected),
           at_claimed_prevouts = claimed_prevouts\<rparr>))))"

section \<open>The fork sweep\<close>

fun position :: "('a \<Rightarrow> bool) \<Rightarrow> 'a list \<Rightarrow> nat option" where
  "position P [] = None"
| "position P (x # xs) = (if P x then Some 0 else map_option Suc (position P xs))"

definition check_fork_coin ::
  "desc_api \<Rightarrow> descriptor \<Rightarrow> psbt \<Rightarrow> outpoint option \<Rightarrow> derived_single_desc \<Rightarrow> candidate_coin \<Rightarrow> (claim_error, unit) res" where
  "check_fork_coin D d original added_input destination coin =
     bind_res (if Some (cc_outpoint coin) = added_input then Inr None
       else
         bind_res (ok_or (InvalidRequest ''Unclaimed fork input'')
           (position (\<lambda>i. ti_prev i = cc_outpoint coin) (tx_input (ps_unsigned_tx original)))) (\<lambda>source_index.
         bind_res (ok_or ClaimPanicked (nth_opt (ps_inputs original) source_index)) (\<lambda>source_in.
         bind_res (ok_or (InvalidRequest ''Missing authenticated source prevout'') (pi_witness_utxo source_in)) (\<lambda>prevout.
         Inr (Some prevout))))) (\<lambda>source_prevout.
     guard_res (is_hardened (cc_deriv_index coin)) (InvalidRequest ''Hardened fork input index'')
     (bind_res (ok_or ClaimPanicked (derive D d (cc_is_change coin) (cc_deriv_index coin))) (\<lambda>branch.
      guard_res ((case source_prevout of
                    None \<Rightarrow> False
                  | Some prevout \<Rightarrow> cc_amount coin \<noteq> to_value prevout \<or> script_pubkey branch \<noteq> to_script prevout) \<or>
                 script_pubkey destination = script_pubkey branch)
        (InvalidRequest ''Fork input ownership or fresh destination mismatch'') (Inr ()))))"

definition create_fork_sweep ::
  "'s select_api \<Rightarrow> btc_api \<Rightarrow> desc_api \<Rightarrow> poison_self_transfer \<Rightarrow> outpoint option \<Rightarrow> outpoint option \<Rightarrow> chain_id \<Rightarrow>
   tx_getter \<Rightarrow> candidate_coin list \<Rightarrow> child_number \<Rightarrow> nat \<Rightarrow> nat \<Rightarrow> (claim_error, claim_fork_sweep) res" where
  "create_fork_sweep S L D source excluded_input added_input fork_chain getter coins change_index feerate_vb locktime =
     (let original = st_psbt source; d = st_descriptor source;
          claimed = {p \<in> set (prevouts (ps_unsigned_tx original)). Some p \<noteq> excluded_input} \<union> set_option added_input
      in
      guard_res (\<not> fork_pair (st_chain source) fork_chain \<or> is_hardened change_index)
        (InvalidRequest ''Matching fork chain and normal change index required'')
      (guard_res (case added_input of
                    None \<Rightarrow> False
                  | Some marker \<Rightarrow> lib_is_null L marker \<or> marker \<in> set (prevouts (ps_unsigned_tx original)))
        (InvalidRequest ''Fork marker must be distinct from every Bitcoin input'')
      (guard_res (coins = [] \<or> \<not> distinct (map cc_outpoint coins) \<or> set (map cc_outpoint coins) \<noteq> claimed)
        (InvalidRequest ''Fork sweep must spend exactly the original claimed inputs'')
      (bind_res (ok_or ClaimPanicked (derive D d True change_index)) (\<lambda>destination.
       bind_res (collect_res (check_fork_coin D d original added_input destination) coins) (\<lambda>_.
       bind_res (map_err SpendErr (create_spend S L D d getter [] (select_all coins) (Regular feerate_vb)
           (own_change destination (bitcoin_network fork_chain) change_index) locktime)) (\<lambda>result.
       bind_res (case added_input of
           None \<Rightarrow> Inr ()
         | Some marker \<Rightarrow> bind_res (funded_by BitcoinBlake2b ''Fork funding input is missing'' coins marker (cs_psbt result))
             (\<lambda>_. Inr ())) (\<lambda>_.
       Inr \<lparr>fs_psbt = cs_psbt result, fs_chain = fork_chain,
            fs_bitcoin_step1 = lib_txid L (ps_unsigned_tx original), fs_fork_marker = added_input,
            fs_descriptor = d, fs_change_index = change_index, fs_warnings = cs_warnings result\<rparr>))))))))"

definition create_claim_fork_sweep ::
  "'s select_api \<Rightarrow> btc_api \<Rightarrow> desc_api \<Rightarrow> poison_self_transfer \<Rightarrow> chain_id \<Rightarrow> tx_getter \<Rightarrow> candidate_coin list \<Rightarrow>
   child_number \<Rightarrow> nat \<Rightarrow> nat \<Rightarrow> (claim_error, claim_fork_sweep) res" where
  "create_claim_fork_sweep S L D source fork_chain getter coins change_index feerate_vb locktime =
     create_fork_sweep S L D source None None fork_chain getter coins change_index feerate_vb locktime"

definition create_ancestry_fork_sweep ::
  "'s select_api \<Rightarrow> btc_api \<Rightarrow> desc_api \<Rightarrow> ancestry_self_transfer \<Rightarrow> chain_id \<Rightarrow> tx_getter \<Rightarrow> candidate_coin list \<Rightarrow>
   child_number \<Rightarrow> nat \<Rightarrow> nat \<Rightarrow> (claim_error, claim_fork_sweep) res" where
  "create_ancestry_fork_sweep S L D source fork_chain getter coins change_index feerate_vb locktime =
     create_fork_sweep S L D (at_transfer source) (Some (at_poison_input source)) None fork_chain getter coins
       change_index feerate_vb locktime"

definition create_ancestry_fork_sweep_with_marker ::
  "'s select_api \<Rightarrow> btc_api \<Rightarrow> desc_api \<Rightarrow> ancestry_self_transfer \<Rightarrow> chain_id \<Rightarrow> tx_getter \<Rightarrow> candidate_coin list \<Rightarrow>
   child_number \<Rightarrow> nat \<Rightarrow> nat \<Rightarrow> coinbase_dependency \<Rightarrow> (claim_error, claim_fork_sweep) res" where
  "create_ancestry_fork_sweep_with_marker S L D source fork_chain getter coins change_index feerate_vb locktime dependency =
     create_fork_sweep S L D (at_transfer source) (Some (at_poison_input source)) (Some (cd_selected dependency))
       fork_chain getter coins change_index feerate_vb locktime"

section \<open>Reconstruction from a recorded transaction\<close>

definition set_output_value :: "nat \<Rightarrow> nat \<Rightarrow> psbt \<Rightarrow> psbt option" where
  \<comment> \<open>\<open>psbt.unsigned_tx.output[i].value = v\<close>\<close>
  "set_output_value i v psbt =
     (let tx = ps_unsigned_tx psbt in
      if i < length (tx_output tx)
      then Some (psbt\<lparr>ps_unsigned_tx := tx\<lparr>tx_output := (tx_output tx)[i := (tx_output tx ! i)\<lparr>to_value := v\<rparr>]\<rparr>\<rparr>)
      else None)"

definition reconstruct_fork_sweep ::
  "'s select_api \<Rightarrow> btc_api \<Rightarrow> desc_api \<Rightarrow> poison_self_transfer \<Rightarrow> outpoint option \<Rightarrow> outpoint option \<Rightarrow> chain_id \<Rightarrow>
   tx_getter \<Rightarrow> candidate_coin list \<Rightarrow> child_number \<Rightarrow> transaction \<Rightarrow> (claim_error, claim_fork_sweep) res" where
  "reconstruct_fork_sweep S L D source excluded_input added_input fork_chain getter coins change_index recorded =
     guard_res (length (tx_output recorded) \<noteq> 1) (InvalidRequest ''Recorded fork sweep must have one output'')
     (bind_res (create_fork_sweep S L D source excluded_input added_input fork_chain getter coins change_index 1
        (tx_lock_time recorded)) (\<lambda>rebuilt.
      bind_res (ok_or ClaimPanicked (set_output_value 0 (to_value (tx_output recorded ! 0)) (fs_psbt rebuilt))) (\<lambda>psbt.
      guard_res (ps_unsigned_tx psbt \<noteq> recorded)
        (InvalidRequest ''Recorded transaction differs from the owned fork construction'')
      (bind_res (case added_input of
          None \<Rightarrow> Inr ()
        | Some marker \<Rightarrow> bind_res (funded_by BitcoinBlake2b ''Fork funding input is missing'' coins marker psbt)
            (\<lambda>_. Inr ())) (\<lambda>_.
      bind_res (map_err SpendErr (reverify_spend_before_broadcast L D (st_descriptor source) psbt)) (\<lambda>_.
      Inr (rebuilt\<lparr>fs_psbt := psbt\<rparr>)))))))"

definition reconstruct_claim_fork_sweep ::
  "'s select_api \<Rightarrow> btc_api \<Rightarrow> desc_api \<Rightarrow> poison_self_transfer \<Rightarrow> chain_id \<Rightarrow> tx_getter \<Rightarrow> candidate_coin list \<Rightarrow>
   child_number \<Rightarrow> transaction \<Rightarrow> (claim_error, claim_fork_sweep) res" where
  "reconstruct_claim_fork_sweep S L D source fork_chain getter coins change_index recorded =
     reconstruct_fork_sweep S L D source None None fork_chain getter coins change_index recorded"

definition reconstruct_ancestry_fork_sweep ::
  "'s select_api \<Rightarrow> btc_api \<Rightarrow> desc_api \<Rightarrow> ancestry_self_transfer \<Rightarrow> chain_id \<Rightarrow> tx_getter \<Rightarrow> candidate_coin list \<Rightarrow>
   child_number \<Rightarrow> transaction \<Rightarrow> (claim_error, claim_fork_sweep) res" where
  "reconstruct_ancestry_fork_sweep S L D source fork_chain getter coins change_index recorded =
     reconstruct_fork_sweep S L D (at_transfer source) (Some (at_poison_input source)) None fork_chain getter coins
       change_index recorded"

definition reconstruct_ancestry_fork_sweep_with_marker ::
  "'s select_api \<Rightarrow> btc_api \<Rightarrow> desc_api \<Rightarrow> ancestry_self_transfer \<Rightarrow> chain_id \<Rightarrow> tx_getter \<Rightarrow> candidate_coin list \<Rightarrow>
   child_number \<Rightarrow> coinbase_dependency \<Rightarrow> transaction \<Rightarrow> (claim_error, claim_fork_sweep) res" where
  "reconstruct_ancestry_fork_sweep_with_marker S L D source fork_chain getter coins change_index dependency recorded =
     reconstruct_fork_sweep S L D (at_transfer source) (Some (at_poison_input source)) (Some (cd_selected dependency))
       fork_chain getter coins change_index recorded"

definition reconstruct_ancestry_self_transfer ::
  "'s select_api \<Rightarrow> btc_api \<Rightarrow> desc_api \<Rightarrow> chain_id \<Rightarrow> descriptor \<Rightarrow> tx_getter \<Rightarrow> candidate_coin list \<Rightarrow>
   child_number \<Rightarrow> coinbase_dependency \<Rightarrow> transaction \<Rightarrow> (claim_error, ancestry_self_transfer) res" where
  "reconstruct_ancestry_self_transfer S L D chain d getter coins change_index dependency recorded =
     guard_res (length (tx_output recorded) \<noteq> 1) (InvalidRequest ''Recorded ancestry transfer must have one output'')
     (bind_res (create_ancestry_self_transfer S L D chain d getter coins change_index 1 (tx_lock_time recorded) dependency)
        (\<lambda>rebuilt.
      bind_res (ok_or ClaimPanicked (set_output_value 0 (to_value (tx_output recorded ! 0)) (st_psbt (at_transfer rebuilt))))
        (\<lambda>psbt.
      guard_res (ps_unsigned_tx psbt \<noteq> recorded)
        (InvalidRequest ''Recorded transaction differs from the owned ancestry construction'')
      (bind_res (funded_by Bitcoin ''Bitcoin funding input is missing'' coins (cd_selected dependency) psbt) (\<lambda>_.
      bind_res (map_err SpendErr (reverify_spend_before_broadcast L D d psbt)) (\<lambda>_.
      Inr (rebuilt\<lparr>at_transfer := (at_transfer rebuilt)\<lparr>st_psbt := psbt\<rparr>\<rparr>)))))))"

definition reconstruct_poison_self_transfer ::
  "'s select_api \<Rightarrow> btc_api \<Rightarrow> desc_api \<Rightarrow> chain_id \<Rightarrow> descriptor \<Rightarrow> tx_getter \<Rightarrow> candidate_coin list \<Rightarrow>
   child_number \<Rightarrow> transaction \<Rightarrow> (claim_error, poison_self_transfer) res" where
  "reconstruct_poison_self_transfer S L D chain d getter coins change_index recorded =
     guard_res (length (tx_output recorded) \<noteq> 2) (InvalidRequest ''Recorded poison must have two outputs'')
     (bind_res (ok_or (InvalidRequest ''Recorded poison payload is invalid'')
        (split_poison_fork_marker (to_script (tx_output recorded ! 0)))) (\<lambda>marker.
      bind_res (create_poison_self_transfer S L D chain d getter coins change_index 1 (tx_lock_time recorded) marker)
        (\<lambda>rebuilt.
      bind_res (ok_or ClaimPanicked (set_output_value 1 (to_value (tx_output recorded ! 1)) (st_psbt rebuilt))) (\<lambda>psbt.
      guard_res (ps_unsigned_tx psbt \<noteq> recorded)
        (InvalidRequest ''Recorded transaction differs from the owned poison construction'')
      (bind_res (map_err SpendErr (reverify_spend_before_broadcast L D d psbt)) (\<lambda>_.
      Inr (rebuilt\<lparr>st_psbt := psbt\<rparr>)))))))"

section \<open>What the constructors rely on: sweeps\<close>

text \<open>
  A sweep of \<open>coins\<close> to \<open>addr\<close>: every coin is spent once in the order given and owned; the outputs
  are the poison, if any, and one output of \<open>change\<close> satoshis; the sanity check passed.
\<close>

definition swept ::
  "btc_api \<Rightarrow> desc_api \<Rightarrow> descriptor \<Rightarrow> tx_getter \<Rightarrow> candidate_coin list \<Rightarrow> spend_output_address \<Rightarrow> nat \<Rightarrow> script option \<Rightarrow>
   nat \<Rightarrow> psbt \<Rightarrow> bool" where
  "swept L D d getter coins addr locktime poison change psbt \<longleftrightarrow>
     distinct (map cc_outpoint coins) \<and> DUST_OUTPUT_SATS \<le> change \<and> change \<le> max_money \<and>
     (\<forall>c \<in> set coins. owned_coin L D d getter c) \<and>
     psbt = built_psbt D d getter [] addr locktime poison coins change \<and>
     sanity_check_psbt L D d psbt (primary_path coins) = Inr ()"

text \<open>
  The interface: a builder that, asked to sweep coins that all must be selected, either fails or
  sweeps them.  \<open>ok\<close> is what the builder needs of the coin selector.
\<close>

locale sweeper =
  fixes build :: "'s select_api \<Rightarrow> btc_api \<Rightarrow> desc_api \<Rightarrow> descriptor \<Rightarrow> tx_getter \<Rightarrow> candidate_coin list \<Rightarrow>
      spend_tx_fees \<Rightarrow> spend_output_address \<Rightarrow> nat \<Rightarrow> script option \<Rightarrow> (spend_error, create_spend_res) res"
    and ok :: "'s select_api \<Rightarrow> bool"
  assumes sweeps: "ok S \<Longrightarrow> build S L D d getter coins fees addr locktime poison = Inr r \<Longrightarrow>
    (\<forall>c \<in> set coins. cc_must_select c) \<Longrightarrow> \<exists>change. swept L D d getter coins addr locktime poison change (cs_psbt r)"
begin

lemma sweep_outputs:
  assumes "ok S" and "build S L D d getter coins fees addr locktime poison = Inr r" and "\<forall>c \<in> set coins. cc_must_select c"
  obtains change where "swept L D d getter coins addr locktime poison change (cs_psbt r)"
    and "prevouts (ps_unsigned_tx (cs_psbt r)) = map cc_outpoint coins"
    and "tx_output (ps_unsigned_tx (cs_psbt r)) =
      poison_outputs poison @ [\<lparr>to_value = change, to_script = address_script (so_addr addr)\<rparr>]"
proof -
  obtain change where s: "swept L D d getter coins addr locktime poison change (cs_psbt r)" using sweeps [OF assms] by blast
  have "0 < change" using s by (simp add: swept_def DUST_OUTPUT_SATS_def)
  with s show ?thesis
    by (intro that [OF s]) (simp_all add: swept_def built_psbt_def prevouts_def change_outputs_def comp_def)
qed

text \<open>Two sweeps of the same coins that differ in their fees only differ in the last output's value only.\<close>

lemma sweep_fees_only:
  assumes "ok S" and "\<forall>c \<in> set coins. cc_must_select c"
    and "build S L D d getter coins fees addr locktime poison = Inr r"
    and "build S L D d getter coins fees' addr locktime poison = Inr r'"
  shows "\<exists>v. set_output_value (length (poison_outputs poison)) v (cs_psbt r') = Some (cs_psbt r) \<and>
    tx_output (ps_unsigned_tx (cs_psbt r)) ! length (poison_outputs poison) =
      \<lparr>to_value = v, to_script = address_script (so_addr addr)\<rparr>"
proof -
  obtain v v' where "swept L D d getter coins addr locktime poison v (cs_psbt r)"
    "swept L D d getter coins addr locktime poison v' (cs_psbt r')"
    using sweeps [OF assms(1) assms(3) assms(2)] sweeps [OF assms(1) assms(4) assms(2)] by blast
  then show ?thesis
    by (intro exI [of _ v])
      (simp add: swept_def built_psbt_def change_outputs_def DUST_OUTPUT_SATS_def set_output_value_def Let_def)
qed

end

lemma create_spend_swept:
  assumes laws: "selector_laws S" and run: "create_spend_with_poison S L D d getter [] coins fees addr locktime poison = Inr r"
    and all: "\<forall>c \<in> set coins. cc_must_select c"
  shows "\<exists>change. swept L D d getter coins addr locktime poison change (cs_psbt r)"
proof -
  obtain sel where ok: "selection_ok coins True sel"
    and b: "built L D d getter [] coins addr locktime poison (sr_selected sel) (sr_change_amount sel) r"
    using create_spend_built [OF laws run] by auto
  have sel: "sr_selected sel = coins" by (rule selection_ok_all [OF ok all])
  from ok have "distinct (map cc_outpoint coins)" "DUST_OUTPUT_SATS \<le> sr_change_amount sel"
    unfolding selection_ok_def by blast+
  moreover from b have "sr_change_amount sel = 0 \<or> sr_change_amount sel \<le> max_money"
    "\<forall>c \<in> set coins. owned_coin L D d getter c"
    "cs_psbt r = built_psbt D d getter [] addr locktime poison coins (sr_change_amount sel)"
    "sanity_check_psbt L D d (cs_psbt r) (primary_path coins) = Inr ()"
    unfolding built_def sel by blast+
  ultimately have "swept L D d getter coins addr locktime poison (sr_change_amount sel) (cs_psbt r)"
    by (auto simp: swept_def)
  then show ?thesis by blast
qed

interpretation sweep: sweeper
  "\<lambda>S L D d getter coins fees addr locktime poison. create_spend_with_poison S L D d getter [] coins fees addr locktime poison"
  selector_laws
  by unfold_locales (rule create_spend_swept)

end
