(* ===== verification/Claim_Transactions.thy ===== *)
theory Claim_Transactions
  imports Claim_Spend
begin

text \<open>
  What the constructors of \<open>coincube-core/src/claim_spend.rs\<close> build: the self-transfer, the fork
  sweep, how the two of one claim fit together, and that reconstruction restores them.
\<close>

section \<open>Coins\<close>

lemma must_select_irrelevant [simp]:
  "derived_desc D d (c\<lparr>cc_must_select := b\<rparr>) = derived_desc D d c"
  "coin_output D d (c\<lparr>cc_must_select := b\<rparr>) = coin_output D d c"
  "coin_txin (c\<lparr>cc_must_select := b\<rparr>) = coin_txin c"
  "owned_coin L D d getter (c\<lparr>cc_must_select := b\<rparr>) = owned_coin L D d getter c"
  "coin_psbt_in D d getter (c\<lparr>cc_must_select := b\<rparr>) = coin_psbt_in D d getter c"
  by (simp_all add: derived_desc_def coin_output_def coin_txin_def owned_coin_def coin_psbt_in_def)

lemma select_all_maps [simp]:
  "map cc_outpoint (select_all coins) = map cc_outpoint coins"
  "map cc_amount (select_all coins) = map cc_amount coins"
  "map coin_txin (select_all coins) = map coin_txin coins"
  "map (coin_psbt_in D d getter) (select_all coins) = map (coin_psbt_in D d getter) coins"
  "set (select_all coins) = (\<lambda>c. c\<lparr>cc_must_select := True\<rparr>) ` set coins"
  "primary_path (select_all coins) = primary_path coins"
  by (simp_all add: select_all_def primary_path_def list_ex_iff)

lemma built_psbt_select_all [simp]:
  "built_psbt D d getter [] addr locktime poison (select_all coins) change =
   built_psbt D d getter [] addr locktime poison coins change"
  by (simp add: built_psbt_def)

lemma swept_select_all [simp]:
  "swept L D d getter (select_all coins) addr locktime poison change psbt =
   swept L D d getter coins addr locktime poison change psbt"
  by (simp add: swept_def)

lemma check_coins_iff:
  "check_coins L D d destination seen tot coins = Inr seen' \<longleftrightarrow>
     seen' = seen \<union> set (map cc_outpoint coins) \<and> distinct (map cc_outpoint coins) \<and>
     seen \<inter> set (map cc_outpoint coins) = {} \<and>
     (coins \<noteq> [] \<longrightarrow> tot + sum_list (map cc_amount coins) \<le> max_money) \<and>
     (\<forall>c \<in> set coins. \<not> lib_is_null L (cc_outpoint c) \<and>
        (\<exists>dd. derived_desc D d c = Some dd \<and> script_pubkey dd \<noteq> script_pubkey destination))"
proof (induction coins arbitrary: seen tot)
  case (Cons c coins)
  have money: "(\<exists>n. (case checked_add64 tot (cc_amount c) of
        Some n \<Rightarrow> if n \<le> max_money then Inr n else Inl e | None \<Rightarrow> Inl e) = Inr n \<and> P n) \<longleftrightarrow>
      tot + cc_amount c \<le> max_money \<and> P (tot + cc_amount c)" for e :: claim_error and P
    by (auto simp: checked_add64_def max_money_def)
  have hard: "is_hardened (cc_deriv_index c) \<longleftrightarrow> derived_desc D d c = None"
    by (cases "cc_deriv_index c") (simp_all add: derived_desc_def derive_def)
  have le: "tot + cc_amount c \<le> max_money \<and> (coins \<noteq> [] \<longrightarrow> tot + cc_amount c + sum_list (map cc_amount coins) \<le> max_money) \<longleftrightarrow>
      tot + sum_list (map cc_amount (c # coins)) \<le> max_money"
    by (cases coins) auto
  show ?case
    unfolding check_coins.simps guard_res_Inr bind_res_Inr money ok_or_Inr Cons.IH hard derived_desc_def [symmetric]
    using le by auto
qed auto

section \<open>Amounts of a sweep\<close>

lemma swept_amounts:
  assumes s: "swept L D d getter coins addr locktime poison change psbt"
  obtains fee vb where "sum_list (map cc_amount coins) = change + fee" and "fee \<le> 100000000"
    and "unsigned_tx_max_vbytes L D d (ps_unsigned_tx psbt) (primary_path coins) = Some vb"
    and "vb \<le> fee" and "fee < 1001 * vb"
    and "sum_list (map cc_amount coins) < 2 ^ 64" and "sum_list (map to_value (tx_output (ps_unsigned_tx psbt))) = change"
proof -
  have b: "built L D d getter [] coins addr locktime poison coins change \<lparr>cs_psbt = psbt, cs_has_change = True, cs_warnings = []\<rparr>"
    using s by (auto simp: built_def swept_def DUST_OUTPUT_SATS_def)
  have out: "sum_list (map to_value (tx_output (ps_unsigned_tx psbt))) = change"
    using s by (simp add: swept_def built_psbt_def poison_outputs_def change_outputs_def split: option.splits)
  moreover have "change < 2 ^ 64" using s by (simp add: swept_def max_money_def)
  ultimately have "value_out (ps_unsigned_tx psbt) = change" by (simp add: value_out_def)
  then show ?thesis
    using built_amounts [OF b] out that by (auto simp: MAX_FEE_def one_btc_def MAX_FEERATE_def)
qed

lemma swept_reverifies:
  "swept L D d getter coins addr locktime poison change psbt \<Longrightarrow> reverify_spend_before_broadcast L D d psbt = Inr ()"
  unfolding swept_def reverify_iff by (cases "primary_path coins") auto

lemma swept_shape:
  assumes "swept L D d getter coins addr locktime poison change psbt"
  shows "prevouts (ps_unsigned_tx psbt) = map cc_outpoint coins"
    and "tx_output (ps_unsigned_tx psbt) =
      poison_outputs poison @ [\<lparr>to_value = change, to_script = address_script (so_addr addr)\<rparr>]"
    and "map pi_witness_utxo (ps_inputs psbt) = map (\<lambda>c. Some (coin_output D d c)) coins"
    and "tx_lock_time (ps_unsigned_tx psbt) = locktime"
  using assms by (simp_all add: swept_def built_psbt_def prevouts_def change_outputs_def DUST_OUTPUT_SATS_def
      coin_psbt_in_def comp_def)

section \<open>The self-transfer\<close>

text \<open>A successful self-transfer, taken apart.\<close>

definition transferred ::
  "btc_api \<Rightarrow> desc_api \<Rightarrow> chain_id \<Rightarrow> descriptor \<Rightarrow> tx_getter \<Rightarrow> candidate_coin list \<Rightarrow> child_number \<Rightarrow> nat \<Rightarrow>
   block_hash option \<Rightarrow> derived_single_desc \<Rightarrow> script option \<Rightarrow> nat \<Rightarrow> poison_self_transfer \<Rightarrow> bool" where
  "transferred L D chain d getter coins change_index locktime fork_marker destination poison change t \<longleftrightarrow>
     chain \<in> {Bitcoin, Testnet4} \<and> \<not> is_taproot D d \<and> coins \<noteq> [] \<and> derive D d True change_index = Some destination \<and>
     check_coins L D d destination {} 0 coins = Inr (set (map cc_outpoint coins)) \<and>
     (case fork_marker of
        None \<Rightarrow> poison = None
      | Some marker \<Rightarrow> poison \<noteq> None \<and> split_poison_script L chain marker (set (map cc_outpoint coins)) = poison) \<and>
     swept L D d getter coins (own_change destination (bitcoin_network chain) change_index) locktime poison change (st_psbt t) \<and>
     st_descriptor t = d \<and> st_chain t = chain \<and> st_change_index t = change_index"

lemma create_self_transfer_parts:
  assumes laws: "selector_laws S"
    and run: "create_self_transfer S L D chain d getter coins change_index feerate_vb locktime fork_marker = Inr t"
  obtains destination poison change where
    "transferred L D chain d getter coins change_index locktime fork_marker destination poison change t"
proof -
  from run obtain network destination seen poison result where
    net: "(case chain of Bitcoin \<Rightarrow> Inr Net_Bitcoin | Testnet4 \<Rightarrow> Inr Net_Testnet4
       | _ \<Rightarrow> Inl (InvalidRequest ''Bitcoin mainnet or testnet4 source required'')) = Inr network"
    and guards: "\<not> is_taproot D d" "coins \<noteq> []" "derive D d True change_index = Some destination"
    and seen: "check_coins L D d destination {} 0 coins = Inr seen"
    and poison: "(case fork_marker of None \<Rightarrow> Inr None
        | Some marker \<Rightarrow> bind_res (ok_or (InvalidRequest ''Bitcoin mainnet or testnet4 source required'')
            (split_poison_script L chain marker seen)) (\<lambda>s. Inr (Some s))) = Inr poison"
    and result: "create_spend_with_poison S L D d getter [] (select_all coins) (Regular feerate_vb)
        (own_change destination network change_index) locktime poison = Inr result"
    and t: "st_psbt t = cs_psbt result" "st_descriptor t = d" "st_chain t = chain" "st_change_index t = change_index"
    unfolding create_self_transfer_def by (simp only: res_rules) auto
  have chain: "chain \<in> {Bitcoin, Testnet4}" "network = bitcoin_network chain"
    using net by (auto split: chain_id.splits)
  have "seen = set (map cc_outpoint coins)" using seen by (simp add: check_coins_iff)
  moreover obtain change where "swept L D d getter coins (own_change destination network change_index) locktime poison change
      (cs_psbt result)"
    using sweep.sweeps [OF laws result] by (auto simp: select_all_def [symmetric])
  ultimately show ?thesis
    using that [of destination poison change] chain guards seen poison t
    by (auto simp: transferred_def res_rules split: option.splits)
qed

text \<open>
  C6.  A self-transfer moves exactly the given coins back to the vault.  On Bitcoin or Testnet4 and
  a native SegWit descriptor only, its inputs are the given coins in order, distinct, not null and
  each proved owned by its previous transaction; its last output pays at least 500 satoshis to the
  script of the given change index, which no input spends from; before it there is only, when a
  fork marker is given, the zero-value poison script that commits to exactly these inputs.  Inputs
  equal that output plus a fee of at most one bitcoin and from 1 to under 1,001 satoshis per
  virtual byte, and the transaction passes the check before broadcast.
\<close>

theorem self_transfer_exact:
  assumes laws: "selector_laws S"
    and run: "create_self_transfer S L D chain d getter coins change_index feerate_vb locktime fork_marker = Inr t"
  shows "\<exists>destination value fee vb.
    chain \<in> {Bitcoin, Testnet4} \<and> \<not> is_taproot D d \<and> coins \<noteq> [] \<and> derive D d True change_index = Some destination \<and>
    prevouts (ps_unsigned_tx (st_psbt t)) = map cc_outpoint coins \<and> distinct (map cc_outpoint coins) \<and>
    (\<forall>c \<in> set coins. \<not> lib_is_null L (cc_outpoint c) \<and> owned_coin L D d getter c \<and>
       to_script (coin_output D d c) \<noteq> script_pubkey destination) \<and>
    (case fork_marker of
       None \<Rightarrow> tx_output (ps_unsigned_tx (st_psbt t)) = [\<lparr>to_value = value, to_script = script_pubkey destination\<rparr>]
     | Some marker \<Rightarrow> \<exists>poison. split_poison_script L chain marker (set (map cc_outpoint coins)) = Some poison \<and>
         tx_output (ps_unsigned_tx (st_psbt t)) =
           [\<lparr>to_value = 0, to_script = poison\<rparr>, \<lparr>to_value = value, to_script = script_pubkey destination\<rparr>]) \<and>
    500 \<le> value \<and> sum_list (map cc_amount coins) = value + fee \<and> sum_list (map cc_amount coins) \<le> max_money \<and>
    fee \<le> 100000000 \<and> unsigned_tx_max_vbytes L D d (ps_unsigned_tx (st_psbt t)) (primary_path coins) = Some vb \<and>
    vb \<le> fee \<and> fee < 1001 * vb \<and> reverify_spend_before_broadcast L D d (st_psbt t) = Inr ()"
proof -
  obtain destination poison change where
    tr: "transferred L D chain d getter coins change_index locktime fork_marker destination poison change t"
    using create_self_transfer_parts [OF assms] .
  then have s: "swept L D d getter coins (own_change destination (bitcoin_network chain) change_index) locktime poison change
      (st_psbt t)" unfolding transferred_def by blast
  obtain fee vb where amounts: "sum_list (map cc_amount coins) = change + fee" "fee \<le> 100000000"
    "unsigned_tx_max_vbytes L D d (ps_unsigned_tx (st_psbt t)) (primary_path coins) = Some vb" "vb \<le> fee" "fee < 1001 * vb"
    using swept_amounts [OF s] by metis
  have coins: "\<forall>c \<in> set coins. \<not> lib_is_null L (cc_outpoint c) \<and> owned_coin L D d getter c \<and>
      to_script (coin_output D d c) \<noteq> script_pubkey destination" "sum_list (map cc_amount coins) \<le> max_money"
    using tr s by (force simp: transferred_def check_coins_iff swept_def coin_output_def)+
  have outs: "case fork_marker of
       None \<Rightarrow> tx_output (ps_unsigned_tx (st_psbt t)) = [\<lparr>to_value = change, to_script = script_pubkey destination\<rparr>]
     | Some marker \<Rightarrow> \<exists>poison. split_poison_script L chain marker (set (map cc_outpoint coins)) = Some poison \<and>
         tx_output (ps_unsigned_tx (st_psbt t)) =
           [\<lparr>to_value = 0, to_script = poison\<rparr>, \<lparr>to_value = change, to_script = script_pubkey destination\<rparr>]"
    using tr swept_shape(2) [OF s] by (auto simp: transferred_def own_change_def poison_outputs_def split: option.splits)
  have "500 \<le> change" "distinct (map cc_outpoint coins)" using s by (simp_all add: swept_def DUST_OUTPUT_SATS_def)
  then show ?thesis
    using tr amounts coins outs swept_shape(1) [OF s] swept_reverifies [OF s]
    by (intro exI [of _ destination] exI [of _ change] exI [of _ fee] exI [of _ vb]) (simp add: transferred_def)
qed

lemma demo_transfer_ok:
  assumes coins: "a \<in> {1, 2, 3}" "b \<in> {1, 2, 3}" "a \<noteq> b" and f: "f \<in> {1, 2, 3}"
    and marker: "case marker of None \<Rightarrow> poison = None
      | Some m \<Rightarrow> length m = 32 \<and> poison = split_poison_script demo_api Bitcoin m (set (map cc_outpoint (demo_coins a b)))"
  shows "create_self_transfer demo_selector demo_api demo_desc Bitcoin demo_d demo_getter (demo_coins a b) (Normal 9) f 0 marker =
    Inr \<lparr>st_psbt = demo_built a b Net_Bitcoin 9 poison f, st_descriptor = demo_d, st_chain = Bitcoin,
      st_change_index = Normal 9, st_warnings = []\<rparr>"
proof -
  have poison: "\<forall>s. poison = Some s \<longrightarrow> lib_minimal_non_dust demo_api s = 0 \<and> length s < 100"
  proof (intro allI impI)
    fix s assume "poison = Some s"
    with marker obtain m where m: "length m = 32"
      "split_poison_script demo_api Bitcoin m (set (map cc_outpoint (demo_coins a b))) = Some s"
      by (auto split: option.splits)
    note reads = split_poison_script_reads(1,2) [OF demo_op_return_layout demo_sha256_digest m]
    then show "lib_minimal_non_dust demo_api s = 0 \<and> length s < 100"
      by (cases s) (simp_all add: demo_api_def)
  qed
  from marker have writes: "(case marker of None \<Rightarrow> Inr None
      | Some m \<Rightarrow> bind_res (ok_or (InvalidRequest ''Bitcoin mainnet or testnet4 source required'')
          (split_poison_script demo_api Bitcoin m (set (map cc_outpoint (demo_coins a b))))) (\<lambda>s. Inr (Some s))) = Inr poison"
    by (auto simp: split_poison_script_def split: option.splits)
  have scripts: "demo_script False n \<noteq> demo_script True m" for n m by (simp add: demo_script_def)
  have ids: "demo_txid (demo_prev a) \<noteq> demo_txid (demo_prev b)" using coins by (auto simp: demo_txid_prev)
  have "check_coins demo_api demo_desc demo_d (WshDesc (demo_script True 9) [] [([2], ([0], [Normal 9]))]) {} 0 (demo_coins a b) =
      Inr (set (map cc_outpoint (demo_coins a b)))"
    unfolding check_coins_iff using ids scripts by (simp add: max_money_def script_pubkey_def) (simp add: demo_api_def)
  moreover have "derive demo_desc demo_d True (Normal 9) = Some (WshDesc (demo_script True 9) [] [([2], ([0], [Normal 9]))])"
    by (simp add: derive_def demo_desc_def)
  moreover have "select_all (demo_coins a b) = demo_coins a b" by (simp add: select_all_def demo_wallet_coin_def)
  moreover have "own_change (WshDesc (demo_script True 9) [] [([2], ([0], [Normal 9]))]) net (Normal 9) = demo_change net 9" for net
    by (simp add: own_change_def demo_change_def desc_address_def script_pubkey_def)
  moreover have "\<not> is_taproot demo_desc demo_d" by (simp add: is_taproot_def demo_desc_def)
  ultimately show ?thesis
    by (simp add: create_self_transfer_def writes [unfolded list.set_map] demo_sweep_ok [OF coins f poison]
        del: check_coins.simps list.map set_simps)
qed

theorem self_transfer_exact_witness:
  "\<exists>value fee. sum_list (map cc_amount (demo_coins 1 2)) = value + fee \<and> 500 \<le> value \<and>
     length (tx_output (ps_unsigned_tx (demo_built 1 2 Net_Bitcoin 9
       (split_poison_script demo_api Bitcoin (replicate 32 7) (set (map cc_outpoint (demo_coins 1 2)))) 3))) = 2"
proof -
  have "create_self_transfer demo_selector demo_api demo_desc Bitcoin demo_d demo_getter (demo_coins 1 2) (Normal 9) 3 0
      (Some (replicate 32 7)) = Inr \<lparr>st_psbt = demo_built 1 2 Net_Bitcoin 9
        (split_poison_script demo_api Bitcoin (replicate 32 7) (set (map cc_outpoint (demo_coins 1 2)))) 3,
      st_descriptor = demo_d, st_chain = Bitcoin, st_change_index = Normal 9, st_warnings = []\<rparr>"
    by (rule demo_transfer_ok) (simp_all only: option.case length_replicate, simp_all)
  from self_transfer_exact [OF demo_selector_laws this] show ?thesis by auto
qed

text \<open>
  The return address can always be shown: for every self-transfer built, poisoned or not,
  \<open>verified_return_address\<close> finds exactly the one spendable output and returns the vault's change
  address of the given index on the transfer's network.  Wallet scripts are assumed not to be
  \<open>OP_RETURN\<close> scripts, as witness programs are not.
\<close>

theorem return_address_verified:
  assumes laws: "selector_laws S" "op_return_layout L" "sha256_digest L"
    and marker: "\<forall>m. fork_marker = Some m \<longrightarrow> length m = 32"
    and scripts: "\<forall>c i. \<not> lib_is_op_return L (script_pubkey (lib_derive D d c i))"
    and run: "create_self_transfer S L D chain d getter coins change_index feerate_vb locktime fork_marker = Inr t"
  shows "\<exists>destination. derive D d True change_index = Some destination \<and>
    verified_return_address L D t = Inr (desc_address destination (bitcoin_network chain))"
proof -
  obtain destination poison change where
    tr: "transferred L D chain d getter coins change_index locktime fork_marker destination poison change t"
    using create_self_transfer_parts [OF laws(1) run] .
  then have s: "swept L D d getter coins (own_change destination (bitcoin_network chain) change_index) locktime poison change
      (st_psbt t)" and dest: "derive D d True change_index = Some destination"
    and t: "st_descriptor t = d" "st_chain t = chain" "st_change_index t = change_index"
    unfolding transferred_def by blast+
  have "filter (\<lambda>out. \<not> lib_is_op_return L (to_script out)) (poison_outputs poison) = []"
    using tr marker split_poison_script_reads(2) [OF laws(2,3)]
    by (auto simp: transferred_def poison_outputs_def split: option.splits)
  moreover have "\<not> lib_is_op_return L (script_pubkey destination)" using dest scripts by (auto simp: res_rules)
  moreover have "0 < change" using s by (simp add: swept_def DUST_OUTPUT_SATS_def)
  ultimately show ?thesis
    using dest t swept_shape(2) [OF s] by (simp add: verified_return_address_def own_change_def)
qed

theorem return_address_verified_witness:
  "verified_return_address demo_api demo_desc \<lparr>st_psbt = demo_built 1 2 Net_Bitcoin 9 None 3, st_descriptor = demo_d,
     st_chain = Bitcoin, st_change_index = Normal 9, st_warnings = []\<rparr> = Inr (Address Net_Bitcoin (demo_script True 9))"
proof -
  have run: "create_self_transfer demo_selector demo_api demo_desc Bitcoin demo_d demo_getter (demo_coins 1 2) (Normal 9) 3 0 None =
      Inr \<lparr>st_psbt = demo_built 1 2 Net_Bitcoin 9 None 3, st_descriptor = demo_d, st_chain = Bitcoin,
        st_change_index = Normal 9, st_warnings = []\<rparr>"
    by (rule demo_transfer_ok) simp_all
  have scripts: "\<forall>c i. \<not> lib_is_op_return demo_api (script_pubkey (lib_derive demo_desc demo_d c i))"
    by (simp add: demo_desc_def demo_script_def script_pubkey_def demo_api_def)
  have none: "\<forall>m. None = Some m \<longrightarrow> length m = 32" by simp
  from return_address_verified [OF demo_selector_laws demo_op_return_layout demo_sha256_digest none scripts run]
  show ?thesis
    by (auto simp: derive_def demo_desc_def desc_address_def script_pubkey_def simp del: One_nat_def)
qed

section \<open>The fork sweep\<close>

lemma position_Some:
  "position P xs = Some i \<Longrightarrow> i < length xs \<and> P (xs ! i) \<and> (\<forall>j < i. \<not> P (xs ! j))"
proof (induction xs arbitrary: i)
  case (Cons x xs)
  then show ?case by (auto simp: less_Suc_eq_0_disj nth_Cons split: if_splits nat.splits)
qed simp

text \<open>A fork coin passes its checks when it is the added input, or repeats the source's authenticated output.\<close>

lemma check_fork_coin_owned:
  assumes "check_fork_coin D d original added destination coin = Inr u"
  shows "to_script (coin_output D d coin) \<noteq> script_pubkey destination"
    and "Some (cc_outpoint coin) \<noteq> added \<Longrightarrow> \<exists>j < length (tx_input (ps_unsigned_tx original)). j < length (ps_inputs original) \<and>
      prevouts (ps_unsigned_tx original) ! j = cc_outpoint coin \<and>
      pi_witness_utxo (ps_inputs original ! j) = Some (coin_output D d coin)"
proof -
  obtain prevout dd where dd: "derived_desc D d coin = Some dd" "script_pubkey destination \<noteq> script_pubkey dd"
    and same: "\<forall>p. prevout = Some p \<longrightarrow> cc_amount coin = to_value p \<and> script_pubkey dd = to_script p"
    and src: "if Some (cc_outpoint coin) = added then prevout = None
      else \<exists>j i p. position (\<lambda>i. ti_prev i = cc_outpoint coin) (tx_input (ps_unsigned_tx original)) = Some j \<and>
        nth_opt (ps_inputs original) j = Some i \<and> pi_witness_utxo i = Some p \<and> prevout = Some p"
    using assms unfolding check_fork_coin_def derived_desc_def [symmetric] by (auto simp: res_rules split: if_splits)
  show "to_script (coin_output D d coin) \<noteq> script_pubkey destination" using dd by (simp add: coin_output_def)
  assume "Some (cc_outpoint coin) \<noteq> added"
  then obtain j i p where p: "position (\<lambda>i. ti_prev i = cc_outpoint coin) (tx_input (ps_unsigned_tx original)) = Some j"
    "nth_opt (ps_inputs original) j = Some i" "pi_witness_utxo i = Some p" "prevout = Some p"
    using src by auto
  have "p = coin_output D d coin" using same p(4) dd(1) by (simp add: coin_output_def txout_eqI)
  then show "\<exists>j < length (tx_input (ps_unsigned_tx original)). j < length (ps_inputs original) \<and>
      prevouts (ps_unsigned_tx original) ! j = cc_outpoint coin \<and>
      pi_witness_utxo (ps_inputs original ! j) = Some (coin_output D d coin)"
    using p position_Some [OF p(1)] by (auto simp: prevouts_def nth_opt_Some intro!: exI [of _ j])
qed

lemma owned_spend_fee_iff:
  "owned_spend_fee coins psbt = Inr fee \<longleftrightarrow>
     sum_list (map cc_amount coins) = sum_list (map to_value (tx_output (ps_unsigned_tx psbt))) + fee \<and>
     sum_list (map cc_amount coins) < 2 ^ 64"
proof -
  have sums: "try_sum64 0 xs = Some s \<longleftrightarrow> s = sum_list xs \<and> s < 2 ^ 64" for xs s
    using try_sum64_iff [of 0 xs s] by simp
  have "owned_spend_fee coins psbt = Inr fee \<longleftrightarrow> (\<exists>a b. try_sum64 0 (map cc_amount coins) = Some a \<and>
      try_sum64 0 (map to_value (tx_output (ps_unsigned_tx psbt))) = Some b \<and> checked_sub a b = Some fee)"
    by (auto simp: owned_spend_fee_def res_rules split: option.splits)
  then show ?thesis unfolding sums by (auto simp: res_rules)
qed

lemma others_amount:
  assumes "find (\<lambda>c. cc_outpoint c = m) coins = Some c"
  shows "cc_amount c + sum_list (map cc_amount (filter (\<lambda>c. cc_outpoint c \<noteq> m) coins)) \<le> sum_list (map cc_amount coins)"
  using assms by (induction coins) (auto simp: sum_list_filter_le_nat split: if_splits)

lemma funded_by_iff:
  "funded_by chain missing coins marker psbt = Inr x \<longleftrightarrow>
     find (\<lambda>c. cc_outpoint c = marker) coins = Some x \<and> (\<exists>fee \<le> cc_amount x. owned_spend_fee coins psbt = Inr fee)"
  by (auto simp: funded_by_def res_rules)

text \<open>A successful fork sweep, taken apart.\<close>

definition fork_swept ::
  "btc_api \<Rightarrow> desc_api \<Rightarrow> poison_self_transfer \<Rightarrow> outpoint option \<Rightarrow> outpoint option \<Rightarrow> chain_id \<Rightarrow> tx_getter \<Rightarrow>
   candidate_coin list \<Rightarrow> child_number \<Rightarrow> nat \<Rightarrow> derived_single_desc \<Rightarrow> nat \<Rightarrow> claim_fork_sweep \<Rightarrow> bool" where
  "fork_swept L D source excluded added fork_chain getter coins change_index locktime destination change sw \<longleftrightarrow>
     fork_pair (st_chain source) fork_chain \<and> derive D (st_descriptor source) True change_index = Some destination \<and>
     (\<forall>m. added = Some m \<longrightarrow> m \<notin> set (prevouts (ps_unsigned_tx (st_psbt source))) \<and>
        (\<exists>c. find (\<lambda>c. cc_outpoint c = m) coins = Some c \<and> sum_list (map cc_amount coins) \<le> change + cc_amount c)) \<and>
     set (map cc_outpoint coins) =
       {p \<in> set (prevouts (ps_unsigned_tx (st_psbt source))). Some p \<noteq> excluded} \<union> set_option added \<and>
     (\<forall>c \<in> set coins. check_fork_coin D (st_descriptor source) (st_psbt source) added destination c = Inr ()) \<and>
     swept L D (st_descriptor source) getter coins (own_change destination (bitcoin_network fork_chain) change_index)
       locktime None change (fs_psbt sw) \<and>
     fs_chain sw = fork_chain \<and> fs_bitcoin_step1 sw = lib_txid L (ps_unsigned_tx (st_psbt source)) \<and>
     fs_fork_marker sw = added \<and> fs_descriptor sw = st_descriptor source \<and> fs_change_index sw = change_index"

lemma create_fork_sweep_parts:
  assumes laws: "selector_laws S"
    and run: "create_fork_sweep S L D source excluded added fork_chain getter coins change_index feerate_vb locktime = Inr sw"
  obtains destination change where
    "fork_swept L D source excluded added fork_chain getter coins change_index locktime destination change sw"
proof -
  let ?d = "st_descriptor source" and ?original = "st_psbt source"
  from run obtain destination us result where
    guards: "fork_pair (st_chain source) fork_chain" "derive D ?d True change_index = Some destination"
      "\<forall>m. added = Some m \<longrightarrow> m \<notin> set (prevouts (ps_unsigned_tx ?original))"
      "set (map cc_outpoint coins) =
        {p \<in> set (prevouts (ps_unsigned_tx ?original)). Some p \<noteq> excluded} \<union> set_option added"
    and checks: "collect_res (check_fork_coin D ?d ?original added destination) coins = Inr us"
    and result: "create_spend_with_poison S L D ?d getter [] (select_all coins) (Regular feerate_vb)
        (own_change destination (bitcoin_network fork_chain) change_index) locktime None = Inr result"
    and funded: "\<forall>m. added = Some m \<longrightarrow>
        (\<exists>c. funded_by BitcoinBlake2b ''Fork funding input is missing'' coins m (cs_psbt result) = Inr c)"
    and sw: "sw = \<lparr>fs_psbt = cs_psbt result, fs_chain = fork_chain,
        fs_bitcoin_step1 = lib_txid L (ps_unsigned_tx ?original), fs_fork_marker = added,
        fs_descriptor = ?d, fs_change_index = change_index, fs_warnings = cs_warnings result\<rparr>"
    unfolding create_fork_sweep_def create_spend_def Let_def
    by (simp only: res_rules) (auto simp: res_rules split: option.splits)
  obtain change where s: "swept L D ?d getter coins (own_change destination (bitcoin_network fork_chain) change_index)
      locktime None change (cs_psbt result)"
    using sweep.sweeps [OF laws result] by (auto simp: select_all_def [symmetric])
  have "\<exists>c. find (\<lambda>c. cc_outpoint c = m) coins = Some c \<and> sum_list (map cc_amount coins) \<le> change + cc_amount c"
    if "added = Some m" for m
    using funded that swept_amounts [OF s] by (fastforce simp: funded_by_iff owned_spend_fee_iff)
  moreover have "\<forall>c \<in> set coins. check_fork_coin D ?d ?original added destination c = Inr ()"
    using checks by (auto simp: collect_res_Inr list_all2_conv_all_nth in_set_conv_nth)
  ultimately have "fork_swept L D source excluded added fork_chain getter coins change_index locktime destination change sw"
    using guards s sw by (simp add: fork_swept_def)
  then show ?thesis by (rule that)
qed

text \<open>
  C7.  A fork sweep spends exactly the claimed inputs.  On the fork paired with the source's chain,
  its inputs are the given coins, distinct, and as a set the source's inputs without the excluded
  one and with the added one; every shared input repeats, amount and script, the output the
  Bitcoin construction authenticated for it; its single output pays at least 500 satoshis to the
  script of the given change index, which no input spends from, and inputs equal that output plus
  a bounded fee; an added input pays the whole fee, so the output is worth at least the shared
  coins; and the result names the Bitcoin transaction it belongs to.
\<close>

theorem fork_sweep_exact:
  assumes laws: "selector_laws S"
    and run: "create_fork_sweep S L D source excluded added fork_chain getter coins change_index feerate_vb locktime = Inr sw"
  shows "\<exists>destination value fee. fork_pair (st_chain source) fork_chain \<and>
    derive D (st_descriptor source) True change_index = Some destination \<and>
    fs_bitcoin_step1 sw = lib_txid L (ps_unsigned_tx (st_psbt source)) \<and> fs_fork_marker sw = added \<and>
    prevouts (ps_unsigned_tx (fs_psbt sw)) = map cc_outpoint coins \<and> distinct (map cc_outpoint coins) \<and>
    set (map cc_outpoint coins) =
      {p \<in> set (prevouts (ps_unsigned_tx (st_psbt source))). Some p \<noteq> excluded} \<union> set_option added \<and>
    (\<forall>k < length coins. Some (cc_outpoint (coins ! k)) \<noteq> added \<longrightarrow>
       (\<exists>j < length (ps_inputs (st_psbt source)).
          prevouts (ps_unsigned_tx (st_psbt source)) ! j = prevouts (ps_unsigned_tx (fs_psbt sw)) ! k \<and>
          pi_witness_utxo (ps_inputs (st_psbt source) ! j) = pi_witness_utxo (ps_inputs (fs_psbt sw) ! k) \<and>
          pi_witness_utxo (ps_inputs (fs_psbt sw) ! k) \<noteq> None)) \<and>
    (\<forall>c \<in> set coins. to_script (coin_output D (st_descriptor source) c) \<noteq> script_pubkey destination) \<and>
    tx_output (ps_unsigned_tx (fs_psbt sw)) = [\<lparr>to_value = value, to_script = script_pubkey destination\<rparr>] \<and> 500 \<le> value \<and>
    sum_list (map cc_amount coins) = value + fee \<and> fee \<le> 100000000 \<and>
    (\<forall>m. added = Some m \<longrightarrow> m \<notin> set (prevouts (ps_unsigned_tx (st_psbt source))) \<and>
       sum_list (map cc_amount (filter (\<lambda>c. cc_outpoint c \<noteq> m) coins)) \<le> value)"
proof -
  let ?d = "st_descriptor source" and ?original = "st_psbt source"
  obtain destination change where
    f: "fork_swept L D source excluded added fork_chain getter coins change_index locktime destination change sw"
    using create_fork_sweep_parts [OF assms] .
  then have s: "swept L D ?d getter coins (own_change destination (bitcoin_network fork_chain) change_index) locktime None
      change (fs_psbt sw)"
    and checks: "\<forall>c \<in> set coins. check_fork_coin D ?d ?original added destination c = Inr ()"
    unfolding fork_swept_def by blast+
  obtain fee where fee: "sum_list (map cc_amount coins) = change + fee" "fee \<le> 100000000"
    using swept_amounts [OF s] by metis
  have dist: "distinct (map cc_outpoint coins)" using s by (simp add: swept_def)
  have utxo: "pi_witness_utxo (ps_inputs (fs_psbt sw) ! k) = Some (coin_output D ?d (coins ! k))" if "k < length coins" for k
  proof -
    have "length (ps_inputs (fs_psbt sw)) = length coins"
      using arg_cong [OF swept_shape(3) [OF s], of length] by simp
    then show ?thesis using arg_cong [OF swept_shape(3) [OF s], of "\<lambda>xs. xs ! k"] that by simp
  qed
  have shared: "\<exists>j < length (ps_inputs ?original).
      prevouts (ps_unsigned_tx ?original) ! j = prevouts (ps_unsigned_tx (fs_psbt sw)) ! k \<and>
      pi_witness_utxo (ps_inputs ?original ! j) = pi_witness_utxo (ps_inputs (fs_psbt sw) ! k) \<and>
      pi_witness_utxo (ps_inputs (fs_psbt sw) ! k) \<noteq> None"
    if k: "k < length coins" "Some (cc_outpoint (coins ! k)) \<noteq> added" for k
    using check_fork_coin_owned(2) [of D ?d ?original added destination "coins ! k" "()"] checks k utxo [OF k(1)]
      swept_shape(1) [OF s] by auto
  have worth: "sum_list (map cc_amount (filter (\<lambda>c. cc_outpoint c \<noteq> m) coins)) \<le> change" if m: "added = Some m" for m
  proof -
    obtain c where c: "find (\<lambda>c. cc_outpoint c = m) coins = Some c" "sum_list (map cc_amount coins) \<le> change + cc_amount c"
      using f m by (auto simp: fork_swept_def)
    then show ?thesis using others_amount [OF c(1)] by simp
  qed
  have "500 \<le> change" using s by (simp add: swept_def DUST_OUTPUT_SATS_def)
  moreover have "tx_output (ps_unsigned_tx (fs_psbt sw)) = [\<lparr>to_value = change, to_script = script_pubkey destination\<rparr>]"
    using swept_shape(2) [OF s] by (simp add: own_change_def poison_outputs_def)
  moreover have "\<forall>c \<in> set coins. to_script (coin_output D ?d c) \<noteq> script_pubkey destination"
    using checks check_fork_coin_owned(1) by blast
  ultimately show ?thesis
    using f fee dist shared worth swept_shape(1) [OF s]
    by (intro exI [of _ destination] exI [of _ change] exI [of _ fee]) (simp add: fork_swept_def)
qed

end
