(* ===== verification/Claim_Pair.thy ===== *)
theory Claim_Pair
  imports Claim_Transactions
begin

text \<open>
  The two transactions of one claim together, and their reconstruction after a restart
  (\<open>coincube-core/src/claim_spend.rs\<close>).
\<close>

section \<open>Example of a fork sweep\<close>

text \<open>
  Bitcoin spends coins 1 and 2, of which 2 is the Bitcoin-only input; the fork spends coin 1 and
  its own coin 3.
\<close>

abbreviation demo_source :: poison_self_transfer where
  "demo_source \<equiv> \<lparr>st_psbt = demo_built 1 2 Net_Bitcoin 9 None 3, st_descriptor = demo_d, st_chain = Bitcoin,
     st_change_index = Normal 9, st_warnings = []\<rparr>"

abbreviation demo_outpoint :: "nat \<Rightarrow> outpoint" where
  "demo_outpoint n \<equiv> OutPoint (demo_txid (demo_prev n)) 0"

abbreviation demo_fork_sweep :: "nat \<Rightarrow> claim_fork_sweep" where
  "demo_fork_sweep f \<equiv> \<lparr>fs_psbt = demo_built 1 3 Net_Bitcoin 8 None f, fs_chain = BitcoinBlake2b,
     fs_bitcoin_step1 = demo_txid (ps_unsigned_tx (st_psbt demo_source)), fs_fork_marker = Some (demo_outpoint 3),
     fs_descriptor = demo_d, fs_change_index = Normal 8, fs_warnings = []\<rparr>"

lemma demo_coin_ids [simp]:
  "demo_txid (demo_prev 1) \<noteq> demo_txid (demo_prev 2)" "demo_txid (demo_prev 2) \<noteq> demo_txid (demo_prev 1)"
  "demo_txid (demo_prev 1) \<noteq> demo_txid (demo_prev 3)" "demo_txid (demo_prev 3) \<noteq> demo_txid (demo_prev 1)"
  "demo_txid (demo_prev 2) \<noteq> demo_txid (demo_prev 3)" "demo_txid (demo_prev 3) \<noteq> demo_txid (demo_prev 2)"
  by (simp_all add: demo_txid_prev)

lemma demo_built_shape:
  fixes a b n v :: nat and net :: network and poison :: "script option"
  defines "psbt \<equiv> built_psbt demo_desc demo_d demo_getter [] (demo_change net n) 0 poison (demo_coins a b) v"
  shows "prevouts (ps_unsigned_tx psbt) = [demo_outpoint a, demo_outpoint b]"
    and "tx_input (ps_unsigned_tx psbt) = map coin_txin (demo_coins a b)"
    and "ps_inputs psbt = map (coin_psbt_in demo_desc demo_d demo_getter) (demo_coins a b)"
    and "0 < v \<Longrightarrow> tx_output (ps_unsigned_tx psbt) = poison_outputs poison @ [\<lparr>to_value = v, to_script = demo_script True n\<rparr>]"
    and "tx_lock_time (ps_unsigned_tx psbt) = 0"
  by (auto simp: psbt_def built_psbt_def prevouts_def change_outputs_def demo_change_def address_script_def)

lemma demo_select_all: "select_all (demo_coins a b) = demo_coins a b"
  by (simp add: select_all_def demo_wallet_coin_def)

lemma demo_derive: "derive demo_desc demo_d c (Normal n) = Some (WshDesc (demo_script c n) [] [([2], ([0], [Normal n]))])"
  by (simp add: derive_def demo_desc_def)

lemma demo_own_change:
  "own_change (WshDesc (demo_script True n) [] [([2], ([0], [Normal n]))]) net (Normal n) = demo_change net n"
  by (simp add: own_change_def demo_change_def desc_address_def script_pubkey_def)

lemma demo_funded:
  assumes "f \<in> {1, 2, 3}" and "find (\<lambda>c. cc_outpoint c = demo_outpoint m) (demo_coins a b) = Some (demo_wallet_coin m)"
  shows "funded_by chain missing (demo_coins a b) (demo_outpoint m) (demo_built a b net n None f) = Inr (demo_wallet_coin m)"
proof -
  have "owned_spend_fee (demo_coins a b) (demo_built a b net n None f) = Inr (f * 300)"
    using assms(1) unfolding owned_spend_fee_iff by (auto simp: demo_built_shape poison_outputs_def)
  then show ?thesis using assms unfolding funded_by_iff by auto
qed

lemma demo_check_fork_coin:
  "n \<in> {1, 3} \<Longrightarrow> check_fork_coin demo_desc demo_d (st_psbt demo_source) (Some (demo_outpoint 3))
     (WshDesc (demo_script True 8) [] [([2], ([0], [Normal 8]))]) (demo_wallet_coin n) = Inr ()"
proof -
  have fresh: "demo_script True 8 \<noteq> demo_script False n" for n by (simp add: demo_script_def)
  have change: "cc_is_change (demo_wallet_coin n) = False" for n by (simp add: demo_wallet_coin_def)
  define original where "original = st_psbt demo_source"
  have pos: "position (\<lambda>i. ti_prev i = demo_outpoint 1) (tx_input (ps_unsigned_tx original)) = Some 0"
    by (simp add: original_def demo_built_shape del: One_nat_def)
  have nth: "nth_opt (ps_inputs original) 0 = Some (coin_psbt_in demo_desc demo_d demo_getter (demo_wallet_coin 1))"
    by (simp add: original_def demo_built_shape nth_opt_def del: One_nat_def)
  have utxo: "pi_witness_utxo (coin_psbt_in demo_desc demo_d demo_getter (demo_wallet_coin 1)) =
      Some \<lparr>to_value = 100000, to_script = demo_script False 1\<rparr>"
    by (simp add: coin_psbt_in_def coin_output_def script_pubkey_def del: One_nat_def)
  note unfold = check_fork_coin_def change demo_derive demo_coin_simps script_pubkey_def fresh pos nth utxo
  show "n \<in> {1, 3} \<Longrightarrow> ?thesis"
    unfolding insert_iff empty_iff original_def [symmetric] by (elim disjE) (simp_all add: unfold del: One_nat_def)
qed

lemma demo_fork_ok:
  assumes f: "f \<in> {1, 2, 3}"
  shows "create_fork_sweep demo_selector demo_api demo_desc demo_source (Some (demo_outpoint 2)) (Some (demo_outpoint 3))
    BitcoinBlake2b demo_getter (demo_coins 1 3) (Normal 8) f 0 = Inr (demo_fork_sweep f)"
proof -
  let ?dest = "WshDesc (demo_script True 8) [] [([2], ([0], [Normal 8]))]"
  have null: "\<not> lib_is_null demo_api (demo_outpoint 3)" by (simp add: demo_api_def)
  have claimed: "set (map cc_outpoint (demo_coins 1 3)) =
      {p \<in> set (prevouts (ps_unsigned_tx (st_psbt demo_source))). Some p \<noteq> Some (demo_outpoint 2)} \<union> {demo_outpoint 3}"
    by (auto simp: demo_built_shape simp del: One_nat_def)
  have checks: "collect_res (check_fork_coin demo_desc demo_d (st_psbt demo_source) (Some (demo_outpoint 3)) ?dest) (demo_coins 1 3) =
      Inr [(), ()]"
    using demo_check_fork_coin [of 1] demo_check_fork_coin [of 3] by (simp del: One_nat_def)
  have spend: "create_spend demo_selector demo_api demo_desc demo_d demo_getter [] (demo_coins 1 3) (Regular f)
      (demo_change Net_Bitcoin 8) 0 = Inr \<lparr>cs_psbt = demo_built 1 3 Net_Bitcoin 8 None f, cs_has_change = True, cs_warnings = []\<rparr>"
    unfolding create_spend_def by (rule demo_sweep_ok) (use f in simp_all)
  have funded: "funded_by BitcoinBlake2b ''Fork funding input is missing'' (demo_coins 1 3) (demo_outpoint 3)
      (demo_built 1 3 Net_Bitcoin 8 None f) = Inr (demo_wallet_coin 3)"
    by (rule demo_funded [OF f]) (simp del: One_nat_def)
  have fresh: "demo_outpoint 3 \<notin> set (prevouts (ps_unsigned_tx (st_psbt demo_source)))" "distinct (map cc_outpoint (demo_coins 1 3))"
    by (simp_all add: demo_built_shape del: One_nat_def)
  have txid: "lib_txid demo_api = demo_txid" by (simp add: demo_api_def)
  show ?thesis
    unfolding create_fork_sweep_def Let_def poison_self_transfer.simps demo_derive demo_select_all
    using null claimed fresh checks
    by (simp only: poison_self_transfer.simps option.case fork_pair.simps is_hardened_simps guard_res_simps not_True_eq_False
        simp_thms ok_or_simps bind_res_simps option.set list.simps demo_own_change bitcoin_network.simps spend funded
        map_err_simps create_spend_res.simps txid)
qed

theorem fork_sweep_exact_witness:
  "\<exists>value fee. sum_list (map cc_amount (demo_coins 1 3)) = value + fee \<and> 500 \<le> value \<and> fee \<le> 100000000 \<and>
     set (map cc_outpoint (demo_coins 1 3)) =
       {p \<in> set (prevouts (ps_unsigned_tx (st_psbt demo_source))). Some p \<noteq> Some (demo_outpoint 2)} \<union> {demo_outpoint 3}"
proof -
  have "(2 :: nat) \<in> {1, 2, 3}" by simp
  from fork_sweep_exact [OF demo_selector_laws demo_fork_ok [OF this]] show ?thesis
    by (simp only: option.set) blast
qed

section \<open>A Bitcoin transaction and its fork sweep\<close>

lemma find_key: "find (\<lambda>x. k x = p) xs = Some x \<Longrightarrow> x \<in> set xs \<and> k x = p"
  by (induction xs) (auto split: if_splits)

lemma keys_without: "set (map k (filter (\<lambda>x. k x \<noteq> p) xs)) = set (map k xs) - {p}"
  by auto

text \<open>Two lists of coins with the same outpoints and amounts have the same total.\<close>

lemma amounts_agree:
  assumes dist: "distinct (map cc_outpoint xs)" "distinct (map cc_outpoint ys)"
    and outpoints: "set (map cc_outpoint xs) = set (map cc_outpoint ys)"
    and same: "\<And>y. y \<in> set ys \<Longrightarrow> \<exists>x \<in> set xs. cc_outpoint x = cc_outpoint y \<and> cc_amount x = cc_amount y"
  shows "sum_list (map cc_amount xs) = sum_list (map cc_amount ys)"
proof -
  let ?amount = "\<lambda>p. the (map_of (map (\<lambda>c. (cc_outpoint c, cc_amount c)) xs) p)"
  have x: "?amount (cc_outpoint c) = cc_amount c" if "c \<in> set xs" for c
  proof -
    have "map_of (map (\<lambda>c. (cc_outpoint c, cc_amount c)) xs) (cc_outpoint c) = Some (cc_amount c)"
      by (rule map_of_is_SomeI) (use that dist(1) in \<open>auto simp: comp_def\<close>)
    then show ?thesis by simp
  qed
  then have "?amount (cc_outpoint c) = cc_amount c" if "c \<in> set ys" for c using same [OF that] by metis
  with x have "map cc_amount xs = map ?amount (map cc_outpoint xs)" "map cc_amount ys = map ?amount (map cc_outpoint ys)"
    by simp_all
  then show ?thesis using dist outpoints by (simp only: sum_list_distinct_conv_sum_set)
qed

text \<open>Coins that a fork sweep shares with its source have the amounts the source gave them.\<close>

lemma shared_amounts:
  assumes s: "swept L D d getter coins addr locktime poison change (st_psbt source)" and d: "st_descriptor source = d"
    and c: "check_fork_coin D d (st_psbt source) added destination c' = Inr ()" "Some (cc_outpoint c') \<noteq> added"
  obtains c where "c \<in> set coins" and "cc_outpoint c = cc_outpoint c'" and "cc_amount c = cc_amount c'"
proof -
  obtain j where j: "j < length (tx_input (ps_unsigned_tx (st_psbt source)))"
    "prevouts (ps_unsigned_tx (st_psbt source)) ! j = cc_outpoint c'"
    "pi_witness_utxo (ps_inputs (st_psbt source) ! j) = Some (coin_output D d c')"
    using check_fork_coin_owned(2) [OF c] by blast
  have len: "length (tx_input (ps_unsigned_tx (st_psbt source))) = length coins" "length (ps_inputs (st_psbt source)) = length coins"
    using arg_cong [OF swept_shape(1) [OF s], of length] arg_cong [OF swept_shape(3) [OF s], of length]
    by (simp_all add: prevouts_def)
  have "coin_output D d (coins ! j) = coin_output D d c'"
    using j(1,3) len arg_cong [OF swept_shape(3) [OF s], of "\<lambda>xs. xs ! j"] by simp
  then have "cc_amount (coins ! j) = cc_amount c'" by (simp add: coin_output_def)
  moreover have "cc_outpoint (coins ! j) = cc_outpoint c'" using j(1,2) len swept_shape(1) [OF s] by simp
  ultimately show ?thesis using that [of "coins ! j"] j(1) len by simp
qed

lemma create_ancestry_parts:
  assumes laws: "selector_laws S"
    and run: "create_ancestry_self_transfer S L D chain d getter coins change_index feerate_vb locktime dependency = Inr a"
  obtains destination change marker where
    "transferred L D Bitcoin d getter coins change_index locktime None destination None change (at_transfer a)"
    and "2 \<le> length coins" and "find (\<lambda>c. cc_outpoint c = cd_selected dependency) coins = Some marker"
    and "sum_list (map cc_amount coins) \<le> change + cc_amount marker"
    and "at_poison_input a = cd_selected dependency"
    and "at_claimed_prevouts a = filter (\<lambda>p. p \<noteq> cd_selected dependency) (map cc_outpoint coins)"
proof -
  let ?p = "cd_selected dependency"
  from run obtain transfer marker where
    guards: "chain = Bitcoin" "2 \<le> length coins"
    and t: "create_self_transfer S L D chain d getter coins change_index feerate_vb locktime None = Inr transfer"
    and m: "funded_by Bitcoin ''Selected ancestry input is missing'' coins ?p (st_psbt transfer) = Inr marker"
    and a: "a = \<lparr>at_transfer = transfer, at_poison_input = ?p,
        at_poison_derivation = (cc_deriv_index marker, cc_is_change marker),
        at_claimed_prevouts = filter (\<lambda>p. p \<noteq> ?p) (prevouts (ps_unsigned_tx (st_psbt transfer)))\<rparr>"
    unfolding create_ancestry_self_transfer_def Let_def by (auto simp: res_rules)
  obtain destination poison change where
    tr: "transferred L D chain d getter coins change_index locktime None destination poison change transfer"
    using create_self_transfer_parts [OF laws t] .
  have s: "swept L D d getter coins (own_change destination (bitcoin_network chain) change_index) locktime poison change
      (st_psbt transfer)" and none: "poison = None"
    using tr by (auto simp: transferred_def)
  have "sum_list (map cc_amount coins) \<le> change + cc_amount marker"
    using m swept_amounts [OF s] by (fastforce simp: funded_by_iff owned_spend_fee_iff)
  then show ?thesis
    using that tr m guards a none swept_shape(1) [OF s] by (simp add: funded_by_iff)
qed

text \<open>What the fork sweep of an ancestry transfer has in common with it.\<close>

lemma fork_sweep_shares:
  assumes s: "swept L D d getter coins addr locktime None change (st_psbt source)" and d: "st_descriptor source = d"
    and fs: "fork_swept L D source (Some p) (Some f) fork_chain getter' coins' change_index' locktime' dest' change' sw"
  shows "set (map cc_outpoint coins') = insert f (set (map cc_outpoint coins) - {p})" and "f \<notin> set (map cc_outpoint coins)"
    and "sum_list (map cc_amount (filter (\<lambda>c. cc_outpoint c \<noteq> f) coins')) =
      sum_list (map cc_amount (filter (\<lambda>c. cc_outpoint c \<noteq> p) coins))"
    and "sum_list (map cc_amount (filter (\<lambda>c. cc_outpoint c \<noteq> f) coins')) \<le> change'"
proof -
  note pre = swept_shape(1) [OF s]
  show ins: "set (map cc_outpoint coins') = insert f (set (map cc_outpoint coins) - {p})"
    and new: "f \<notin> set (map cc_outpoint coins)"
    using fs unfolding fork_swept_def pre by auto
  have checks: "\<forall>c \<in> set coins'. check_fork_coin D d (st_psbt source) (Some f) dest' c = Inr ()"
    and s': "swept L D d getter' coins' (own_change dest' (bitcoin_network fork_chain) change_index') locktime' None change'
      (fs_psbt sw)" using fs unfolding fork_swept_def d by blast+
  have dist: "distinct (map cc_outpoint coins)" "distinct (map cc_outpoint coins')" using s s' by (simp_all add: swept_def)
  show "sum_list (map cc_amount (filter (\<lambda>c. cc_outpoint c \<noteq> f) coins')) =
      sum_list (map cc_amount (filter (\<lambda>c. cc_outpoint c \<noteq> p) coins))"
  proof (rule amounts_agree [symmetric])
    show "distinct (map cc_outpoint (filter (\<lambda>c. cc_outpoint c \<noteq> p) coins))"
      "distinct (map cc_outpoint (filter (\<lambda>c. cc_outpoint c \<noteq> f) coins'))" using dist by (simp_all add: distinct_map_filter)
    show outs: "set (map cc_outpoint (filter (\<lambda>c. cc_outpoint c \<noteq> p) coins)) =
      set (map cc_outpoint (filter (\<lambda>c. cc_outpoint c \<noteq> f) coins'))" unfolding keys_without ins using new by auto
    fix c' assume c': "c' \<in> set (filter (\<lambda>c. cc_outpoint c \<noteq> f) coins')"
    then obtain c where c: "c \<in> set coins" "cc_outpoint c = cc_outpoint c'" "cc_amount c = cc_amount c'"
      using shared_amounts [OF s d, of "Some f" dest' c'] checks by auto
    moreover have "cc_outpoint c' \<in> set (map cc_outpoint coins')" using c' by simp
    then have "cc_outpoint c' \<noteq> p" using c' unfolding ins by auto
    ultimately show "\<exists>c \<in> set (filter (\<lambda>c. cc_outpoint c \<noteq> p) coins). cc_outpoint c = cc_outpoint c' \<and> cc_amount c = cc_amount c'"
      by auto
  qed
  obtain m where "find (\<lambda>c. cc_outpoint c = f) coins' = Some m" "sum_list (map cc_amount coins') \<le> change' + cc_amount m"
    using fs unfolding fork_swept_def by blast
  then show "sum_list (map cc_amount (filter (\<lambda>c. cc_outpoint c \<noteq> f) coins')) \<le> change'"
    using others_amount [of f coins' m] by simp
qed

text \<open>
  C3.  The two transactions of an ancestry claim overlap in exactly the shared coins.  Bitcoin spends
  the shared coins and its own marker, the fork the same shared coins and its own marker; neither
  marker is an input on the other chain, so neither transaction is a transaction of the other
  chain.  There is at least one shared coin, both chains' constructions agree on the total of the
  shared coins, and each transaction's single output is worth at least that total: each marker
  pays its own chain's fee.
\<close>

theorem ancestry_pair_exact:
  assumes laws: "selector_laws S"
    and btc: "create_ancestry_self_transfer S L D chain d getter coins change_index feerate_vb locktime dependency = Inr a"
    and fork: "create_ancestry_fork_sweep_with_marker S L D a fork_chain getter' coins' change_index' feerate_vb' locktime'
      fork_dependency = Inr sw"
  shows "\<exists>value value' total script script'. chain = Bitcoin \<and> fork_chain = BitcoinBlake2b \<and>
    (let p = cd_selected dependency; f = cd_selected fork_dependency; shared = set (at_claimed_prevouts a);
         tx = ps_unsigned_tx (st_psbt (at_transfer a)); tx' = ps_unsigned_tx (fs_psbt sw) in
     shared \<noteq> {} \<and> p \<notin> shared \<and> f \<notin> shared \<and> p \<noteq> f \<and>
     distinct (prevouts tx) \<and> set (prevouts tx) = insert p shared \<and>
     distinct (prevouts tx') \<and> set (prevouts tx') = insert f shared \<and>
     sum_list (map cc_amount (filter (\<lambda>c. cc_outpoint c \<in> shared) coins)) = total \<and>
     sum_list (map cc_amount (filter (\<lambda>c. cc_outpoint c \<in> shared) coins')) = total \<and>
     tx_output tx = [\<lparr>to_value = value, to_script = script\<rparr>] \<and> total \<le> value \<and>
     tx_output tx' = [\<lparr>to_value = value', to_script = script'\<rparr>] \<and> total \<le> value')"
proof -
  let ?p = "cd_selected dependency" and ?f = "cd_selected fork_dependency" and ?shared = "set (at_claimed_prevouts a)"
  obtain dest change marker where
    tr: "transferred L D Bitcoin d getter coins change_index locktime None dest None change (at_transfer a)"
    and two: "2 \<le> length coins" and m: "find (\<lambda>c. cc_outpoint c = ?p) coins = Some marker"
    and paid: "sum_list (map cc_amount coins) \<le> change + cc_amount marker"
    and a: "at_poison_input a = ?p" "at_claimed_prevouts a = filter (\<lambda>p. p \<noteq> ?p) (map cc_outpoint coins)"
    using create_ancestry_parts [OF laws btc] .
  have s: "swept L D d getter coins (own_change dest Net_Bitcoin change_index) locktime None change (st_psbt (at_transfer a))"
    and desc: "st_descriptor (at_transfer a) = d" "st_chain (at_transfer a) = Bitcoin"
    using tr by (simp_all add: transferred_def)
  obtain dest' change' where
    fs: "fork_swept L D (at_transfer a) (Some ?p) (Some ?f) fork_chain getter' coins' change_index' locktime' dest' change' sw"
    using create_fork_sweep_parts [OF laws fork [unfolded create_ancestry_fork_sweep_with_marker_def a(1)]] .
  then have s': "swept L D d getter' coins' (own_change dest' (bitcoin_network fork_chain) change_index') locktime' None change'
      (fs_psbt sw)" and pair: "fork_pair Bitcoin fork_chain" unfolding fork_swept_def desc by blast+
  note shares = fork_sweep_shares [OF s desc(1) fs]
  have dist: "distinct (map cc_outpoint coins)" "distinct (map cc_outpoint coins')" using s s' by (simp_all add: swept_def)
  have shared: "?shared = set (map cc_outpoint coins) - {?p}" using a(2) by auto
  have p_in: "?p \<in> set (map cc_outpoint coins)" using find_key [OF m] by (metis image_eqI list.set_map)
  have shared_ne: "?shared \<noteq> {}"
  proof
    assume "?shared = {}"
    then have "set (map cc_outpoint coins) \<subseteq> {?p}" using shared by auto
    then have "card (set (map cc_outpoint coins)) \<le> 1" using card_mono [of "{?p}"] by simp
    then show False using two distinct_card [OF dist(1)] by simp
  qed
  have filters: "filter (\<lambda>c. cc_outpoint c \<in> ?shared) coins = filter (\<lambda>c. cc_outpoint c \<noteq> ?p) coins"
    "filter (\<lambda>c. cc_outpoint c \<in> ?shared) coins' = filter (\<lambda>c. cc_outpoint c \<noteq> ?f) coins'"
    using shared shares(1,2) by (auto intro!: filter_cong)
  let ?total = "sum_list (map cc_amount (filter (\<lambda>c. cc_outpoint c \<noteq> ?p) coins))"
  have worth: "?total \<le> change" "?total \<le> change'" using others_amount [OF m] paid shares(3,4) by simp_all
  have outs: "tx_output (ps_unsigned_tx (st_psbt (at_transfer a))) = [\<lparr>to_value = change, to_script = script_pubkey dest\<rparr>]"
    "tx_output (ps_unsigned_tx (fs_psbt sw)) = [\<lparr>to_value = change', to_script = script_pubkey dest'\<rparr>]"
    using swept_shape(2) [OF s] swept_shape(2) [OF s'] by (simp_all add: own_change_def poison_outputs_def)
  have "chain = Bitcoin" using btc by (auto simp: create_ancestry_self_transfer_def Let_def res_rules)
  moreover have "fork_chain = BitcoinBlake2b" using pair by (cases fork_chain) simp_all
  moreover have "set (map cc_outpoint coins) = insert ?p ?shared" "set (map cc_outpoint coins') = insert ?f ?shared"
    "?p \<notin> ?shared" "?f \<notin> ?shared" "?p \<noteq> ?f"
    using shared shares(1,2) p_in by auto
  ultimately show ?thesis
    unfolding Let_def swept_shape(1) [OF s] swept_shape(1) [OF s'] filters outs using dist shared_ne shares(3) worth
    by (intro exI [of _ change] exI [of _ change'] exI [of _ ?total] exI [of _ "script_pubkey dest"]
        exI [of _ "script_pubkey dest'"]) simp
qed

abbreviation demo_dependency :: "nat \<Rightarrow> coinbase_dependency" where
  "demo_dependency n \<equiv> \<lparr>cd_selected = demo_outpoint n, cd_root = demo_outpoint n, cd_coinbase = demo_coinbase, cd_txids = []\<rparr>"

abbreviation demo_ancestry :: "nat \<Rightarrow> ancestry_self_transfer" where
  "demo_ancestry f \<equiv> \<lparr>at_transfer = demo_source\<lparr>st_psbt := demo_built 1 2 Net_Bitcoin 9 None f\<rparr>,
     at_poison_input = demo_outpoint 2, at_poison_derivation = (Normal 2, False), at_claimed_prevouts = [demo_outpoint 1]\<rparr>"

lemma demo_ancestry_ok:
  assumes f: "f \<in> {1, 2, 3}"
  shows "create_ancestry_self_transfer demo_selector demo_api demo_desc Bitcoin demo_d demo_getter (demo_coins 1 2) (Normal 9) f 0
    (demo_dependency 2) = Inr (demo_ancestry f)"
proof -
  have transfer: "create_self_transfer demo_selector demo_api demo_desc Bitcoin demo_d demo_getter (demo_coins 1 2) (Normal 9) f 0 None =
      Inr \<lparr>st_psbt = demo_built 1 2 Net_Bitcoin 9 None f, st_descriptor = demo_d, st_chain = Bitcoin,
        st_change_index = Normal 9, st_warnings = []\<rparr>"
    by (rule demo_transfer_ok) (use f in simp_all)
  have funded: "funded_by Bitcoin ''Selected ancestry input is missing'' (demo_coins 1 2) (demo_outpoint 2)
      (demo_built 1 2 Net_Bitcoin 9 None f) = Inr (demo_wallet_coin 2)"
    by (rule demo_funded [OF f]) (simp del: One_nat_def)
  show ?thesis
    using transfer funded
    by (simp add: create_ancestry_self_transfer_def demo_built_shape del: One_nat_def)
      (simp add: demo_wallet_coin_def)
qed

theorem ancestry_pair_exact_witness:
  "\<exists>value value' total. total \<le> value \<and> total \<le> value' \<and>
     sum_list (map cc_amount (filter (\<lambda>c. cc_outpoint c \<in> {demo_outpoint 1}) (demo_coins 1 2))) = total \<and>
     tx_output (ps_unsigned_tx (demo_built 1 3 Net_Bitcoin 8 None 2)) = [\<lparr>to_value = value', to_script = demo_script True 8\<rparr>]"
proof -
  have f: "(2 :: nat) \<in> {1, 2, 3}" "(3 :: nat) \<in> {1, 2, 3}" by simp_all
  have fork: "create_ancestry_fork_sweep_with_marker demo_selector demo_api demo_desc (demo_ancestry 3) BitcoinBlake2b demo_getter
      (demo_coins 1 3) (Normal 8) 2 0 (demo_dependency 3) = Inr (demo_fork_sweep 2)"
    unfolding create_ancestry_fork_sweep_with_marker_def using demo_fork_ok [OF f(1)] by simp
  from ancestry_pair_exact [OF demo_selector_laws demo_ancestry_ok [OF f(2)] fork]
  obtain v v' total s s' where "total \<le> v" "total \<le> v'"
    "sum_list (map cc_amount (filter (\<lambda>c. cc_outpoint c \<in> {demo_outpoint 1}) (demo_coins 1 2))) = total"
    and out: "tx_output (ps_unsigned_tx (demo_built 1 3 Net_Bitcoin 8 None 2)) = [\<lparr>to_value = v', to_script = s'\<rparr>]"
    unfolding Let_def ancestry_self_transfer.simps claim_fork_sweep.simps coinbase_dependency.simps list.set
    by (elim exE conjE) (rule that; assumption)
  moreover from out have "s' = demo_script True 8" by (simp add: demo_built_shape poison_outputs_def)
  ultimately show ?thesis by blast
qed

section \<open>Reconstruction\<close>

lemma set_output_value_twice:
  "set_output_value i v psbt = Some psbt' \<Longrightarrow> to_value (tx_output (ps_unsigned_tx psbt') ! i) = v"
  by (auto simp: set_output_value_def Let_def split: if_splits)

text \<open>A rebuilt sweep whose last value is set to the recorded one is the recorded sweep.\<close>

lemma rebuilt_sweep:
  assumes "swept L D d getter coins addr locktime poison v psbt" and "swept L D d getter coins addr locktime poison v' psbt'"
  shows "set_output_value (length (poison_outputs poison))
    (to_value (tx_output (ps_unsigned_tx psbt) ! length (poison_outputs poison))) psbt' = Some psbt"
  using assms by (simp add: swept_def built_psbt_def change_outputs_def DUST_OUTPUT_SATS_def set_output_value_def Let_def)

text \<open>
  A poisoned self-transfer survives a restart.  From the recorded unsigned transaction alone,
  with the same authenticated coins and change index, reconstruction returns the original PSBT,
  metadata included, whatever feerate it was built at; it needs only that the rebuild at one
  satoshi per virtual byte succeeds.
\<close>

theorem reconstruct_poison_roundtrip:
  assumes laws: "selector_laws S" "op_return_layout L" "sha256_digest L" and len: "length marker = 32"
    and t: "create_poison_self_transfer S L D chain d getter coins change_index feerate_vb locktime marker = Inr t"
    and t1: "create_poison_self_transfer S L D chain d getter coins change_index 1 locktime marker = Inr t1"
  shows "reconstruct_poison_self_transfer S L D chain d getter coins change_index (ps_unsigned_tx (st_psbt t)) =
    Inr (t1\<lparr>st_psbt := st_psbt t\<rparr>)"
proof -
  obtain dest poison v where tr: "transferred L D chain d getter coins change_index locktime (Some marker) dest poison v t"
    using create_self_transfer_parts [OF laws(1) t [unfolded create_poison_self_transfer_def]] .
  obtain dest1 poison1 v1 where
    tr1: "transferred L D chain d getter coins change_index locktime (Some marker) dest1 poison1 v1 t1"
    using create_self_transfer_parts [OF laws(1) t1 [unfolded create_poison_self_transfer_def]] .
  obtain s where s: "poison = Some s" "split_poison_script L chain marker (set (map cc_outpoint coins)) = Some s"
    using tr by (auto simp: transferred_def)
  have same: "dest1 = dest" "poison1 = poison" using tr tr1 by (auto simp: transferred_def)
  have sw: "swept L D d getter coins (own_change dest (bitcoin_network chain) change_index) locktime poison v (st_psbt t)"
    and sw1: "swept L D d getter coins (own_change dest (bitcoin_network chain) change_index) locktime poison v1 (st_psbt t1)"
    using tr tr1 unfolding transferred_def same by blast+
  have outs: "tx_output (ps_unsigned_tx (st_psbt t)) =
      [\<lparr>to_value = 0, to_script = s\<rparr>, \<lparr>to_value = v, to_script = script_pubkey dest\<rparr>]"
    using swept_shape(2) [OF sw] by (simp add: s(1) poison_outputs_def own_change_def)
  have "set_output_value 1 (to_value (tx_output (ps_unsigned_tx (st_psbt t)) ! 1)) (st_psbt t1) = Some (st_psbt t)"
    using rebuilt_sweep [OF sw sw1] by (simp add: s(1) poison_outputs_def)
  then show ?thesis
    using t1 split_poison_script_reads(5) [OF laws(2,3) len s(2)] swept_reverifies [OF sw] swept_shape(4) [OF sw]
    unfolding reconstruct_poison_self_transfer_def by (simp add: outs)
qed

theorem reconstruct_poison_roundtrip_witness:
  "reconstruct_poison_self_transfer demo_selector demo_api demo_desc Bitcoin demo_d demo_getter (demo_coins 1 2) (Normal 9)
     (ps_unsigned_tx (demo_built 1 2 Net_Bitcoin 9
        (split_poison_script demo_api Bitcoin (replicate 32 7) (set (map cc_outpoint (demo_coins 1 2)))) 3)) =
   Inr \<lparr>st_psbt = demo_built 1 2 Net_Bitcoin 9
        (split_poison_script demo_api Bitcoin (replicate 32 7) (set (map cc_outpoint (demo_coins 1 2)))) 3,
      st_descriptor = demo_d, st_chain = Bitcoin, st_change_index = Normal 9, st_warnings = []\<rparr>"
proof -
  let ?poison = "split_poison_script demo_api Bitcoin (replicate 32 7) (set (map cc_outpoint (demo_coins 1 2)))"
  have len: "length (replicate 32 7 :: bytes) = 32" by (rule length_replicate)
  have run: "create_poison_self_transfer demo_selector demo_api demo_desc Bitcoin demo_d demo_getter (demo_coins 1 2) (Normal 9) f 0
      (replicate 32 7) = Inr \<lparr>st_psbt = demo_built 1 2 Net_Bitcoin 9 ?poison f, st_descriptor = demo_d, st_chain = Bitcoin,
      st_change_index = Normal 9, st_warnings = []\<rparr>" if "f \<in> {1, 2, 3}" for f
    unfolding create_poison_self_transfer_def
    by (rule demo_transfer_ok) (simp_all only: option.case length_replicate, use that in simp_all)
  have f: "(3 :: nat) \<in> {1, 2, 3}" "(1 :: nat) \<in> {1, 2, 3}" by simp_all
  show ?thesis
    using reconstruct_poison_roundtrip [OF demo_selector_laws demo_op_return_layout demo_sha256_digest len run [OF f(1)] run [OF f(2)]]
    by (simp only: poison_self_transfer.simps)
qed

lemma revalued_sweep:
  assumes s: "swept L D d getter coins addr locktime poison v psbt"
    and set: "set_output_value (length (poison_outputs poison)) v' psbt = Some psbt'"
  shows "prevouts (ps_unsigned_tx psbt') = map cc_outpoint coins"
    and "tx_output (ps_unsigned_tx psbt') = poison_outputs poison @ [\<lparr>to_value = v', to_script = address_script (so_addr addr)\<rparr>]"
    and "ps_inputs psbt' = map (coin_psbt_in D d getter) coins" and "distinct (map cc_outpoint coins)"
    and "\<forall>c \<in> set coins. owned_coin L D d getter c"
  using s set
  by (auto simp: swept_def built_psbt_def change_outputs_def DUST_OUTPUT_SATS_def set_output_value_def Let_def prevouts_def)

text \<open>What every reconstruction establishes of the transaction it was given.\<close>

definition rebuilt_from ::
  "btc_api \<Rightarrow> desc_api \<Rightarrow> descriptor \<Rightarrow> tx_getter \<Rightarrow> candidate_coin list \<Rightarrow> child_number \<Rightarrow> txout list \<Rightarrow> transaction \<Rightarrow> psbt \<Rightarrow> bool" where
  "rebuilt_from L D d getter coins change_index poison recorded psbt \<longleftrightarrow>
     ps_unsigned_tx psbt = recorded \<and> reverify_spend_before_broadcast L D d psbt = Inr () \<and>
     prevouts recorded = map cc_outpoint coins \<and> distinct (map cc_outpoint coins) \<and>
     (\<forall>c \<in> set coins. owned_coin L D d getter c) \<and> ps_inputs psbt = map (coin_psbt_in D d getter) coins \<and>
     (\<exists>destination v. derive D d True change_index = Some destination \<and>
        tx_output recorded = poison @ [\<lparr>to_value = v, to_script = script_pubkey destination\<rparr>])"

lemma rebuilt_fromI:
  assumes "swept L D d getter coins (own_change destination net change_index) locktime poison v psbt"
    and "derive D d True change_index = Some destination"
    and "set_output_value (length (poison_outputs poison)) v' psbt = Some psbt'"
    and "reverify_spend_before_broadcast L D d psbt' = Inr ()" and "ps_unsigned_tx psbt' = recorded"
  shows "rebuilt_from L D d getter coins change_index (poison_outputs poison) recorded psbt'"
  using assms revalued_sweep [OF assms(1,3)] by (auto simp: rebuilt_from_def own_change_def)

lemma poison_rebuilt:
  assumes laws: "selector_laws S"
    and run: "reconstruct_poison_self_transfer S L D chain d getter coins change_index recorded = Inr t"
  shows "\<exists>marker poison. split_poison_fork_marker (to_script (tx_output recorded ! 0)) = Some marker \<and>
    split_poison_script L chain marker (set (map cc_outpoint coins)) = Some poison \<and>
    rebuilt_from L D d getter coins change_index [\<lparr>to_value = 0, to_script = poison\<rparr>] recorded (st_psbt t)"
proof -
  from run obtain marker t1 psbt where m: "split_poison_fork_marker (to_script (tx_output recorded ! 0)) = Some marker"
    and t1: "create_poison_self_transfer S L D chain d getter coins change_index 1 (tx_lock_time recorded) marker = Inr t1"
    and psbt: "set_output_value 1 (to_value (tx_output recorded ! 1)) (st_psbt t1) = Some psbt" "ps_unsigned_tx psbt = recorded"
    "reverify_spend_before_broadcast L D d psbt = Inr ()" "t1\<lparr>st_psbt := psbt\<rparr> = t"
    unfolding reconstruct_poison_self_transfer_def by (simp only: res_rules sum.inject not_not ex_unit_iff) blast
  obtain dest poison v where tr: "transferred L D chain d getter coins change_index (tx_lock_time recorded) (Some marker) dest poison v t1"
    using create_self_transfer_parts [OF laws t1 [unfolded create_poison_self_transfer_def]] .
  then obtain s where s: "split_poison_script L chain marker (set (map cc_outpoint coins)) = Some s" "poison = Some s"
    by (auto simp: transferred_def)
  from tr have sw: "swept L D d getter coins (own_change dest (bitcoin_network chain) change_index) (tx_lock_time recorded) poison v
      (st_psbt t1)" and dest: "derive D d True change_index = Some dest" unfolding transferred_def by blast+
  have "set_output_value (length (poison_outputs poison)) (to_value (tx_output recorded ! 1)) (st_psbt t1) = Some psbt"
    using psbt(1) by (simp add: s(2) poison_outputs_def)
  from rebuilt_fromI [OF sw dest this psbt(3,2)] show ?thesis using m s psbt(4) by (auto simp: poison_outputs_def)
qed

lemma ancestry_rebuilt:
  assumes laws: "selector_laws S"
    and run: "reconstruct_ancestry_self_transfer S L D chain d getter coins change_index dependency recorded = Inr a"
  shows "rebuilt_from L D d getter coins change_index [] recorded (st_psbt (at_transfer a))"
proof -
  from run obtain a1 psbt where
    a1: "create_ancestry_self_transfer S L D chain d getter coins change_index 1 (tx_lock_time recorded) dependency = Inr a1"
    and psbt: "set_output_value 0 (to_value (tx_output recorded ! 0)) (st_psbt (at_transfer a1)) = Some psbt"
    "ps_unsigned_tx psbt = recorded" "reverify_spend_before_broadcast L D d psbt = Inr ()" "a1\<lparr>at_transfer := (at_transfer a1)\<lparr>st_psbt := psbt\<rparr>\<rparr> = a"
    unfolding reconstruct_ancestry_self_transfer_def by (simp only: res_rules sum.inject not_not ex_unit_iff) blast
  obtain dest v where
    tr: "transferred L D Bitcoin d getter coins change_index (tx_lock_time recorded) None dest None v (at_transfer a1)"
    using create_ancestry_parts [OF laws a1] by metis
  then have sw: "swept L D d getter coins (own_change dest (bitcoin_network Bitcoin) change_index) (tx_lock_time recorded) None v
      (st_psbt (at_transfer a1))" and dest: "derive D d True change_index = Some dest" unfolding transferred_def by blast+
  from rebuilt_fromI [OF sw dest _ psbt(3,2)] show ?thesis using psbt(1,4) by (auto simp: poison_outputs_def)
qed

lemma fork_rebuilt:
  assumes laws: "selector_laws S"
    and run: "reconstruct_fork_sweep S L D source excluded added fork_chain getter coins change_index recorded = Inr sw"
  shows "rebuilt_from L D (st_descriptor source) getter coins change_index [] recorded (fs_psbt sw)"
proof -
  from run obtain sw1 psbt where
    sw1: "create_fork_sweep S L D source excluded added fork_chain getter coins change_index 1 (tx_lock_time recorded) = Inr sw1"
    and psbt: "set_output_value 0 (to_value (tx_output recorded ! 0)) (fs_psbt sw1) = Some psbt" "ps_unsigned_tx psbt = recorded"
    "reverify_spend_before_broadcast L D (st_descriptor source) psbt = Inr ()" "sw1\<lparr>fs_psbt := psbt\<rparr> = sw"
    unfolding reconstruct_fork_sweep_def by (simp only: res_rules sum.inject not_not ex_unit_iff) blast
  obtain dest v where
    fs: "fork_swept L D source excluded added fork_chain getter coins change_index (tx_lock_time recorded) dest v sw1"
    using create_fork_sweep_parts [OF laws sw1] .
  then have s: "swept L D (st_descriptor source) getter coins (own_change dest (bitcoin_network fork_chain) change_index)
      (tx_lock_time recorded) None v (fs_psbt sw1)"
    and dest: "derive D (st_descriptor source) True change_index = Some dest" unfolding fork_swept_def by blast+
  from rebuilt_fromI [OF s dest _ psbt(3,2)] show ?thesis using psbt(1,4) by (auto simp: poison_outputs_def)
qed

text \<open>
  C25.  Reconstruction accepts no transaction the wallet would not build.  If it returns, the recorded
  transaction spends exactly the given coins in order, each owned; its last output pays the script
  of the given change index; before it comes only, for a poisoned transfer, a poison script that
  commits to exactly these inputs, and for the others nothing; the signing metadata is rebuilt from the
  wallet, and the transaction passes the check before broadcast.
\<close>

theorem reconstruct_recorded:
  assumes laws: "selector_laws S"
  shows "(\<forall>t. reconstruct_poison_self_transfer S L D chain d getter coins change_index recorded = Inr t \<longrightarrow>
      (\<exists>marker poison. split_poison_fork_marker (to_script (tx_output recorded ! 0)) = Some marker \<and>
         split_poison_script L chain marker (set (map cc_outpoint coins)) = Some poison \<and>
         rebuilt_from L D d getter coins change_index [\<lparr>to_value = 0, to_script = poison\<rparr>] recorded (st_psbt t))) \<and>
    (\<forall>a. reconstruct_ancestry_self_transfer S L D chain d getter coins change_index dependency recorded = Inr a \<longrightarrow>
      rebuilt_from L D d getter coins change_index [] recorded (st_psbt (at_transfer a))) \<and>
    (\<forall>sw. reconstruct_fork_sweep S L D source excluded added fork_chain getter coins change_index recorded = Inr sw \<longrightarrow>
      rebuilt_from L D (st_descriptor source) getter coins change_index [] recorded (fs_psbt sw))"
  by (intro conjI allI impI) (erule poison_rebuilt [OF laws] ancestry_rebuilt [OF laws] fork_rebuilt [OF laws])+

lemma demo_fork_rebuilt:
  assumes f: "f \<in> {1, 2, 3}"
  shows "reconstruct_fork_sweep demo_selector demo_api demo_desc demo_source (Some (demo_outpoint 2)) (Some (demo_outpoint 3))
     BitcoinBlake2b demo_getter (demo_coins 1 3) (Normal 8) (ps_unsigned_tx (fs_psbt (demo_fork_sweep f))) =
   Inr (demo_fork_sweep f)"
proof -
  have one: "(1 :: nat) \<in> {1, 2, 3}" by simp
  have addr: "own_change (WshDesc (demo_script True 8) [] [([2], ([0], [Normal 8]))]) Net_Bitcoin (Normal 8) = demo_change Net_Bitcoin 8"
    by (rule demo_own_change)
  have pos: "0 < 200000 - f * 300" using f by auto
  have set: "set_output_value 0 (to_value (tx_output (ps_unsigned_tx (demo_built 1 3 Net_Bitcoin 8 None f)) ! 0))
      (demo_built 1 3 Net_Bitcoin 8 None 1) = Some (demo_built 1 3 Net_Bitcoin 8 None f)"
    using pos by (simp add: set_output_value_def built_psbt_def change_outputs_def poison_outputs_def Let_def)
  have funded: "funded_by BitcoinBlake2b ''Fork funding input is missing'' (demo_coins 1 3) (demo_outpoint 3)
      (demo_built 1 3 Net_Bitcoin 8 None f) = Inr (demo_wallet_coin 3)"
    by (rule demo_funded [OF f]) (simp del: One_nat_def)
  have "sanity_check_psbt demo_api demo_desc demo_d (demo_built 1 3 Net_Bitcoin 8 None f) True = Inr ()"
    by (rule demo_built_sane) (use f in simp_all)
  then have "reverify_spend_before_broadcast demo_api demo_desc demo_d (demo_built 1 3 Net_Bitcoin 8 None f) = Inr ()"
    unfolding reverify_iff by blast
  moreover have "length (tx_output (ps_unsigned_tx (demo_built 1 3 Net_Bitcoin 8 None f))) = 1"
    using pos by (simp add: demo_built_shape poison_outputs_def)
  ultimately show ?thesis
    unfolding reconstruct_fork_sweep_def claim_fork_sweep.simps demo_built_shape(5)
    using demo_fork_ok [OF one] set funded by simp
qed

theorem reconstruct_recorded_witness:
  "rebuilt_from demo_api demo_desc demo_d demo_getter (demo_coins 1 3) (Normal 8) []
     (ps_unsigned_tx (fs_psbt (demo_fork_sweep 2))) (fs_psbt (demo_fork_sweep 2))"
proof -
  have "(2 :: nat) \<in> {1, 2, 3}" by simp
  from reconstruct_recorded [OF demo_selector_laws, of demo_api demo_desc undefined undefined demo_getter "demo_coins 1 3" "Normal 8"
      "ps_unsigned_tx (fs_psbt (demo_fork_sweep 2))" undefined demo_source "Some (demo_outpoint 2)" "Some (demo_outpoint 3)" BitcoinBlake2b]
    demo_fork_rebuilt [OF this]
  show ?thesis unfolding poison_self_transfer.simps by blast
qed

text \<open>
  A fork sweep survives a restart: from the recorded unsigned transaction, with the same source,
  coins and change index, reconstruction returns the original PSBT whatever feerate it was built
  at, if the rebuild at one satoshi per virtual byte succeeds.
\<close>

theorem reconstruct_fork_roundtrip:
  assumes laws: "selector_laws S"
    and sw: "create_fork_sweep S L D source excluded added fork_chain getter coins change_index feerate_vb locktime = Inr sw"
    and sw1: "create_fork_sweep S L D source excluded added fork_chain getter coins change_index 1 locktime = Inr sw1"
  shows "reconstruct_fork_sweep S L D source excluded added fork_chain getter coins change_index (ps_unsigned_tx (fs_psbt sw)) =
    Inr (sw1\<lparr>fs_psbt := fs_psbt sw\<rparr>)"
proof -
  obtain dest v where fs: "fork_swept L D source excluded added fork_chain getter coins change_index locktime dest v sw"
    using create_fork_sweep_parts [OF laws sw] .
  obtain dest1 v1 where fs1: "fork_swept L D source excluded added fork_chain getter coins change_index locktime dest1 v1 sw1"
    using create_fork_sweep_parts [OF laws sw1] .
  have "dest1 = dest" using fs fs1 by (simp add: fork_swept_def)
  then have s: "swept L D (st_descriptor source) getter coins (own_change dest (bitcoin_network fork_chain) change_index)
      locktime None v (fs_psbt sw)"
    and s1: "swept L D (st_descriptor source) getter coins (own_change dest (bitcoin_network fork_chain) change_index)
      locktime None v1 (fs_psbt sw1)" using fs fs1 unfolding fork_swept_def by blast+
  have "\<exists>c. funded_by BitcoinBlake2b missing coins m (fs_psbt sw) = Inr c" if "added = Some m" for m missing
  proof -
    obtain c where "find (\<lambda>c. cc_outpoint c = m) coins = Some c" "sum_list (map cc_amount coins) \<le> v + cc_amount c"
      using fs \<open>added = Some m\<close> unfolding fork_swept_def by blast
    then show ?thesis using swept_amounts [OF s] by (metis funded_by_iff owned_spend_fee_iff add_le_cancel_left)
  qed
  then have funded: "(case added of None \<Rightarrow> Inr ()
        | Some m \<Rightarrow> bind_res (funded_by BitcoinBlake2b ''Fork funding input is missing'' coins m (fs_psbt sw)) (\<lambda>_. Inr ())) = Inr ()"
    by (auto simp: res_rules split: option.splits)
  have "set_output_value 0 (to_value (tx_output (ps_unsigned_tx (fs_psbt sw)) ! 0)) (fs_psbt sw1) = Some (fs_psbt sw)"
    using rebuilt_sweep [OF s s1] by (simp add: poison_outputs_def)
  moreover have "length (tx_output (ps_unsigned_tx (fs_psbt sw))) = 1"
    using swept_shape(2) [OF s] by (simp add: poison_outputs_def)
  ultimately show ?thesis
    unfolding reconstruct_fork_sweep_def swept_shape(4) [OF s] using sw1 funded swept_reverifies [OF s] by simp
qed

theorem reconstruct_fork_roundtrip_witness:
  "reconstruct_fork_sweep demo_selector demo_api demo_desc demo_source (Some (demo_outpoint 2)) (Some (demo_outpoint 3))
     BitcoinBlake2b demo_getter (demo_coins 1 3) (Normal 8) (ps_unsigned_tx (fs_psbt (demo_fork_sweep 2))) =
   Inr (demo_fork_sweep 2)"
proof -
  have f: "(2 :: nat) \<in> {1, 2, 3}" "(1 :: nat) \<in> {1, 2, 3}" by simp_all
  show ?thesis
    using reconstruct_fork_roundtrip [OF demo_selector_laws demo_fork_ok [OF f(1)] demo_fork_ok [OF f(2)]]
    by (simp only: claim_fork_sweep.simps)
qed

section \<open>A poisoned transfer and its fork sweep\<close>

lemma claim_sweep_shares:
  assumes s: "swept L D d getter coins addr locktime poison change (st_psbt source)" and d: "st_descriptor source = d"
    and fs: "fork_swept L D source None None fork_chain getter' coins' change_index' locktime' dest' change' sw"
  shows "set (map cc_outpoint coins') = set (map cc_outpoint coins)"
    and "sum_list (map cc_amount coins') = sum_list (map cc_amount coins)"
proof -
  show ins: "set (map cc_outpoint coins') = set (map cc_outpoint coins)"
    using fs unfolding fork_swept_def swept_shape(1) [OF s] by auto
  have checks: "\<forall>c \<in> set coins'. check_fork_coin D d (st_psbt source) None dest' c = Inr ()"
    and s': "swept L D d getter' coins' (own_change dest' (bitcoin_network fork_chain) change_index') locktime' None change'
      (fs_psbt sw)" using fs unfolding fork_swept_def d by blast+
  show "sum_list (map cc_amount coins') = sum_list (map cc_amount coins)"
  proof (rule amounts_agree [symmetric])
    show "distinct (map cc_outpoint coins)" "distinct (map cc_outpoint coins')" using s s' by (simp_all add: swept_def)
    show "set (map cc_outpoint coins) = set (map cc_outpoint coins')" using ins by simp
    show "\<exists>c \<in> set coins. cc_outpoint c = cc_outpoint c' \<and> cc_amount c = cc_amount c'" if "c' \<in> set coins'" for c'
      using shared_amounts [OF s d, of None dest' c'] checks that by auto
  qed
qed

abbreviation demo_poison :: "script option" where
  "demo_poison \<equiv> split_poison_script demo_api Bitcoin (replicate 32 7) (set (map cc_outpoint (demo_coins 1 2)))"

abbreviation demo_poisoned :: poison_self_transfer where
  "demo_poisoned \<equiv> \<lparr>st_psbt = demo_built 1 2 Net_Bitcoin 9 demo_poison 3, st_descriptor = demo_d, st_chain = Bitcoin,
     st_change_index = Normal 9, st_warnings = []\<rparr>"

lemma demo_poisoned_ok:
  "create_poison_self_transfer demo_selector demo_api demo_desc Bitcoin demo_d demo_getter (demo_coins 1 2) (Normal 9) 3 0
     (replicate 32 7) = Inr demo_poisoned"
  unfolding create_poison_self_transfer_def
  by (rule demo_transfer_ok) (simp_all only: option.case length_replicate, simp_all)

lemma demo_check_claim_coin:
  assumes "n \<in> {1, 2}"
  shows "check_fork_coin demo_desc demo_d (st_psbt demo_poisoned) None (WshDesc (demo_script True 8) [] [([2], ([0], [Normal 8]))])
    (demo_wallet_coin n) = Inr ()"
proof -
  have fresh: "demo_script True 8 \<noteq> demo_script False n" by (simp add: demo_script_def)
  have change: "cc_is_change (demo_wallet_coin n) = False" by (simp add: demo_wallet_coin_def)
  define original where "original = st_psbt demo_poisoned"
  have pos: "position (\<lambda>i. ti_prev i = demo_outpoint n) (tx_input (ps_unsigned_tx original)) = Some (n - 1)"
    using assms unfolding insert_iff empty_iff original_def poison_self_transfer.simps demo_built_shape
    by (elim disjE) (simp_all del: One_nat_def)
  have nth: "nth_opt (ps_inputs original) (n - 1) = Some (coin_psbt_in demo_desc demo_d demo_getter (demo_wallet_coin n))"
    using assms unfolding insert_iff empty_iff original_def poison_self_transfer.simps demo_built_shape
    by (elim disjE) (simp_all add: nth_opt_def)
  have utxo: "pi_witness_utxo (coin_psbt_in demo_desc demo_d demo_getter (demo_wallet_coin n)) =
      Some \<lparr>to_value = 100000, to_script = demo_script False n\<rparr>"
    by (simp add: coin_psbt_in_def coin_output_def script_pubkey_def)
  show ?thesis
    unfolding original_def [symmetric] by (simp add: check_fork_coin_def change demo_derive script_pubkey_def fresh pos nth utxo
        del: One_nat_def)
qed

lemma demo_claim_fork_ok:
  "create_claim_fork_sweep demo_selector demo_api demo_desc demo_poisoned BitcoinBlake2b demo_getter (demo_coins 1 2) (Normal 8) 2 0 =
   Inr \<lparr>fs_psbt = demo_built 1 2 Net_Bitcoin 8 None 2, fs_chain = BitcoinBlake2b,
     fs_bitcoin_step1 = demo_txid (ps_unsigned_tx (st_psbt demo_poisoned)), fs_fork_marker = None,
     fs_descriptor = demo_d, fs_change_index = Normal 8, fs_warnings = []\<rparr>"
proof -
  have claimed: "set (map cc_outpoint (demo_coins 1 2)) =
      {p \<in> set (prevouts (ps_unsigned_tx (st_psbt demo_poisoned))). Some p \<noteq> None} \<union> {}"
    unfolding poison_self_transfer.simps demo_built_shape by auto
  have checks: "collect_res (check_fork_coin demo_desc demo_d (st_psbt demo_poisoned) None
      (WshDesc (demo_script True 8) [] [([2], ([0], [Normal 8]))])) (demo_coins 1 2) = Inr [(), ()]"
    using demo_check_claim_coin [of 1] demo_check_claim_coin [of 2] by (simp only: collect_res.simps bind_res_simps insert_iff simp_thms)
  have spend: "create_spend demo_selector demo_api demo_desc demo_d demo_getter [] (demo_coins 1 2) (Regular 2)
      (demo_change Net_Bitcoin 8) 0 = Inr \<lparr>cs_psbt = demo_built 1 2 Net_Bitcoin 8 None 2, cs_has_change = True, cs_warnings = []\<rparr>"
    unfolding create_spend_def by (rule demo_sweep_ok) simp_all
  have dist: "distinct (map cc_outpoint (demo_coins 1 2))" by (simp del: One_nat_def)
  have txid: "lib_txid demo_api = demo_txid" by (simp add: demo_api_def)
  show ?thesis
    unfolding create_claim_fork_sweep_def create_fork_sweep_def Let_def poison_self_transfer.simps demo_derive demo_select_all
    using claimed dist checks
    by (simp only: poison_self_transfer.simps option.case fork_pair.simps is_hardened_simps guard_res_simps not_True_eq_False
        simp_thms ok_or_simps bind_res_simps option.set list.simps demo_own_change bitcoin_network.simps spend
        map_err_simps create_spend_res.simps txid)
qed

end
