(* ===== verification/Claim_Assessable.thy ===== *)
theory Claim_Assessable
  imports Claim_Pair
begin

text \<open>
  The composition of the claim components: the transactions that claim_spend.rs builds, put into a
  claim plan, pass the structural checks of the assessment of claim.rs.
\<close>

section \<open>From construction to assessment\<close>

lemma assess_deployment_refusals:
  assumes "assess_deployment fork d pol = Inl e" and "0 < expiry_margin_seconds pol"
  shows "e \<notin> {WrongChain, InvalidPlan, InputProofUnsupported, PoisonMissing}"
  using assms by (auto simp: assess_deployment_def split: deployment_state.splits option.splits if_splits)

lemma assess_wellformed:
  assumes "fork_pair (cp_bitcoin_chain plan) (cp_fork_chain plan)" and "\<not> plan_invalid L plan pol"
    and "cp_poison plan = OpReturn" and "carries_poison L (cp_step1 plan)" and "0 < expiry_margin_seconds pol"
    and "bo_chain bitcoin = cp_bitcoin_chain plan" and "fo_chain fork = cp_fork_chain plan" and "do_chain d = cp_fork_chain plan"
  shows "assess L plan bitcoin fork d pol now preflight \<notin> {WrongChain, InvalidPlan, InputProofUnsupported, PoisonMissing}"
  using assms assess_deployment_refusals [of fork d pol]
  by (simp add: assess_def split: fork_presence.split sum.split bitcoin_confirmation_t.split)

text \<open>
  C2.  A claim built by the wallet is one the assessment recognises.  For a poisoned self-transfer
  and the fork sweep built from it: both spend exactly the same coins, worth the same total on both
  chains; the sweep names the transfer's identifier; and the claim plan made of the two passes every
  structural check of the assessment, which then never answers wrong chain, invalid plan or missing
  poison for observations of these chains.
\<close>

theorem poison_claim_assessable:
  assumes laws: "selector_laws S" "op_return_layout L" "sha256_digest L" and marker: "length marker = 32"
    and step1: "create_poison_self_transfer S L D chain d getter coins change_index feerate_vb locktime marker = Inr t"
    and sweep: "create_claim_fork_sweep S L D t fork_chain getter' coins' change_index' feerate_vb' locktime' = Inr sw"
    and plan: "plan = \<lparr>cp_bitcoin_chain = chain, cp_fork_chain = fork_chain, cp_step1 = ps_unsigned_tx (st_psbt t),
      cp_claimed_prevouts = prevouts (ps_unsigned_tx (fs_psbt sw)), cp_poison = OpReturn,
      cp_previous_confirmation = previous, cp_tracked_txid = None\<rparr>"
    and pol: "0 < max_observation_age_seconds pol" "0 < expiry_margin_seconds pol"
    and chains: "bo_chain bitcoin = chain" "fo_chain fork = fork_chain" "do_chain deployment = fork_chain"
  shows "set (prevouts (ps_unsigned_tx (fs_psbt sw))) = set (prevouts (ps_unsigned_tx (st_psbt t))) \<and>
    sum_list (map cc_amount coins') = sum_list (map cc_amount coins) \<and> fs_bitcoin_step1 sw = step1_txid L plan \<and>
    assess L plan bitcoin fork deployment pol now preflight \<notin> {WrongChain, InvalidPlan, InputProofUnsupported, PoisonMissing}"
proof -
  obtain dest poison v where tr: "transferred L D chain d getter coins change_index locktime (Some marker) dest poison v t"
    using create_self_transfer_parts [OF laws(1) step1 [unfolded create_poison_self_transfer_def]] .
  obtain s where s: "poison = Some s" "split_poison_script L chain marker (set (map cc_outpoint coins)) = Some s"
    using tr by (auto simp: transferred_def)
  have sw: "swept L D d getter coins (own_change dest (bitcoin_network chain) change_index) locktime poison v (st_psbt t)"
    and src: "st_descriptor t = d" "st_chain t = chain" and ne: "coins \<noteq> []"
    and coins: "check_coins L D d dest {} 0 coins = Inr (set (map cc_outpoint coins))"
    using tr unfolding transferred_def by blast+
  obtain dest' v' where fs: "fork_swept L D t None None fork_chain getter' coins' change_index' locktime' dest' v' sw"
    using create_fork_sweep_parts [OF laws(1) sweep [unfolded create_claim_fork_sweep_def]] .
  then have sw': "swept L D d getter' coins' (own_change dest' (bitcoin_network fork_chain) change_index') locktime' None v'
      (fs_psbt sw)" and pair: "fork_pair chain fork_chain"
    and id: "fs_bitcoin_step1 sw = lib_txid L (ps_unsigned_tx (st_psbt t))" unfolding fork_swept_def src by blast+
  note shares = claim_sweep_shares [OF sw src(1) fs] and pre = swept_shape(1) [OF sw] swept_shape(1) [OF sw']
  have dist: "distinct (map cc_outpoint coins)" "distinct (map cc_outpoint coins')" using sw sw' by (simp_all add: swept_def)
  have poisoned: "carries_poison L (ps_unsigned_tx (st_psbt t))"
    using swept_shape(2) [OF sw] s split_poison_script_reads(1,2) [OF laws(2,3) marker s(2)]
    by (auto simp: carries_poison_iff poison_outputs_def)
  have "coins' \<noteq> []" using shares(1) ne by auto
  then have "\<not> plan_invalid L plan pol"
    using coins shares(1) pol dist swept_shape(2) [OF sw]
    by (auto simp: plan_valid_iff plan pre check_coins_iff)
  then show ?thesis
    using assess_wellformed [of plan L pol bitcoin fork deployment now preflight] pair poisoned chains shares id pre pol
    by (simp add: plan step1_txid_def)
qed

theorem poison_claim_assessable_witness:
  "assess demo_api
     \<lparr>cp_bitcoin_chain = Bitcoin, cp_fork_chain = BitcoinBlake2b, cp_step1 = ps_unsigned_tx (st_psbt demo_poisoned),
      cp_claimed_prevouts = prevouts (ps_unsigned_tx (demo_built 1 2 Net_Bitcoin 8 None 2)), cp_poison = OpReturn,
      cp_previous_confirmation = None, cp_tracked_txid = None\<rparr>
     \<lparr>bo_chain = Bitcoin, bo_tip = \<lparr>br_height = 105, br_hash = [2]\<rparr>, bo_location = LocationUnconfirmed, bo_observed_at = 50\<rparr>
     \<lparr>fo_chain = BitcoinBlake2b, fo_step1_txid = [9], fo_step1_presence = NotObserved,
      fo_tip = \<lparr>br_height = 7, br_hash = [3]\<rparr>, fo_median_time_past = 40, fo_observed_at = 50\<rparr>
     \<lparr>do_chain = BitcoinBlake2b, do_tip = \<lparr>br_height = 7, br_hash = [3]\<rparr>, do_state = Flagday 5 1000 True, do_observed_at = 50\<rparr>
     \<lparr>max_observation_age_seconds = 60, expiry_margin_seconds = 10\<rparr> 60 None
   \<notin> {WrongChain, InvalidPlan, InputProofUnsupported, PoisonMissing}"
proof -
  have len: "length (replicate 32 7 :: bytes) = 32" by (rule length_replicate)
  show ?thesis
    using poison_claim_assessable [OF demo_selector_laws demo_op_return_layout demo_sha256_digest len demo_poisoned_ok
        demo_claim_fork_ok refl, of
        "\<lparr>max_observation_age_seconds = 60, expiry_margin_seconds = 10\<rparr>"
        "\<lparr>bo_chain = Bitcoin, bo_tip = \<lparr>br_height = 105, br_hash = [2]\<rparr>, bo_location = LocationUnconfirmed, bo_observed_at = 50\<rparr>"
        "\<lparr>fo_chain = BitcoinBlake2b, fo_step1_txid = [9], fo_step1_presence = NotObserved,
          fo_tip = \<lparr>br_height = 7, br_hash = [3]\<rparr>, fo_median_time_past = 40, fo_observed_at = 50\<rparr>"
        "\<lparr>do_chain = BitcoinBlake2b, do_tip = \<lparr>br_height = 7, br_hash = [3]\<rparr>, do_state = Flagday 5 1000 True, do_observed_at = 50\<rparr>"
        None 60 None]
    by (simp only: claim_fork_sweep.simps poison_self_transfer.simps policy.simps bitcoin_observation.simps fork_observation.simps
        deployment_observation.simps) simp
qed

end
