(* ===== verification/Sighash.thy ===== *)
theory Sighash
  imports Bitcoin_Types
begin

text \<open>
  \<open>coincube-core/src/unified_sighash.rs\<close>: the unified signature hash of the fork chain.  The
  message is built field by field as in the source; hash types and script types are bytes
  and are tested bitwise.
\<close>

unbundle bit_operations_syntax

section \<open>Data\<close>

definition SIGHASH_UNIFIED :: byte where "SIGHASH_UNIFIED = 0x20"
definition SIGHASH_NONE :: byte where "SIGHASH_NONE = 0x02"
definition SIGHASH_SINGLE :: byte where "SIGHASH_SINGLE = 0x03"
definition SIGHASH_ANYONECANPAY :: byte where "SIGHASH_ANYONECANPAY = 0x80"
definition SIGHASH_OUTPUT_MASK :: byte where "SIGHASH_OUTPUT_MASK = 0x1f"
definition SCRIPT_TYPE_BASE :: byte where "SCRIPT_TYPE_BASE = 0"
definition SCRIPT_TYPE_WITNESS_V0 :: byte where "SCRIPT_TYPE_WITNESS_V0 = 1"

definition UNIFIED_SIGHASH_TAG :: bytes where
  "UNIFIED_SIGHASH_TAG = [0x55, 0x6e, 0x69, 0x66, 0x69, 0x65, 0x64, 0x53, 0x69, 0x67, 0x68, 0x61, 0x73, 0x68]"

datatype sighash_error =
    MissingUnifiedFlag byte
  | UnsupportedScriptType byte
  | PrevoutsLengthMismatch nat nat
  | InputIndexOutOfBounds nat nat
  | InputIndexTooLarge nat
  | MissingSingleOutput nat nat

record sighash_cache =
  sc_transaction :: transaction
  sc_spent_outputs :: "txout list"
  sc_prevouts_hash :: bytes
  sc_amounts_hash :: bytes
  sc_scripts_hash :: bytes
  sc_sequences_hash :: bytes
  sc_outputs_hash :: bytes

section \<open>Operations\<close>

text \<open>What each aggregate commitment hashes.\<close>

definition prevouts_bytes :: "btc_api \<Rightarrow> transaction \<Rightarrow> bytes" where
  "prevouts_bytes L tx = concat (map (\<lambda>i. lib_ser_outpoint L (ti_prev i)) (tx_input tx))"
definition amounts_bytes :: "btc_api \<Rightarrow> txout list \<Rightarrow> bytes" where
  "amounts_bytes L spent = concat (map (\<lambda>o1. lib_ser_amount L (to_value o1)) spent)"
definition scripts_bytes :: "btc_api \<Rightarrow> txout list \<Rightarrow> bytes" where
  "scripts_bytes L spent = concat (map (\<lambda>o1. lib_ser_script L (to_script o1)) spent)"
definition sequences_bytes :: "btc_api \<Rightarrow> transaction \<Rightarrow> bytes" where
  "sequences_bytes L tx = concat (map (\<lambda>i. lib_ser_sequence L (ti_sequence i)) (tx_input tx))"
definition outputs_bytes :: "btc_api \<Rightarrow> txout list \<Rightarrow> bytes" where
  "outputs_bytes L outs = concat (map (lib_ser_txout L) outs)"

definition aggregate_prevouts :: "btc_api \<Rightarrow> transaction \<Rightarrow> bytes" where
  "aggregate_prevouts L tx = lib_sha256 L (prevouts_bytes L tx)"
definition aggregate_amounts :: "btc_api \<Rightarrow> txout list \<Rightarrow> bytes" where
  "aggregate_amounts L spent = lib_sha256 L (amounts_bytes L spent)"
definition aggregate_scripts :: "btc_api \<Rightarrow> txout list \<Rightarrow> bytes" where
  "aggregate_scripts L spent = lib_sha256 L (scripts_bytes L spent)"
definition aggregate_sequences :: "btc_api \<Rightarrow> transaction \<Rightarrow> bytes" where
  "aggregate_sequences L tx = lib_sha256 L (sequences_bytes L tx)"
definition aggregate_outputs :: "btc_api \<Rightarrow> txout list \<Rightarrow> bytes" where
  "aggregate_outputs L outs = lib_sha256 L (outputs_bytes L outs)"

definition sighash_cache_new :: "btc_api \<Rightarrow> transaction \<Rightarrow> txout list \<Rightarrow> (sighash_error, sighash_cache) res" where
  "sighash_cache_new L tx spent =
     guard_res (length spent \<noteq> length (tx_input tx))
       (PrevoutsLengthMismatch (length (tx_input tx)) (length spent))
     (Inr \<lparr>sc_transaction = tx, sc_spent_outputs = spent,
           sc_prevouts_hash = aggregate_prevouts L tx,
           sc_amounts_hash = aggregate_amounts L spent,
           sc_scripts_hash = aggregate_scripts L spent,
           sc_sequences_hash = aggregate_sequences L tx,
           sc_outputs_hash = aggregate_outputs L (tx_output tx)\<rparr>)"

definition i32_le_bytes :: "int \<Rightarrow> bytes" where
  \<comment> \<open>\<open>i32::to_le_bytes\<close>: two's complement\<close>
  "i32_le_bytes v = le_bytes 4 (nat (v mod 2 ^ 32))"

definition anyone_can_pay :: "byte \<Rightarrow> bool" where
  "anyone_can_pay hash_type \<longleftrightarrow> hash_type AND SIGHASH_ANYONECANPAY \<noteq> 0"

definition output_type :: "byte \<Rightarrow> byte" where
  "output_type hash_type = hash_type AND SIGHASH_OUTPUT_MASK"

definition unified_sighash_message ::
  "btc_api \<Rightarrow> sighash_cache \<Rightarrow> nat \<Rightarrow> byte \<Rightarrow> byte \<Rightarrow> script \<Rightarrow> (sighash_error, bytes) res" where
  "unified_sighash_message L cache input_index hash_type script_type script_code =
    (let tx = sc_transaction cache in
     guard_res (hash_type AND SIGHASH_UNIFIED = 0) (MissingUnifiedFlag hash_type)
     (guard_res (script_type \<noteq> SCRIPT_TYPE_BASE \<and> script_type \<noteq> SCRIPT_TYPE_WITNESS_V0)
        (UnsupportedScriptType script_type)
     (guard_res (input_index \<ge> length (tx_input tx))
        (InputIndexOutOfBounds input_index (length (tx_input tx)))
     (guard_res (input_index \<ge> 2 ^ 32) (InputIndexTooLarge input_index)
     (guard_res (output_type hash_type = SIGHASH_SINGLE \<and> input_index \<ge> length (tx_output tx))
        (MissingSingleOutput input_index (length (tx_output tx)))
     (Inr (
        [0, hash_type] @ i32_le_bytes (tx_version tx) @ le_bytes 4 (tx_lock_time tx) @ [0] @
        (if \<not> anyone_can_pay hash_type
         then sc_prevouts_hash cache @ sc_amounts_hash cache @ sc_scripts_hash cache @ sc_sequences_hash cache
         else []) @
        (if output_type hash_type \<noteq> SIGHASH_NONE \<and> output_type hash_type \<noteq> SIGHASH_SINGLE
         then sc_outputs_hash cache else []) @
        [script_type] @
        (if anyone_can_pay hash_type
         then lib_ser_outpoint L (ti_prev (tx_input tx ! input_index)) @
              lib_ser_txout L (sc_spent_outputs cache ! input_index) @
              lib_ser_sequence L (ti_sequence (tx_input tx ! input_index))
         else le_bytes 4 input_index) @
        lib_ser_script L script_code @
        (if output_type hash_type = SIGHASH_SINGLE
         then lib_sha256 L (lib_ser_txout L (tx_output tx ! input_index)) else []))))))))"

definition tagged_preimage :: "btc_api \<Rightarrow> bytes \<Rightarrow> bytes" where
  "tagged_preimage L message =
     lib_sha256 L UNIFIED_SIGHASH_TAG @ lib_sha256 L UNIFIED_SIGHASH_TAG @ message"

definition tagged_hash :: "btc_api \<Rightarrow> bytes \<Rightarrow> bytes" where
  "tagged_hash L message = lib_sha256 L (tagged_preimage L message)"

definition signature_hash ::
  "btc_api \<Rightarrow> sighash_cache \<Rightarrow> nat \<Rightarrow> byte \<Rightarrow> byte \<Rightarrow> script \<Rightarrow> (sighash_error, bytes) res" where
  "signature_hash L cache input_index hash_type script_type script_code =
     bind_res (unified_sighash_message L cache input_index hash_type script_type script_code)
       (\<lambda>message. Inr (tagged_hash L message))"

definition unified_sighash ::
  "btc_api \<Rightarrow> transaction \<Rightarrow> nat \<Rightarrow> byte \<Rightarrow> byte \<Rightarrow> txout list \<Rightarrow> script \<Rightarrow> (sighash_error, bytes) res" where
  "unified_sighash L tx input_index hash_type script_type spent script_code =
     bind_res (sighash_cache_new L tx spent) (\<lambda>cache.
       signature_hash L cache input_index hash_type script_type script_code)"

section \<open>When a digest is produced\<close>

lemmas sighash_consts = SIGHASH_UNIFIED_def SIGHASH_NONE_def SIGHASH_SINGLE_def
  SIGHASH_ANYONECANPAY_def SIGHASH_OUTPUT_MASK_def SCRIPT_TYPE_BASE_def SCRIPT_TYPE_WITNESS_V0_def

lemma unified_flag: "ht AND SIGHASH_UNIFIED = 0 \<longleftrightarrow> \<not> bit ht 5" for ht :: byte
proof -
  have "SIGHASH_UNIFIED = 2 ^ 5" by (simp add: SIGHASH_UNIFIED_def)
  then show ?thesis using bit_iff_and_push_bit_not_eq_0 [of ht 5] by (simp add: push_bit_of_1)
qed

text \<open>
  A digest is produced exactly for requests in the format's range: one spent output
  per input, the opt-in flag (bit 5) set, script type 0 or 1, the index an input of the
  transaction that fits four bytes, and for \<open>SINGLE\<close> an output at that index.  The first
  violated condition, in this order, is the error reported.
\<close>

lemma unified_sighash_outcome:
  "\<exists>digest. unified_sighash L tx i ht st spent code =
     (if length spent \<noteq> length (tx_input tx)
      then Inl (PrevoutsLengthMismatch (length (tx_input tx)) (length spent))
      else if \<not> bit ht 5 then Inl (MissingUnifiedFlag ht)
      else if st \<notin> {0, 1} then Inl (UnsupportedScriptType st)
      else if length (tx_input tx) \<le> i then Inl (InputIndexOutOfBounds i (length (tx_input tx)))
      else if 2 ^ 32 \<le> i then Inl (InputIndexTooLarge i)
      else if ht AND 0x1f = 3 \<and> length (tx_output tx) \<le> i
      then Inl (MissingSingleOutput i (length (tx_output tx)))
      else Inr digest)"
  unfolding unified_sighash_def sighash_cache_new_def signature_hash_def unified_sighash_message_def
    unified_flag Let_def guard_res_def output_type_def
  by (auto simp: sighash_consts)

section \<open>What a digest commits to\<close>

text \<open>Every byte string a request hashes, the tagged message last.\<close>

definition sighash_preimages ::
  "btc_api \<Rightarrow> transaction \<Rightarrow> nat \<Rightarrow> byte \<Rightarrow> byte \<Rightarrow> txout list \<Rightarrow> script \<Rightarrow> bytes list" where
  "sighash_preimages L tx i ht st spent code =
     [prevouts_bytes L tx, amounts_bytes L spent, scripts_bytes L spent, sequences_bytes L tx,
      outputs_bytes L (tx_output tx)] @
     (if i < length (tx_output tx) then [lib_ser_txout L (tx_output tx ! i)] else []) @
     (case bind_res (sighash_cache_new L tx spent) (\<lambda>c. unified_sighash_message L c i ht st code) of
        Inl _ \<Rightarrow> [] | Inr m \<Rightarrow> [tagged_preimage L m])"

definition digests_ok :: "sighash_cache \<Rightarrow> bool" where
  "digests_ok c \<longleftrightarrow> length (sc_prevouts_hash c) = 32 \<and> length (sc_amounts_hash c) = 32 \<and>
     length (sc_scripts_hash c) = 32 \<and> length (sc_sequences_hash c) = 32 \<and> length (sc_outputs_hash c) = 32"

lemma i32_le_bytes_inject:
  assumes "i32_le_bytes v = i32_le_bytes w" and "- (2 ^ 31) \<le> v" "v < 2 ^ 31" "- (2 ^ 31) \<le> w" "w < 2 ^ 31"
  shows "v = w"
proof -
  have "nat (v mod 2 ^ 32) = nat (w mod 2 ^ 32)"
    using assms(1) by (intro le_bytes_inject [of 4]) (simp_all add: i32_le_bytes_def nat_less_iff)
  then have "v mod 2 ^ 32 = w mod 2 ^ 32" by simp
  then have "(v + 2 ^ 31) mod 2 ^ 32 = (w + 2 ^ 31) mod 2 ^ 32" by (metis mod_add_left_eq)
  then show ?thesis using assms(2-) by simp
qed

lemma length_i32_le_bytes [simp]: "length (i32_le_bytes v) = 4"
  by (simp add: i32_le_bytes_def)

text \<open>The message, cut at its fields.\<close>

definition commit_part :: "sighash_cache \<Rightarrow> byte \<Rightarrow> bytes" where
  "commit_part c ht = (if \<not> anyone_can_pay ht
     then sc_prevouts_hash c @ sc_amounts_hash c @ sc_scripts_hash c @ sc_sequences_hash c else [])"

definition output_part :: "sighash_cache \<Rightarrow> byte \<Rightarrow> bytes" where
  "output_part c ht = (if output_type ht \<noteq> SIGHASH_NONE \<and> output_type ht \<noteq> SIGHASH_SINGLE
     then sc_outputs_hash c else [])"

definition input_part :: "btc_api \<Rightarrow> sighash_cache \<Rightarrow> byte \<Rightarrow> nat \<Rightarrow> bytes" where
  "input_part L c ht i = (if anyone_can_pay ht
     then lib_ser_outpoint L (ti_prev (tx_input (sc_transaction c) ! i)) @
          lib_ser_txout L (sc_spent_outputs c ! i) @
          lib_ser_sequence L (ti_sequence (tx_input (sc_transaction c) ! i))
     else le_bytes 4 i)"

definition single_part :: "btc_api \<Rightarrow> sighash_cache \<Rightarrow> byte \<Rightarrow> nat \<Rightarrow> bytes" where
  "single_part L c ht i = (if output_type ht = SIGHASH_SINGLE
     then lib_sha256 L (lib_ser_txout L (tx_output (sc_transaction c) ! i)) else [])"

lemma message_parts:
  assumes "unified_sighash_message L c i ht st code = Inr m"
  shows "m = [0, ht] @ i32_le_bytes (tx_version (sc_transaction c)) @ le_bytes 4 (tx_lock_time (sc_transaction c)) @
      [0] @ commit_part c ht @ output_part c ht @ [st] @ input_part L c ht i @ lib_ser_script L code @
      single_part L c ht i"
    and "i < length (tx_input (sc_transaction c))" and "i < 2 ^ 32"
    and "output_type ht = SIGHASH_SINGLE \<Longrightarrow> i < length (tx_output (sc_transaction c))"
  using assms
  by (auto simp: unified_sighash_message_def Let_def res_rules commit_part_def output_part_def
      input_part_def single_part_def)

text \<open>The per-input part can be split off: the input's own data, or its index.\<close>

lemma input_part_inject:
  assumes wire: "wire_codec L"
    and wf: "list_all wf_txin (tx_input (sc_transaction c))" "list_all wf_txin (tx_input (sc_transaction c'))"
      "list_all wf_txout (sc_spent_outputs c)" "list_all wf_txout (sc_spent_outputs c')"
    and idx: "i < length (tx_input (sc_transaction c))" "i' < length (tx_input (sc_transaction c'))"
      "i < length (sc_spent_outputs c)" "i' < length (sc_spent_outputs c')" "i < 2 ^ 32" "i' < 2 ^ 32"
    and eq: "input_part L c ht i @ r = input_part L c' ht i' @ r'"
  shows "r = r' \<and> (if anyone_can_pay ht
     then ti_prev (tx_input (sc_transaction c) ! i) = ti_prev (tx_input (sc_transaction c') ! i') \<and>
          sc_spent_outputs c ! i = sc_spent_outputs c' ! i' \<and>
          ti_sequence (tx_input (sc_transaction c) ! i) = ti_sequence (tx_input (sc_transaction c') ! i')
     else i = i')"
proof (cases "anyone_can_pay ht")
  case True
  let ?a = "tx_input (sc_transaction c) ! i" and ?b = "tx_input (sc_transaction c') ! i'"
  have wfi: "wf_txin ?a" "wf_txin ?b" "wf_txout (sc_spent_outputs c ! i)" "wf_txout (sc_spent_outputs c' ! i')"
    using wf idx by (auto simp: list_all_length)
  from eq True have eq1: "lib_ser_outpoint L (ti_prev ?a) @ lib_ser_txout L (sc_spent_outputs c ! i) @
      lib_ser_sequence L (ti_sequence ?a) @ r =
    lib_ser_outpoint L (ti_prev ?b) @ lib_ser_txout L (sc_spent_outputs c' ! i') @
      lib_ser_sequence L (ti_sequence ?b) @ r'"
    by (simp add: input_part_def)
  have codes: "prefix_code wf_outpoint (lib_ser_outpoint L)" "prefix_code wf_txout (lib_ser_txout L)"
    "prefix_code (\<lambda>n. n < 2 ^ 32) (lib_ser_sequence L)" using wire by (simp_all add: wire_codec_def)
  note s1 = prefix_codeD [OF codes(1) eq1]
  then have "ti_prev ?a = ti_prev ?b" and eq2: "lib_ser_txout L (sc_spent_outputs c ! i) @
      lib_ser_sequence L (ti_sequence ?a) @ r = lib_ser_txout L (sc_spent_outputs c' ! i') @
      lib_ser_sequence L (ti_sequence ?b) @ r'"
    using wfi by (auto simp: wf_txin_def)
  moreover note s2 = prefix_codeD [OF codes(2) eq2 wfi(3,4)]
  moreover have "ti_sequence ?a = ti_sequence ?b \<and> r = r'"
    using s2 wfi by (intro prefix_codeD [OF codes(3)]) (auto simp: wf_txin_def)
  ultimately show ?thesis using True by simp
next
  case False
  then have "le_bytes 4 i @ r = le_bytes 4 i' @ r'" using eq by (simp add: input_part_def)
  from prefix_codeD [OF prefix_code_u32 this idx(5,6)] show ?thesis using False by simp
qed

lemma aggregates_inject:
  assumes wire: "wire_codec L" and wf: "wf_tx tx" "wf_tx tx'" "list_all wf_txout spent" "list_all wf_txout spent'"
  shows "prevouts_bytes L tx = prevouts_bytes L tx' \<Longrightarrow> prevouts tx = prevouts tx'"
    and "amounts_bytes L spent = amounts_bytes L spent' \<Longrightarrow> map to_value spent = map to_value spent'"
    and "scripts_bytes L spent = scripts_bytes L spent' \<Longrightarrow> map to_script spent = map to_script spent'"
    and "sequences_bytes L tx = sequences_bytes L tx' \<Longrightarrow> map ti_sequence (tx_input tx) = map ti_sequence (tx_input tx')"
    and "outputs_bytes L (tx_output tx) = outputs_bytes L (tx_output tx') \<Longrightarrow> tx_output tx = tx_output tx'"
proof -
  have codes: "prefix_code wf_outpoint (lib_ser_outpoint L)" "prefix_code (\<lambda>v. v < 2 ^ 64) (lib_ser_amount L)"
    "prefix_code wf_script (lib_ser_script L)" "prefix_code (\<lambda>n. n < 2 ^ 32) (lib_ser_sequence L)"
    "prefix_code wf_txout (lib_ser_txout L)" using wire by (simp_all add: wire_codec_def)
  have ins: "list_all wf_outpoint (prevouts t)" "list_all (\<lambda>n. n < 2 ^ 32) (map ti_sequence (tx_input t))"
    if "wf_tx t" for t
    using that by (auto simp: wf_tx_def wf_txin_def prevouts_def list_all_length)
  have outs: "list_all (\<lambda>v. v < 2 ^ 64) (map to_value o1)" "list_all wf_script (map to_script o1)"
    if "list_all wf_txout o1" for o1
    using that by (auto simp: wf_txout_def list_all_length)
  show "prevouts tx = prevouts tx'" if "prevouts_bytes L tx = prevouts_bytes L tx'"
    using that prefix_code_concat [OF codes(1) ins(1) [OF wf(1)] ins(1) [OF wf(2)]]
    by (simp add: prevouts_bytes_def prevouts_def comp_def)
  show "map to_value spent = map to_value spent'" if "amounts_bytes L spent = amounts_bytes L spent'"
    using that prefix_code_concat [OF codes(2) outs(1) [OF wf(3)] outs(1) [OF wf(4)]]
    by (simp add: amounts_bytes_def comp_def)
  show "map to_script spent = map to_script spent'" if "scripts_bytes L spent = scripts_bytes L spent'"
    using that prefix_code_concat [OF codes(3) outs(2) [OF wf(3)] outs(2) [OF wf(4)]]
    by (simp add: scripts_bytes_def comp_def)
  show "map ti_sequence (tx_input tx) = map ti_sequence (tx_input tx')" if "sequences_bytes L tx = sequences_bytes L tx'"
    using that prefix_code_concat [OF codes(4) ins(2) [OF wf(1)] ins(2) [OF wf(2)]]
    by (simp add: sequences_bytes_def comp_def)
  show "tx_output tx = tx_output tx'" if "outputs_bytes L (tx_output tx) = outputs_bytes L (tx_output tx')"
    using that wf(1,2) prefix_code_concat [OF codes(5)] by (simp add: outputs_bytes_def wf_tx_def)
qed

definition cache_ok :: "sighash_cache \<Rightarrow> bool" where
  "cache_ok c \<longleftrightarrow> digests_ok c \<and> wf_tx (sc_transaction c) \<and> list_all wf_txout (sc_spent_outputs c) \<and>
     length (sc_spent_outputs c) = length (tx_input (sc_transaction c))"

lemma message_inject:
  assumes wire: "wire_codec L" "cache_ok c" "cache_ok c'" "wf_script code" "wf_script code'"
    and msg: "unified_sighash_message L c i ht st code = Inr m"
      "unified_sighash_message L c' i' ht' st' code' = Inr m"
  shows "ht = ht' \<and> st = st' \<and> code = code' \<and>
    tx_version (sc_transaction c) = tx_version (sc_transaction c') \<and>
    tx_lock_time (sc_transaction c) = tx_lock_time (sc_transaction c') \<and>
    commit_part c ht = commit_part c' ht \<and> output_part c ht = output_part c' ht \<and>
    single_part L c ht i = single_part L c' ht i' \<and>
    (if anyone_can_pay ht
     then ti_prev (tx_input (sc_transaction c) ! i) = ti_prev (tx_input (sc_transaction c') ! i') \<and>
          sc_spent_outputs c ! i = sc_spent_outputs c' ! i' \<and>
          ti_sequence (tx_input (sc_transaction c) ! i) = ti_sequence (tx_input (sc_transaction c') ! i')
     else i = i')"
proof -
  note p = message_parts [OF msg(1)] and p' = message_parts [OF msg(2)]
  have ht: "ht' = ht" using p(1) unfolding p'(1) by simp
  have len: "length (commit_part c ht) = length (commit_part c' ht)"
    "length (output_part c ht) = length (output_part c' ht)"
    using wire(2,3) by (simp_all add: commit_part_def output_part_def cache_ok_def digests_ok_def)
  have fields: "i32_le_bytes (tx_version (sc_transaction c)) = i32_le_bytes (tx_version (sc_transaction c'))"
    "le_bytes 4 (tx_lock_time (sc_transaction c)) = le_bytes 4 (tx_lock_time (sc_transaction c'))"
    "commit_part c ht = commit_part c' ht" "output_part c ht = output_part c' ht" "st = st'"
    and rest: "input_part L c ht i @ lib_ser_script L code @ single_part L c ht i =
      input_part L c' ht i' @ lib_ser_script L code' @ single_part L c' ht i'"
    using p(1) len unfolding p'(1) ht by (simp_all add: append_eq_append_conv)
  have ver: "tx_version (sc_transaction c) = tx_version (sc_transaction c')"
    using i32_le_bytes_inject [OF fields(1)] wire(2,3) by (simp add: cache_ok_def wf_tx_def)
  have lock: "tx_lock_time (sc_transaction c) = tx_lock_time (sc_transaction c')"
    using le_bytes_inject [OF fields(2)] wire(2,3) by (simp add: cache_ok_def wf_tx_def)
  have inp: "lib_ser_script L code @ single_part L c ht i = lib_ser_script L code' @ single_part L c' ht i' \<and>
    (if anyone_can_pay ht
     then ti_prev (tx_input (sc_transaction c) ! i) = ti_prev (tx_input (sc_transaction c') ! i') \<and>
          sc_spent_outputs c ! i = sc_spent_outputs c' ! i' \<and>
          ti_sequence (tx_input (sc_transaction c) ! i) = ti_sequence (tx_input (sc_transaction c') ! i')
     else i = i')"
    using wire p(2,3) p'(2,3) by (intro input_part_inject [OF wire(1) _ _ _ _ _ _ _ _ _ _ rest])
      (simp_all add: cache_ok_def wf_tx_def)
  have "prefix_code wf_script (lib_ser_script L)" using wire(1) by (simp add: wire_codec_def)
  from prefix_codeD [OF this conjunct1 [OF inp] wire(4,5)] fields inp ver lock ht
  show ?thesis by simp
qed

lemma cache_of:
  assumes "sha256_digest L" "wf_tx tx" "list_all wf_txout spent" "sighash_cache_new L tx spent = Inr c"
  shows "cache_ok c" and "sc_transaction c = tx" and "sc_spent_outputs c = spent"
    and "sc_prevouts_hash c = lib_sha256 L (prevouts_bytes L tx)"
    and "sc_amounts_hash c = lib_sha256 L (amounts_bytes L spent)"
    and "sc_scripts_hash c = lib_sha256 L (scripts_bytes L spent)"
    and "sc_sequences_hash c = lib_sha256 L (sequences_bytes L tx)"
    and "sc_outputs_hash c = lib_sha256 L (outputs_bytes L (tx_output tx))"
  using assms
  by (auto simp: sighash_cache_new_def res_rules cache_ok_def digests_ok_def aggregate_prevouts_def
      aggregate_amounts_def aggregate_scripts_def aggregate_sequences_def aggregate_outputs_def
      sha256_digest_def)

lemma unified_sighash_Inr:
  "unified_sighash L tx i ht st spent code = Inr d \<longleftrightarrow>
     (\<exists>c m. sighash_cache_new L tx spent = Inr c \<and> unified_sighash_message L c i ht st code = Inr m \<and>
        d = lib_sha256 L (tagged_preimage L m))"
  by (auto simp: unified_sighash_def signature_hash_def tagged_hash_def res_rules)

lemma txouts_eqI: "map to_value xs = map to_value ys \<Longrightarrow> map to_script xs = map to_script ys \<Longrightarrow> xs = ys"
  for xs ys :: "txout list"
proof (induction xs arbitrary: ys)
  case (Cons x xs)
  then obtain y zs where "ys = y # zs" by (cases ys) auto
  with Cons show ?case by (cases x; cases y) simp
qed simp

text \<open>
  C19.  A signature hash commits to what it signs.  If two requests give the same digest, and
  SHA-256 does not collide on the byte strings these two requests hash, they agree on the
  hash type, script type, script code, version and lock time; without \<open>ANYONECANPAY\<close> on the
  input index, all outpoints, sequences, and spent amounts and scripts; with it on the
  signed input's outpoint, sequence and spent output; on all outputs unless the type is
  \<open>NONE\<close> or \<open>SINGLE\<close>, and for \<open>SINGLE\<close> on the output at the input's index.
\<close>

theorem unified_sighash_commits:
  assumes wire: "wire_codec L" "sha256_digest L"
    and wf: "wf_tx tx" "wf_tx tx'" "list_all wf_txout spent" "list_all wf_txout spent'"
      "wf_script code" "wf_script code'"
    and no_collision: "inj_on (lib_sha256 L) (set (sighash_preimages L tx i ht st spent code) \<union>
      set (sighash_preimages L tx' i' ht' st' spent' code'))"
    and same: "unified_sighash L tx i ht st spent code = Inr digest"
      "unified_sighash L tx' i' ht' st' spent' code' = Inr digest"
  shows "ht = ht' \<and> st = st' \<and> code = code' \<and> tx_version tx = tx_version tx' \<and>
    tx_lock_time tx = tx_lock_time tx' \<and>
    (\<not> anyone_can_pay ht \<longrightarrow> i = i' \<and> prevouts tx = prevouts tx' \<and> spent = spent' \<and>
       map ti_sequence (tx_input tx) = map ti_sequence (tx_input tx')) \<and>
    (anyone_can_pay ht \<longrightarrow> ti_prev (tx_input tx ! i) = ti_prev (tx_input tx' ! i') \<and>
       ti_sequence (tx_input tx ! i) = ti_sequence (tx_input tx' ! i') \<and> spent ! i = spent' ! i') \<and>
    (output_type ht \<notin> {SIGHASH_NONE, SIGHASH_SINGLE} \<longrightarrow> tx_output tx = tx_output tx') \<and>
    (output_type ht = SIGHASH_SINGLE \<longrightarrow> tx_output tx ! i = tx_output tx' ! i')"
proof -
  obtain c m where c: "sighash_cache_new L tx spent = Inr c"
    and m: "unified_sighash_message L c i ht st code = Inr m" and d: "digest = lib_sha256 L (tagged_preimage L m)"
    using same(1) unfolding unified_sighash_Inr by blast
  obtain c' m' where c': "sighash_cache_new L tx' spent' = Inr c'"
    and m': "unified_sighash_message L c' i' ht' st' code' = Inr m'" and d': "digest = lib_sha256 L (tagged_preimage L m')"
    using same(2) unfolding unified_sighash_Inr by blast
  note f = cache_of [OF wire(2) wf(1,3) c] and f' = cache_of [OF wire(2) wf(2,4) c']
  let ?P = "set (sighash_preimages L tx i ht st spent code)" and ?Q = "set (sighash_preimages L tx' i' ht' st' spent' code')"
  have inj: "lib_sha256 L x = lib_sha256 L y \<Longrightarrow> x \<in> ?P \<Longrightarrow> y \<in> ?Q \<Longrightarrow> x = y" for x y
    using no_collision by (auto simp: inj_on_def)
  have mem: "tagged_preimage L m \<in> ?P" "tagged_preimage L m' \<in> ?Q"
    by (simp_all add: sighash_preimages_def c c' m m')
  have "m = m'" using inj [OF _ mem] d d' by (simp add: tagged_preimage_def)
  note eq = message_inject [OF wire(1) f(1) f'(1) wf(5,6) m m' [folded this]]
  then have parts: "commit_part c ht = commit_part c' ht" "output_part c ht = output_part c' ht"
    "single_part L c ht i = single_part L c' ht i'" "ht' = ht" by blast+
  have len32: "length (lib_sha256 L x) = 32" for x using wire(2) by (simp add: sha256_digest_def)
  have agg: "prevouts_bytes L tx = prevouts_bytes L tx' \<and> amounts_bytes L spent = amounts_bytes L spent' \<and>
      scripts_bytes L spent = scripts_bytes L spent' \<and> sequences_bytes L tx = sequences_bytes L tx'"
    if "\<not> anyone_can_pay ht"
  proof -
    have cat: "a = a' \<and> b = b' \<and> e = e' \<and> g = g'"
      if "a @ b @ e @ g = a' @ b' @ e' @ g'" "length a = length a'" "length b = length b'" "length e = length e'"
      for a b e g a' b' e' g' :: bytes using that by simp
    from that parts(1) have "lib_sha256 L (prevouts_bytes L tx) @ lib_sha256 L (amounts_bytes L spent) @
        lib_sha256 L (scripts_bytes L spent) @ lib_sha256 L (sequences_bytes L tx) =
      lib_sha256 L (prevouts_bytes L tx') @ lib_sha256 L (amounts_bytes L spent') @
        lib_sha256 L (scripts_bytes L spent') @ lib_sha256 L (sequences_bytes L tx')"
      by (simp only: commit_part_def f(4-7) f'(4-7) if_True not_False_eq_True)
    from cat [OF this] have "lib_sha256 L (prevouts_bytes L tx) = lib_sha256 L (prevouts_bytes L tx')"
      "lib_sha256 L (amounts_bytes L spent) = lib_sha256 L (amounts_bytes L spent')"
      "lib_sha256 L (scripts_bytes L spent) = lib_sha256 L (scripts_bytes L spent')"
      "lib_sha256 L (sequences_bytes L tx) = lib_sha256 L (sequences_bytes L tx')"
      by (simp_all only: len32 refl simp_thms)
    note h = this
    show ?thesis by (intro conjI inj [OF h(1)] inj [OF h(2)] inj [OF h(3)] inj [OF h(4)])
      (simp_all add: sighash_preimages_def)
  qed
  have outs: "outputs_bytes L (tx_output tx) = outputs_bytes L (tx_output tx')"
    if "output_type ht \<notin> {SIGHASH_NONE, SIGHASH_SINGLE}"
  proof -
    have "lib_sha256 L (outputs_bytes L (tx_output tx)) = lib_sha256 L (outputs_bytes L (tx_output tx'))"
      using that parts(2) by (simp add: output_part_def f(8) f'(8))
    from inj [OF this] show ?thesis by (simp add: sighash_preimages_def)
  qed
  have single: "tx_output tx ! i = tx_output tx' ! i'" if "output_type ht = SIGHASH_SINGLE"
  proof -
    have idx: "i < length (tx_output tx)" "i' < length (tx_output tx')"
      using message_parts(4) [OF m] message_parts(4) [OF m'] that parts(4) f(2) f'(2) by auto
    have "lib_sha256 L (lib_ser_txout L (tx_output tx ! i)) = lib_sha256 L (lib_ser_txout L (tx_output tx' ! i'))"
      using that parts(3) by (simp add: single_part_def f(2) f'(2))
    from inj [OF this] have "lib_ser_txout L (tx_output tx ! i) = lib_ser_txout L (tx_output tx' ! i')"
      using idx by (simp add: sighash_preimages_def)
    then show ?thesis
      using wire(1) wf(1,2) idx by (intro prefix_code_inject [of wf_txout "lib_ser_txout L"])
        (auto simp: wire_codec_def wf_tx_def list_all_length)
  qed
  note ag = aggregates_inject [OF wire(1) wf(1-4)]
  show ?thesis
    using eq agg ag outs single txouts_eqI [of spent spent'] by (auto simp: f(2,3) f'(2,3))
qed

section \<open>Example\<close>

definition demo_signed :: transaction where
  "demo_signed = \<lparr>tx_version = 2, tx_lock_time = 9,
     tx_input = [\<lparr>ti_prev = OutPoint (replicate 32 1) 0, ti_script_sig = [], ti_sequence = 5, ti_witness = []\<rparr>],
     tx_output = [\<lparr>to_value = 7, to_script = [1, 2, 3]\<rparr>, \<lparr>to_value = 6, to_script = []\<rparr>]\<rparr>"

definition demo_resigned :: transaction where
  "demo_resigned = demo_signed\<lparr>tx_input := [\<lparr>ti_prev = OutPoint (replicate 32 1) 0, ti_script_sig = [],
     ti_sequence = 5, ti_witness = [[1]]\<rparr>]\<rparr>"

definition demo_spent :: "txout list" where
  "demo_spent = [\<lparr>to_value = 8, to_script = [4, 5]\<rparr>]"

lemmas demo_sighash_defs = demo_signed_def demo_resigned_def demo_spent_def demo_api_def demo_ser_script_def
  prevouts_bytes_def amounts_bytes_def scripts_bytes_def sequences_bytes_def outputs_bytes_def

lemma demo_hash_inj:
  assumes "distinct (map length xs)" and "\<forall>x \<in> set xs. length x < 2 ^ 32"
  shows "inj_on demo_hash (set xs)"
proof (rule inj_onI)
  fix x y assume mem: "x \<in> set xs" "y \<in> set xs" and eq: "demo_hash x = demo_hash y"
  have "length x = length y"
    using prefix_codeD [OF prefix_code_u32] eq mem assms(2) by (simp add: demo_hash_def)
  then show "x = y" using mem assms(1) by (auto simp: distinct_map dest: inj_onD)
qed

lemma demo_lib_sha256: "lib_sha256 demo_api = demo_hash"
  by (simp add: demo_api_def)

lemma demo_message:
  "\<exists>c m. sighash_cache_new demo_api demo_signed demo_spent = Inr c \<and>
     unified_sighash_message demo_api c 0 0x23 1 [6] = Inr m \<and> length m = 185 \<and>
     sighash_cache_new demo_api demo_resigned demo_spent = Inr (c\<lparr>sc_transaction := demo_resigned\<rparr>) \<and>
     unified_sighash_message demo_api (c\<lparr>sc_transaction := demo_resigned\<rparr>) 0 0x23 1 [6] = Inr m"
  by (simp add: sighash_cache_new_def unified_sighash_message_def Let_def demo_sighash_defs sighash_consts
      output_type_def anyone_can_pay_def aggregate_prevouts_def aggregate_amounts_def aggregate_scripts_def
      aggregate_sequences_def aggregate_outputs_def demo_hash_def)

lemma demo_preimages:
  "sighash_preimages demo_api demo_resigned 0 0x23 1 demo_spent [6] =
     sighash_preimages demo_api demo_signed 0 0x23 1 demo_spent [6]"
  "map length (sighash_preimages demo_api demo_signed 0 0x23 1 demo_spent [6]) = [36, 8, 10, 4, 35, 19, 249]"
  using demo_message
  by (auto simp: sighash_preimages_def demo_sighash_defs tagged_preimage_def demo_hash_def)

theorem unified_sighash_commits_witness:
  "unified_sighash demo_api demo_resigned 0 0x23 1 demo_spent [6] =
     unified_sighash demo_api demo_signed 0 0x23 1 demo_spent [6] \<and>
   prevouts demo_signed = prevouts demo_resigned \<and>
   tx_output demo_signed ! 0 = tx_output demo_resigned ! 0"
proof -
  let ?xs = "sighash_preimages demo_api demo_signed 0 0x23 1 demo_spent [6]"
  obtain d where d: "unified_sighash demo_api demo_signed 0 0x23 1 demo_spent [6] = Inr d"
    "unified_sighash demo_api demo_resigned 0 0x23 1 demo_spent [6] = Inr d"
    using demo_message unfolding unified_sighash_Inr by blast
  have "list_all (\<lambda>n. n < 2 ^ 32) (map length ?xs)" unfolding demo_preimages(2) by simp
  then have "\<forall>x \<in> set ?xs. length x < 2 ^ 32" by (simp add: list_all_iff)
  then have "inj_on demo_hash (set ?xs)"
    by (intro demo_hash_inj) (simp_all add: demo_preimages(2))
  then have inj: "inj_on (lib_sha256 demo_api) (set ?xs \<union> set (sighash_preimages demo_api demo_resigned 0 0x23 1 demo_spent [6]))"
    by (simp add: demo_preimages(1) demo_lib_sha256)
  have wf: "wf_tx demo_signed" "wf_tx demo_resigned" "list_all wf_txout demo_spent" "wf_script [6]"
    by (simp_all add: wf_tx_def wf_txin_def wf_txout_def wf_script_def wf_outpoint_def demo_signed_def
        demo_resigned_def demo_spent_def)
  have "\<not> anyone_can_pay 0x23" "output_type 0x23 = SIGHASH_SINGLE"
    by (simp_all add: anyone_can_pay_def output_type_def sighash_consts)
  then show ?thesis
    using unified_sighash_commits [OF demo_wire_codec demo_sha256_digest wf(1,2,3,3,4,4) inj d] d by simp
qed

end
