(* ===== verification/Ancestry_Retained.thy ===== *)
theory Ancestry_Retained
  imports Ancestry
begin

text \<open>
  \<open>coincube-core/src/claim_ancestry/retained.rs\<close>: the bounded encoding in which a verified
  dependency path is stored.  A stored link is the record \<open>link\<close> (the source's borrowed and
  owned links have the same fields).  The reader threads the remaining bytes the way the
  source advances its slice.
\<close>

section \<open>Data\<close>

definition MAGIC :: bytes where "MAGIC = [0x43, 0x43, 0x41, 0x50, 0, 0, 0, 1]"
definition HEADER :: nat where "HEADER = 8 + 36 + 4"
definition LINK_HEADER :: nat where "LINK_HEADER = 8"
definition MAX_ENCODED_BYTES :: nat where
  "MAX_ENCODED_BYTES = HEADER + MAX_PATH_BYTES + MAX_PATH_TRANSACTIONS * LINK_HEADER"
definition u32_max :: nat where "u32_max = 2 ^ 32 - 1"

datatype decode_error = Encoding | WrongSelection | Structural anc_error

record retained_path =
  rp_selected :: outpoint
  rp_links :: "link list"

section \<open>Operations\<close>

definition verify_owned :: "btc_api \<Rightarrow> outpoint \<Rightarrow> link list \<Rightarrow> (anc_error, coinbase_dependency) res" where
  "verify_owned L selected links =
     guard_res (links = [] \<or> length links > MAX_PATH_TRANSACTIONS) PathLimit (verify L selected links)"

definition retained_new :: "btc_api \<Rightarrow> outpoint \<Rightarrow> link list \<Rightarrow> (anc_error, retained_path) res" where
  "retained_new L selected links =
     bind_res (verify_owned L selected links) (\<lambda>_. Inr \<lparr>rp_selected = selected, rp_links = links\<rparr>)"

definition reverify :: "btc_api \<Rightarrow> retained_path \<Rightarrow> (anc_error, coinbase_dependency) res" where
  "reverify L p = verify_owned L (rp_selected p) (rp_links p)"

definition encode_number :: "nat \<Rightarrow> bytes" where
  \<comment> \<open>\<open>(n as u32).to_le_bytes()\<close>\<close>
  "encode_number n = le_bytes 4 n"

definition parent_code :: "nat option \<Rightarrow> nat" where
  \<comment> \<open>\<open>parent_input.map_or(u32::MAX, |index| index as u32)\<close>\<close>
  "parent_code parent = (case parent of None \<Rightarrow> u32_max | Some index \<Rightarrow> index mod 2 ^ 32)"

definition encode_link :: "link \<Rightarrow> bytes" where
  "encode_link l = encode_number (length (lk_transaction l)) @
     encode_number (parent_code (lk_parent_input l)) @ lk_transaction l"

definition retained_encode :: "btc_api \<Rightarrow> retained_path \<Rightarrow> bytes" where
  "retained_encode L p = MAGIC @ lib_ser_outpoint L (rp_selected p) @
     encode_number (length (rp_links p)) @ concat (map encode_link (rp_links p))"

definition take_bytes :: "bytes \<Rightarrow> nat \<Rightarrow> (decode_error, bytes \<times> bytes) res" where
  "take_bytes remaining count = ok_or Encoding (take_exact count remaining)"

definition number :: "bytes \<Rightarrow> (decode_error, nat \<times> bytes) res" where
  "number remaining = bind_res (take_bytes remaining 4) (\<lambda>(bs, rest). Inr (of_le_bytes bs, rest))"

fun decode_links :: "nat \<Rightarrow> nat \<Rightarrow> bytes \<Rightarrow> (decode_error, link list \<times> bytes) res" where
  "decode_links 0 tot remaining = Inr ([], remaining)"
| "decode_links (Suc count) tot remaining =
     bind_res (number remaining) (\<lambda>(len, remaining).
     bind_res (ok_or Encoding (checked_add64 tot len)) (\<lambda>tot.
     guard_res (len > MAX_TRANSACTION_BYTES \<or> tot > MAX_PATH_BYTES) Encoding
     (bind_res (number remaining) (\<lambda>(parent, remaining).
      bind_res (take_bytes remaining len) (\<lambda>(raw, remaining).
      bind_res (decode_links count tot remaining) (\<lambda>(links, remaining).
        Inr (\<lparr>lk_transaction = raw,
              lk_parent_input = (if parent \<noteq> u32_max then Some parent else None)\<rparr> # links, remaining)))))))"

definition retained_decode :: "btc_api \<Rightarrow> outpoint \<Rightarrow> bytes \<Rightarrow> (decode_error, retained_path) res" where
  "retained_decode L expected encoded =
     guard_res (length encoded > MAX_ENCODED_BYTES) Encoding
     (bind_res (take_bytes encoded (length MAGIC)) (\<lambda>(magic, remaining).
     guard_res (magic \<noteq> MAGIC) Encoding
     (bind_res (take_bytes remaining 36) (\<lambda>(raw, remaining).
      bind_res (ok_or Encoding (lib_deser_outpoint L raw)) (\<lambda>selected.
      guard_res (selected \<noteq> expected) WrongSelection
      (bind_res (number remaining) (\<lambda>(count, remaining).
       guard_res (count = 0 \<or> count > MAX_PATH_TRANSACTIONS) Encoding
       (bind_res (decode_links count 0 remaining) (\<lambda>(links, remaining).
        guard_res (remaining \<noteq> []) Encoding
        (bind_res (map_err Structural (verify L selected links)) (\<lambda>_.
           Inr \<lparr>rp_selected = selected, rp_links = links\<rparr>)))))))))))"

section \<open>The reader inverts the writer\<close>

interpretation u32: prefix_codec encode_number number "\<lambda>n. n < 2 ^ 32"
proof
  show "number (encode_number n @ rest) = Inr (n, rest)" if "n < 2 ^ 32" for n rest
    using that by (simp add: number_def encode_number_def take_bytes_def of_le_bytes_le_bytes)
  show "n < 2 ^ 32 \<and> bs = encode_number n @ rest" if got: "number bs = Inr (n, rest)" for bs n rest
  proof -
    from got obtain raw where raw: "bs = raw @ rest" "length raw = 4" "n = of_le_bytes raw"
      by (auto simp: number_def take_bytes_def res_rules split: prod.splits)
    then show ?thesis
      using of_le_bytes_bound [of raw] by (simp add: encode_number_def le_bytes_of_le_bytes)
  qed
qed

definition link_ok :: "link \<Rightarrow> bool" where
  \<comment> \<open>a link the format can carry\<close>
  "link_ok l \<longleftrightarrow> length (lk_transaction l) \<le> MAX_TRANSACTION_BYTES \<and>
     (\<forall>i. lk_parent_input l = Some i \<longrightarrow> i < u32_max)"

lemma parent_code_Some: "i < u32_max \<Longrightarrow> parent_code (Some i) = i"
  by (simp add: parent_code_def u32_max_def)

lemma parent_code_None: "parent_code None = u32_max"
  by (simp add: parent_code_def)

lemma parent_code_bound: "parent_code parent < 2 ^ 32"
  by (simp add: parent_code_def u32_max_def split: option.splits)

lemma parent_code_inverse:
  assumes "\<forall>i. parent = Some i \<longrightarrow> i < u32_max"
  shows "(if parent_code parent \<noteq> u32_max then Some (parent_code parent) else None) = parent"
  using assms by (cases parent) (auto simp: parent_code_Some parent_code_None)

lemma parent_code_of_number:
  "n < 2 ^ 32 \<Longrightarrow> parent_code (if n \<noteq> u32_max then Some n else None) = n"
  by (auto simp: parent_code_def u32_max_def)

abbreviation links_size :: "link list \<Rightarrow> nat" where
  "links_size ls \<equiv> (\<Sum>l \<leftarrow> ls. length (lk_transaction l))"

lemma take_bytes_iff: "take_bytes bs n = Inr (a, b) \<longleftrightarrow> bs = a @ b \<and> length a = n"
  by (simp add: take_bytes_def res_rules)

lemma decode_links_encode:
  assumes "\<forall>l \<in> set ls. link_ok l" and "tot + links_size ls \<le> MAX_PATH_BYTES"
  shows "decode_links (length ls) tot (concat (map encode_link ls) @ rest) = Inr (ls, rest)"
  using assms
proof (induction ls arbitrary: tot)
  case (Cons l ls)
  let ?n = "length (lk_transaction l)"
  have l: "link_ok l" and small: "?n < 2 ^ 32" "tot + ?n < 2 ^ 64"
    using Cons.prems by (auto simp: link_ok_def MAX_TRANSACTION_BYTES_def MAX_PATH_BYTES_def)
  have tail: "decode_links (length ls) (tot + ?n) (concat (map encode_link ls) @ rest) = Inr (ls, rest)"
    using Cons.prems by (intro Cons.IH) auto
  show ?case
    using Cons.prems l tail small(2) parent_code_inverse [of "lk_parent_input l"]
    by (simp add: encode_link_def [of l] u32.get_put [OF small(1)] u32.get_put [OF parent_code_bound]
        checked_add64_def link_ok_def take_bytes_def)
qed simp

lemma decode_links_sound:
  assumes "decode_links n tot bs = Inr (ls, rest)"
  shows "length ls = n \<and> bs = concat (map encode_link ls) @ rest \<and> (\<forall>l \<in> set ls. link_ok l) \<and>
    (ls \<noteq> [] \<longrightarrow> tot + links_size ls \<le> MAX_PATH_BYTES)"
  using assms
proof (induction n arbitrary: tot bs ls)
  case (Suc n)
  from Suc.prems obtain len r1 parent r2 raw r3 tl
    where steps: "number bs = Inr (len, r1)" "number r1 = Inr (parent, r2)"
      "take_bytes r2 len = Inr (raw, r3)" "decode_links n (tot + len) r3 = Inr (tl, rest)"
      and small: "len \<le> MAX_TRANSACTION_BYTES" "tot + len \<le> MAX_PATH_BYTES"
      and ls: "ls = \<lparr>lk_transaction = raw,
        lk_parent_input = (if parent \<noteq> u32_max then Some parent else None)\<rparr> # tl"
    by (auto simp: res_rules split: prod.splits simp del: not_None_eq)
  have nums: "len < 2 ^ 32" "bs = encode_number len @ r1" "parent < 2 ^ 32" "r1 = encode_number parent @ r2"
    using u32.get_sound steps(1,2) by blast+
  have raw: "r2 = raw @ r3" "length raw = len" using steps(3) by (simp_all add: take_bytes_iff)
  have "parent \<noteq> u32_max \<Longrightarrow> parent < u32_max" using nums(3) by (simp add: u32_max_def)
  then show ?case
    using Suc.IH [OF steps(4)] nums raw small ls
    by (auto simp: encode_link_def link_ok_def parent_code_of_number)
qed simp

text \<open>
  What the source's comment "construction and private fields guarantee all conversions and
  limits" rests on: an input of a transaction takes at least one byte of its encoding, so
  an index into the inputs of a transaction of at most 400,000 bytes fits 32 bits.
\<close>

definition inputs_within_encoding :: "btc_api \<Rightarrow> bool" where
  "inputs_within_encoding L \<longleftrightarrow>
     (\<forall>raw tx. lib_deserialize L raw = Some tx \<longrightarrow> length (tx_input tx) \<le> length raw)"

lemma dep_path_link_ok:
  assumes "inputs_within_encoding L" and "dep_path L p links txs root cb"
    and "\<forall>l \<in> set links. length (lk_transaction l) \<le> MAX_TRANSACTION_BYTES"
  shows "\<forall>l \<in> set links. link_ok l"
  using assms(2,3)
proof (induction rule: dep_path.induct)
  case (spend raw tx p i q ls txs root cb)
  then have "i < 400000"
    using assms(1) by (fastforce simp: inputs_within_encoding_def MAX_TRANSACTION_BYTES_def)
  with spend show ?case by (simp add: link_ok_def u32_max_def)
qed (simp add: link_ok_def)

lemma retained_new_iff:
  "retained_new L selected links = Inr p \<longleftrightarrow>
     (\<exists>dep. verify L selected links = Inr dep) \<and> p = \<lparr>rp_selected = selected, rp_links = links\<rparr>"
  by (auto simp: retained_new_def verify_owned_def res_rules verify_def)

lemma encode_links_length:
  "length (concat (map encode_link ls)) = links_size ls + length ls * LINK_HEADER"
  by (induction ls) (auto simp: encode_link_def encode_number_def LINK_HEADER_def)

lemma length_retained_encode:
  assumes "length (lib_ser_outpoint L (rp_selected p)) = 36"
  shows "length (retained_encode L p) = HEADER + links_size (rp_links p) + length (rp_links p) * LINK_HEADER"
  using assms by (simp add: retained_encode_def encode_links_length HEADER_def MAGIC_def encode_number_def)

lemma retained_decode_encode:
  assumes codec: "outpoint_codec L" "inputs_within_encoding L" and sel: "wf_outpoint (rp_selected p)"
    and new: "retained_new L (rp_selected p) (rp_links p) = Inr p"
  shows "length (retained_encode L p) \<le> MAX_ENCODED_BYTES"
    and "retained_decode L (rp_selected p) (retained_encode L p) = Inr p"
proof -
  obtain dep where dep: "verify L (rp_selected p) (rp_links p) = Inr dep"
    using new by (auto simp: retained_new_iff)
  have bounds: "length (rp_links p) \<le> MAX_PATH_TRANSACTIONS" "links_size (rp_links p) \<le> MAX_PATH_BYTES"
    "rp_links p \<noteq> []" and ok: "\<forall>l \<in> set (rp_links p). link_ok l"
    using dep dep_path_link_ok [OF codec(2)] by (auto simp: verify_iff dest: dep_path_length)
  have ser: "length (lib_ser_outpoint L (rp_selected p)) = 36"
    "lib_deser_outpoint L (lib_ser_outpoint L (rp_selected p)) = Some (rp_selected p)"
    using codec(1) sel by (auto simp: outpoint_codec_def)
  show size: "length (retained_encode L p) \<le> MAX_ENCODED_BYTES"
    using bounds by (simp add: length_retained_encode [OF ser(1)] MAX_ENCODED_BYTES_def LINK_HEADER_def)
  have count: "number (encode_number (length (rp_links p)) @ rest) = Inr (length (rp_links p), rest)" for rest
    using bounds(1) by (intro u32.get_put) (simp add: MAX_PATH_TRANSACTIONS_def)
  have links: "decode_links (length (rp_links p)) 0 (concat (map encode_link (rp_links p))) = Inr (rp_links p, [])"
    using decode_links_encode [OF ok, of 0 "[]"] bounds(2) by simp
  have "take_bytes (MAGIC @ rest) (length MAGIC) = Inr (MAGIC, rest)" for rest
    by (simp add: take_bytes_def)
  then show "retained_decode L (rp_selected p) (retained_encode L p) = Inr p"
    using size bounds(1,3) dep
    by (simp add: retained_decode_def retained_encode_def ser take_bytes_def count links)
qed

lemma retained_decode_sound:
  assumes codec: "outpoint_codec L" and dec: "retained_decode L expected bs = Inr p"
  shows "rp_selected p = expected" and "retained_new L expected (rp_links p) = Inr p"
    and "bs = retained_encode L p" and "wf_outpoint expected"
proof -
  from dec obtain raw r1 count r2 links dep
    where steps: "bs = MAGIC @ raw @ r1" "length raw = 36" "lib_deser_outpoint L raw = Some expected"
      "number r1 = Inr (count, r2)" "decode_links count 0 r2 = Inr (links, [])"
      "verify L expected links = Inr dep" and p: "p = \<lparr>rp_selected = expected, rp_links = links\<rparr>"
    by (auto simp: retained_decode_def res_rules take_bytes_iff split: prod.splits)
  have wf: "wf_outpoint expected" and ser: "raw = lib_ser_outpoint L expected"
    using codec steps(2,3) by (auto simp: outpoint_codec_def)
  show "rp_selected p = expected" "retained_new L expected (rp_links p) = Inr p" "wf_outpoint expected"
    using p wf steps(6) by (simp_all add: retained_new_iff)
  show "bs = retained_encode L p"
    using decode_links_sound [OF steps(5)] u32.get_sound [OF steps(4)] steps(1) ser p
    by (simp add: retained_encode_def)
qed

text \<open>
  C16.  Stored paths are canonical and lossless: a byte string decodes, for the expected
  selection, to a retained path exactly when that path passes \<open>RetainedPath::new\<close> for the
  same selection and the bytes are its encoding.  So decoding restores every path that
  was encoded, accepts one encoding of it only, and never yields a path that construction
  would refuse.
\<close>

theorem retained_roundtrip:
  assumes "outpoint_codec L" and "inputs_within_encoding L"
  shows "retained_decode L expected bs = Inr p \<longleftrightarrow>
     wf_outpoint expected \<and> retained_new L expected (rp_links p) = Inr p \<and> bs = retained_encode L p"
proof
  assume "retained_decode L expected bs = Inr p"
  then show "wf_outpoint expected \<and> retained_new L expected (rp_links p) = Inr p \<and> bs = retained_encode L p"
    using retained_decode_sound [OF assms(1)] by blast
next
  assume r: "wf_outpoint expected \<and> retained_new L expected (rp_links p) = Inr p \<and> bs = retained_encode L p"
  then have "p = \<lparr>rp_selected = expected, rp_links = rp_links p\<rparr>" by (simp add: retained_new_iff)
  then have "rp_selected p = expected" by (cases p) simp
  with r show "retained_decode L expected bs = Inr p"
    using retained_decode_encode(2) [OF assms, of p] by simp
qed

section \<open>Example\<close>

definition demo_retained :: retained_path where
  "demo_retained = \<lparr>rp_selected = OutPoint (demo_txid demo_spend) 0, rp_links = demo_links\<rparr>"

lemma path_outpoint_codec: "outpoint_codec path_api"
  using demo_outpoint_codec by (simp add: outpoint_codec_def path_api_def)

lemma path_inputs_within_encoding: "inputs_within_encoding path_api"
  by (auto simp: inputs_within_encoding_def path_api_def demo_spend_def demo_coinbase_def split: if_splits)

lemma demo_verified: "\<exists>dep. verify path_api (OutPoint (demo_txid demo_spend) 0) demo_links = Inr dep"
proof -
  have "distinct [demo_txid demo_spend, demo_txid demo_coinbase]"
    by (simp add: demo_path_defs numeral_eval)
  then have "verify path_api (OutPoint (demo_txid demo_spend) 0) demo_links =
    Inr \<lparr>cd_selected = OutPoint (demo_txid demo_spend) 0, cd_root = OutPoint (demo_txid demo_coinbase) 0,
         cd_coinbase = demo_coinbase, cd_txids = [demo_txid demo_spend, demo_txid demo_coinbase]\<rparr>"
    unfolding verify_iff using demo_dep_path
    by (auto simp: MAX_PATH_TRANSACTIONS_def MAX_TRANSACTION_BYTES_def MAX_PATH_BYTES_def path_api_def
        demo_api_def demo_links_def demo_txid_def demo_spend_def numeral_eval intro!: exI [of _ "[demo_spend, demo_coinbase]"])
  then show ?thesis by blast
qed

theorem retained_roundtrip_witness:
  "retained_decode path_api (rp_selected demo_retained) (retained_encode path_api demo_retained) = Inr demo_retained"
proof -
  have "wf_outpoint (rp_selected demo_retained)"
    by (simp add: demo_retained_def wf_outpoint_def demo_txid_def)
  moreover have "retained_new path_api (rp_selected demo_retained) (rp_links demo_retained) = Inr demo_retained"
    using demo_verified by (simp add: retained_new_iff demo_retained_def)
  ultimately show ?thesis
    by (subst retained_roundtrip [OF path_outpoint_codec path_inputs_within_encoding]) simp
qed

end
