(* ===== verification/Ancestry_Search.thy ===== *)
theory Ancestry_Search
  imports Ancestry "HOL-Library.AList"
begin

text \<open>
  \<open>coincube-core/src/claim_ancestry/search.rs\<close>: the bounded breadth-first search for a
  coinbase dependency.  The search is a state machine driven from outside: \<open>search_step\<close>
  asks for one transaction, reports one candidate path or finishes, and
  \<open>provide_with_pruning\<close> feeds the transaction asked for.  Ordered maps are association
  lists with distinct keys, ordered sets are strictly sorted lists; state changes made
  before an error are kept, as in the source, where the error then sticks.
\<close>

section \<open>Data\<close>

definition MAX_GRAPH_TRANSACTIONS :: nat where "MAX_GRAPH_TRANSACTIONS = 512"
definition MAX_GRAPH_EDGES :: nat where "MAX_GRAPH_EDGES = 4096"

record candidate_t =
  ca_links :: "link list"
  ca_dependency :: coinbase_dependency

datatype search_result =
    Fetch (fetch_txid: txid) (fetch_max_bytes: nat)
  | Found candidate_t
  | Complete

record predecessor =
  pr_txid :: txid
  pr_input :: nat

record node =
  nd_raw :: bytes
  nd_tx :: transaction
  nd_outpoint :: outpoint
  nd_pred :: "predecessor option"
  nd_depth :: nat
  nd_pre_fork :: bool
  nd_next_input :: nat

record pending =
  pe_outpoint :: outpoint
  pe_pred :: "predecessor option"
  pe_max_bytes :: nat

record search =
  se_selected :: outpoint
  se_nodes :: "(txid \<times> node) list"
  se_order :: "txid list"
  se_cursor :: nat
  se_edges :: "(txid \<times> txid list) list"
  se_edge_count :: nat
  se_pending :: "pending option"
  se_ready :: "txid option"
  se_bytes :: nat
  se_overdepth :: bool
  se_error :: "anc_error option"

section \<open>Operations\<close>

definition search_new :: "btc_api \<Rightarrow> outpoint \<Rightarrow> (anc_error, search) res" where
  "search_new L selected =
     guard_res (lib_is_null L selected) InvalidSelection
       (Inr \<lparr>se_selected = selected, se_nodes = [], se_order = [], se_cursor = 0, se_edges = [],
             se_edge_count = 0, se_pending = None, se_ready = None, se_bytes = 0,
             se_overdepth = False, se_error = None\<rparr>)"

definition validate_output :: "node \<Rightarrow> outpoint \<Rightarrow> (anc_error, unit) res" where
  "validate_output n p =
     bind_res (ok_or InvalidOutput (nth_opt (tx_output (nd_tx n)) (op_vout p))) (\<lambda>_. Inr ())"

text \<open>The worklist of \<open>record_edge\<close>: does a walk along the recorded edges meet \<open>parent\<close>?
  \<open>pending\<close> is the ordered set whose first element is popped.\<close>

definition children :: "(txid \<times> txid list) list \<Rightarrow> txid \<Rightarrow> txid list" where
  "children edges t = (case map_of edges t of None \<Rightarrow> [] | Some cs \<Rightarrow> cs)"

definition extend_set :: "'a::linorder list \<Rightarrow> 'a list \<Rightarrow> 'a list" where
  "extend_set xs ys = fold insort_insert ys xs"

definition mentioned :: "(txid \<times> txid list) list \<Rightarrow> txid set" where
  "mentioned edges = fst ` set edges \<union> (\<Union>e \<in> set edges. set (snd e))"

lemma finite_mentioned [simp]: "finite (mentioned edges)"
  by (simp add: mentioned_def)

lemma children_mentioned: "c \<in> set (children edges t) \<Longrightarrow> t \<in> mentioned edges \<and> c \<in> mentioned edges"
proof -
  assume "c \<in> set (children edges t)"
  then obtain cs where "map_of edges t = Some cs" and c: "c \<in> set cs"
    by (cases "map_of edges t") (auto simp: children_def)
  then have "(t, cs) \<in> set edges" by (simp add: map_of_SomeD)
  with c show ?thesis by (force simp: mentioned_def)
qed

function meets :: "(txid \<times> txid list) list \<Rightarrow> txid \<Rightarrow> txid list \<Rightarrow> txid set \<Rightarrow> bool" where
  "meets edges parent [] visited = False"
| "meets edges parent (t # rest) visited =
     (if t = parent then True
      else if t \<in> visited then meets edges parent rest visited
      else meets edges parent
             (extend_set rest (filter (\<lambda>c. c \<notin> insert t visited) (children edges t)))
             (insert t visited))"
  by pat_completeness auto
termination
proof (relation "measures [\<lambda>(edges, parent, pend, visited). card (mentioned edges - visited),
                          \<lambda>(edges, parent, pend, visited). length pend]"; (simp; fail)?)
  fix edges :: "(txid \<times> txid list) list" and parent t :: txid and rest :: "txid list"
    and visited :: "txid set"
  assume new: "t \<notin> visited"
  show "((edges, parent, extend_set rest (filter (\<lambda>c. c \<notin> insert t visited) (children edges t)),
          insert t visited), edges, parent, t # rest, visited)
        \<in> measures [\<lambda>(edges, parent, pend, visited). card (mentioned edges - visited),
                    \<lambda>(edges, parent, pend, visited). length pend]"
  proof (cases "t \<in> mentioned edges")
    case True
    with new have "mentioned edges - insert t visited \<subset> mentioned edges - visited" by blast
    then have "card (mentioned edges - insert t visited) < card (mentioned edges - visited)"
      by (intro psubset_card_mono) simp_all
    then show ?thesis by simp
  next
    case False
    then have "children edges t = []" using children_mentioned by (metis list.set_intros(1) neq_Nil_conv)
    moreover have "mentioned edges - insert t visited = mentioned edges - visited" using False by blast
    ultimately show ?thesis by (simp add: extend_set_def)
  qed
qed

definition record_edge :: "search \<Rightarrow> txid \<Rightarrow> txid \<Rightarrow> (anc_error, search) res" where
  "record_edge s parent child =
     (if child \<in> set (children (se_edges s) parent) then Inr s
      else guard_res (se_edge_count s \<ge> MAX_GRAPH_EDGES) PathLimit
        (guard_res (meets (se_edges s) parent [child] {}) RepeatedTransaction
          (Inr (s\<lparr>se_edges := AList.update parent (insort_insert child (children (se_edges s) parent)) (se_edges s),
                  se_edge_count := se_edge_count s + 1\<rparr>))))"

definition request :: "search \<Rightarrow> outpoint \<Rightarrow> predecessor option \<Rightarrow> (anc_error, search \<times> search_result) res" where
  "request s outpoint pred =
     guard_res (length (se_nodes s) \<ge> MAX_GRAPH_TRANSACTIONS) PathLimit
     (let max_bytes = min (MAX_PATH_BYTES - se_bytes s) MAX_TRANSACTION_BYTES in
      guard_res (max_bytes = 0) ByteLimit
        (Inr (s\<lparr>se_pending := Some \<lparr>pe_outpoint = outpoint, pe_pred = pred, pe_max_bytes = max_bytes\<rparr>\<rparr>,
              Fetch (op_txid outpoint) max_bytes)))"

text \<open>\<open>candidate\<close>: walk back from the root to the selection, collecting at most 64 links;
  the accumulated list is the reversed one of the source.\<close>

fun collect_links ::
  "(txid \<times> node) list \<Rightarrow> nat \<Rightarrow> txid \<Rightarrow> nat option \<Rightarrow> link list \<Rightarrow> (anc_error, link list) res" where
  "collect_links nodes 0 t parent_input links = Inl PathLimit"
| "collect_links nodes (Suc room) t parent_input links =
     bind_res (ok_or IncompletePath (map_of nodes t)) (\<lambda>n.
       let links' = \<lparr>lk_transaction = nd_raw n, lk_parent_input = parent_input\<rparr> # links in
       case nd_pred n of
         None \<Rightarrow> Inr links'
       | Some p \<Rightarrow> collect_links nodes room (pr_txid p) (Some (pr_input p)) links')"

definition candidate :: "btc_api \<Rightarrow> search \<Rightarrow> txid \<Rightarrow> (anc_error, candidate_t) res" where
  "candidate L s root =
     bind_res (collect_links (se_nodes s) MAX_PATH_TRANSACTIONS root None []) (\<lambda>links.
     bind_res (verify L (se_selected s) links) (\<lambda>dep.
       Inr \<lparr>ca_links = links, ca_dependency = dep\<rparr>))"

text \<open>The \<open>while\<close> loop of \<open>step_inner\<close>.\<close>

definition set_node :: "txid \<Rightarrow> node \<Rightarrow> search \<Rightarrow> search" where
  "set_node t n s = s\<lparr>se_nodes := AList.update t n (se_nodes s)\<rparr>"

definition inputs_left :: "search \<Rightarrow> nat" where
  "inputs_left s =
     (case nth_opt (se_order s) (se_cursor s) of
        None \<Rightarrow> 0
      | Some t \<Rightarrow> (case map_of (se_nodes s) t of
                     None \<Rightarrow> 0
                   | Some n \<Rightarrow> length (tx_input (nd_tx n)) - nd_next_input n))"

lemma record_edge_frame:
  assumes "record_edge s p c = Inr s'"
  shows "se_nodes s' = se_nodes s \<and> se_order s' = se_order s \<and> se_cursor s' = se_cursor s \<and>
    se_selected s' = se_selected s \<and> se_pending s' = se_pending s \<and> se_ready s' = se_ready s \<and>
    se_bytes s' = se_bytes s \<and> se_overdepth s' = se_overdepth s \<and> se_error s' = se_error s"
  using assms by (auto simp: record_edge_def res_rules split: if_splits)

lemma inputs_left_decreases:
  assumes "nth_opt (se_order s) (se_cursor s) = Some t" and "map_of (se_nodes s) t = Some n"
    and "nth_opt (tx_input (nd_tx n)) (nd_next_input n) = Some inp"
    and "se_nodes s' = se_nodes (set_node t (n\<lparr>nd_next_input := nd_next_input n + 1\<rparr>) s)"
    and "se_order s' = se_order s" and "se_cursor s' = se_cursor s"
  shows "inputs_left s' < inputs_left s"
proof -
  from assms(3) have "nd_next_input n < length (tx_input (nd_tx n))" by (simp add: nth_opt_Some)
  with assms(1,2,4-6) show ?thesis by (simp add: inputs_left_def set_node_def update_conv')
qed

function expand :: "btc_api \<Rightarrow> search \<Rightarrow> search \<times> (anc_error, search_result) res" where
  "expand L s =
     (case nth_opt (se_order s) (se_cursor s) of
        None \<Rightarrow> (s, if se_overdepth s then Inl PathLimit else Inr Complete)
      | Some t \<Rightarrow>
        (case map_of (se_nodes s) t of
           None \<Rightarrow> (s, Inl IncompletePath)
         | Some n \<Rightarrow>
           if lib_is_coinbase L (nd_tx n) \<or> nd_next_input n = length (tx_input (nd_tx n))
           then expand L (s\<lparr>se_cursor := se_cursor s + 1\<rparr>)
           else
           (case nth_opt (tx_input (nd_tx n)) (nd_next_input n) of
              None \<Rightarrow> (s, Inl Panicked)
            | Some inp \<Rightarrow>
              let input = nd_next_input n; child = ti_prev inp;
                  s1 = set_node t (n\<lparr>nd_next_input := input + 1\<rparr>) s in
              if lib_is_null L child then (s1, Inl InvalidInput)
              else
              (case map_of (se_nodes s1) (op_txid child) of
                 Some existing \<Rightarrow>
                   (case validate_output existing child of
                      Inl e \<Rightarrow> (s1, Inl e)
                    | Inr _ \<Rightarrow>
                      (case record_edge s1 t (op_txid child) of
                         Inl e \<Rightarrow> (s1, Inl e)
                       | Inr s2 \<Rightarrow> expand L s2))
               | None \<Rightarrow>
                   if nd_depth n \<ge> MAX_PATH_TRANSACTIONS then expand L (s1\<lparr>se_overdepth := True\<rparr>)
                   else
                   (case request s1 child (Some \<lparr>pr_txid = t, pr_input = input\<rparr>) of
                      Inl e \<Rightarrow> (s1, Inl e)
                    | Inr (s2, r) \<Rightarrow>
                      (case record_edge s2 t (op_txid child) of
                         Inl e \<Rightarrow> (s2, Inl e)
                       | Inr s3 \<Rightarrow> (s3, Inr r)))))))"
  by pat_completeness auto
termination
proof (relation "measures [\<lambda>(L, s). length (se_order s) - se_cursor s, \<lambda>(L, s). inputs_left s]",
       goal_cases)
  case (2 L s t n)
  then show ?case by (auto simp: nth_opt_Some)
next
  case (3 L s t n inp input child s1)
  then have "inputs_left (s1\<lparr>se_overdepth := True\<rparr>) < inputs_left s"
    by (intro inputs_left_decreases [of s t n inp]) (auto simp: set_node_def)
  with 3 show ?case by (auto simp: set_node_def)
next
  case (4 L s t n inp input child s1 existing u s2)
  then have "inputs_left s2 < inputs_left s"
    by (intro inputs_left_decreases [of s t n inp]) (auto simp: set_node_def dest: record_edge_frame)
  with 4 show ?case by (auto simp: set_node_def dest!: record_edge_frame)
qed simp

declare expand.simps [simp del]

definition step_inner :: "btc_api \<Rightarrow> search \<Rightarrow> search \<times> (anc_error, search_result) res" where
  "step_inner L s =
     (case se_pending s of
        Some p \<Rightarrow> (s, Inr (Fetch (op_txid (pe_outpoint p)) (pe_max_bytes p)))
      | None \<Rightarrow>
        let s0 = s\<lparr>se_ready := None\<rparr>;
            next = (if se_nodes s0 = [] then
                      (case request s0 (se_selected s0) None of
                         Inl e \<Rightarrow> (s0, Inl e)
                       | Inr (s1, r) \<Rightarrow> (s1, Inr r))
                    else expand L s0)
        in
        (case se_ready s of
           None \<Rightarrow> next
         | Some t \<Rightarrow>
           (case map_of (se_nodes s) t of
              None \<Rightarrow> (s0, Inl Panicked)
            | Some n \<Rightarrow>
              (case validate_output n (nd_outpoint n) of
                 Inl e \<Rightarrow> (s0, Inl e)
               | Inr _ \<Rightarrow>
                 if \<not> nd_pre_fork n \<and> lib_is_coinbase L (nd_tx n) then
                   (s0, bind_res (candidate L s0 t) (\<lambda>c. Inr (Found c)))
                 else if \<not> nd_pre_fork n \<and> tx_input (nd_tx n) = [] then (s0, Inl InvalidInput)
                 else next))))"

definition search_step :: "btc_api \<Rightarrow> search \<Rightarrow> search \<times> (anc_error, search_result) res" where
  "search_step L s =
     (case se_error s of
        Some e \<Rightarrow> (s, Inl e)
      | None \<Rightarrow>
        (case step_inner L s of
           (s', Inl e) \<Rightarrow> (s'\<lparr>se_error := Some e\<rparr>, Inl e)
         | (s', Inr r) \<Rightarrow> (s', Inr r)))"

definition provide_inner :: "btc_api \<Rightarrow> search \<Rightarrow> bytes \<Rightarrow> bool \<Rightarrow> (anc_error, search) res" where
  "provide_inner L s raw pre_fork =
     bind_res (ok_or WrongTransaction (se_pending s)) (\<lambda>expected.
     guard_res (length raw > MAX_TRANSACTION_BYTES \<or> length raw > MAX_PATH_BYTES - se_bytes s) ByteLimit
     (bind_res (ok_or InvalidTransaction (lib_deserialize L raw)) (\<lambda>tx.
     guard_res (lib_txid L tx \<noteq> op_txid (pe_outpoint expected)) WrongTransaction
     (bind_res (case pe_pred expected of
                  None \<Rightarrow> Inr 1
                | Some p \<Rightarrow> bind_res (ok_or Panicked (map_of (se_nodes s) (pr_txid p))) (\<lambda>n. Inr (nd_depth n + 1)))
       (\<lambda>depth.
        let t = op_txid (pe_outpoint expected);
            n = \<lparr>nd_raw = raw, nd_tx = tx, nd_outpoint = pe_outpoint expected, nd_pred = pe_pred expected,
                 nd_depth = depth, nd_pre_fork = pre_fork,
                 nd_next_input = (if pre_fork then length (tx_input tx) else 0)\<rparr>
        in Inr (s\<lparr>se_bytes := se_bytes s + length raw, se_nodes := AList.update t n (se_nodes s),
                  se_order := se_order s @ [t], se_ready := Some t, se_pending := None\<rparr>))))))"

definition provide_with_pruning :: "btc_api \<Rightarrow> search \<Rightarrow> bytes \<Rightarrow> bool \<Rightarrow> search \<times> (anc_error, unit) res" where
  "provide_with_pruning L s raw pre_fork =
     (case se_error s of
        Some e \<Rightarrow> (s, Inl e)
      | None \<Rightarrow>
        (case provide_inner L s raw pre_fork of
           Inl e \<Rightarrow> (s\<lparr>se_error := Some e\<rparr>, Inl e)
         | Inr s' \<Rightarrow> (s', Inr ())))"

definition provide :: "btc_api \<Rightarrow> search \<Rightarrow> bytes \<Rightarrow> search \<times> (anc_error, unit) res" where
  "provide L s raw = provide_with_pruning L s raw False"

section \<open>Cycle detection\<close>

definition edge_rel :: "(txid \<times> txid list) list \<Rightarrow> (txid \<times> txid) set" where
  "edge_rel edges = {(p, c). c \<in> set (children edges p)}"

lemma set_extend_set [simp]: "set (extend_set xs ys) = set xs \<union> set ys"
  by (induction ys arbitrary: xs) (auto simp: extend_set_def set_insort_insert)

text \<open>A walk that leaves the visited nodes passes through the worklist.\<close>

lemma walk_exits:
  assumes "(v, parent) \<in> (edge_rel edges)\<^sup>*" and "v \<in> visited" and "parent \<notin> visited"
    and closed: "\<And>u c. u \<in> visited \<Longrightarrow> c \<in> set (children edges u) \<Longrightarrow> c \<in> visited \<union> set pend"
  shows "\<exists>t \<in> set pend. (t, parent) \<in> (edge_rel edges)\<^sup>*"
  using assms(1-3)
proof (induction rule: converse_rtrancl_induct)
  case (step u c)
  then have "c \<in> visited \<union> set pend" using closed by (auto simp: edge_rel_def)
  with step show ?case by auto
qed simp

lemma meets_iff:
  assumes "parent \<notin> visited"
    and "\<And>u c. u \<in> visited \<Longrightarrow> c \<in> set (children edges u) \<Longrightarrow> c \<in> visited \<union> set pend"
  shows "meets edges parent pend visited \<longleftrightarrow> (\<exists>t \<in> set pend. (t, parent) \<in> (edge_rel edges)\<^sup>*)"
  using assms
proof (induction edges parent pend visited rule: meets.induct)
  case (1 edges parent visited)
  show ?case by simp
next
  case (2 edges parent t rest visited)
  let ?more = "filter (\<lambda>c. c \<notin> insert t visited) (children edges t)"
  consider "t = parent" | "t \<noteq> parent" "t \<in> visited" | "t \<noteq> parent" "t \<notin> visited" by blast
  then show ?case
  proof cases
    case 1
    then show ?thesis by auto
  next
    case 2
    then have closed: "\<And>u c. u \<in> visited \<Longrightarrow> c \<in> set (children edges u) \<Longrightarrow> c \<in> visited \<union> set rest"
      using "2.prems"(2) by auto
    have "meets edges parent (t # rest) visited \<longleftrightarrow> (\<exists>u \<in> set rest. (u, parent) \<in> (edge_rel edges)\<^sup>*)"
      using 2 "2.IH"(1) "2.prems"(1) closed by simp
    then show ?thesis using walk_exits [OF _ 2(2) "2.prems"(1) closed] by auto
  next
    case 3
    have closed: "\<And>u c. u \<in> insert t visited \<Longrightarrow> c \<in> set (children edges u) \<Longrightarrow>
        c \<in> insert t visited \<union> set (extend_set rest ?more)"
      using "2.prems"(2) by auto
    have new: "parent \<notin> insert t visited" using 3(1) "2.prems"(1) by auto
    have "meets edges parent (t # rest) visited \<longleftrightarrow>
        (\<exists>u \<in> set (extend_set rest ?more). (u, parent) \<in> (edge_rel edges)\<^sup>*)"
      using 3 "2.IH"(2) [OF 3 new closed] by simp
    moreover have "(u, parent) \<in> (edge_rel edges)\<^sup>* \<Longrightarrow> (t, parent) \<in> (edge_rel edges)\<^sup>*"
      if "u \<in> set ?more" for u
      using that by (auto simp: edge_rel_def intro: converse_rtrancl_into_rtrancl)
    ultimately show ?thesis
      using walk_exits [OF _ insertI1 new closed] by auto
  qed
qed

lemma meets_start_iff: "meets edges parent [child] {} \<longleftrightarrow> (child, parent) \<in> (edge_rel edges)\<^sup>*"
  using meets_iff [of parent "{}" edges "[child]"] by simp

lemma record_edge_rel:
  assumes "record_edge s p c = Inr s'"
  shows "edge_rel (se_edges s') = insert (p, c) (edge_rel (se_edges s))"
  using assms
  by (auto simp: record_edge_def res_rules edge_rel_def children_def update_conv' set_insort_insert
      split: if_splits option.splits)

lemma record_edge_acyclic:
  assumes "record_edge s p c = Inr s'" and "acyclic (edge_rel (se_edges s))"
  shows "acyclic (edge_rel (se_edges s'))"
proof (cases "(p, c) \<in> edge_rel (se_edges s)")
  case True
  then show ?thesis using assms record_edge_rel [OF assms(1)] by (simp add: insert_absorb)
next
  case False
  then have "c \<notin> set (children (se_edges s) p)" by (simp add: edge_rel_def)
  then have "(c, p) \<notin> (edge_rel (se_edges s))\<^sup>*"
    using assms(1) by (simp add: record_edge_def res_rules meets_start_iff del: meets.simps)
  then show ?thesis using assms(2) by (simp add: record_edge_rel [OF assms(1)] acyclic_insert)
qed

text \<open>The counter is the number of recorded edges.\<close>

definition edges_counted :: "(txid \<times> txid list) list \<Rightarrow> nat \<Rightarrow> bool" where
  "edges_counted edges n \<longleftrightarrow> finite (edge_rel edges) \<and> card (edge_rel edges) = n \<and> n \<le> MAX_GRAPH_EDGES"

lemma edges_counted_none [simp]: "edges_counted [] 0"
  by (simp add: edges_counted_def edge_rel_def children_def)

lemma record_edge_count:
  assumes "record_edge s p c = Inr s'" and "edges_counted (se_edges s) (se_edge_count s)"
  shows "edges_counted (se_edges s') (se_edge_count s')"
proof (cases "(p, c) \<in> edge_rel (se_edges s)")
  case True
  then have "s' = s" using assms(1) by (simp add: record_edge_def edge_rel_def)
  then show ?thesis using assms(2) by simp
next
  case False
  then have "se_edge_count s' = se_edge_count s + 1" "se_edge_count s < MAX_GRAPH_EDGES"
    using assms(1) by (auto simp: record_edge_def res_rules edge_rel_def)
  then show ?thesis using assms(2) False by (simp add: edges_counted_def record_edge_rel [OF assms(1)])
qed

section \<open>The invariant\<close>

definition validated :: "node \<Rightarrow> bool" where
  "validated n \<longleftrightarrow> op_vout (nd_outpoint n) < length (tx_output (nd_tx n))"

text \<open>\<open>pred_ok L nodes p q\<close>: the predecessor \<open>p\<close> is a fetched, expanded node whose named
  input spends \<open>q\<close>.\<close>

definition pred_ok :: "btc_api \<Rightarrow> (txid \<times> node) list \<Rightarrow> predecessor \<Rightarrow> outpoint \<Rightarrow> bool" where
  "pred_ok L nodes p q \<longleftrightarrow>
     (\<exists>m. map_of nodes (pr_txid p) = Some m \<and> validated m \<and> \<not> lib_is_coinbase L (nd_tx m) \<and>
        pr_input p < length (tx_input (nd_tx m)) \<and> ti_prev (tx_input (nd_tx m) ! pr_input p) = q) \<and>
     \<not> lib_is_null L q"

definition node_ok :: "btc_api \<Rightarrow> outpoint \<Rightarrow> (txid \<times> node) list \<Rightarrow> txid \<Rightarrow> node \<Rightarrow> bool" where
  "node_ok L selected nodes t n \<longleftrightarrow>
     lib_deserialize L (nd_raw n) = Some (nd_tx n) \<and> lib_txid L (nd_tx n) = t \<and>
     op_txid (nd_outpoint n) = t \<and> length (nd_raw n) \<le> MAX_TRANSACTION_BYTES \<and>
     nd_next_input n \<le> length (tx_input (nd_tx n)) \<and> nd_depth n \<le> MAX_PATH_TRANSACTIONS \<and>
     (case nd_pred n of
        None \<Rightarrow> nd_outpoint n = selected \<and> nd_depth n = 1
      | Some p \<Rightarrow> pred_ok L nodes p (nd_outpoint n) \<and>
          (\<exists>m. map_of nodes (pr_txid p) = Some m \<and> nd_depth n = nd_depth m + 1))"

definition nodes_ok :: "btc_api \<Rightarrow> outpoint \<Rightarrow> (txid \<times> node) list \<Rightarrow> bool" where
  "nodes_ok L selected nodes \<longleftrightarrow> (\<forall>t n. map_of nodes t = Some n \<longrightarrow> node_ok L selected nodes t n)"

definition pending_ok :: "btc_api \<Rightarrow> search \<Rightarrow> pending \<Rightarrow> bool" where
  "pending_ok L s p \<longleftrightarrow>
     op_txid (pe_outpoint p) \<notin> set (map fst (se_nodes s)) \<and>
     length (se_nodes s) < MAX_GRAPH_TRANSACTIONS \<and>
     0 < pe_max_bytes p \<and> pe_max_bytes p = min (MAX_PATH_BYTES - se_bytes s) MAX_TRANSACTION_BYTES \<and>
     (case pe_pred p of
        None \<Rightarrow> pe_outpoint p = se_selected s
      | Some q \<Rightarrow> pred_ok L (se_nodes s) q (pe_outpoint p) \<and>
          (\<exists>m. map_of (se_nodes s) (pr_txid q) = Some m \<and> nd_depth m < MAX_PATH_TRANSACTIONS))"

text \<open>The resource bounds hold in every state, also after an error.\<close>

definition raw_sum :: "(txid \<times> node) list \<Rightarrow> nat" where
  "raw_sum nodes = (\<Sum>e \<leftarrow> nodes. length (nd_raw (snd e)))"

definition bounds_inv :: "search \<Rightarrow> bool" where
  "bounds_inv s \<longleftrightarrow>
     se_order s = map fst (se_nodes s) \<and> distinct (map fst (se_nodes s)) \<and>
     length (se_nodes s) \<le> MAX_GRAPH_TRANSACTIONS \<and>
     se_bytes s = raw_sum (se_nodes s) \<and> se_bytes s \<le> MAX_PATH_BYTES \<and>
     acyclic (edge_rel (se_edges s)) \<and> edges_counted (se_edges s) (se_edge_count s)"

definition graph_inv :: "btc_api \<Rightarrow> search \<Rightarrow> bool" where
  "graph_inv L s \<longleftrightarrow>
     \<not> lib_is_null L (se_selected s) \<and> nodes_ok L (se_selected s) (se_nodes s) \<and>
     (\<forall>t n. map_of (se_nodes s) t = Some n \<longrightarrow> se_ready s \<noteq> Some t \<longrightarrow> validated n) \<and>
     (\<forall>p. se_pending s = Some p \<longrightarrow> se_ready s = None \<and> pending_ok L s p) \<and>
     (\<forall>t. se_ready s = Some t \<longrightarrow> t \<in> set (map fst (se_nodes s)))"

definition search_inv :: "btc_api \<Rightarrow> search \<Rightarrow> bool" where
  "search_inv L s \<longleftrightarrow> bounds_inv s \<and> (se_error s = None \<longrightarrow> graph_inv L s) \<and>
     se_error s \<noteq> Some Panicked \<and> se_error s \<noteq> Some IncompletePath"

section \<open>Candidates can always be reconstructed\<close>

lemma nodes_okD: "nodes_ok L sel nodes \<Longrightarrow> map_of nodes t = Some n \<Longrightarrow> node_ok L sel nodes t n"
  by (simp add: nodes_ok_def)

text \<open>Walking back from a node prepends the links of its ancestors, whose depths are
  smaller, and ends at the selection.\<close>

lemma collect_links_path:
  assumes ok: "nodes_ok L sel nodes"
  shows "\<lbrakk>map_of nodes t = Some n; nd_depth n \<le> room;
          dep_path L (nd_outpoint n) (\<lparr>lk_transaction = nd_raw n, lk_parent_input = pin\<rparr> # ls) txs r cb\<rbrakk>
    \<Longrightarrow> \<exists>pre ks ptxs.
      collect_links nodes room t pin ls =
        Inr (pre @ \<lparr>lk_transaction = nd_raw n, lk_parent_input = pin\<rparr> # ls) \<and>
      dep_path L sel (pre @ \<lparr>lk_transaction = nd_raw n, lk_parent_input = pin\<rparr> # ls) (ptxs @ txs) r cb \<and>
      map lk_transaction pre = map (\<lambda>k. nd_raw (the (map_of nodes k))) ks \<and>
      map (lib_txid L) ptxs = ks \<and> distinct ks \<and> Suc (length ks) = nd_depth n \<and>
      (\<forall>k \<in> set ks. \<exists>m. map_of nodes k = Some m \<and> nd_depth m < nd_depth n)"
proof (induction room arbitrary: t n pin ls txs)
  case 0
  then have "nd_depth n \<ge> 1" using nodes_okD [OF ok 0(1)]
    by (auto simp: node_ok_def split: option.splits)
  with 0 show ?case by simp
next
  case (Suc room)
  let ?l = "\<lparr>lk_transaction = nd_raw n, lk_parent_input = pin\<rparr>"
  have n: "node_ok L sel nodes t n" by (rule nodes_okD [OF ok Suc.prems(1)])
  show ?case
  proof (cases "nd_pred n")
    case None
    with n have "nd_outpoint n = sel" "nd_depth n = 1" by (auto simp: node_ok_def)
    with None Suc.prems show ?thesis
      by (intro exI [of _ "[]"]) (simp add: Let_def)
  next
    case (Some p)
    with n obtain m where m: "map_of nodes (pr_txid p) = Some m" "validated m"
      "\<not> lib_is_coinbase L (nd_tx m)" "pr_input p < length (tx_input (nd_tx m))"
      "ti_prev (tx_input (nd_tx m) ! pr_input p) = nd_outpoint n" "\<not> lib_is_null L (nd_outpoint n)"
      and depth: "nd_depth n = nd_depth m + 1"
      by (auto simp: node_ok_def pred_ok_def)
    let ?m = "\<lparr>lk_transaction = nd_raw m, lk_parent_input = Some (pr_input p)\<rparr>"
    have mok: "node_ok L sel nodes (pr_txid p) m" by (rule nodes_okD [OF ok m(1)])
    have path: "dep_path L (nd_outpoint m) (?m # ?l # ls) (nd_tx m # txs) r cb"
      using mok m Suc.prems(3)
      by (intro dep_path.spend [where q = "nd_outpoint n"]) (auto simp: node_ok_def validated_def)
    have "nd_depth m \<le> room" using depth Suc.prems(2) by simp
    from Suc.IH [OF m(1) this path] obtain pre ks ptxs where IH:
      "collect_links nodes room (pr_txid p) (Some (pr_input p)) (?l # ls) = Inr (pre @ ?m # ?l # ls)"
      "dep_path L sel (pre @ ?m # ?l # ls) (ptxs @ nd_tx m # txs) r cb"
      "map lk_transaction pre = map (\<lambda>k. nd_raw (the (map_of nodes k))) ks"
      "map (lib_txid L) ptxs = ks" "distinct ks" "Suc (length ks) = nd_depth m"
      "\<forall>k \<in> set ks. \<exists>m'. map_of nodes k = Some m' \<and> nd_depth m' < nd_depth m" by blast
    have "pr_txid p \<notin> set ks" using IH(7) m(1) by auto
    moreover have "lib_txid L (nd_tx m) = pr_txid p" using mok by (simp add: node_ok_def)
    ultimately show ?thesis
      using IH Some Suc.prems(1) m(1) depth
      by (intro exI [of _ "pre @ [?m]"] exI [of _ "ks @ [pr_txid p]"] exI [of _ "ptxs @ [nd_tx m]"])
        (auto simp: Let_def)
  qed
qed

lemma raw_sum_subset:
  assumes "distinct (map fst nodes)" and "distinct ks" and "set ks \<subseteq> set (map fst nodes)"
  shows "(\<Sum>k \<leftarrow> ks. length (nd_raw (the (map_of nodes k)))) \<le> raw_sum nodes"
proof -
  let ?f = "\<lambda>k. length (nd_raw (the (map_of nodes k)))"
  have "raw_sum nodes = (\<Sum>k \<leftarrow> map fst nodes. ?f k)"
    unfolding raw_sum_def using assms(1) by (auto intro!: arg_cong [of _ _ sum_list])
  also have "\<dots> = sum ?f (set (map fst nodes))"
    using assms(1) by (rule sum_list_distinct_conv_sum_set)
  finally have all: "raw_sum nodes = sum ?f (set (map fst nodes))" .
  have "(\<Sum>k \<leftarrow> ks. ?f k) = sum ?f (set ks)"
    using assms(2) by (rule sum_list_distinct_conv_sum_set)
  also have "\<dots> \<le> sum ?f (set (map fst nodes))"
    using assms(3) by (intro sum_mono2) auto
  finally show ?thesis unfolding all .
qed

lemma candidate_complete:
  assumes bounds: "bounds_inv s" and sel: "\<not> lib_is_null L (se_selected s)"
    and ok: "nodes_ok L (se_selected s) (se_nodes s)"
    and n: "map_of (se_nodes s) t = Some n" and val: "validated n" and cb: "lib_is_coinbase L (nd_tx n)"
  shows "\<exists>c. candidate L s t = Inr c \<and>
    cd_root (ca_dependency c) = nd_outpoint n \<and> cd_coinbase (ca_dependency c) = nd_tx n \<and>
    verify L (se_selected s) (ca_links c) = Inr (ca_dependency c) \<and> length (ca_links c) = nd_depth n"
proof -
  let ?nodes = "se_nodes s" and ?l = "\<lparr>lk_transaction = nd_raw n, lk_parent_input = None\<rparr>"
  have nok: "node_ok L (se_selected s) ?nodes t n" by (rule nodes_okD [OF ok n])
  have start: "dep_path L (nd_outpoint n) [?l] [nd_tx n] (nd_outpoint n) (nd_tx n)"
    using nok val cb by (intro dep_path.coinbase) (auto simp: node_ok_def validated_def)
  have room: "nd_depth n \<le> MAX_PATH_TRANSACTIONS" using nok by (simp add: node_ok_def)
  from collect_links_path [OF ok n room start] obtain pre ks ptxs where
    links: "collect_links ?nodes MAX_PATH_TRANSACTIONS t None [] = Inr (pre @ [?l])"
    and path: "dep_path L (se_selected s) (pre @ [?l]) (ptxs @ [nd_tx n]) (nd_outpoint n) (nd_tx n)"
    and raws: "map lk_transaction pre = map (\<lambda>k. nd_raw (the (map_of ?nodes k))) ks"
    and ks: "map (lib_txid L) ptxs = ks" "distinct ks" "Suc (length ks) = nd_depth n"
      "\<forall>k \<in> set ks. \<exists>m. map_of ?nodes k = Some m \<and> nd_depth m < nd_depth n" by blast
  have fresh: "t \<notin> set ks" using ks(4) n by auto
  have keys: "set (ks @ [t]) \<subseteq> set (map fst ?nodes)"
    using ks(4) n by (auto simp: dom_map_of_conv_image_fst [symmetric] domI)
  have lens: "map lk_transaction (pre @ [?l]) = map (\<lambda>k. nd_raw (the (map_of ?nodes k))) (ks @ [t])"
    using raws n by simp
  have "(\<Sum>l \<leftarrow> pre @ [?l]. length (lk_transaction l)) = (\<Sum>k \<leftarrow> ks @ [t]. length (nd_raw (the (map_of ?nodes k))))"
    using arg_cong [OF lens, of "\<lambda>rs. sum_list (map length rs)"] by (simp only: map_map comp_def)
  also have "\<dots> \<le> raw_sum ?nodes"
    using bounds ks(2) fresh keys by (intro raw_sum_subset) (auto simp: bounds_inv_def)
  finally have total: "(\<Sum>l \<leftarrow> pre @ [?l]. length (lk_transaction l)) \<le> MAX_PATH_BYTES"
    using bounds by (simp add: bounds_inv_def)
  have "\<forall>r \<in> set (map lk_transaction (pre @ [?l])). length r \<le> MAX_TRANSACTION_BYTES"
    unfolding lens using keys nodes_okD [OF ok] ks(4) n by (fastforce simp: node_ok_def)
  then have each: "\<forall>l \<in> set (pre @ [?l]). length (lk_transaction l) \<le> MAX_TRANSACTION_BYTES" by auto
  have len: "length (pre @ [?l]) = nd_depth n" using arg_cong [OF lens, of length] ks(3) by simp
  have "distinct (map (lib_txid L) (ptxs @ [nd_tx n]))"
    using ks fresh nok by (simp add: node_ok_def)
  then have "verify L (se_selected s) (pre @ [?l]) =
      Inr \<lparr>cd_selected = se_selected s, cd_root = nd_outpoint n, cd_coinbase = nd_tx n,
           cd_txids = map (lib_txid L) (ptxs @ [nd_tx n])\<rparr>"
    using sel path total each len room by (subst verify_iff) auto
  with links len show ?thesis by (simp add: candidate_def)
qed

section \<open>Preservation\<close>

lemma map_of_update: "map_of (AList.update k v al) = (map_of al)(k \<mapsto> v)"
  by (simp add: update_conv')

lemma keys_update_old: "map_of al k = Some w \<Longrightarrow> map fst (AList.update k v al) = map fst al"
  by (induction al) auto

lemma keys_update_new: "k \<notin> set (map fst al) \<Longrightarrow> AList.update k v al = al @ [(k, v)]"
  by (induction al) auto

lemma length_update_old: "map_of al k = Some w \<Longrightarrow> length (AList.update k v al) = length al"
  using keys_update_old [of al k w v] by (metis length_map)

lemma raw_sum_update_old:
  "map_of nodes t = Some n \<Longrightarrow> nd_raw n' = nd_raw n \<Longrightarrow> raw_sum (AList.update t n' nodes) = raw_sum nodes"
  by (induction nodes) (auto simp: raw_sum_def)

text \<open>Advancing a node's input cursor changes nothing the invariant looks at.\<close>

lemma pred_ok_cursor:
  assumes "map_of nodes t = Some n"
  shows "pred_ok L (AList.update t (n\<lparr>nd_next_input := i\<rparr>) nodes) p q = pred_ok L nodes p q"
  using assms by (auto simp: pred_ok_def map_of_update validated_def)

lemma nodes_ok_cursor:
  assumes "nodes_ok L sel nodes" and "map_of nodes t = Some n" and "i \<le> length (tx_input (nd_tx n))"
  shows "nodes_ok L sel (AList.update t (n\<lparr>nd_next_input := i\<rparr>) nodes)"
  unfolding nodes_ok_def
proof (intro allI impI)
  fix u m assume m: "map_of (AList.update t (n\<lparr>nd_next_input := i\<rparr>) nodes) u = Some m"
  then obtain m0 where m0: "map_of nodes u = Some m0" and eq: "m = m0 \<or> (u = t \<and> m0 = n \<and> m = n\<lparr>nd_next_input := i\<rparr>)"
    using assms(2) by (auto simp: map_of_update split: if_splits)
  have "node_ok L sel nodes u m0" by (rule nodes_okD [OF assms(1) m0])
  with eq assms(3) show "node_ok L sel (AList.update t (n\<lparr>nd_next_input := i\<rparr>) nodes) u m"
    using assms(2)
    by (auto simp: node_ok_def pred_ok_cursor map_of_update split: option.splits; fastforce)
qed

lemma bounds_inv_set_node:
  assumes "bounds_inv s" and "map_of (se_nodes s) t = Some n"
  shows "bounds_inv (set_node t (n\<lparr>nd_next_input := i\<rparr>) s)"
  using assms by (simp add: bounds_inv_def set_node_def keys_update_old length_update_old
      raw_sum_update_old [of _ t n])

lemma bounds_inv_record_edge:
  assumes "bounds_inv s" and "record_edge s p c = Inr s'"
  shows "bounds_inv s'"
  using assms record_edge_frame [OF assms(2)] record_edge_acyclic [OF assms(2)]
    record_edge_count [OF assms(2)]
  by (simp add: bounds_inv_def)

lemma bounds_inv_request:
  assumes "bounds_inv s" and "request s p pr = Inr (s', r)"
  shows "bounds_inv s'"
  using assms by (auto simp: request_def bounds_inv_def Let_def res_rules)

lemmas bounds_inv_intros = bounds_inv_set_node bounds_inv_record_edge bounds_inv_request

lemma plain_errors:
  "record_edge s p c = Inl e \<Longrightarrow> e \<noteq> Panicked \<and> e \<noteq> IncompletePath"
  "request s q pr = Inl e \<Longrightarrow> e \<noteq> Panicked \<and> e \<noteq> IncompletePath"
  "validate_output n q = Inl e \<Longrightarrow> e \<noteq> Panicked \<and> e \<noteq> IncompletePath"
  by (auto simp: record_edge_def request_def validate_output_def guard_res_Inl bind_res_Inl ok_or_def
      Let_def split: if_splits option.splits)

lemma expand_child:
  assumes "nth_opt (se_order s) (se_cursor s) = Some t" and "map_of (se_nodes s) t = Some n"
    and "\<not> (lib_is_coinbase L (nd_tx n) \<or> nd_next_input n = length (tx_input (nd_tx n)))"
    and "nth_opt (tx_input (nd_tx n)) (nd_next_input n) = Some inp"
    and "s1 = set_node t (n\<lparr>nd_next_input := nd_next_input n + 1\<rparr>) s"
  shows "expand L s =
    (if lib_is_null L (ti_prev inp) then (s1, Inl InvalidInput)
     else case map_of (se_nodes s1) (op_txid (ti_prev inp)) of
       Some existing \<Rightarrow>
         (case validate_output existing (ti_prev inp) of
            Inl e \<Rightarrow> (s1, Inl e)
          | Inr _ \<Rightarrow>
            (case record_edge s1 t (op_txid (ti_prev inp)) of
               Inl e \<Rightarrow> (s1, Inl e)
             | Inr s2 \<Rightarrow> expand L s2))
     | None \<Rightarrow>
         if nd_depth n \<ge> MAX_PATH_TRANSACTIONS then expand L (s1\<lparr>se_overdepth := True\<rparr>)
         else
         (case request s1 (ti_prev inp) (Some \<lparr>pr_txid = t, pr_input = nd_next_input n\<rparr>) of
            Inl e \<Rightarrow> (s1, Inl e)
          | Inr (s2, r) \<Rightarrow>
            (case record_edge s2 t (op_txid (ti_prev inp)) of
               Inl e \<Rightarrow> (s2, Inl e)
             | Inr s3 \<Rightarrow> (s3, Inr r))))"
  unfolding assms(5) by (subst expand.simps) (simp only: assms(1-4) option.case Let_def if_False)

text \<open>
  An invariant rule for the expansion loop: \<open>P\<close> is kept by each way the loop goes on, and
  \<open>Q\<close> follows at each way it ends.
\<close>

lemma expand_rule:
  assumes "P s"
    and cursor: "\<And>s. P s \<Longrightarrow> P (s\<lparr>se_cursor := se_cursor s + 1\<rparr>)"
    and node: "\<And>s t n inp. \<lbrakk>P s; map_of (se_nodes s) t = Some n;
        nth_opt (tx_input (nd_tx n)) (nd_next_input n) = Some inp\<rbrakk>
        \<Longrightarrow> P (set_node t (n\<lparr>nd_next_input := nd_next_input n + 1\<rparr>) s)"
    and edge: "\<And>s p c s'. P s \<Longrightarrow> record_edge s p c = Inr s' \<Longrightarrow> P s'"
    and deep: "\<And>s. P s \<Longrightarrow> P (s\<lparr>se_overdepth := True\<rparr>)"
    and complete: "\<And>s. P s \<Longrightarrow> Q s (Inr Complete)"
    and refuse: "\<And>s e. P s \<Longrightarrow> e \<noteq> Panicked \<Longrightarrow> e \<noteq> IncompletePath \<Longrightarrow> Q s (Inl e)"
    and missing: "\<And>s t. \<lbrakk>P s; nth_opt (se_order s) (se_cursor s) = Some t; map_of (se_nodes s) t = None\<rbrakk>
        \<Longrightarrow> Q s (Inl IncompletePath)"
    and range: "\<And>s t n. \<lbrakk>P s; map_of (se_nodes s) t = Some n; nd_next_input n \<noteq> length (tx_input (nd_tx n));
        nth_opt (tx_input (nd_tx n)) (nd_next_input n) = None\<rbrakk> \<Longrightarrow> Q s (Inl Panicked)"
    and fetch: "\<And>s t n inp s2 r. \<lbrakk>P s; map_of (se_nodes s) t = Some n; \<not> lib_is_coinbase L (nd_tx n);
        nth_opt (tx_input (nd_tx n)) (nd_next_input n) = Some inp; \<not> lib_is_null L (ti_prev inp);
        map_of (se_nodes s) (op_txid (ti_prev inp)) = None; nd_depth n < MAX_PATH_TRANSACTIONS;
        request (set_node t (n\<lparr>nd_next_input := nd_next_input n + 1\<rparr>) s) (ti_prev inp)
          (Some \<lparr>pr_txid = t, pr_input = nd_next_input n\<rparr>) = Inr (s2, r)\<rbrakk>
        \<Longrightarrow> (\<forall>e. record_edge s2 t (op_txid (ti_prev inp)) = Inl e \<longrightarrow> Q s2 (Inl e)) \<and>
            (\<forall>s3. record_edge s2 t (op_txid (ti_prev inp)) = Inr s3 \<longrightarrow> Q s3 (Inr r))"
  shows "Q (fst (expand L s)) (snd (expand L s))"
proof -
  have "L' = L \<Longrightarrow> P s \<Longrightarrow> Q (fst (expand L' s)) (snd (expand L' s))" for L'
  proof (induction L' s rule: expand.induct)
    case (1 L' s)
    note [simp] = \<open>L' = L\<close> and Ps = "1.prems"(2)
    show ?case
    proof (cases "nth_opt (se_order s) (se_cursor s)")
      case None
      then show ?thesis
        by (subst (1 2) expand.simps) (auto intro: complete refuse Ps)
    next
      case t: (Some t)
      show ?thesis
      proof (cases "map_of (se_nodes s) t")
        case None
        with t show ?thesis
          by (subst (1 2) expand.simps) (auto intro: missing Ps)
      next
        case n: (Some n)
        show ?thesis
        proof (cases "lib_is_coinbase L (nd_tx n) \<or> nd_next_input n = length (tx_input (nd_tx n))")
          case True
          have "Q (fst (expand L (s\<lparr>se_cursor := se_cursor s + 1\<rparr>))) (snd (expand L (s\<lparr>se_cursor := se_cursor s + 1\<rparr>)))"
            using "1.IH"(1) [OF t n _ _ cursor [OF Ps]] True by simp
          with t n True show ?thesis
            by (subst (1 2) expand.simps) simp
        next
          case no: False
          show ?thesis
          proof (cases "nth_opt (tx_input (nd_tx n)) (nd_next_input n)")
            case None
            with t n no show ?thesis
              by (subst (1 2) expand.simps) (auto intro: range Ps)
          next
            case inp: (Some inp)
            define s1 where "s1 = set_node t (n\<lparr>nd_next_input := nd_next_input n + 1\<rparr>) s"
            have P1: "P s1" unfolding s1_def by (rule node [OF Ps n inp])
            note unfold = expand_child [OF t n no inp s1_def]
            note IH = "1.IH"(2,3) [OF t n _ inp refl refl s1_def, simplified, OF no [simplified]]
            have refused: "e \<noteq> Panicked \<and> e \<noteq> IncompletePath \<Longrightarrow> Q s1 (Inl e)" for e
              using refuse [OF P1] by blast
            consider (null) "lib_is_null L (ti_prev inp)"
              | (old) m where "\<not> lib_is_null L (ti_prev inp)" "map_of (se_nodes s1) (op_txid (ti_prev inp)) = Some m"
              | (far) "\<not> lib_is_null L (ti_prev inp)" "map_of (se_nodes s1) (op_txid (ti_prev inp)) = None"
                  "nd_depth n \<ge> MAX_PATH_TRANSACTIONS"
              | (new) "\<not> lib_is_null L (ti_prev inp)" "map_of (se_nodes s1) (op_txid (ti_prev inp)) = None"
                  "nd_depth n < MAX_PATH_TRANSACTIONS"
              by (cases "map_of (se_nodes s1) (op_txid (ti_prev inp))") (auto, linarith)
            then show ?thesis
            proof cases
              case null
              then show ?thesis by (simp add: unfold refused)
            next
              case (old m)
              then show ?thesis
                using plain_errors(1) [of s1] plain_errors(3) [of m] IH(2) [OF old] edge [OF P1]
                by (simp add: unfold refused split: sum.split)
            next
              case far
              then show ?thesis using IH(1) [OF far deep [OF P1]] by (simp add: unfold)
            next
              case new
              moreover from new(2) n have "map_of (se_nodes s) (op_txid (ti_prev inp)) = None"
                by (auto simp: s1_def set_node_def map_of_update split: if_splits)
              ultimately show ?thesis
                using fetch [OF Ps n _ inp, folded s1_def] no plain_errors(2) [of s1]
                by (simp add: unfold refused split: sum.split prod.split)
            qed
          qed
        qed
      qed
    qed
  qed
  then show ?thesis using \<open>P s\<close> by blast
qed

text \<open>The states in which the loop runs: nothing requested, nothing awaiting inspection.\<close>

definition idle :: "btc_api \<Rightarrow> outpoint \<Rightarrow> nat \<Rightarrow> search \<Rightarrow> bool" where
  "idle L sel k s \<longleftrightarrow> bounds_inv s \<and> graph_inv L s \<and> se_ready s = None \<and> se_pending s = None \<and>
     se_error s = None \<and> length (se_nodes s) = k \<and> se_selected s = sel"

text \<open>What a successful or refused turn of the search leaves behind.\<close>

definition turn_ok :: "btc_api \<Rightarrow> outpoint \<Rightarrow> nat \<Rightarrow> search \<Rightarrow> (anc_error, search_result) res \<Rightarrow> bool" where
  "turn_ok L sel k s r \<longleftrightarrow>
     bounds_inv s \<and> se_error s = None \<and> se_selected s = sel \<and> se_ready s = None \<and>
     length (se_nodes s) = k \<and> r \<noteq> Inl Panicked \<and> r \<noteq> Inl IncompletePath \<and>
     (\<forall>x. r = Inr x \<longrightarrow> graph_inv L s \<and> (\<forall>c. x \<noteq> Found c)) \<and>
     (\<forall>t b. r = Inr (Fetch t b) \<longrightarrow>
        (\<exists>p. se_pending s = Some p \<and> op_txid (pe_outpoint p) = t \<and> pe_max_bytes p = b))"

lemma idle_set_node:
  assumes "idle L sel k s" and "map_of (se_nodes s) t = Some n"
    and "nth_opt (tx_input (nd_tx n)) (nd_next_input n) = Some inp"
  shows "idle L sel k (set_node t (n\<lparr>nd_next_input := nd_next_input n + 1\<rparr>) s)"
proof -
  have room: "nd_next_input n + 1 \<le> length (tx_input (nd_tx n))"
    using assms(3) by (auto simp: nth_opt_Some)
  show ?thesis
    using assms(1,2) bounds_inv_set_node [OF _ assms(2)] nodes_ok_cursor [OF _ assms(2) room]
    by (auto simp: idle_def graph_inv_def set_node_def length_update_old map_of_update validated_def)
qed

lemma idle_record_edge:
  assumes "idle L sel k s" and "record_edge s p c = Inr s'"
  shows "idle L sel k s'"
  using assms(1) record_edge_frame [OF assms(2)] bounds_inv_record_edge [OF _ assms(2)]
  by (auto simp: idle_def graph_inv_def)

lemma idle_request:
  assumes idle: "idle L sel k s" and req: "request s q pr = Inr (s', r)"
    and new: "map_of (se_nodes s) (op_txid q) = None"
    and src: "case pr of None \<Rightarrow> q = se_selected s
       | Some p \<Rightarrow> pred_ok L (se_nodes s) p q \<and>
          (\<exists>m. map_of (se_nodes s) (pr_txid p) = Some m \<and> nd_depth m < MAX_PATH_TRANSACTIONS)"
  shows "turn_ok L sel k s' (Inr r)"
proof -
  have "pending_ok L s' \<lparr>pe_outpoint = q, pe_pred = pr,
      pe_max_bytes = min (MAX_PATH_BYTES - se_bytes s) MAX_TRANSACTION_BYTES\<rparr>"
    using req new src by (cases pr) (auto simp: request_def Let_def res_rules pending_ok_def map_of_eq_None_iff)
  with idle req show ?thesis
    by (auto simp: turn_ok_def idle_def graph_inv_def bounds_inv_def request_def Let_def res_rules)
qed

lemma pending_ok_cong:
  "\<lbrakk>se_nodes s' = se_nodes s; se_bytes s' = se_bytes s; se_selected s' = se_selected s\<rbrakk>
   \<Longrightarrow> pending_ok L s' p = pending_ok L s p"
  by (simp add: pending_ok_def split: option.split)

lemma turn_ok_record_edge:
  assumes "turn_ok L sel k s (Inr r)" and "record_edge s p c = Inr s'"
  shows "turn_ok L sel k s' (Inr r)"
  using assms(1) record_edge_frame [OF assms(2)] bounds_inv_record_edge [OF _ assms(2)]
    pending_ok_cong [of s' s L]
  by (auto simp: turn_ok_def graph_inv_def)

lemma turn_ok_refuse:
  "turn_ok L sel k s (Inr r) \<Longrightarrow> e \<noteq> Panicked \<Longrightarrow> e \<noteq> IncompletePath \<Longrightarrow> turn_ok L sel k s (Inl e)"
  by (auto simp: turn_ok_def)

lemma expand_turn:
  assumes "idle L sel k s"
  shows "turn_ok L sel k (fst (expand L s)) (snd (expand L s))"
proof (rule expand_rule [where P = "idle L sel k"])
  show "idle L sel k s" by (rule assms)
  show "idle L sel k (s\<lparr>se_cursor := se_cursor s + 1\<rparr>)" if "idle L sel k s" for s
    using that by (auto simp: idle_def bounds_inv_def graph_inv_def pending_ok_def)
  show "idle L sel k (s\<lparr>se_overdepth := True\<rparr>)" if "idle L sel k s" for s
    using that by (auto simp: idle_def bounds_inv_def graph_inv_def pending_ok_def)
  show "turn_ok L sel k s (Inr Complete)" if "idle L sel k s" for s
    using that by (simp add: idle_def turn_ok_def)
  show "turn_ok L sel k s (Inl e)" if "idle L sel k s" "e \<noteq> Panicked" "e \<noteq> IncompletePath" for s e
    using that by (simp add: idle_def turn_ok_def)
next
  fix s t assume "idle L sel k s" "nth_opt (se_order s) (se_cursor s) = Some t" "map_of (se_nodes s) t = None"
  then have False
    by (auto simp: idle_def bounds_inv_def nth_opt_Some map_of_eq_None_iff)
  then show "turn_ok L sel k s (Inl IncompletePath)" ..
next
  fix s t n assume idle: "idle L sel k s" and n: "map_of (se_nodes s) t = Some n"
    "nd_next_input n \<noteq> length (tx_input (nd_tx n))" "nth_opt (tx_input (nd_tx n)) (nd_next_input n) = None"
  have "node_ok L sel (se_nodes s) t n"
    using idle n(1) by (auto simp: idle_def graph_inv_def intro: nodes_okD)
  with n have False by (auto simp: node_ok_def nth_opt_None)
  then show "turn_ok L sel k s (Inl Panicked)" ..
next
  fix s t n inp s2 r
  let ?s1 = "set_node t (n\<lparr>nd_next_input := nd_next_input n + 1\<rparr>) s"
  assume idle: "idle L sel k s" and n: "map_of (se_nodes s) t = Some n" "\<not> lib_is_coinbase L (nd_tx n)"
    and inp: "nth_opt (tx_input (nd_tx n)) (nd_next_input n) = Some inp" "\<not> lib_is_null L (ti_prev inp)"
    and new: "map_of (se_nodes s) (op_txid (ti_prev inp)) = None" and depth: "nd_depth n < MAX_PATH_TRANSACTIONS"
    and req: "request ?s1 (ti_prev inp) (Some \<lparr>pr_txid = t, pr_input = nd_next_input n\<rparr>) = Inr (s2, r)"
  have "validated n" using idle n(1) by (auto simp: idle_def graph_inv_def)
  then have "turn_ok L sel k s2 (Inr r)"
    using n inp new depth
    by (intro idle_request [OF idle_set_node [OF idle n(1) inp(1)] req])
      (auto simp: set_node_def map_of_update pred_ok_def validated_def nth_opt_Some)
  then show "(\<forall>e. record_edge s2 t (op_txid (ti_prev inp)) = Inl e \<longrightarrow> turn_ok L sel k s2 (Inl e)) \<and>
    (\<forall>s3. record_edge s2 t (op_txid (ti_prev inp)) = Inr s3 \<longrightarrow> turn_ok L sel k s3 (Inr r))"
    using plain_errors(1) turn_ok_record_edge turn_ok_refuse by blast
qed (blast intro: idle_set_node idle_record_edge)+

definition next_turn :: "btc_api \<Rightarrow> search \<Rightarrow> search \<times> (anc_error, search_result) res" where
  "next_turn L s =
     (if se_nodes s = [] then
        (case request s (se_selected s) None of Inl e \<Rightarrow> (s, Inl e) | Inr (s1, r) \<Rightarrow> (s1, Inr r))
      else expand L s)"

lemma next_turn_ok:
  assumes "idle L sel k s"
  shows "turn_ok L sel k (fst (next_turn L s)) (snd (next_turn L s))"
proof (cases "se_nodes s = []")
  case True
  have "turn_ok L sel k s (Inl e)" if "request s (se_selected s) None = Inl e" for e
    using plain_errors(2) [OF that] assms by (simp add: turn_ok_def idle_def)
  moreover have "turn_ok L sel k s1 (Inr r)" if "request s (se_selected s) None = Inr (s1, r)" for s1 r
    using idle_request [OF assms that] True by simp
  ultimately show ?thesis using True by (simp add: next_turn_def split: sum.split prod.split)
next
  case False
  then show ?thesis using expand_turn [OF assms] by (simp add: next_turn_def)
qed

lemma idle_clear_ready:
  assumes "bounds_inv s" and "graph_inv L s" and "se_error s = None" and "se_pending s = None"
    and "\<And>t n. se_ready s = Some t \<Longrightarrow> map_of (se_nodes s) t = Some n \<Longrightarrow> validated n"
  shows "idle L (se_selected s) (length (se_nodes s)) (s\<lparr>se_ready := None\<rparr>)"
  using assms by (auto simp: idle_def bounds_inv_def graph_inv_def)

lemma validate_output_self: "validate_output n (nd_outpoint n) = (if validated n then Inr () else Inl InvalidOutput)"
  by (simp add: validate_output_def validated_def nth_opt_def)

text \<open>
  One call of \<open>step\<close> from a state that satisfies the invariant: a request, a refusal or
  completion; or, when the transaction just fetched is a coinbase that pays the outpoint asked
  for, the candidate that ends in it, which is always found.
\<close>

lemma step_inner_cases:
  assumes bounds: "bounds_inv s" and graph: "graph_inv L s" and noerr: "se_error s = None"
  obtains "turn_ok L (se_selected s) (length (se_nodes s)) (fst (step_inner L s)) (snd (step_inner L s))"
      "\<And>t n. se_ready s = Some t \<Longrightarrow> map_of (se_nodes s) t = Some n \<Longrightarrow>
         nd_pre_fork n \<or> \<not> validated n \<or> \<not> lib_is_coinbase L (nd_tx n)"
    | t n c where "se_ready s = Some t" "map_of (se_nodes s) t = Some n" "\<not> nd_pre_fork n" "validated n"
      "lib_is_coinbase L (nd_tx n)" "step_inner L s = (s\<lparr>se_ready := None\<rparr>, Inr (Found c))"
      "cd_root (ca_dependency c) = nd_outpoint n" "cd_coinbase (ca_dependency c) = nd_tx n"
      "verify L (se_selected s) (ca_links c) = Inr (ca_dependency c)"
      "idle L (se_selected s) (length (se_nodes s)) (s\<lparr>se_ready := None\<rparr>)"
proof -
  let ?s0 = "s\<lparr>se_ready := None\<rparr>" and ?k = "length (se_nodes s)" and ?sel = "se_selected s"
  show thesis
  proof (cases "se_pending s")
    case (Some p)
    with graph have "se_ready s = None" by (simp add: graph_inv_def)
    with Some bounds graph noerr show thesis
      by (intro that(1)) (auto simp: step_inner_def turn_ok_def)
  next
    case None
    note clear = idle_clear_ready [OF bounds graph noerr None]
    have unfold: "step_inner L s = (case se_ready s of None \<Rightarrow> next_turn L ?s0
         | Some t \<Rightarrow> (case map_of (se_nodes s) t of
              None \<Rightarrow> (?s0, Inl Panicked)
            | Some n \<Rightarrow> if \<not> validated n then (?s0, Inl InvalidOutput)
                 else if \<not> nd_pre_fork n \<and> lib_is_coinbase L (nd_tx n) then
                   (?s0, bind_res (candidate L ?s0 t) (\<lambda>c. Inr (Found c)))
                 else if \<not> nd_pre_fork n \<and> tx_input (nd_tx n) = [] then (?s0, Inl InvalidInput)
                 else next_turn L ?s0))"
      by (simp add: step_inner_def None Let_def next_turn_def validate_output_self
          split: option.split)
    show thesis
    proof (cases "se_ready s")
      case nothing: None
      with next_turn_ok [OF clear] show thesis by (intro that(1)) (auto simp: unfold)
    next
      case ready: (Some t)
      with graph obtain n where n: "map_of (se_nodes s) t = Some n"
        by (fastforce simp: graph_inv_def dest: weak_map_of_SomeI)
      show thesis
      proof (cases "\<not> nd_pre_fork n \<and> validated n \<and> lib_is_coinbase L (nd_tx n)")
        case False
        have idle: "idle L ?sel ?k ?s0" if "validated n" using ready n that by (intro clear) auto
        have bad: "turn_ok L ?sel ?k ?s0 (Inl InvalidOutput)"
          using bounds noerr by (simp add: turn_ok_def bounds_inv_def)
        show thesis
          using False ready n next_turn_ok [OF idle] bad idle
          by (intro that(1)) (auto simp: unfold turn_ok_def idle_def)
      next
        case True
        then have idle: "idle L ?sel ?k ?s0" using ready n by (intro clear) auto
        then obtain c where "candidate L ?s0 t = Inr c" "cd_root (ca_dependency c) = nd_outpoint n"
          "cd_coinbase (ca_dependency c) = nd_tx n" "verify L ?sel (ca_links c) = Inr (ca_dependency c)"
          using candidate_complete [of ?s0 L t n] True n by (auto simp: idle_def graph_inv_def)
        with True ready n idle show thesis by (intro that(2)) (auto simp: unfold)
      qed
    qed
  qed
qed

lemma pred_ok_extend:
  "t \<notin> set (map fst nodes) \<Longrightarrow> pred_ok L nodes p q \<Longrightarrow> pred_ok L (nodes @ [(t, n)]) p q"
  by (auto simp: pred_ok_def map_add_def)

lemma node_ok_extend:
  assumes "t \<notin> set (map fst nodes)" and "node_ok L sel nodes u m"
  shows "node_ok L sel (nodes @ [(t, n)]) u m"
  using assms pred_ok_extend [OF assms(1), of L _ "nd_outpoint m"]
  by (fastforce simp: node_ok_def map_add_def split: option.splits)

lemma provide_inner_ok:
  assumes bounds: "bounds_inv s" and graph: "graph_inv L s" and noerr: "se_error s = None"
    and run: "provide_inner L s raw pre_fork = Inr s'"
  shows "bounds_inv s' \<and> graph_inv L s' \<and> se_error s' = None \<and> se_selected s' = se_selected s \<and>
    se_ready s' \<noteq> None \<and> length (se_nodes s') = Suc (length (se_nodes s)) \<and>
    length (se_nodes s) < MAX_GRAPH_TRANSACTIONS"
proof -
  from run obtain p tx depth where p: "se_pending s = Some p"
    and raw: "length raw \<le> MAX_TRANSACTION_BYTES" "length raw \<le> MAX_PATH_BYTES - se_bytes s"
    and tx: "lib_deserialize L raw = Some tx" "lib_txid L tx = op_txid (pe_outpoint p)"
    and depth: "(case pe_pred p of None \<Rightarrow> Inr 1
        | Some q \<Rightarrow> bind_res (ok_or Panicked (map_of (se_nodes s) (pr_txid q))) (\<lambda>n. Inr (nd_depth n + 1))) = Inr depth"
    and s': "s' = s\<lparr>se_bytes := se_bytes s + length raw,
       se_nodes := AList.update (op_txid (pe_outpoint p))
         \<lparr>nd_raw = raw, nd_tx = tx, nd_outpoint = pe_outpoint p, nd_pred = pe_pred p, nd_depth = depth,
          nd_pre_fork = pre_fork, nd_next_input = (if pre_fork then length (tx_input tx) else 0)\<rparr> (se_nodes s),
       se_order := se_order s @ [op_txid (pe_outpoint p)], se_ready := Some (op_txid (pe_outpoint p)),
       se_pending := None\<rparr>"
    by (auto simp: provide_inner_def res_rules Let_def)
  define t where "t = op_txid (pe_outpoint p)"
  define n where "n = \<lparr>nd_raw = raw, nd_tx = tx, nd_outpoint = pe_outpoint p, nd_pred = pe_pred p, nd_depth = depth,
     nd_pre_fork = pre_fork, nd_next_input = (if pre_fork then length (tx_input tx) else 0)\<rparr>"
  have pend: "pending_ok L s p" and noready: "se_ready s = None" using graph p by (auto simp: graph_inv_def)
  then have new: "t \<notin> set (map fst (se_nodes s))" and small: "length (se_nodes s) < MAX_GRAPH_TRANSACTIONS"
    by (auto simp: pending_ok_def t_def)
  note s' = s' [folded n_def t_def, unfolded keys_update_new [OF new]]
  have "node_ok L (se_selected s) (se_nodes s @ [(t, n)]) t n"
  proof (cases "pe_pred p")
    case None
    with pend tx raw depth show ?thesis
      by (auto simp: node_ok_def n_def t_def pending_ok_def MAX_PATH_TRANSACTIONS_def)
  next
    case (Some q)
    with pend have q: "pred_ok L (se_nodes s) q (pe_outpoint p)" by (auto simp: pending_ok_def)
    from Some pend obtain m where m: "map_of (se_nodes s) (pr_txid q) = Some m" "nd_depth m < MAX_PATH_TRANSACTIONS"
      by (auto simp: pending_ok_def)
    with Some depth have "depth = nd_depth m + 1" by simp
    with Some m tx raw pred_ok_extend [OF new q] show ?thesis
      by (auto simp: node_ok_def n_def t_def map_add_def)
  qed
  then have nodes: "nodes_ok L (se_selected s) (se_nodes s @ [(t, n)])"
    using graph new node_ok_extend [OF new]
    by (auto simp: nodes_ok_def graph_inv_def map_add_def split: option.splits if_splits)
  have val: "map_of (se_nodes s) u = Some m \<Longrightarrow> validated m" for u m
    using graph noready by (auto simp: graph_inv_def)
  have "bounds_inv s'"
    using bounds new small raw by (auto simp: s' bounds_inv_def raw_sum_def n_def)
  moreover have "graph_inv L s'"
    using graph nodes val by (auto simp: s' graph_inv_def map_add_def split: option.splits if_splits)
  ultimately show ?thesis using small noerr by (simp add: s')
qed

lemma provide_inner_no_panic:
  assumes "graph_inv L s"
  shows "provide_inner L s raw pre_fork \<noteq> Inl Panicked \<and> provide_inner L s raw pre_fork \<noteq> Inl IncompletePath"
proof (cases "se_pending s")
  case (Some p)
  with assms have "pending_ok L s p" by (auto simp: graph_inv_def)
  with Some show ?thesis
    by (auto simp: provide_inner_def pending_ok_def guard_res_Inl bind_res_Inl Let_def ok_or_def
        split: option.splits)
qed (simp add: provide_inner_def)

section \<open>Reachable states\<close>

inductive search_reach :: "btc_api \<Rightarrow> outpoint \<Rightarrow> search \<Rightarrow> bool" for L selected where
  start: "search_new L selected = Inr s \<Longrightarrow> search_reach L selected s"
| step: "search_reach L selected s \<Longrightarrow> search_step L s = (s', r) \<Longrightarrow> search_reach L selected s'"
| provide: "search_reach L selected s \<Longrightarrow> provide_with_pruning L s raw pre_fork = (s', r) \<Longrightarrow>
    search_reach L selected s'"

lemma search_new_inv:
  assumes "search_new L selected = Inr s"
  shows "search_inv L s \<and> se_selected s = selected \<and> se_error s = None \<and> se_nodes s = [] \<and> se_ready s = None"
  using assms
  by (auto simp: search_new_def res_rules search_inv_def bounds_inv_def graph_inv_def raw_sum_def
      edge_rel_def children_def nodes_ok_def acyclic_def)

lemma bounds_inv_error [simp]: "bounds_inv (s\<lparr>se_error := e\<rparr>) = bounds_inv s"
  by (simp add: bounds_inv_def)

lemma search_step_inv:
  assumes "search_inv L s" and "search_step L s = (s', r)"
  shows "search_inv L s' \<and> se_selected s' = se_selected s"
proof (cases "se_error s")
  case (Some e)
  with assms show ?thesis by (simp add: search_step_def)
next
  case None
  with assms(1) have "bounds_inv s" "graph_inv L s" by (auto simp: search_inv_def)
  from this None show ?thesis
  proof (cases rule: step_inner_cases)
    case 1
    then show ?thesis using assms(2) None
      by (auto simp: search_step_def search_inv_def turn_ok_def split: prod.splits sum.splits)
  next
    case (2 t n c)
    then show ?thesis using assms(2) None
      by (auto simp: search_step_def search_inv_def idle_def)
  qed
qed

lemma provide_inv:
  assumes "search_inv L s" and "provide_with_pruning L s raw pre_fork = (s', r)"
  shows "search_inv L s' \<and> se_selected s' = se_selected s"
proof (cases "se_error s")
  case (Some e)
  with assms show ?thesis by (simp add: provide_with_pruning_def)
next
  case None
  with assms(1) have "bounds_inv s" "graph_inv L s" by (auto simp: search_inv_def)
  note ok = provide_inner_ok [OF this None]
  show ?thesis
    using assms None ok provide_inner_no_panic [OF \<open>graph_inv L s\<close>, of raw pre_fork]
    by (auto simp: provide_with_pruning_def search_inv_def split: sum.splits)
qed

lemma reach_inv: "search_reach L selected s \<Longrightarrow> search_inv L s \<and> se_selected s = selected"
  by (induction rule: search_reach.induct) (auto dest: search_new_inv search_step_inv provide_inv)

section \<open>Driving the search\<close>

text \<open>
  The loop a caller runs: feed every requested transaction, collect every candidate,
  continue.  \<open>fetch\<close> is the transport (any function of the identifier, with the caller's
  pruning hint); the fuel counts calls of \<open>step\<close>.
\<close>

fun drive :: "btc_api \<Rightarrow> (txid \<Rightarrow> bytes \<times> bool) \<Rightarrow> nat \<Rightarrow> search \<Rightarrow> candidate_t list \<Rightarrow>
    ((anc_error, unit) res \<times> candidate_t list) option" where
  "drive L fetch 0 s found = None"
| "drive L fetch (Suc fuel) s found =
     (case search_step L s of
        (s', Inl e) \<Rightarrow> Some (Inl e, found)
      | (s', Inr Complete) \<Rightarrow> Some (Inr (), found)
      | (s', Inr (Found c)) \<Rightarrow> drive L fetch fuel s' (found @ [c])
      | (s', Inr (Fetch t b)) \<Rightarrow>
          (case provide_with_pruning L s' (fst (fetch t)) (snd (fetch t)) of
             (s'', Inl e) \<Rightarrow> Some (Inl e, found)
           | (s'', Inr _) \<Rightarrow> drive L fetch fuel s'' found))"

definition turns_left :: "search \<Rightarrow> nat" where
  "turns_left s = 2 * (MAX_GRAPH_TRANSACTIONS - length (se_nodes s)) + (if se_ready s = None then 0 else 1)"

lemma turn_after_provide:
  assumes "turn_ok L sel k s (Inr r)" and "provide_with_pruning L s raw pre_fork = (s', Inr u)"
    and "search_inv L s"
  shows "search_inv L s' \<and> se_error s' = None \<and> turns_left s' < 2 * (MAX_GRAPH_TRANSACTIONS - k)"
proof -
  have ok: "bounds_inv s" "graph_inv L s" "se_error s = None" "length (se_nodes s) = k"
    using assms(1) by (auto simp: turn_ok_def)
  have run: "provide_inner L s raw pre_fork = Inr s'"
    using assms(2) ok(3) by (auto simp: provide_with_pruning_def split: sum.splits)
  from provide_inner_ok [OF ok(1-3) run] ok(4) show ?thesis
    by (auto simp: search_inv_def turns_left_def)
qed

lemma drive_returns:
  assumes "search_inv L s" and "se_error s = None" and "turns_left s < fuel"
  shows "drive L fetch fuel s found \<noteq> None"
  using assms
proof (induction fuel arbitrary: s found)
  case (Suc fuel)
  then have inv: "bounds_inv s" "graph_inv L s" by (auto simp: search_inv_def)
  from inv Suc.prems(2) show ?case
  proof (cases rule: step_inner_cases)
    case 1
    obtain s' r where step: "step_inner L s = (s', r)" by fastforce
    with 1(1) have turn: "turn_ok L (se_selected s) (length (se_nodes s)) s' r" by simp
    show ?thesis
    proof (cases r)
      case (Inl e)
      with step Suc.prems(2) show ?thesis by (simp add: search_step_def)
    next
      case (Inr x)
      with turn have inv': "search_inv L s'" by (auto simp: turn_ok_def search_inv_def)
      have next_call: "drive L fetch fuel s'' found \<noteq> None"
        if "provide_with_pruning L s' raw pf = (s'', Inr u)" for raw pf s'' u
        using turn_after_provide [OF turn [unfolded Inr] that inv'] Suc.prems(3)
        by (intro Suc.IH) (auto simp: turns_left_def)
      show ?thesis
      proof (cases x)
        case (Found c)
        with turn Inr show ?thesis by (simp add: turn_ok_def)
      qed (use Inr step Suc.prems(2) next_call in
          \<open>auto simp: search_step_def split: prod.splits sum.splits\<close>)
    qed
  next
    case (2 t n c)
    then have "turns_left (s\<lparr>se_ready := None\<rparr>) < fuel" using Suc.prems(3) by (simp add: turns_left_def)
    moreover have "search_inv L (s\<lparr>se_ready := None\<rparr>)" using 2 by (simp add: idle_def search_inv_def)
    ultimately show ?thesis using 2 Suc.prems(2) by (simp add: search_step_def Suc.IH)
  qed
qed simp

section \<open>Properties\<close>

text \<open>
  C13.  In every reachable state of the search, whatever the transport supplied: at most 512
  transactions are retained, each once and in the order fetched; their bytes are accounted
  for exactly and stay within 4,000,000; the recorded dependency edges are counted exactly,
  number at most 4,096 and have no cycle; and an outstanding request is for a transaction not yet retained, with
  a byte allowance that fits what is left.
\<close>

theorem search_bounded:
  assumes "search_reach L selected s"
  shows "se_order s = map fst (se_nodes s) \<and> distinct (se_order s) \<and> length (se_nodes s) \<le> 512 \<and>
    se_bytes s = (\<Sum>e \<leftarrow> se_nodes s. length (nd_raw (snd e))) \<and> se_bytes s \<le> 4000000 \<and>
    acyclic {(p, c). c \<in> set (children (se_edges s) p)} \<and> finite {(p, c). c \<in> set (children (se_edges s) p)} \<and>
    card {(p, c). c \<in> set (children (se_edges s) p)} = se_edge_count s \<and> se_edge_count s \<le> 4096 \<and>
    (\<forall>p. se_error s = None \<longrightarrow> se_pending s = Some p \<longrightarrow>
       op_txid (pe_outpoint p) \<notin> set (se_order s) \<and>
       0 < pe_max_bytes p \<and> se_bytes s + pe_max_bytes p \<le> 4000000)"
  using reach_inv [OF assms]
  by (auto simp: search_inv_def bounds_inv_def graph_inv_def pending_ok_def raw_sum_def edges_counted_def edge_rel_def
      MAX_GRAPH_TRANSACTIONS_def MAX_PATH_BYTES_def MAX_GRAPH_EDGES_def)

text \<open>
  C12.  Candidates are sound and never lost.  A candidate reported from a reachable state
  carries links that the path verifier accepts with exactly the reported dependency.  When
  the transaction just fetched is a coinbase that is not pruned and pays the output asked
  for, the next step does report the candidate rooted there: rebuilding its path from the
  recorded predecessors cannot fail.
\<close>

theorem search_candidates_exact:
  assumes "search_reach L selected s" and "se_error s = None"
  shows "((\<exists>c. snd (search_step L s) = Inr (Found c)) \<longleftrightarrow>
      (\<exists>t n. se_ready s = Some t \<and> map_of (se_nodes s) t = Some n \<and> \<not> nd_pre_fork n \<and>
         lib_is_coinbase L (nd_tx n) \<and> op_vout (nd_outpoint n) < length (tx_output (nd_tx n)))) \<and>
    (\<forall>c. snd (search_step L s) = Inr (Found c) \<longrightarrow>
      verify L selected (ca_links c) = Inr (ca_dependency c) \<and>
      (\<exists>t n. se_ready s = Some t \<and> map_of (se_nodes s) t = Some n \<and>
         cd_root (ca_dependency c) = nd_outpoint n \<and> cd_coinbase (ca_dependency c) = nd_tx n))"
proof -
  have inv: "bounds_inv s" "graph_inv L s" "se_selected s = selected"
    using reach_inv [OF assms(1)] assms(2) by (auto simp: search_inv_def)
  have step: "snd (search_step L s) = Inr x \<longleftrightarrow> snd (step_inner L s) = Inr x" for x
    using assms(2) by (simp add: search_step_def split: prod.split sum.split)
  from inv(1,2) assms(2) show ?thesis
  proof (cases rule: step_inner_cases)
    case 1
    then show ?thesis unfolding step by (auto simp: turn_ok_def validated_def)
  next
    case (2 t n c')
    then show ?thesis unfolding step using inv(3) by (auto simp: validated_def)
  qed
qed

text \<open>
  C14.  The search ends: from a fresh search, with any transport, the caller's loop finishes
  within 1,025 calls of \<open>step\<close> (at most 512 requests and at most one candidate per
  retained transaction), with a completed traversal or an error.
\<close>

theorem search_terminates:
  assumes "search_new L selected = Inr s"
  shows "\<exists>outcome found. drive L fetch 1025 s [] = Some (outcome, found)"
proof -
  have "search_inv L s" "se_error s = None" "turns_left s < 1025"
    using search_new_inv [OF assms] by (auto simp: turns_left_def MAX_GRAPH_TRANSACTIONS_def)
  from drive_returns [OF this] show ?thesis by fastforce
qed

section \<open>Examples\<close>

abbreviation "spend_id \<equiv> demo_txid demo_spend"
abbreviation "coinbase_id \<equiv> demo_txid demo_coinbase"

definition demo_fresh :: search where
  "demo_fresh = \<lparr>se_selected = OutPoint spend_id 0, se_nodes = [], se_order = [], se_cursor = 0, se_edges = [],
     se_edge_count = 0, se_pending = None, se_ready = None, se_bytes = 0, se_overdepth = False, se_error = None\<rparr>"

definition demo_node :: "nat \<Rightarrow> node" where
  "demo_node i = \<lparr>nd_raw = [1], nd_tx = demo_spend, nd_outpoint = OutPoint spend_id 0, nd_pred = None,
     nd_depth = 1, nd_pre_fork = False, nd_next_input = i\<rparr>"

definition demo_root :: node where
  "demo_root = \<lparr>nd_raw = [2], nd_tx = demo_coinbase, nd_outpoint = OutPoint coinbase_id 0,
     nd_pred = Some \<lparr>pr_txid = spend_id, pr_input = 0\<rparr>, nd_depth = 2, nd_pre_fork = False, nd_next_input = 0\<rparr>"

definition demo_ready :: search where
  "demo_ready = demo_fresh\<lparr>se_nodes := [(spend_id, demo_node 1), (coinbase_id, demo_root)],
     se_order := [spend_id, coinbase_id], se_edges := [(spend_id, [coinbase_id])], se_edge_count := 1,
     se_ready := Some coinbase_id, se_bytes := 2\<rparr>"

lemma demo_ids: "spend_id \<noteq> coinbase_id" "coinbase_id \<noteq> spend_id"
  by (simp_all add: demo_path_defs numeral_eval)

lemma demo_lib:
  "lib_deserialize path_api [1] = Some demo_spend" "lib_deserialize path_api [2] = Some demo_coinbase"
  "lib_txid path_api = demo_txid"
  "\<not> lib_is_coinbase path_api demo_spend" "lib_is_coinbase path_api demo_coinbase"
  "\<not> lib_is_null path_api (OutPoint t 0)"
  by (simp_all add: demo_path_defs)

lemma demo_txs:
  "tx_input demo_spend = [\<lparr>ti_prev = OutPoint coinbase_id 0, ti_script_sig = [], ti_sequence = 0, ti_witness = []\<rparr>]"
  "tx_output demo_spend = [\<lparr>to_value = 40, to_script = [1]\<rparr>]"
  "tx_output demo_coinbase = [\<lparr>to_value = 50, to_script = [1]\<rparr>]"
  by (simp_all add: demo_spend_def demo_coinbase_def)

lemmas search_eval = search_step_def step_inner_def request_def provide_with_pruning_def provide_inner_def
  validate_output_def nth_opt_def Let_def set_node_def record_edge_def children_def extend_set_def
  MAX_GRAPH_TRANSACTIONS_def MAX_PATH_BYTES_def MAX_TRANSACTION_BYTES_def MAX_PATH_TRANSACTIONS_def
  MAX_GRAPH_EDGES_def demo_ids demo_lib demo_txs demo_fresh_def demo_node_def demo_root_def demo_ready_def

lemma demo_reach: "search_reach path_api (OutPoint spend_id 0) demo_ready"
proof -
  let ?s1 = "demo_fresh\<lparr>se_pending := Some \<lparr>pe_outpoint = OutPoint spend_id 0, pe_pred = None, pe_max_bytes = 400000\<rparr>\<rparr>"
  let ?s2 = "demo_fresh\<lparr>se_nodes := [(spend_id, demo_node 0)], se_order := [spend_id], se_ready := Some spend_id, se_bytes := 1\<rparr>"
  let ?s3 = "demo_fresh\<lparr>se_nodes := [(spend_id, demo_node 1)], se_order := [spend_id],
     se_edges := [(spend_id, [coinbase_id])], se_edge_count := 1, se_bytes := 1,
     se_pending := Some \<lparr>pe_outpoint = OutPoint coinbase_id 0, pe_pred = Some \<lparr>pr_txid = spend_id, pr_input = 0\<rparr>,
       pe_max_bytes = 400000\<rparr>\<rparr>"
  have r0: "search_reach path_api (OutPoint spend_id 0) demo_fresh"
    by (rule search_reach.start) (simp add: search_new_def search_eval)
  have e1: "search_step path_api demo_fresh = (?s1, Inr (Fetch spend_id 400000))"
    by (simp add: search_eval)
  have e2: "provide_with_pruning path_api ?s1 [1] False = (?s2, Inr ())"
    by (simp add: search_eval)
  have e3: "search_step path_api ?s2 = (?s3, Inr (Fetch coinbase_id 400000))"
    by (simp add: search_eval expand.simps insort_insert_key_def)
  have e4: "provide_with_pruning path_api ?s3 [2] False = (demo_ready, Inr ())"
    by (simp add: search_eval)
  from search_reach.provide [OF search_reach.step [OF search_reach.provide [OF search_reach.step [OF r0 e1] e2] e3] e4]
  show ?thesis .
qed

theorem search_bounded_witness:
  "distinct (se_order demo_ready) \<and> acyclic {(p, c). c \<in> set (children (se_edges demo_ready) p)} \<and>
   se_bytes demo_ready = 2 \<and> card {(p, c). c \<in> set (children (se_edges demo_ready) p)} = 1"
  using search_bounded [OF demo_reach] by (simp add: demo_ready_def)

theorem search_candidates_witness:
  "\<exists>c. snd (search_step path_api demo_ready) = Inr (Found c) \<and>
     verify path_api (OutPoint spend_id 0) (ca_links c) = Inr (ca_dependency c) \<and>
     cd_coinbase (ca_dependency c) = demo_coinbase"
proof -
  have noerr: "se_error demo_ready = None" by (simp add: search_eval)
  have "\<exists>t n. se_ready demo_ready = Some t \<and> map_of (se_nodes demo_ready) t = Some n \<and> \<not> nd_pre_fork n \<and>
      lib_is_coinbase path_api (nd_tx n) \<and> op_vout (nd_outpoint n) < length (tx_output (nd_tx n))"
    by (simp add: search_eval)
  then obtain c where c: "snd (search_step path_api demo_ready) = Inr (Found c)"
    using search_candidates_exact [OF demo_reach noerr] by blast
  with search_candidates_exact [OF demo_reach noerr] show ?thesis by (auto simp: search_eval)
qed

theorem search_terminates_witness:
  "\<exists>outcome found. drive path_api (\<lambda>t. (if t = spend_id then [1] else [2], False)) 1025 demo_fresh [] =
     Some (outcome, found)"
  by (rule search_terminates [of path_api "OutPoint spend_id 0"]) (simp add: search_new_def search_eval)

end
