(* ===== verification/Border_Grid.thy ===== *)
theory Border_Grid
  imports Prelude "HOL-Library.Multiset"
begin

text \<open>
  \<open>coincube-core/src/border_wallet/grid.rs\<close> and \<open>error.rs\<close>: the deterministic word grid.  The
  mnemonic library and the keyed hashes are the fields of \<open>seed_api\<close>; a mnemonic is its list of
  words.  The shuffle is the source's loop from the last index down to 1.
\<close>

section \<open>Data\<close>

record seed_api =
  lib_parse_mnemonic :: "string \<Rightarrow> string list option"       \<comment> \<open>\<open>Mnemonic::parse_in(English, _)\<close>\<close>
  lib_mnemonic_string :: "string list \<Rightarrow> string"            \<comment> \<open>\<open>Mnemonic::to_string\<close>\<close>
  lib_from_entropy :: "bytes \<Rightarrow> (string, string list) res"  \<comment> \<open>\<open>Mnemonic::from_entropy\<close>\<close>
  lib_word_list :: "string list"                             \<comment> \<open>\<open>Language::English.word_list()\<close>\<close>
  lib_hmac_sha512 :: "bytes \<Rightarrow> bytes \<Rightarrow> bytes"               \<comment> \<open>key, message\<close>
  lib_hmac_sha256 :: "bytes \<Rightarrow> bytes \<Rightarrow> bytes"
  lib_seed_sha256 :: "bytes \<Rightarrow> bytes"

datatype border_error =
    InvalidRecoveryPhrase
  | InvalidPatternLength nat
  | CellOutOfBounds nat nat
  | DuplicateCell nat nat
  | MnemonicConstruction string
  | KeyDerivation string
  | FingerprintMismatch bytes bytes
  | SigningFailed string
  | AssertionFailed \<comment> \<open>not a variant of the source: a failed \<open>assert_eq\<close>, \<open>expect\<close> or index\<close>

definition DOMAIN_TAG :: string where "DOMAIN_TAG = ''coincube/border-wallet-grid/v1''"
definition COLS :: nat where "COLS = 16"
definition ROWS :: nat where "ROWS = 128"
definition TOTAL_CELLS :: nat where "TOTAL_CELLS = COLS * ROWS"

record word_grid =
  wg_cells :: "nat list"

definition as_bytes :: "string \<Rightarrow> bytes" where
  "as_bytes s = map of_char s"

section \<open>Operations\<close>

definition deterministic_index :: "seed_api \<Rightarrow> bytes \<Rightarrow> nat \<Rightarrow> nat" where
  "deterministic_index B seed i =
     of_be_bytes (take 8 (lib_hmac_sha256 B seed (be_bytes 2 i))) mod (i + 1)"

definition swap_at :: "'a list \<Rightarrow> nat \<Rightarrow> nat \<Rightarrow> 'a list" where
  "swap_at xs i j = xs[i := xs ! j, j := xs ! i]"

fun shuffle_down :: "(nat \<Rightarrow> nat) \<Rightarrow> nat \<Rightarrow> 'a list \<Rightarrow> 'a list" where
  \<comment> \<open>\<open>for i in (1..=n).rev() { xs.swap(i, index(i)) }\<close>\<close>
  "shuffle_down index 0 xs = xs"
| "shuffle_down index (Suc n) xs = shuffle_down index n (swap_at xs (Suc n) (index (Suc n)))"

definition from_indices :: "nat list \<Rightarrow> (border_error, word_grid) res" where
  "from_indices cells =
     guard_res (length cells \<noteq> TOTAL_CELLS) AssertionFailed (Inr \<lparr>wg_cells = cells\<rparr>)"

definition parse_twelve :: "seed_api \<Rightarrow> string \<Rightarrow> (border_error, string) res" where
  \<comment> \<open>the validation that \<open>from_recovery_phrase\<close> and \<open>from_phrase\<close> both open with\<close>
  "parse_twelve B phrase =
     bind_res (ok_or InvalidRecoveryPhrase (lib_parse_mnemonic B phrase)) (\<lambda>mnemonic.
     guard_res (length mnemonic \<noteq> 12) InvalidRecoveryPhrase
     (Inr (lib_mnemonic_string B mnemonic)))"

definition grid_indices :: "seed_api \<Rightarrow> string \<Rightarrow> nat list" where
  "grid_indices B canonical =
     (let seed = lib_hmac_sha512 B (as_bytes DOMAIN_TAG) (as_bytes canonical)
      in shuffle_down (deterministic_index B seed) (TOTAL_CELLS - 1) [0..<TOTAL_CELLS])"

definition from_recovery_phrase :: "seed_api \<Rightarrow> string \<Rightarrow> (border_error, word_grid) res" where
  "from_recovery_phrase B phrase =
     bind_res (parse_twelve B phrase) (\<lambda>canonical. from_indices (grid_indices B canonical))"

definition word_index_at :: "word_grid \<Rightarrow> nat \<Rightarrow> nat \<Rightarrow> nat option" where
  "word_index_at g row col =
     (if row \<ge> ROWS \<or> col \<ge> COLS then None else Some (wg_cells g ! (row * COLS + col)))"

definition word_at :: "seed_api \<Rightarrow> word_grid \<Rightarrow> nat \<Rightarrow> nat \<Rightarrow> (border_error, string) res" where
  \<comment> \<open>the error carries the coordinates truncated to \<open>u16\<close> and \<open>u8\<close>\<close>
  "word_at B g row col =
     bind_res (ok_or (CellOutOfBounds (row mod 2 ^ 16) (col mod 2 ^ 8)) (word_index_at g row col)) (\<lambda>idx.
     ok_or AssertionFailed (nth_opt (lib_word_list B) idx))"

definition prefix_at :: "seed_api \<Rightarrow> word_grid \<Rightarrow> nat \<Rightarrow> nat \<Rightarrow> (border_error, string) res" where
  "prefix_at B g row col = bind_res (word_at B g row col) (\<lambda>word. Inr (take 4 word))"

section \<open>The shuffle permutes\<close>

lemma length_swap_at [simp]: "length (swap_at xs i j) = length xs"
  by (simp add: swap_at_def)

lemma mset_swap_at: "i < length xs \<Longrightarrow> j < length xs \<Longrightarrow> mset (swap_at xs i j) = mset xs"
  by (simp add: swap_at_def mset_swap)

lemma length_shuffle_down [simp]: "length (shuffle_down f n xs) = length xs"
  by (induction f n xs rule: shuffle_down.induct) simp_all

lemma mset_shuffle_down:
  "\<forall>i. f i \<le> i \<Longrightarrow> n < length xs \<Longrightarrow> mset (shuffle_down f n xs) = mset xs"
proof (induction f n xs rule: shuffle_down.induct)
  case (2 index n xs)
  then show ?case
    using le_less_trans [of "index (Suc n)" "Suc n" "length xs"] by (simp add: mset_swap_at)
qed simp

lemma deterministic_index_le: "deterministic_index B seed i \<le> i"
  by (simp add: deterministic_index_def flip: less_Suc_eq_le)

lemma grid_indices_perm: "mset (grid_indices B canonical) = mset [0..<TOTAL_CELLS]"
  by (simp add: grid_indices_def Let_def mset_shuffle_down deterministic_index_le TOTAL_CELLS_def COLS_def ROWS_def)

lemma length_grid_indices: "length (grid_indices B canonical) = TOTAL_CELLS"
  using mset_eq_length [OF grid_indices_perm] by (simp add: TOTAL_CELLS_def COLS_def ROWS_def)

lemma from_recovery_phrase_iff:
  "from_recovery_phrase B phrase = Inr g \<longleftrightarrow>
     (\<exists>words. lib_parse_mnemonic B phrase = Some words \<and> length words = 12 \<and>
        wg_cells g = grid_indices B (lib_mnemonic_string B words))"
  by (cases g) (auto simp: from_recovery_phrase_def parse_twelve_def from_indices_def res_rules
      length_grid_indices)

definition grid_ok :: "word_grid \<Rightarrow> bool" where
  "grid_ok g \<longleftrightarrow> mset (wg_cells g) = mset [0..<TOTAL_CELLS]"

lemma grid_ok_cells:
  assumes "grid_ok g"
  shows "length (wg_cells g) = 2048" and "distinct (wg_cells g)" and "set (wg_cells g) = {0..<2048}"
proof -
  have "TOTAL_CELLS = 2048" by (simp add: TOTAL_CELLS_def COLS_def ROWS_def)
  then have "mset (wg_cells g) = mset [0..<2048]" using assms by (simp only: grid_ok_def)
  then have "length (wg_cells g) = length [0..<2048]" "set (wg_cells g) = set [0..<2048]"
    by (rule mset_eq_length, rule mset_eq_setD)
  then show "length (wg_cells g) = 2048" "set (wg_cells g) = {0..<2048}" by simp_all
  then show "distinct (wg_cells g)" by (simp add: card_distinct)
qed

lemma from_recovery_phrase_ok: "from_recovery_phrase B phrase = Inr g \<Longrightarrow> grid_ok g"
  by (auto simp: from_recovery_phrase_iff grid_ok_def grid_indices_perm)

lemma word_index_at_inj:
  assumes "grid_ok g" and "word_index_at g r c = Some w" and "word_index_at g r' c' = Some w"
  shows "r = r' \<and> c = c'"
proof -
  have b: "r < 128" "c < 16" "r' < 128" "c' < 16"
    and eq: "wg_cells g ! (r * 16 + c) = wg_cells g ! (r' * 16 + c')"
    using assms(2,3) by (auto simp: word_index_at_def COLS_def ROWS_def split: if_splits)
  have "r * 16 + c < 2048" "r' * 16 + c' < 2048" using b by linarith+
  then have "r * 16 + c = r' * 16 + c'"
    using grid_ok_cells [OF assms(1)] eq by (simp add: nth_eq_iff_index_eq)
  then have "(r * 16 + c) div 16 = (r' * 16 + c') div 16" "(r * 16 + c) mod 16 = (r' * 16 + c') mod 16"
    by simp_all
  then show ?thesis using b by simp
qed

lemma word_index_at_bound: "grid_ok g \<Longrightarrow> word_index_at g r c = Some w \<Longrightarrow> w < 2048"
proof -
  assume g: "grid_ok g" and w: "word_index_at g r c = Some w"
  have "r < 128" "c < 16" "w = wg_cells g ! (r * 16 + c)"
    using w by (auto simp: word_index_at_def COLS_def ROWS_def split: if_splits)
  then have "w \<in> set (wg_cells g)" using grid_ok_cells(1) [OF g] by (simp add: nth_mem)
  then show ?thesis using grid_ok_cells(3) [OF g] by simp
qed

lemma word_index_at_surj: "grid_ok g \<Longrightarrow> w < 2048 \<Longrightarrow> \<exists>r c. word_index_at g r c = Some w"
proof -
  assume g: "grid_ok g" and "w < 2048"
  then have "w \<in> set (wg_cells g)" using grid_ok_cells(3) by simp
  then obtain k where k: "k < 2048" "wg_cells g ! k = w"
    using grid_ok_cells(1) [OF g] by (auto simp: in_set_conv_nth)
  have "k div 16 < 128" "k mod 16 < 16" "k div 16 * 16 + k mod 16 = k" using k(1) by simp_all
  then have "word_index_at g (k div 16) (k mod 16) = Some w"
    using k(2) by (simp add: word_index_at_def COLS_def ROWS_def)
  then show ?thesis by blast
qed

text \<open>
  A grid is generated exactly from the phrases that parse as twelve words, and its 128
  by 16 cells hold each of the 2,048 word indices once: every cell in bounds holds an index,
  every index stands in exactly one cell, and cells out of bounds hold nothing.  Phrases that
  parse to the same words give the same grid.  No assertion or index in the generation can fail.
\<close>

theorem grid_bijective:
  "(is_ok (from_recovery_phrase B phrase) \<longleftrightarrow>
      (\<exists>words. lib_parse_mnemonic B phrase = Some words \<and> length words = 12)) \<and>
   from_recovery_phrase B phrase \<noteq> Inl AssertionFailed \<and>
   (from_recovery_phrase B phrase = Inr g \<longrightarrow>
      (\<forall>r c. word_index_at g r c = None \<longleftrightarrow> 128 \<le> r \<or> 16 \<le> c) \<and>
      (\<forall>w. w < 2048 \<longleftrightarrow> (\<exists>r c. word_index_at g r c = Some w)) \<and>
      (\<forall>w. w < 2048 \<longrightarrow> (\<exists>!rc. word_index_at g (fst rc) (snd rc) = Some w)) \<and>
      (\<forall>other. lib_parse_mnemonic B other = lib_parse_mnemonic B phrase \<longrightarrow>
         from_recovery_phrase B other = Inr g))"
proof (intro conjI)
  show "is_ok (from_recovery_phrase B phrase) \<longleftrightarrow>
      (\<exists>words. lib_parse_mnemonic B phrase = Some words \<and> length words = 12)"
    unfolding is_ok_iff from_recovery_phrase_iff by (metis word_grid.select_convs(1))
  show "from_recovery_phrase B phrase \<noteq> Inl AssertionFailed"
    by (auto simp: length_grid_indices from_recovery_phrase_def parse_twelve_def bind_res_Inl guard_res_Inl ok_or_def
        from_indices_def res_rules split: option.splits)
  show "from_recovery_phrase B phrase = Inr g \<longrightarrow>
      (\<forall>r c. word_index_at g r c = None \<longleftrightarrow> 128 \<le> r \<or> 16 \<le> c) \<and>
      (\<forall>w. w < 2048 \<longleftrightarrow> (\<exists>r c. word_index_at g r c = Some w)) \<and>
      (\<forall>w. w < 2048 \<longrightarrow> (\<exists>!rc. word_index_at g (fst rc) (snd rc) = Some w)) \<and>
      (\<forall>other. lib_parse_mnemonic B other = lib_parse_mnemonic B phrase \<longrightarrow>
         from_recovery_phrase B other = Inr g)"
  proof (intro impI)
    assume g: "from_recovery_phrase B phrase = Inr g"
    note ok = from_recovery_phrase_ok [OF g]
    have one: "\<exists>!rc. word_index_at g (fst rc) (snd rc) = Some w" if "w < 2048" for w
    proof -
      obtain r c where "word_index_at g r c = Some w" using word_index_at_surj [OF ok \<open>w < 2048\<close>] by blast
      then show ?thesis
        using word_index_at_inj [OF ok] by (intro ex1I [of _ "(r, c)"]) (auto simp: prod_eq_iff)
    qed
    show "(\<forall>r c. word_index_at g r c = None \<longleftrightarrow> 128 \<le> r \<or> 16 \<le> c) \<and>
      (\<forall>w. w < 2048 \<longleftrightarrow> (\<exists>r c. word_index_at g r c = Some w)) \<and>
      (\<forall>w. w < 2048 \<longrightarrow> (\<exists>!rc. word_index_at g (fst rc) (snd rc) = Some w)) \<and>
      (\<forall>other. lib_parse_mnemonic B other = lib_parse_mnemonic B phrase \<longrightarrow>
         from_recovery_phrase B other = Inr g)"
    proof (intro conjI allI impI)
      show "word_index_at g r c = None \<longleftrightarrow> 128 \<le> r \<or> 16 \<le> c" for r c
        by (auto simp: word_index_at_def COLS_def ROWS_def)
      show "w < 2048 \<longleftrightarrow> (\<exists>r c. word_index_at g r c = Some w)" for w
        using word_index_at_surj [OF ok] word_index_at_bound [OF ok] by blast
      show "from_recovery_phrase B other = Inr g"
        if "lib_parse_mnemonic B other = lib_parse_mnemonic B phrase" for other
        using g that by (simp add: from_recovery_phrase_iff)
    qed (rule one)
  qed
qed

section \<open>Example\<close>

text \<open>
  A library for the examples: one phrase parses, to twelve equal words; the word list is 2,048
  distinct words; \<open>from_entropy\<close> follows BIP39 through the function it is given.
\<close>

definition demo_words :: "string list" where
  "demo_words = map (\<lambda>n. replicate n CHR ''a'') [0..<2048]"

definition demo_seed :: "(bytes \<Rightarrow> string list) \<Rightarrow> seed_api" where
  "demo_seed mnemonic_of = \<lparr>
     lib_parse_mnemonic = (\<lambda>s. if s = ''phrase'' then Some (replicate 12 ''a'') else None),
     lib_mnemonic_string = concat,
     lib_from_entropy = (\<lambda>e. Inr (mnemonic_of e)),
     lib_word_list = demo_words,
     lib_hmac_sha512 = (\<lambda>k m. replicate 64 0),
     lib_hmac_sha256 = (\<lambda>k m. replicate 32 0),
     lib_seed_sha256 = (\<lambda>m. replicate 32 0)\<rparr>"

theorem grid_bijective_witness:
  "\<exists>g. from_recovery_phrase (demo_seed (\<lambda>e. [])) ''phrase'' = Inr g \<and>
     word_index_at g 128 0 = None \<and> (\<exists>!rc. word_index_at g (fst rc) (snd rc) = Some 5)"
proof -
  let ?B = "demo_seed (\<lambda>e. [])"
  have "\<exists>words. lib_parse_mnemonic ?B ''phrase'' = Some words \<and> length words = 12"
    by (simp add: demo_seed_def)
  then obtain g where g: "from_recovery_phrase ?B ''phrase'' = Inr g"
    using grid_bijective [of ?B "''phrase''" undefined] unfolding is_ok_iff by blast
  have "word_index_at g 128 0 = None \<longleftrightarrow> 128 \<le> (128 :: nat) \<or> 16 \<le> (0 :: nat)"
    and "(5 :: nat) < 2048 \<longrightarrow> (\<exists>!rc. word_index_at g (fst rc) (snd rc) = Some 5)"
    using grid_bijective [of ?B "''phrase''" g] g by blast+
  with g show ?thesis by simp
qed

end
