(* ===== verification/Border_Pattern.thy ===== *)
theory Border_Pattern
  imports Border_Grid Chain Bitcoin_Types
begin

text \<open>
  \<open>coincube-core/src/border_wallet/pattern.rs\<close> and \<open>mod.rs\<close>: the ordered selection of eleven
  cells, the packing of their word indices into entropy, the mnemonic built from it, recovery
  phrases and the derivation path.  Operations on a pattern return the new pattern and what
  the source returns.
\<close>

unbundle bit_operations_syntax

section \<open>Data\<close>

definition PATTERN_LENGTH :: nat where "PATTERN_LENGTH = 11"

record cell_ref =
  cell_row :: nat \<comment> \<open>\<open>u16\<close>\<close>
  cell_col :: nat \<comment> \<open>\<open>u8\<close>\<close>

record ordered_pattern =
  op_cells :: "cell_ref list"

section \<open>Operations on a pattern\<close>

definition is_in_bounds :: "cell_ref \<Rightarrow> bool" where
  "is_in_bounds c \<longleftrightarrow> cell_row c < ROWS \<and> cell_col c < COLS"

definition pattern_new :: ordered_pattern where
  "pattern_new = \<lparr>op_cells = []\<rparr>"

definition is_complete :: "ordered_pattern \<Rightarrow> bool" where
  "is_complete p \<longleftrightarrow> length (op_cells p) = PATTERN_LENGTH"

definition pattern_add :: "ordered_pattern \<Rightarrow> cell_ref \<Rightarrow> ordered_pattern \<times> (border_error, unit) res" where
  "pattern_add p cell =
     (if length (op_cells p) \<ge> PATTERN_LENGTH
      then (p, Inl (InvalidPatternLength (length (op_cells p) + 1)))
      else if \<not> is_in_bounds cell then (p, Inl (CellOutOfBounds (cell_row cell) (cell_col cell)))
      else if cell \<in> set (op_cells p) then (p, Inl (DuplicateCell (cell_row cell) (cell_col cell)))
      else (p\<lparr>op_cells := op_cells p @ [cell]\<rparr>, Inr ()))"

definition remove_at :: "ordered_pattern \<Rightarrow> nat \<Rightarrow> ordered_pattern \<times> cell_ref option" where
  "remove_at p index =
     (if index < length (op_cells p)
      then (p\<lparr>op_cells := take index (op_cells p) @ drop (index + 1) (op_cells p)\<rparr>, Some (op_cells p ! index))
      else (p, None))"

definition undo_last :: "ordered_pattern \<Rightarrow> ordered_pattern \<times> cell_ref option" where
  "undo_last p =
     (if op_cells p = [] then (p, None)
      else (p\<lparr>op_cells := butlast (op_cells p)\<rparr>, Some (last (op_cells p))))"

definition pattern_clear :: "ordered_pattern \<Rightarrow> ordered_pattern" where
  "pattern_clear p = p\<lparr>op_cells := []\<rparr>"

fun check_bounds :: "cell_ref list \<Rightarrow> (border_error, unit) res" where
  "check_bounds [] = Inr ()"
| "check_bounds (c # cs) =
     guard_res (\<not> is_in_bounds c) (CellOutOfBounds (cell_row c) (cell_col c)) (check_bounds cs)"

fun check_duplicates :: "cell_ref list \<Rightarrow> (border_error, unit) res" where
  "check_duplicates [] = Inr ()"
| "check_duplicates (c # cs) =
     guard_res (c \<in> set cs) (DuplicateCell (cell_row c) (cell_col c)) (check_duplicates cs)"

definition pattern_validate :: "ordered_pattern \<Rightarrow> (border_error, unit) res" where
  "pattern_validate p =
     guard_res (length (op_cells p) \<noteq> PATTERN_LENGTH) (InvalidPatternLength (length (op_cells p)))
     (bind_res (check_bounds (op_cells p)) (\<lambda>_. check_duplicates (op_cells p)))"

section \<open>Packing and the mnemonic\<close>

definition write_bit :: "nat \<Rightarrow> nat \<Rightarrow> nat \<Rightarrow> bytes \<Rightarrow> nat \<Rightarrow> bytes" where
  \<comment> \<open>the loop body of \<open>write_bits\<close>\<close>
  "write_bit bit_offset v num_bits buffer i =
     (let b = drop_bit (num_bits - 1 - i) v AND 1;
          byte_idx = (bit_offset + i) div 8;
          bit_idx = 7 - ((bit_offset + i) mod 8)
      in if b = 1 then buffer[byte_idx := buffer ! byte_idx OR push_bit bit_idx 1] else buffer)"

definition write_bits :: "bytes \<Rightarrow> nat \<Rightarrow> nat \<Rightarrow> nat \<Rightarrow> bytes" where
  "write_bits buffer bit_offset v num_bits =
     foldl (write_bit bit_offset v num_bits) buffer [0..<num_bits]"

fun pack_indices :: "bytes \<Rightarrow> nat \<Rightarrow> nat list \<Rightarrow> bytes" where
  "pack_indices entropy bit_offset [] = entropy"
| "pack_indices entropy bit_offset (idx # rest) =
     pack_indices (write_bits entropy bit_offset idx 11) (bit_offset + 11) rest"

definition cell_index :: "word_grid \<Rightarrow> cell_ref \<Rightarrow> (border_error, nat) res" where
  "cell_index g cell =
     ok_or (CellOutOfBounds (cell_row cell) (cell_col cell)) (word_index_at g (cell_row cell) (cell_col cell))"

definition build_mnemonic ::
  "seed_api \<Rightarrow> word_grid \<Rightarrow> ordered_pattern \<Rightarrow> (border_error, string list \<times> string) res" where
  "build_mnemonic B grid p =
     bind_res (pattern_validate p) (\<lambda>_.
     bind_res (collect_res (cell_index grid) (op_cells p)) (\<lambda>word_indices.
     let entropy = pack_indices (replicate 16 0) 0 word_indices;
         checksum_byte = lib_seed_sha256 B entropy ! 0;
         checksum_4bits = drop_bit 4 checksum_byte AND 0x0F;
         twelfth_word_index = unat checksum_4bits
     in
     bind_res (map_err MnemonicConstruction (lib_from_entropy B entropy)) (\<lambda>words.
     guard_res (length words \<noteq> 12) (MnemonicConstruction ''expected 12-word mnemonic'')
     (bind_res (ok_or AssertionFailed (nth_opt (lib_word_list B) twelfth_word_index)) (\<lambda>checksum_word.
      guard_res (words ! 11 \<noteq> checksum_word) (MnemonicConstruction ''checksum word mismatch'')
      (Inr (words, checksum_word)))))))"

section \<open>Recovery phrases and derivation path\<close>

record recovery_phrase =
  grp_phrase :: string

definition from_phrase :: "seed_api \<Rightarrow> string \<Rightarrow> (border_error, recovery_phrase) res" where
  "from_phrase B phrase = bind_res (parse_twelve B phrase) (\<lambda>s. Inr \<lparr>grp_phrase = s\<rparr>)"

definition generate_phrase :: "seed_api \<Rightarrow> bytes option \<Rightarrow> (border_error, recovery_phrase) res" where
  \<comment> \<open>\<open>random\<close> is what \<open>getrandom::fill\<close> delivered, \<open>None\<close> when it failed\<close>
  "generate_phrase B random =
     bind_res (ok_or InvalidRecoveryPhrase random) (\<lambda>entropy.
     bind_res (map_err (\<lambda>_. InvalidRecoveryPhrase) (lib_from_entropy B entropy)) (\<lambda>mnemonic.
     Inr \<lparr>grp_phrase = lib_mnemonic_string B mnemonic\<rparr>))"

definition generate_grid :: "seed_api \<Rightarrow> recovery_phrase \<Rightarrow> (border_error, word_grid) res" where
  \<comment> \<open>\<open>expect\<close>: an error here is a panic\<close>
  "generate_grid B p = map_err (\<lambda>_. AssertionFailed) (from_recovery_phrase B (grp_phrase p))"

definition default_derivation_path :: "network \<Rightarrow> child_number list" where
  \<comment> \<open>the parsed form of \<open>m/48'/{coin_type}'/0'/2'\<close>\<close>
  "default_derivation_path network =
     (let coin_type = (case network of Net_Bitcoin \<Rightarrow> 0 | _ \<Rightarrow> 1)
      in [Hardened 48, Hardened coin_type, Hardened 0, Hardened 2])"

section \<open>The pattern invariant\<close>

definition pattern_ok :: "ordered_pattern \<Rightarrow> bool" where
  "pattern_ok p \<longleftrightarrow> length (op_cells p) \<le> PATTERN_LENGTH \<and> distinct (op_cells p) \<and>
     (\<forall>c \<in> set (op_cells p). is_in_bounds c)"

inductive pattern_reach :: "ordered_pattern \<Rightarrow> bool" where
  new: "pattern_reach pattern_new"
| add: "pattern_reach p \<Longrightarrow> pattern_reach (fst (pattern_add p cell))"
| remove: "pattern_reach p \<Longrightarrow> pattern_reach (fst (remove_at p index))"
| undo: "pattern_reach p \<Longrightarrow> pattern_reach (fst (undo_last p))"
| clear: "pattern_reach p \<Longrightarrow> pattern_reach (pattern_clear p)"

lemma pattern_add_ok: "pattern_ok p \<Longrightarrow> pattern_ok (fst (pattern_add p cell))"
  by (auto simp: pattern_ok_def pattern_add_def)

lemma remove_at_ok: "pattern_ok p \<Longrightarrow> pattern_ok (fst (remove_at p index))"
  using set_take_disj_set_drop_if_distinct [of "op_cells p" index "index + 1"]
  by (auto simp: pattern_ok_def remove_at_def dest: in_set_takeD in_set_dropD)

lemma undo_last_ok: "pattern_ok p \<Longrightarrow> pattern_ok (fst (undo_last p))"
  by (auto simp: pattern_ok_def undo_last_def distinct_butlast dest: in_set_butlastD)

lemma pattern_reach_ok: "pattern_reach p \<Longrightarrow> pattern_ok p"
proof (induction rule: pattern_reach.induct)
  case new
  show ?case by (simp add: pattern_ok_def pattern_new_def)
next
  case (clear p)
  then show ?case by (simp add: pattern_ok_def pattern_clear_def)
qed (simp_all add: pattern_add_ok remove_at_ok undo_last_ok)

lemma check_bounds_iff: "check_bounds cs = Inr () \<longleftrightarrow> (\<forall>c \<in> set cs. is_in_bounds c)"
  by (induction cs) (auto simp: res_rules)

lemma check_duplicates_iff: "check_duplicates cs = Inr () \<longleftrightarrow> distinct cs"
  by (induction cs) (auto simp: res_rules)

lemma pattern_validate_iff:
  "pattern_validate p = Inr () \<longleftrightarrow> is_complete p \<and> pattern_ok p"
  by (auto simp: pattern_validate_def res_rules check_bounds_iff check_duplicates_iff is_complete_def pattern_ok_def)

text \<open>
  C22.  Whatever sequence of additions, removals, undos and clears built a pattern, it holds at
  most eleven distinct cells, all on the grid; it validates exactly when it is complete; a
  cell is accepted exactly when the pattern is not full, the cell is on the grid and new; a
  refused addition leaves the pattern as it was, and undoing an accepted one restores it.
\<close>

theorem pattern_operations_sound:
  assumes "pattern_reach p"
  shows "length (op_cells p) \<le> 11 \<and> distinct (op_cells p) \<and>
    (\<forall>c \<in> set (op_cells p). cell_row c < 128 \<and> cell_col c < 16) \<and>
    (pattern_validate p = Inr () \<longleftrightarrow> is_complete p) \<and>
    (snd (pattern_add p cell) = Inr () \<longleftrightarrow>
       \<not> is_complete p \<and> cell_row cell < 128 \<and> cell_col cell < 16 \<and> cell \<notin> set (op_cells p)) \<and>
    (snd (pattern_add p cell) \<noteq> Inr () \<longrightarrow> fst (pattern_add p cell) = p) \<and>
    (snd (pattern_add p cell) = Inr () \<longrightarrow> undo_last (fst (pattern_add p cell)) = (p, Some cell))"
proof -
  note ok = pattern_reach_ok [OF assms]
  have "undo_last (fst (pattern_add p cell)) = (p, Some cell)" if "snd (pattern_add p cell) = Inr ()"
    using that by (auto simp: pattern_add_def undo_last_def split: if_splits)
  then show ?thesis
    using ok pattern_validate_iff [of p]
    by (auto simp: pattern_ok_def PATTERN_LENGTH_def ROWS_def COLS_def is_in_bounds_def pattern_add_def
        is_complete_def)
qed

definition demo_cells :: "cell_ref list" where
  "demo_cells = map (\<lambda>k. \<lparr>cell_row = k, cell_col = 3\<rparr>) [0..<11]"

theorem pattern_operations_witness:
  "length (op_cells (fst (pattern_add pattern_new \<lparr>cell_row = 5, cell_col = 3\<rparr>))) \<le> 11 \<and>
   undo_last (fst (pattern_add pattern_new \<lparr>cell_row = 5, cell_col = 3\<rparr>)) =
     (pattern_new, Some \<lparr>cell_row = 5, cell_col = 3\<rparr>)"
proof -
  have add: "snd (pattern_add pattern_new \<lparr>cell_row = 5, cell_col = 3\<rparr>) = Inr ()"
    by (simp add: pattern_add_def pattern_new_def PATTERN_LENGTH_def is_in_bounds_def ROWS_def COLS_def)
  show ?thesis
    using pattern_operations_sound [OF pattern_reach.new, of "\<lparr>cell_row = 5, cell_col = 3\<rparr>"]
      pattern_operations_sound [OF pattern_reach.add [OF pattern_reach.new], of "\<lparr>cell_row = 5, cell_col = 3\<rparr>"] add
    by blast
qed

section \<open>The packed bits\<close>

definition bit_at :: "bytes \<Rightarrow> nat \<Rightarrow> bool" where
  \<comment> \<open>bit \<open>k\<close> of a byte string, most significant bit of each byte first\<close>
  "bit_at bs k \<longleftrightarrow> bit (bs ! (k div 8)) (7 - k mod 8)"

lemma bit_position_inj:
  fixes k m :: nat
  assumes "k div 8 = m div 8" and "7 - k mod 8 = 7 - m mod 8"
  shows "k = m"
proof -
  have "k mod 8 < 8" "m mod 8 < 8" by simp_all
  then have "k mod 8 = m mod 8" using assms(2) by linarith
  then show ?thesis using assms(1) by (metis div_mult_mod_eq)
qed

lemma length_write_bit [simp]: "length (write_bit off v n buf i) = length buf"
  by (simp add: write_bit_def Let_def)

lemma bit_at_write_bit:
  assumes "off + i < 8 * length buf" and "k < 8 * length buf"
  shows "bit_at (write_bit off v n buf i) k \<longleftrightarrow> bit_at buf k \<or> (k = off + i \<and> bit v (n - 1 - i))"
proof -
  have in_range: "(off + i) div 8 < length buf" using assms(1) by (simp add: less_mult_imp_div_less mult.commute)
  have b: "drop_bit m v AND 1 = 1 \<longleftrightarrow> bit v m" for m
    by (simp add: and_one_eq odd_iff_mod_2_eq_one bit_iff_odd_drop_bit)
  have body: "write_bit off v n buf i = (if bit v (n - 1 - i)
      then buf[(off + i) div 8 := buf ! ((off + i) div 8) OR 2 ^ (7 - (off + i) mod 8)] else buf)"
    by (simp only: write_bit_def Let_def b) (simp add: push_bit_eq_mult)
  have one: "bit (2 ^ q :: byte) r \<longleftrightarrow> q = r \<and> r < 8" for q r
    by (auto simp: bit_exp_iff)
  show ?thesis
  proof (cases "k div 8 = (off + i) div 8")
    case True
    then have "7 - (off + i) mod 8 = 7 - k mod 8 \<longleftrightarrow> k = off + i"
      using bit_position_inj [of k "off + i"] by auto
    then show ?thesis
      using True in_range by (auto simp: body bit_at_def bit_or_iff one simp del: power_class.power.power_Suc)
  next
    case False
    then show ?thesis by (auto simp: body bit_at_def)
  qed
qed

lemma bit_at_foldl_write_bit:
  assumes "off + n \<le> 8 * length buf" and "m \<le> n" and "k < 8 * length buf"
  shows "length (foldl (write_bit off v n) buf [0..<m]) = length buf \<and>
    (bit_at (foldl (write_bit off v n) buf [0..<m]) k \<longleftrightarrow>
       bit_at buf k \<or> (off \<le> k \<and> k < off + m \<and> bit v (n - 1 - (k - off))))"
  using assms(2)
proof (induction m)
  case (Suc m)
  then show ?case
    using assms(1,3) bit_at_write_bit [of off m "foldl (write_bit off v n) buf [0..<m]" k v n]
    by (auto simp: less_Suc_eq)
qed auto

lemma write_bits_spec:
  assumes "off + n \<le> 8 * length buf" and "k < 8 * length buf"
  shows "length (write_bits buf off v n) = length buf"
    and "bit_at (write_bits buf off v n) k \<longleftrightarrow>
       bit_at buf k \<or> (off \<le> k \<and> k < off + n \<and> bit v (n - 1 - (k - off)))"
  using bit_at_foldl_write_bit [OF assms(1) order_refl assms(2)] by (simp_all add: write_bits_def)

lemma length_write_bits [simp]: "length (write_bits buf off v n) = length buf"
proof -
  have "length (foldl (write_bit off v n) buf is) = length buf" for "is"
    by (induction "is" arbitrary: buf) simp_all
  then show ?thesis by (simp add: write_bits_def)
qed

lemma length_pack_indices [simp]: "length (pack_indices buf off ws) = length buf"
  by (induction buf off ws rule: pack_indices.induct) simp_all

lemma pack_indices_spec:
  assumes "off + 11 * length ws \<le> 8 * length buf" and "k < 8 * length buf"
  shows "bit_at (pack_indices buf off ws) k \<longleftrightarrow>
     bit_at buf k \<or> (off \<le> k \<and> k < off + 11 * length ws \<and> bit (ws ! ((k - off) div 11)) (10 - (k - off) mod 11))"
  using assms
proof (induction buf off ws rule: pack_indices.induct)
  case (2 buf off w ws)
  have IH: "bit_at (pack_indices (write_bits buf off w 11) (off + 11) ws) k \<longleftrightarrow>
     bit_at (write_bits buf off w 11) k \<or> (off + 11 \<le> k \<and> k < off + 11 + 11 * length ws \<and>
       bit (ws ! ((k - (off + 11)) div 11)) (10 - (k - (off + 11)) mod 11))"
    using 2 by simp
  have first: "bit_at (write_bits buf off w 11) k \<longleftrightarrow>
     bit_at buf k \<or> (off \<le> k \<and> k < off + 11 \<and> bit w (10 - (k - off)))"
    using write_bits_spec(2) [of off 11 buf k w] 2(2,3) by simp
  consider "k < off" | "off \<le> k" "k < off + 11" | "off + 11 \<le> k" by linarith
  then show ?case
  proof cases
    case 3
    then obtain d where d: "k = off + 11 + d" by (metis le_add_diff_inverse)
    have "(11 + d) div 11 = Suc (d div 11)" by simp
    with d show ?thesis using IH first by simp
  qed (use IH first in auto)
qed auto

section \<open>The mnemonic\<close>

text \<open>
  BIP39 for 128 bits of entropy: bits 128 to 131 are the first four bits of the SHA-256 digest,
  and the twelve words are the entries of the 2,048-word list, all different, at the twelve
  groups of eleven bits.
\<close>

definition entropy_bit :: "seed_api \<Rightarrow> bytes \<Rightarrow> nat \<Rightarrow> bool" where
  "entropy_bit B e k = (if k < 128 then bit_at e k else bit_at (lib_seed_sha256 B e) (k - 128))"

definition bip39_word_index :: "seed_api \<Rightarrow> bytes \<Rightarrow> nat \<Rightarrow> nat" where
  "bip39_word_index B e w = horner_sum of_bool 2 (map (\<lambda>j. entropy_bit B e (11 * w + 10 - j)) [0..<11])"

definition bip39_english :: "seed_api \<Rightarrow> bool" where
  "bip39_english B \<longleftrightarrow>
     length (lib_word_list B) = 2048 \<and> distinct (lib_word_list B) \<and>
     (\<forall>e. length e = 16 \<longrightarrow>
        lib_from_entropy B e = Inr (map (\<lambda>w. lib_word_list B ! bip39_word_index B e w) [0..<12]))"

lemma bit_at_zero: "k < 8 * n \<Longrightarrow> \<not> bit_at (replicate n 0) k"
  by (simp add: bit_at_def less_mult_imp_div_less mult.commute)

lemma packed_entropy_bit:
  assumes "length ws = 11" and "k < 128"
  shows "bit_at (pack_indices (replicate 16 0) 0 ws) k \<longleftrightarrow> k < 121 \<and> bit (ws ! (k div 11)) (10 - k mod 11)"
  using pack_indices_spec [of 0 ws "replicate 16 0" k] bit_at_zero [of k 16] assms by simp

lemma packed_word_index:
  assumes "length ws = 11" and "w < 11" and "ws ! w < 2048"
  shows "bip39_word_index B (pack_indices (replicate 16 0) 0 ws) w = ws ! w"
proof -
  have "entropy_bit B (pack_indices (replicate 16 0) 0 ws) (11 * w + 10 - j) \<longleftrightarrow> bit (ws ! w) j"
    if "j < 11" for j
  proof -
    define i where "i = 10 - j"
    have i: "11 * w + 10 - j = i + 11 * w" "i < 11" "10 - i = j" using that by (auto simp: i_def)
    have "i + 11 * w < 121" using assms(2) i(2) by linarith
    then show ?thesis
      unfolding i(1) entropy_bit_def using packed_entropy_bit [OF assms(1), of "i + 11 * w"] i by simp
  qed
  then have "bip39_word_index B (pack_indices (replicate 16 0) 0 ws) w =
      horner_sum of_bool 2 (map (bit (ws ! w)) [0..<11])"
    unfolding bip39_word_index_def by (intro arg_cong2 [where f = "horner_sum of_bool"]) simp_all
  also have "\<dots> = take_bit 11 (ws ! w)" by (rule horner_sum_bit_eq_take_bit)
  also have "\<dots> = ws ! w" using assms(3) by (simp add: take_bit_nat_eq_self)
  finally show ?thesis .
qed

lemma packed_checksum_index:
  assumes "length ws = 11"
  shows "bip39_word_index B (pack_indices (replicate 16 0) 0 ws) 11 =
    unat (drop_bit 4 (lib_seed_sha256 B (pack_indices (replicate 16 0) 0 ws) ! 0) AND 0x0F)"
proof -
  let ?e = "pack_indices (replicate 16 0) 0 ws"
  let ?c = "drop_bit 4 (lib_seed_sha256 B ?e ! 0) AND 0x0F"
  have mask: "(0x0F :: byte) = mask 4" by (simp add: mask_eq_exp_minus_1)
  have "entropy_bit B ?e (121 + 10 - j) \<longleftrightarrow> bit (unat ?c) j" if "j < 11" for j
  proof (cases "j < 4")
    case True
    then have "\<not> 131 - j < 128" "(131 - j - 128) div 8 = 0" "7 - (131 - j - 128) mod 8 = 4 + j" by simp_all
    then have "entropy_bit B ?e (121 + 10 - j) \<longleftrightarrow> bit (lib_seed_sha256 B ?e ! 0) (4 + j)"
      by (simp add: entropy_bit_def bit_at_def)
    also have "\<dots> \<longleftrightarrow> bit ?c j" using True unfolding mask
      by (simp add: bit_and_iff bit_drop_bit_eq bit_mask_iff)
    finally show ?thesis by (simp add: bit_unsigned_iff)
  next
    case False
    then have "131 - j < 128" "\<not> 131 - j < 121" using that by simp_all
    then have "entropy_bit B ?e (121 + 10 - j) \<longleftrightarrow> False"
      using packed_entropy_bit [OF assms, of "131 - j"] by (simp add: entropy_bit_def)
    moreover have "\<not> bit ?c j" using False unfolding mask by (simp add: bit_and_iff bit_mask_iff)
    ultimately show ?thesis by (simp add: bit_unsigned_iff)
  qed
  then have "bip39_word_index B ?e 11 = horner_sum of_bool 2 (map (bit (unat ?c)) [0..<11])"
    unfolding bip39_word_index_def by (intro arg_cong2 [where f = "horner_sum of_bool"]) simp_all
  also have "\<dots> = take_bit 11 (unat ?c)" by (rule horner_sum_bit_eq_take_bit)
  also have "\<dots> = unat ?c"
  proof (rule take_bit_nat_eq_self)
    have "unat ?c < 256" using unsigned_less [of ?c] by simp
    then show "unat ?c < 2 ^ 11" by simp
  qed
  finally show ?thesis .
qed

lemma cell_index_Inr: "cell_index g c = Inr w \<longleftrightarrow> word_index_at g (cell_row c) (cell_col c) = Some w"
  by (simp add: cell_index_def res_rules)

lemma collect_cell_index:
  assumes "\<forall>c \<in> set cs. is_in_bounds c"
  shows "collect_res (cell_index g) cs = Inr (map (\<lambda>c. the (word_index_at g (cell_row c) (cell_col c))) cs)"
  unfolding collect_res_Inr list_all2_map2 using assms
  by (induction cs) (auto simp: cell_index_Inr is_in_bounds_def word_index_at_def)

abbreviation cell_words :: "seed_api \<Rightarrow> word_grid \<Rightarrow> ordered_pattern \<Rightarrow> string list" where
  "cell_words B g p \<equiv> map (\<lambda>c. lib_word_list B ! the (word_index_at g (cell_row c) (cell_col c))) (op_cells p)"

lemma build_mnemonic_valid:
  assumes bip: "bip39_english B" and g: "grid_ok g" and p: "pattern_validate p = Inr ()"
  shows "\<exists>i < 16. build_mnemonic B g p =
    Inr (cell_words B g p @ [lib_word_list B ! i], lib_word_list B ! i)"
proof -
  have cells: "length (op_cells p) = 11" "\<forall>c \<in> set (op_cells p). is_in_bounds c"
    using p by (auto simp: pattern_validate_iff is_complete_def pattern_ok_def PATTERN_LENGTH_def)
  define ws where "ws = map (\<lambda>c. the (word_index_at g (cell_row c) (cell_col c))) (op_cells p)"
  define e where "e = pack_indices (replicate 16 0) 0 ws"
  define i where "i = unat (drop_bit 4 (lib_seed_sha256 B e ! 0) AND 0x0F)"
  have len: "length ws = 11" "length e = 16" by (simp_all add: ws_def cells e_def)
  have small: "ws ! w < 2048" if "w < 11" for w
  proof -
    have "op_cells p ! w \<in> set (op_cells p)" using that cells(1) by simp
    then have "is_in_bounds (op_cells p ! w)" using cells(2) by blast
    then have "word_index_at g (cell_row (op_cells p ! w)) (cell_col (op_cells p ! w)) = Some (ws ! w)"
      using that cells(1) by (simp add: ws_def word_index_at_def is_in_bounds_def)
    then show ?thesis by (rule word_index_at_bound [OF g])
  qed
  have i: "i < 16"
  proof -
    have "(0x0F :: byte) = mask 4" by (simp add: mask_eq_exp_minus_1)
    then have "i = take_bit 4 (unat (drop_bit 4 (lib_seed_sha256 B e ! 0)))"
      by (simp only: i_def unsigned_take_bit_eq flip: take_bit_eq_mask)
    then show ?thesis using take_bit_nat_less_exp [of 4] by simp
  qed
  have "map (\<lambda>w. lib_word_list B ! bip39_word_index B e w) [0..<12] =
      map (\<lambda>w. lib_word_list B ! bip39_word_index B e w) [0..<11] @ [lib_word_list B ! bip39_word_index B e 11]"
    by (simp add: numeral_eq_Suc)
  also have "map (\<lambda>w. lib_word_list B ! bip39_word_index B e w) [0..<11] = map ((!) (lib_word_list B)) ws"
    using len(1) small by (intro nth_equalityI) (simp_all add: e_def packed_word_index)
  also have "bip39_word_index B e 11 = i"
    unfolding e_def i_def by (rule packed_checksum_index [OF len(1)])
  finally have words: "lib_from_entropy B e = Inr (map ((!) (lib_word_list B)) ws @ [lib_word_list B ! i])"
    using bip len(2) by (simp add: bip39_english_def)
  have "nth_opt (lib_word_list B) i = Some (lib_word_list B ! i)"
    using bip i by (simp add: nth_opt_def bip39_english_def)
  then have "build_mnemonic B g p = Inr (map ((!) (lib_word_list B)) ws @ [lib_word_list B ! i], lib_word_list B ! i)"
    using p words len(1) unfolding build_mnemonic_def collect_cell_index [OF cells(2)] ws_def [symmetric]
    by (simp add: Let_def e_def [symmetric] i_def [symmetric] nth_append)
  then show ?thesis using i by (auto simp: ws_def)
qed

lemma build_mnemonic_invalid: "pattern_validate p = Inl e \<Longrightarrow> build_mnemonic B g p = Inl e"
  by (simp add: build_mnemonic_def)

lemma cell_words_inject:
  assumes bip: "bip39_english B" and g: "grid_ok g"
    and "\<forall>c \<in> set cs. is_in_bounds c" and "\<forall>c \<in> set ds. is_in_bounds c"
    and "map (\<lambda>c. lib_word_list B ! the (word_index_at g (cell_row c) (cell_col c))) cs =
      map (\<lambda>c. lib_word_list B ! the (word_index_at g (cell_row c) (cell_col c))) ds"
  shows "cs = ds"
  using assms(3-)
proof (induction cs arbitrary: ds)
  case (Cons c cs)
  then obtain d es where ds: "ds = d # es" by (cases ds) auto
  obtain w v where w: "word_index_at g (cell_row c) (cell_col c) = Some w"
    and v: "word_index_at g (cell_row d) (cell_col d) = Some v"
    using Cons.prems ds by (auto simp: is_in_bounds_def word_index_at_def)
  have "lib_word_list B ! w = lib_word_list B ! v" using Cons.prems(3) ds w v by simp
  then have "w = v"
    using bip word_index_at_bound [OF g w] word_index_at_bound [OF g v]
    by (simp add: bip39_english_def nth_eq_iff_index_eq)
  then have "c = d" using word_index_at_inj [OF g w] v by (cases c; cases d) simp
  then show ?case using Cons.IH [of es] Cons.prems ds by simp
qed simp

text \<open>
  C21.  The mnemonic is the selection.  On a generated grid every valid pattern gives a
  mnemonic, never a construction error: its first eleven words are the words of the selected
  cells in order, its twelfth the reported checksum word, one of the first sixteen words of the
  list.  An invalid pattern gives its validation error.  Two patterns with the same mnemonic are
  the same pattern.
\<close>

theorem border_mnemonic_exact:
  assumes bip: "bip39_english B" and grid: "from_recovery_phrase B phrase = Inr g"
  shows "(pattern_validate p = Inr () \<longrightarrow>
      (\<exists>i < 16. build_mnemonic B g p =
         Inr (map (\<lambda>c. lib_word_list B ! the (word_index_at g (cell_row c) (cell_col c))) (op_cells p) @
              [lib_word_list B ! i], lib_word_list B ! i))) \<and>
    (\<forall>e. pattern_validate p = Inl e \<longrightarrow> build_mnemonic B g p = Inl e) \<and>
    (\<forall>q words cw cw'. build_mnemonic B g p = Inr (words, cw) \<longrightarrow> build_mnemonic B g q = Inr (words, cw') \<longrightarrow> p = q)"
proof (intro conjI allI impI)
  note g = from_recovery_phrase_ok [OF grid]
  show "\<exists>i < 16. build_mnemonic B g p =
         Inr (cell_words B g p @ [lib_word_list B ! i], lib_word_list B ! i)" if "pattern_validate p = Inr ()"
    using build_mnemonic_valid [OF bip g that] .
  show "build_mnemonic B g p = Inl e" if "pattern_validate p = Inl e" for e
    using build_mnemonic_invalid [OF that] .
  fix q words cw cw'
  assume p: "build_mnemonic B g p = Inr (words, cw)" and q: "build_mnemonic B g q = Inr (words, cw')"
  have valid: "pattern_validate r = Inr () \<and> words = cell_words B g r @ [c]"
    if "build_mnemonic B g r = Inr (words, c)" for r c
  proof -
    have r: "pattern_validate r = Inr ()" using that by (auto simp: build_mnemonic_def res_rules)
    then show ?thesis using build_mnemonic_valid [OF bip g r] that by auto
  qed
  have "cell_words B g p = cell_words B g q"
    using valid [OF p] valid [OF q] by simp
  then have "op_cells p = op_cells q"
    using valid [OF p] valid [OF q] by (intro cell_words_inject [OF bip g])
      (auto simp: pattern_validate_iff pattern_ok_def)
  then show "p = q" by simp
qed

text \<open>A library that satisfies the BIP39 clauses: every digest is zero.\<close>

definition bip39_demo :: seed_api where
  "bip39_demo = demo_seed (\<lambda>e. map (\<lambda>w. demo_words ! bip39_word_index (demo_seed (\<lambda>_. [])) e w) [0..<12])"

lemma bip39_demo_english: "bip39_english bip39_demo"
proof -
  have "bip39_word_index bip39_demo e w = bip39_word_index (demo_seed (\<lambda>_. [])) e w" for e w
    by (simp add: bip39_word_index_def entropy_bit_def bip39_demo_def demo_seed_def)
  moreover have "distinct demo_words"
    unfolding demo_words_def distinct_map by (auto intro: inj_onI dest: arg_cong [where f = length])
  ultimately show ?thesis
    by (simp add: bip39_english_def bip39_demo_def demo_seed_def demo_words_def del: upt_rec_numeral upt_Suc)
qed

theorem border_mnemonic_witness:
  "\<exists>g i. from_recovery_phrase bip39_demo ''phrase'' = Inr g \<and> i < 16 \<and>
     build_mnemonic bip39_demo g \<lparr>op_cells = demo_cells\<rparr> =
       Inr (map (\<lambda>c. demo_words ! the (word_index_at g (cell_row c) (cell_col c))) demo_cells @ [demo_words ! i],
            demo_words ! i)"
proof -
  obtain g where g: "from_recovery_phrase bip39_demo ''phrase'' = Inr g"
    using from_recovery_phrase_iff [of bip39_demo "''phrase''" "\<lparr>wg_cells = c\<rparr>" for c]
    by (simp add: bip39_demo_def demo_seed_def) blast
  have list: "lib_word_list bip39_demo = demo_words" by (simp add: bip39_demo_def demo_seed_def)
  have "pattern_validate \<lparr>op_cells = demo_cells\<rparr> = Inr ()"
    by (simp add: pattern_validate_iff is_complete_def pattern_ok_def demo_cells_def PATTERN_LENGTH_def
        is_in_bounds_def ROWS_def COLS_def distinct_map inj_on_def)
  then show ?thesis
    using border_mnemonic_exact [OF bip39_demo_english g, of "\<lparr>op_cells = demo_cells\<rparr>"] g
    unfolding list by auto
qed

text \<open>
  A phrase that was accepted on construction regenerates its grid: the \<open>expect\<close> in
  \<open>generate_grid\<close> cannot fail, given that a mnemonic's string parses back to it.
\<close>

definition mnemonic_roundtrip :: "seed_api \<Rightarrow> bool" where
  "mnemonic_roundtrip B \<longleftrightarrow>
     (\<forall>words. (\<exists>s. lib_parse_mnemonic B s = Some words) \<or> (\<exists>e. length e = 16 \<and> lib_from_entropy B e = Inr words) \<longrightarrow>
        lib_parse_mnemonic B (lib_mnemonic_string B words) = Some words)"

lemma generate_grid_total:
  assumes "mnemonic_roundtrip B" and "from_phrase B s = Inr p"
  shows "generate_grid B p = from_recovery_phrase B s \<and> is_ok (generate_grid B p)"
proof -
  obtain words where words: "lib_parse_mnemonic B s = Some words" "length words = 12"
    "grp_phrase p = lib_mnemonic_string B words"
    using assms(2) by (auto simp: from_phrase_def parse_twelve_def res_rules)
  have again: "lib_parse_mnemonic B (grp_phrase p) = Some words"
    using assms(1) words(1,3) by (auto simp: mnemonic_roundtrip_def)
  let ?g = "\<lparr>wg_cells = grid_indices B (lib_mnemonic_string B words)\<rparr>"
  have "from_recovery_phrase B s = Inr ?g" "from_recovery_phrase B (grp_phrase p) = Inr ?g"
    using words again by (simp_all add: from_recovery_phrase_iff)
  then show ?thesis by (simp add: generate_grid_def)
qed

end
