(* ===== verification/Wallet_Db.thy ===== *)
theory Wallet_Db
  imports Psbt
begin

text \<open>
  \<open>coincubed/src/database/sqlite\<close>: the wallet database of the daemon.  Each table is the list
  of its rows in insertion order, with nullable columns as options; the constraints of the
  schema (uniqueness, foreign keys, checks) are tests of the statements that could violate
  them.  Every method runs its statements in one transaction, so it either returns the new
  database or leaves the old one; where the source then calls \<open>expect\<close>, \<open>None\<close> is the panic.
  Derivation indices are the unsigned 32-bit integers the columns hold; hardened ones start at
  \<open>2 ^ 31\<close>.
\<close>

section \<open>Prerequisites\<close>

text \<open>A loop whose body can fail: \<open>for x in xs { body(x)?; }\<close>.\<close>

fun try_fold :: "('s \<Rightarrow> 'a \<Rightarrow> 's option) \<Rightarrow> 's \<Rightarrow> 'a list \<Rightarrow> 's option" where
  "try_fold f s [] = Some s"
| "try_fold f s (x # xs) = (case f s x of None \<Rightarrow> None | Some s' \<Rightarrow> try_fold f s' xs)"

lemma try_fold_invariant:
  assumes "try_fold f s xs = Some s'" and "P s" and "\<And>s x t. \<lbrakk>P s; x \<in> set xs; f s x = Some t\<rbrakk> \<Longrightarrow> P t"
  shows "P s'"
  using assms
proof (induction xs arbitrary: s)
  case (Cons x xs)
  from Cons.prems(1) obtain t where t: "f s x = Some t" "try_fold f t xs = Some s'"
    by (auto split: option.splits)
  have "P t" by (rule Cons.prems(3) [OF Cons.prems(2) _ t(1)]) simp
  then show ?case
  proof (rule Cons.IH [OF t(2)])
    show "P u" if "P s" "y \<in> set xs" "f s y = Some u" for s y u
      by (rule Cons.prems(3) [OF that(1) _ that(3)]) (simp add: that(2))
  qed
qed simp

lemma try_fold_append:
  "try_fold f s (xs @ ys) = (case try_fold f s xs of None \<Rightarrow> None | Some s' \<Rightarrow> try_fold f s' ys)"
  by (induction xs arbitrary: s) (auto split: option.splits)

definition checked_add32 :: "nat \<Rightarrow> nat \<Rightarrow> nat option" where
  "checked_add32 a b = (if a + b < 2 ^ 32 then Some (a + b) else None)"

lemma checked_add32_Some [res_rules]: "checked_add32 a b = Some c \<longleftrightarrow> c = a + b \<and> a + b < 2 ^ 32"
  by (auto simp: checked_add32_def)

definition from_normal_idx :: "nat \<Rightarrow> nat option" where
  \<comment> \<open>\<open>ChildNumber::from_normal_idx\<close>\<close>
  "from_normal_idx i = (if i < 2 ^ 31 then Some i else None)"

lemma from_normal_idx_Some [res_rules]: "from_normal_idx i = Some j \<longleftrightarrow> j = i \<and> i < 2 ^ 31"
  by (auto simp: from_normal_idx_def)

definition u64_as_i64 :: "nat \<Rightarrow> int" where
  "u64_as_i64 n = (if n < 2 ^ 63 then int n else int n - 2 ^ 64)"

section \<open>Wallet descriptors\<close>

text \<open>
  \<open>WalletDescriptor\<close>: a Vault's descriptor, or the receive and change descriptors of an imported
  wallet with its chain.  Miniscript derives the addresses; an imported branch can refuse to.
\<close>

record imported_descriptor =
  id_chain :: chain_id
  id_receive :: string
  id_change :: string

datatype wallet_descriptor = Vault descriptor | Imported imported_descriptor

datatype branch_error = NoDerivation | NoAddress

record address_api =
  lib_vault_address :: "descriptor \<Rightarrow> bool \<Rightarrow> network \<Rightarrow> nat \<Rightarrow> string"
    \<comment> \<open>\<open>derive(index, secp).address(network).to_string()\<close>; change branch?, normal index\<close>
  lib_branch_address :: "wallet_descriptor \<Rightarrow> bool \<Rightarrow> network \<Rightarrow> nat \<Rightarrow> (branch_error, string) res"
    \<comment> \<open>\<open>at_derivation_index(index)?.address(network)?.to_string()\<close>\<close>
  lib_imported_parses :: "string \<Rightarrow> string \<Rightarrow> chain_id \<Rightarrow> bool"
    \<comment> \<open>the two branch texts are descriptors of an importable wallet\<close>

section \<open>Tables\<close>

record block_chain_tip =
  bt_height :: int
  bt_hash :: block_hash

record tip_row =
  tp_network :: network
  tp_chain :: string
  tp_block_height :: "int option"
  tp_block_hash :: "block_hash option"

record import_row =
  im_chain :: string
  im_receive_descriptor :: string
  im_change_descriptor :: string
  im_birthday :: nat
  im_history_complete :: bool
  im_initial_lookahead :: nat
  im_receive_scanned :: nat
  im_change_scanned :: nat

datatype wallet_kind = VaultKind descriptor | ImportedKind import_row

record wallet_row =
  wl_timestamp :: nat
  wl_kind :: wallet_kind
  wl_deposit_index :: nat
  wl_change_index :: nat
  wl_rescan_timestamp :: "nat option"
  wl_last_poll_timestamp :: "nat option"

record coin_row =
  cr_blockheight :: "int option"
  cr_blocktime :: "nat option"
  cr_outpoint :: outpoint              \<comment> \<open>columns \<open>txid\<close> and \<open>vout\<close>\<close>
  cr_amount_sat :: int
  cr_derivation_index :: nat
  cr_is_change :: bool
  cr_spend_txid :: "txid option"
  cr_spend_block_height :: "int option"
  cr_spend_block_time :: "nat option"
  cr_is_immature :: bool
  cr_is_from_self :: bool

record address_row =
  ad_receive_address :: string
  ad_change_address :: string
  ad_derivation_index :: nat

record tx_row =
  tr_txid :: txid
  tr_tx :: transaction
  tr_num_inputs :: "nat option"
  tr_num_outputs :: "nat option"
  tr_is_coinbase :: bool

record spend_row =
  sp_psbt :: psbt
  sp_txid :: txid
  sp_updated_at :: "nat option"
  sp_broadcast_txid :: "txid option"

datatype label_kind = LabelAddress | LabelOutPoint | LabelTxid

record label_row =
  lb_item :: string
  lb_kind :: label_kind
  lb_value :: string

record wallet_db =
  db_tip :: tip_row
  db_wallet :: wallet_row
  db_discovery :: "nat option"         \<comment> \<open>\<open>import_discovery\<close>: its one optional row\<close>
  db_coins :: "coin_row list"
  db_addresses :: "address_row list"
  db_transactions :: "tx_row list"
  db_spends :: "spend_row list"
  db_label_rows :: "label_row list"

section \<open>Coins\<close>

record block_info =
  bi_height :: int
  bi_time :: nat

record coin =
  cn_outpoint :: outpoint
  cn_is_immature :: bool
  cn_block_info :: "block_info option"
  cn_amount :: nat
  cn_derivation_index :: nat
  cn_is_change :: bool
  cn_spend_txid :: "txid option"
  cn_spend_block :: "block_info option"
  cn_is_from_self :: bool

definition pair_columns :: "int option \<Rightarrow> nat option \<Rightarrow> block_info option option" where
  \<comment> \<open>\<open>assert_eq!(height.is_none(), time.is_none())\<close>, then the pair\<close>
  "pair_columns height time = (case (height, time) of
       (None, None) \<Rightarrow> Some None
     | (Some h, Some t) \<Rightarrow> Some (Some \<lparr>bi_height = h, bi_time = t\<rparr>)
     | _ \<Rightarrow> None)"

definition coin_of_row :: "coin_row \<Rightarrow> coin option" where
  \<comment> \<open>\<open>DbCoin::try_from\<close> and \<open>Coin::from\<close>; \<open>None\<close>: one of the assertions fails\<close>
  "coin_of_row r = (case pair_columns (cr_blockheight r) (cr_blocktime r) of
       None \<Rightarrow> None
     | Some block_info \<Rightarrow>
         if cr_amount_sat r < 0 then None
         else (case pair_columns (cr_spend_block_height r) (cr_spend_block_time r) of
             None \<Rightarrow> None
           | Some spend_block \<Rightarrow> Some \<lparr>cn_outpoint = cr_outpoint r, cn_is_immature = cr_is_immature r,
               cn_block_info = block_info, cn_amount = nat (cr_amount_sat r),
               cn_derivation_index = cr_derivation_index r, cn_is_change = cr_is_change r,
               cn_spend_txid = cr_spend_txid r, cn_spend_block = spend_block,
               cn_is_from_self = cr_is_from_self r\<rparr>))"

definition is_confirmed :: "coin \<Rightarrow> bool" where
  "is_confirmed c \<longleftrightarrow> cn_block_info c \<noteq> None"

definition is_spent :: "coin \<Rightarrow> bool" where
  "is_spent c \<longleftrightarrow> cn_spend_txid c \<noteq> None"

datatype coin_status = Unconfirmed | Confirmed | Spending | Spent

definition status_from_arg :: "string \<Rightarrow> coin_status option" where
  "status_from_arg s =
     (if s = ''unconfirmed'' then Some Unconfirmed else if s = ''confirmed'' then Some Confirmed
      else if s = ''spending'' then Some Spending else if s = ''spent'' then Some Spent else None)"

fun status_to_arg :: "coin_status \<Rightarrow> string" where
  "status_to_arg Unconfirmed = ''unconfirmed''"
| "status_to_arg Confirmed = ''confirmed''"
| "status_to_arg Spending = ''spending''"
| "status_to_arg Spent = ''spent''"

fun status_condition :: "coin_status \<Rightarrow> coin_row \<Rightarrow> bool" where
  "status_condition Unconfirmed c \<longleftrightarrow> cr_blocktime c = None \<and> cr_spend_txid c = None"
| "status_condition Confirmed c \<longleftrightarrow> cr_blocktime c \<noteq> None \<and> cr_spend_txid c = None"
| "status_condition Spending c \<longleftrightarrow> cr_spend_txid c \<noteq> None \<and> cr_spend_block_time c = None"
| "status_condition Spent c \<longleftrightarrow> cr_spend_block_time c \<noteq> None"

text \<open>The rows a query selects; an empty filter does not restrict.\<close>

definition select_coins_where :: "coin_status list \<Rightarrow> outpoint list \<Rightarrow> wallet_db \<Rightarrow> coin_row list" where
  "select_coins_where statuses outpoints db =
     filter (\<lambda>c. (statuses = [] \<or> (\<exists>s\<in>set statuses. status_condition s c)) \<and>
                  (outpoints = [] \<or> cr_outpoint c \<in> set outpoints)) (db_coins db)"

fun collect_opt :: "('a \<Rightarrow> 'b option) \<Rightarrow> 'a list \<Rightarrow> 'b list option" where
  "collect_opt f [] = Some []"
| "collect_opt f (x # xs) =
     (case f x of None \<Rightarrow> None | Some y \<Rightarrow> (case collect_opt f xs of None \<Rightarrow> None | Some ys \<Rightarrow> Some (y # ys)))"

lemma collect_opt_Some: "collect_opt f xs = Some ys \<longleftrightarrow> list_all2 (\<lambda>x y. f x = Some y) xs ys"
proof (induction xs arbitrary: ys)
  case (Cons x xs)
  have "collect_opt f (x # xs) = Some ys \<longleftrightarrow> (\<exists>y zs. ys = y # zs \<and> f x = Some y \<and> collect_opt f xs = Some zs)"
    by (auto split: option.splits)
  then show ?case using Cons.IH by (auto simp: list_all2_Cons1)
qed auto

lemma collect_opt_total: "\<forall>x\<in>set xs. f x \<noteq> None \<Longrightarrow> collect_opt f xs = Some (map (the \<circ> f) xs)"
  by (induction xs) (auto split: option.splits)

definition coins :: "coin_status list \<Rightarrow> outpoint list \<Rightarrow> wallet_db \<Rightarrow> coin list option" where
  "coins statuses outpoints db = collect_opt coin_of_row (select_coins_where statuses outpoints db)"

definition list_spending_coins :: "wallet_db \<Rightarrow> coin list option" where
  "list_spending_coins db = coins [Spending] [] db"

definition update_coin :: "(coin_row \<Rightarrow> coin_row) \<Rightarrow> outpoint \<Rightarrow> wallet_db \<Rightarrow> wallet_db" where
  \<comment> \<open>\<open>UPDATE coins SET .. WHERE txid = ? AND vout = ?\<close>\<close>
  "update_coin f p db = db\<lparr>db_coins := map (\<lambda>c. if cr_outpoint c = p then f c else c) (db_coins db)\<rparr>"

definition saved_txids :: "wallet_db \<Rightarrow> txid list" where
  \<comment> \<open>\<open>db_list_saved_txids\<close>\<close>
  "saved_txids db = map tr_txid (db_transactions db)"

definition insert_coin :: "wallet_db \<Rightarrow> coin \<Rightarrow> wallet_db option" where
  "insert_coin db c =
     (if cn_outpoint c \<in> cr_outpoint ` set (db_coins db) then None
      else if op_txid (cn_outpoint c) \<notin> set (saved_txids db) then None
      else Some (db\<lparr>db_coins := db_coins db @
        [\<lparr>cr_blockheight = None, cr_blocktime = None, cr_outpoint = cn_outpoint c,
          cr_amount_sat = u64_as_i64 (cn_amount c), cr_derivation_index = cn_derivation_index c,
          cr_is_change = cn_is_change c, cr_spend_txid = None, cr_spend_block_height = None,
          cr_spend_block_time = None, cr_is_immature = cn_is_immature c, cr_is_from_self = False\<rparr>]\<rparr>))"

definition new_unspent_coins :: "coin list \<Rightarrow> wallet_db \<Rightarrow> wallet_db option" where
  "new_unspent_coins cs db = try_fold insert_coin db cs"

definition remove_coins :: "outpoint list \<Rightarrow> wallet_db \<Rightarrow> wallet_db" where
  "remove_coins outpoints db =
     foldl (\<lambda>db p. db\<lparr>db_coins := filter (\<lambda>c. cr_outpoint c \<noteq> p) (db_coins db)\<rparr>) db outpoints"

definition confirm_coins :: "(outpoint \<times> int \<times> nat) list \<Rightarrow> wallet_db \<Rightarrow> wallet_db" where
  "confirm_coins xs db = foldl (\<lambda>db (p, height, time).
     update_coin (\<lambda>c. c\<lparr>cr_blockheight := Some height, cr_blocktime := Some time, cr_is_immature := False\<rparr>) p db) db xs"

definition has_coin :: "wallet_db \<Rightarrow> outpoint \<Rightarrow> bool" where
  "has_coin db p \<longleftrightarrow> p \<in> cr_outpoint ` set (db_coins db)"

text \<open>Setting \<open>spend_txid\<close> on a row that exists needs the transaction it references.\<close>

definition spend_coin :: "wallet_db \<Rightarrow> outpoint \<times> txid \<Rightarrow> wallet_db option" where
  "spend_coin db = (\<lambda>(p, t). if has_coin db p \<and> t \<notin> set (saved_txids db) then None
     else Some (update_coin (\<lambda>c. c\<lparr>cr_spend_txid := Some t\<rparr>) p db))"

definition spend_coins :: "(outpoint \<times> txid) list \<Rightarrow> wallet_db \<Rightarrow> wallet_db option" where
  "spend_coins xs db = try_fold spend_coin db xs"

definition unspend_coins :: "outpoint list \<Rightarrow> wallet_db \<Rightarrow> wallet_db" where
  "unspend_coins outpoints db = foldl (\<lambda>db p.
     update_coin (\<lambda>c. c\<lparr>cr_spend_txid := None, cr_spend_block_height := None, cr_spend_block_time := None\<rparr>) p db)
     db outpoints"

definition confirm_spend_row :: "wallet_db \<Rightarrow> outpoint \<times> txid \<times> int \<times> nat \<Rightarrow> wallet_db option" where
  "confirm_spend_row db = (\<lambda>(p, t, height, time). if has_coin db p \<and> t \<notin> set (saved_txids db) then None
     else Some (update_coin (\<lambda>c. c\<lparr>cr_spend_txid := Some t, cr_spend_block_height := Some height,
       cr_spend_block_time := Some time\<rparr>) p db))"

definition confirm_spend :: "(outpoint \<times> txid \<times> int \<times> nat) list \<Rightarrow> wallet_db \<Rightarrow> wallet_db option" where
  "confirm_spend xs db = try_fold confirm_spend_row db xs"

section \<open>Transactions\<close>

definition new_tx :: "btc_api \<Rightarrow> wallet_db \<Rightarrow> transaction \<Rightarrow> wallet_db option" where
  \<comment> \<open>the checks on the counts are not conflicts: they fail the statement\<close>
  "new_tx L db tx =
     (if tx_input tx = [] \<or> tx_output tx = [] then None
      else if \<exists>r\<in>set (db_transactions db). tr_txid r = lib_txid L tx \<or> tr_tx r = tx then Some db
      else Some (db\<lparr>db_transactions := db_transactions db @
        [\<lparr>tr_txid = lib_txid L tx, tr_tx = tx, tr_num_inputs = Some (length (tx_input tx)),
          tr_num_outputs = Some (length (tx_output tx)), tr_is_coinbase = lib_is_coinbase L tx\<rparr>]\<rparr>))"

definition new_txs :: "btc_api \<Rightarrow> transaction list \<Rightarrow> wallet_db \<Rightarrow> wallet_db option" where
  "new_txs L txs db = try_fold (new_tx L) db txs"

section \<open>The coins that come from the wallet itself\<close>

definition spends_from :: "int \<Rightarrow> txid \<Rightarrow> coin_row \<Rightarrow> bool" where
  \<comment> \<open>a row of the subquery's group: spent by the transaction, unconfirmed or after the given height\<close>
  "spends_from h t c \<longleftrightarrow> cr_spend_txid c = Some t \<and>
     (case cr_spend_block_height c of None \<Rightarrow> True | Some sh \<Rightarrow> sh > h)"

definition counted :: "coin_row \<Rightarrow> bool" where
  "counted c \<longleftrightarrow> cr_blockheight c \<noteq> None \<or> cr_is_from_self c"

definition spend_count :: "int \<Rightarrow> coin_row list \<Rightarrow> txid \<Rightarrow> nat" where
  "spend_count h cs t = length (filter (\<lambda>c. spends_from h t c \<and> counted c) cs)"

definition all_inputs_ours :: "int \<Rightarrow> wallet_db \<Rightarrow> txid \<Rightarrow> bool" where
  \<comment> \<open>the join of \<open>transactions\<close> with the grouped spends\<close>
  "all_inputs_ours h db t \<longleftrightarrow> (\<exists>r\<in>set (db_transactions db). tr_txid r = t \<and>
     (\<exists>c\<in>set (db_coins db). spends_from h t c) \<and> tr_num_inputs r = Some (spend_count h (db_coins db) t))"

definition marks_from_self :: "int \<Rightarrow> wallet_db \<Rightarrow> coin_row \<Rightarrow> bool" where
  "marks_from_self h db c \<longleftrightarrow> all_inputs_ours h db (op_txid (cr_outpoint c)) \<and>
     (case cr_blockheight c of None \<Rightarrow> True | Some bh \<Rightarrow> bh > h) \<and> \<not> cr_is_from_self c"

definition from_self_pass :: "int \<Rightarrow> wallet_db \<Rightarrow> wallet_db" where
  "from_self_pass h db = db\<lparr>db_coins :=
     map (\<lambda>c. if marks_from_self h db c then c\<lparr>cr_is_from_self := True\<rparr> else c) (db_coins db)\<rparr>"

definition from_self_updated :: "int \<Rightarrow> wallet_db \<Rightarrow> nat" where
  "from_self_updated h db = length (filter (marks_from_self h db) (db_coins db))"

fun from_self_loop :: "nat \<Rightarrow> int \<Rightarrow> nat \<Rightarrow> wallet_db \<Rightarrow> wallet_db \<times> nat" where
  \<comment> \<open>the iterations left, and the rows the last one updated\<close>
  "from_self_loop 0 h updated db = (db, updated)"
| "from_self_loop (Suc n) h updated db =
     (if from_self_updated h db = 0 then (db, 0)
      else from_self_loop n h (from_self_updated h db) (from_self_pass h db))"

definition unconfirmed_not_self :: "wallet_db \<Rightarrow> nat" where
  "unconfirmed_not_self db =
     length (filter (\<lambda>c. cr_blockheight c = None \<and> \<not> cr_is_from_self c) (db_coins db))"

definition update_coins_from_self :: "int \<Rightarrow> wallet_db \<Rightarrow> wallet_db option" where
  \<comment> \<open>\<open>None\<close>: the final assertion fails\<close>
  "update_coins_from_self h db =
     (case from_self_loop (unconfirmed_not_self db + 2) h 0 db of (db', updated) \<Rightarrow>
        if updated = 0 then Some db' else None)"

section \<open>The tip\<close>

definition chain_tip :: "wallet_db \<Rightarrow> block_chain_tip option" where
  "chain_tip db = (case (tp_block_height (db_tip db), tp_block_hash (db_tip db)) of
       (Some height, Some hash) \<Rightarrow> Some \<lparr>bt_height = height, bt_hash = hash\<rparr>
     | _ \<Rightarrow> None)"

definition set_tip :: "block_chain_tip \<Rightarrow> tip_row \<Rightarrow> tip_row" where
  "set_tip tip r = r\<lparr>tp_block_height := Some (bt_height tip), tp_block_hash := Some (bt_hash tip)\<rparr>"

definition update_tip :: "block_chain_tip \<Rightarrow> wallet_db \<Rightarrow> wallet_db" where
  "update_tip tip db = db\<lparr>db_tip := set_tip tip (db_tip db)\<rparr>"

definition above :: "int \<Rightarrow> int option \<Rightarrow> bool" where
  \<comment> \<open>\<open>column > ?\<close>, which a null column does not satisfy\<close>
  "above h v = (case v of None \<Rightarrow> False | Some x \<Rightarrow> x > h)"

definition unconfirm_above :: "int \<Rightarrow> coin_row \<Rightarrow> coin_row" where
  "unconfirm_above h c = (if above h (cr_blockheight c)
     then c\<lparr>cr_blockheight := None, cr_blocktime := None, cr_spend_block_height := None, cr_spend_block_time := None\<rparr>
     else c)"

definition unconfirm_spend_above :: "int \<Rightarrow> coin_row \<Rightarrow> coin_row" where
  "unconfirm_spend_above h c = (if above h (cr_spend_block_height c)
     then c\<lparr>cr_spend_block_height := None, cr_spend_block_time := None\<rparr> else c)"

definition forget_from_self :: "coin_row \<Rightarrow> coin_row" where
  "forget_from_self c = (if cr_blockheight c = None then c\<lparr>cr_is_from_self := False\<rparr> else c)"

definition rollback_tip :: "block_chain_tip \<Rightarrow> wallet_db \<Rightarrow> wallet_db" where
  "rollback_tip tip db = db\<lparr>
     db_coins := map forget_from_self (map (unconfirm_spend_above (bt_height tip))
       (map (unconfirm_above (bt_height tip)) (db_coins db))),
     db_tip := set_tip tip (db_tip db)\<rparr>"

section \<open>The wallet row\<close>

definition set_wallet_rescan_timestamp :: "nat \<Rightarrow> wallet_db \<Rightarrow> wallet_db" where
  "set_wallet_rescan_timestamp timestamp db =
     db\<lparr>db_wallet := (db_wallet db)\<lparr>wl_rescan_timestamp := Some timestamp\<rparr>\<rparr>"

definition complete_wallet_rescan :: "wallet_db \<Rightarrow> wallet_db option" where
  "complete_wallet_rescan db = (case wl_rescan_timestamp (db_wallet db) of
       None \<Rightarrow> None
     | Some timestamp \<Rightarrow> Some (db\<lparr>db_wallet := (db_wallet db)\<lparr>
         wl_timestamp := min timestamp (wl_timestamp (db_wallet db)), wl_rescan_timestamp := None\<rparr>\<rparr>))"

definition set_wallet_last_poll_timestamp :: "nat \<Rightarrow> wallet_db \<Rightarrow> wallet_db" where
  "set_wallet_last_poll_timestamp timestamp db =
     db\<lparr>db_wallet := (db_wallet db)\<lparr>wl_last_poll_timestamp := Some timestamp\<rparr>\<rparr>"

end
