(* ===== verification/Wallet_Coins.thy ===== *)
theory Wallet_Coins
  imports Wallet_Db
begin

text \<open>
  The coins table: the invariant that every method keeps (what the decoder asserts, plus the
  uniqueness and the references the schema declares), the four exclusive coin statuses, what a
  rollback undoes, and the loop that marks the coins coming from the wallet itself, compared
  with its declarative meaning.
\<close>

section \<open>The invariant\<close>

definition wf_coin_row :: "coin_row \<Rightarrow> bool" where
  "wf_coin_row c \<longleftrightarrow> (cr_blockheight c = None \<longleftrightarrow> cr_blocktime c = None) \<and>
     (cr_spend_block_height c = None \<longleftrightarrow> cr_spend_block_time c = None) \<and>
     (cr_spend_block_time c \<noteq> None \<longrightarrow> cr_spend_txid c \<noteq> None) \<and> 0 \<le> cr_amount_sat c"

definition coin_refs :: "txid set \<Rightarrow> coin_row \<Rightarrow> bool" where
  "coin_refs T c \<longleftrightarrow> op_txid (cr_outpoint c) \<in> T \<and> set_option (cr_spend_txid c) \<subseteq> T"

definition coins_ok :: "wallet_db \<Rightarrow> bool" where
  "coins_ok db \<longleftrightarrow> distinct (map cr_outpoint (db_coins db)) \<and>
     (\<forall>c\<in>set (db_coins db). wf_coin_row c \<and> coin_refs (set (saved_txids db)) c)"

definition txs_ok :: "btc_api \<Rightarrow> wallet_db \<Rightarrow> bool" where
  "txs_ok L db \<longleftrightarrow> distinct (saved_txids db) \<and> (\<forall>r\<in>set (db_transactions db). tr_txid r = lib_txid L (tr_tx r) \<and>
     tr_num_inputs r = Some (length (tx_input (tr_tx r))) \<and> tr_num_outputs r = Some (length (tx_output (tr_tx r))) \<and>
     tx_input (tr_tx r) \<noteq> [] \<and> tx_output (tr_tx r) \<noteq> [] \<and> tr_is_coinbase r = lib_is_coinbase L (tr_tx r))"

lemma coins_okI:
  assumes "distinct (map cr_outpoint (db_coins db))"
    and "\<And>c. c \<in> set (db_coins db) \<Longrightarrow> wf_coin_row c \<and> coin_refs (set (saved_txids db)) c"
  shows "coins_ok db"
  using assms by (simp add: coins_ok_def)

text \<open>A statement that rewrites rows in place keeps the invariant when the rewriting does.\<close>

lemma coins_ok_map:
  assumes "coins_ok db" and "\<And>c. c \<in> set (db_coins db) \<Longrightarrow> cr_outpoint (f c) = cr_outpoint c"
    and "\<And>c. \<lbrakk>c \<in> set (db_coins db); wf_coin_row c; coin_refs (set (saved_txids db)) c\<rbrakk>
      \<Longrightarrow> wf_coin_row (f c) \<and> coin_refs (set (saved_txids db)) (f c)"
  shows "coins_ok (db\<lparr>db_coins := map f (db_coins db)\<rparr>)"
proof (rule coins_okI)
  have eq: "map cr_outpoint (db_coins (db\<lparr>db_coins := map f (db_coins db)\<rparr>)) = map cr_outpoint (db_coins db)"
    using assms(2) by simp
  show "distinct (map cr_outpoint (db_coins (db\<lparr>db_coins := map f (db_coins db)\<rparr>)))"
    unfolding eq using assms(1) by (simp add: coins_ok_def)
qed (use assms(1,3) in \<open>auto simp: coins_ok_def saved_txids_def\<close>)

lemma saved_txids_coins [simp]: "saved_txids (db\<lparr>db_coins := cs\<rparr>) = saved_txids db"
  by (simp add: saved_txids_def)

lemma txs_ok_coins [simp]: "txs_ok L (db\<lparr>db_coins := cs\<rparr>) = txs_ok L db"
  by (simp add: txs_ok_def)

lemma update_coin_simps [simp]:
  "saved_txids (update_coin f p db) = saved_txids db" "txs_ok L (update_coin f p db) = txs_ok L db"
  "db_transactions (update_coin f p db) = db_transactions db"
  by (simp_all add: update_coin_def)

lemma coins_ok_update_coin:
  assumes "coins_ok db"
    and "\<And>c. \<lbrakk>c \<in> set (db_coins db); cr_outpoint c = p; wf_coin_row c; coin_refs (set (saved_txids db)) c\<rbrakk>
      \<Longrightarrow> cr_outpoint (f c) = p \<and> wf_coin_row (f c) \<and> coin_refs (set (saved_txids db)) (f c)"
  shows "coins_ok (update_coin f p db)"
  unfolding update_coin_def by (rule coins_ok_map) (use assms in \<open>auto simp: coins_ok_def\<close>)

lemma coins_ok_insert:
  assumes "insert_coin db c = Some db'" and "coins_ok db" and "cn_amount c < 2 ^ 63"
  shows "coins_ok db'"
proof -
  from assms(1) have new: "cn_outpoint c \<notin> cr_outpoint ` set (db_coins db)" "op_txid (cn_outpoint c) \<in> set (saved_txids db)"
    and db': "db' = db\<lparr>db_coins := db_coins db' \<rparr>" "db_coins db' = db_coins db @ [last (db_coins db')]"
    and row: "wf_coin_row (last (db_coins db'))" "cr_outpoint (last (db_coins db')) = cn_outpoint c"
      "cr_spend_txid (last (db_coins db')) = None"
    using assms(3) by (auto simp: insert_coin_def wf_coin_row_def u64_as_i64_def split: if_splits)
  have "coins_ok (db\<lparr>db_coins := db_coins db @ [last (db_coins db')]\<rparr>)"
    using assms(2) new row by (auto simp: coins_ok_def coin_refs_def)
  then show ?thesis using db' by simp
qed

lemma insert_coin_frame:
  "insert_coin db c = Some db' \<Longrightarrow> \<exists>cs. db' = db\<lparr>db_coins := cs\<rparr>"
  by (auto simp: insert_coin_def split: if_splits)

lemma coins_ok_new_unspent:
  assumes "new_unspent_coins cs db = Some db'" and "coins_ok db" and "\<forall>c\<in>set cs. cn_amount c < 2 ^ 63"
  shows "coins_ok db'"
  using assms(1) unfolding new_unspent_coins_def
  by (rule try_fold_invariant [where P = coins_ok]) (use assms(2,3) coins_ok_insert in auto)

lemma coins_ok_remove: "coins_ok db \<Longrightarrow> coins_ok (remove_coins outpoints db)"
  unfolding remove_coins_def
proof (induction outpoints arbitrary: db)
  case (Cons p ps)
  have "coins_ok (db\<lparr>db_coins := filter (\<lambda>c. cr_outpoint c \<noteq> p) (db_coins db)\<rparr>)"
    using Cons.prems by (auto simp: coins_ok_def intro: distinct_map_filter)
  then show ?case using Cons.IH by simp
qed simp

lemma coins_ok_confirm: "coins_ok db \<Longrightarrow> coins_ok (confirm_coins xs db)"
  unfolding confirm_coins_def
proof (induction xs arbitrary: db)
  case (Cons x xs)
  obtain p height time where x: "x = (p, height, time)" by (cases x)
  have "coins_ok (update_coin (\<lambda>c. c\<lparr>cr_blockheight := Some height, cr_blocktime := Some time,
      cr_is_immature := False\<rparr>) p db)"
    using Cons.prems by (rule coins_ok_update_coin) (auto simp: wf_coin_row_def coin_refs_def)
  then show ?case using Cons.IH x by simp
qed simp

lemma coins_ok_unspend: "coins_ok db \<Longrightarrow> coins_ok (unspend_coins ps db)"
  unfolding unspend_coins_def
proof (induction ps arbitrary: db)
  case (Cons p ps)
  have "coins_ok (update_coin (\<lambda>c. c\<lparr>cr_spend_txid := None, cr_spend_block_height := None,
      cr_spend_block_time := None\<rparr>) p db)"
    using Cons.prems by (rule coins_ok_update_coin) (auto simp: wf_coin_row_def coin_refs_def)
  then show ?case using Cons.IH by simp
qed simp

lemma coins_ok_spend:
  assumes "spend_coins xs db = Some db'" and "coins_ok db"
  shows "coins_ok db'"
proof -
  have "coins_ok t" if "coins_ok s" "spend_coin s x = Some t" for s t x
    using that by (auto simp: spend_coin_def has_coin_def wf_coin_row_def coin_refs_def
        split: prod.splits if_splits intro!: coins_ok_update_coin)
  then show ?thesis using try_fold_invariant [of spend_coin db xs db' coins_ok] assms
    unfolding spend_coins_def by blast
qed

lemma coins_ok_confirm_spend:
  assumes "confirm_spend xs db = Some db'" and "coins_ok db"
  shows "coins_ok db'"
proof -
  have "coins_ok t" if "coins_ok s" "confirm_spend_row s x = Some t" for s t x
    using that by (auto simp: confirm_spend_row_def has_coin_def wf_coin_row_def coin_refs_def
        split: prod.splits if_splits intro!: coins_ok_update_coin)
  then show ?thesis using try_fold_invariant [of confirm_spend_row db xs db' coins_ok] assms
    unfolding confirm_spend_def by blast
qed

lemma coins_ok_mono:
  assumes "coins_ok db" and "db_coins db' = db_coins db" and "set (saved_txids db) \<subseteq> set (saved_txids db')"
  shows "coins_ok db'"
  using assms unfolding coins_ok_def coin_refs_def by (metis order_trans subsetD)

lemma new_tx_ok:
  assumes "new_tx L db tx = Some db'" and "coins_ok db" and "txs_ok L db"
  shows "coins_ok db' \<and> txs_ok L db'"
proof -
  have "db_coins db' = db_coins db \<and> set (saved_txids db) \<subseteq> set (saved_txids db')"
    using assms(1) by (auto simp: new_tx_def saved_txids_def split: if_splits)
  then have "coins_ok db'" using coins_ok_mono assms(2) by blast
  moreover have "txs_ok L db'"
    using assms(1,3) by (force simp: new_tx_def txs_ok_def saved_txids_def split: if_splits)
  ultimately show ?thesis ..
qed

lemma new_txs_ok:
  assumes "new_txs L txs db = Some db'" and "coins_ok db" and "txs_ok L db"
  shows "coins_ok db' \<and> txs_ok L db'"
  using assms(1) unfolding new_txs_def
  by (rule try_fold_invariant [where P = "\<lambda>db. coins_ok db \<and> txs_ok L db"]) (use assms(2,3) new_tx_ok in auto)

section \<open>Coin statuses\<close>

lemma coin_of_row_total: "wf_coin_row r \<Longrightarrow> coin_of_row r \<noteq> None"
  by (auto simp: wf_coin_row_def coin_of_row_def pair_columns_def split: option.splits)

definition row_status :: "coin_row \<Rightarrow> coin_status" where
  "row_status c = (if cr_spend_block_time c \<noteq> None then Spent else if cr_spend_txid c \<noteq> None then Spending
     else if cr_blocktime c \<noteq> None then Confirmed else Unconfirmed)"

lemma status_condition_iff: "wf_coin_row c \<Longrightarrow> status_condition s c \<longleftrightarrow> row_status c = s"
  by (cases s) (auto simp: wf_coin_row_def row_status_def)

text \<open>
  C32.  Reading the coins never fails on a database that satisfies the invariant, and the four
  statuses are exclusive and exhaustive: a query by status and outpoint returns exactly the
  coins with one of the statuses and one of the outpoints, and every coin is found under one
  status only.
\<close>

theorem coins_query_exact:
  assumes "coins_ok db"
  shows "\<exists>cs. coins statuses outpoints db = Some cs \<and>
    map Some cs = map coin_of_row (filter (\<lambda>c. (statuses = [] \<or> row_status c \<in> set statuses) \<and>
      (outpoints = [] \<or> cr_outpoint c \<in> set outpoints)) (db_coins db)) \<and>
    (\<forall>c\<in>set (db_coins db). \<exists>!s. status_condition s c)"
proof -
  have ok: "\<forall>c\<in>set (db_coins db). wf_coin_row c" using assms by (simp add: coins_ok_def)
  have sel: "select_coins_where statuses outpoints db = filter (\<lambda>c. (statuses = [] \<or> row_status c \<in> set statuses) \<and>
      (outpoints = [] \<or> cr_outpoint c \<in> set outpoints)) (db_coins db)"
    unfolding select_coins_where_def using ok by (auto simp: status_condition_iff intro!: filter_cong)
  have total: "\<forall>c\<in>set (select_coins_where statuses outpoints db). coin_of_row c \<noteq> None"
    using ok coin_of_row_total by (auto simp: select_coins_where_def)
  then have "map Some (map (the \<circ> coin_of_row) (select_coins_where statuses outpoints db)) =
      map coin_of_row (select_coins_where statuses outpoints db)" by auto
  moreover have "\<forall>c\<in>set (db_coins db). \<exists>!s. status_condition s c" using ok by (auto simp: status_condition_iff)
  ultimately show ?thesis using collect_opt_total [OF total] unfolding coins_def sel by blast
qed

section \<open>Rolling back\<close>

definition rollback_row :: "int \<Rightarrow> coin_row \<Rightarrow> coin_row" where
  "rollback_row h c = forget_from_self (unconfirm_spend_above h (unconfirm_above h c))"

lemma rollback_tip_rows:
  "rollback_tip tip db = db\<lparr>db_coins := map (rollback_row (bt_height tip)) (db_coins db), db_tip := set_tip tip (db_tip db)\<rparr>"
  by (simp add: rollback_tip_def rollback_row_def comp_def)

lemmas rollback_row_defs = rollback_row_def forget_from_self_def unconfirm_spend_above_def unconfirm_above_def above_def

lemma rollback_row_kept:
  "cr_outpoint (rollback_row h c) = cr_outpoint c" "cr_amount_sat (rollback_row h c) = cr_amount_sat c"
  "cr_derivation_index (rollback_row h c) = cr_derivation_index c" "cr_is_change (rollback_row h c) = cr_is_change c"
  "cr_spend_txid (rollback_row h c) = cr_spend_txid c" "cr_is_immature (rollback_row h c) = cr_is_immature c"
  by (simp_all add: rollback_row_defs)

lemma rollback_row_below:
  "\<not> above h (cr_blockheight (rollback_row h c)) \<and> \<not> above h (cr_spend_block_height (rollback_row h c))"
  by (simp add: rollback_row_defs split: option.split)

lemma rollback_row_compose: "h' \<le> h \<Longrightarrow> rollback_row h' (rollback_row h c) = rollback_row h' c"
  by (simp add: rollback_row_defs split: option.split)

lemma wf_rollback_row: "wf_coin_row c \<Longrightarrow> wf_coin_row (rollback_row h c)"
  by (auto simp: rollback_row_defs wf_coin_row_def split: option.splits)

lemma coins_ok_tip [simp]: "coins_ok (db\<lparr>db_tip := t\<rparr>) = coins_ok db" "txs_ok L (db\<lparr>db_tip := t\<rparr>) = txs_ok L db"
  by (simp_all add: coins_ok_def txs_ok_def saved_txids_def)

lemma rollback_row_exact:
  "rollback_row h c = c\<lparr>cr_blockheight := if above h (cr_blockheight c) then None else cr_blockheight c,
     cr_blocktime := if above h (cr_blockheight c) then None else cr_blocktime c,
     cr_spend_block_height := if above h (cr_blockheight c) \<or> above h (cr_spend_block_height c) then None else cr_spend_block_height c,
     cr_spend_block_time := if above h (cr_blockheight c) \<or> above h (cr_spend_block_height c) then None else cr_spend_block_time c,
     cr_is_from_self := cr_is_from_self c \<and> \<not> above h (cr_blockheight c) \<and> cr_blockheight c \<noteq> None\<rparr>"
  by (cases c) (simp add: rollback_row_defs)

lemma coins_ok_rollback: "coins_ok db \<Longrightarrow> coins_ok (rollback_tip tip db)"
  unfolding rollback_tip_rows coins_ok_tip
  by (rule coins_ok_map) (auto simp: rollback_row_kept wf_rollback_row coin_refs_def)

text \<open>
  C30.  A rollback to a block forgets exactly what came after it.  Afterwards that block is the
  tip and nothing is confirmed or spent above it.  Every coin is still there; its own block is
  forgotten if it lies above the tip, its spending block if that or the coin's own block does, its
  mark as the wallet's own if it is then unconfirmed, and nothing else of it changes.  The other
  tables are untouched, the invariant is kept, and rolling back again to an earlier block is the same as having gone there
  at once (so to the same block: nothing changes).
\<close>

theorem rollback_exact:
  assumes "coins_ok db" and "bt_height earlier \<le> bt_height tip" and "db' = rollback_tip tip db"
  shows "chain_tip db' = Some tip \<and> coins_ok db' \<and>
    (\<forall>c\<in>set (db_coins db'). \<not> above (bt_height tip) (cr_blockheight c) \<and> \<not> above (bt_height tip) (cr_spend_block_height c) \<and>
      (cr_blockheight c = None \<longrightarrow> \<not> cr_is_from_self c)) \<and>
    list_all2 (\<lambda>c c'. \<exists>gone unspent. gone = above (bt_height tip) (cr_blockheight c) \<and>
      unspent = (gone \<or> above (bt_height tip) (cr_spend_block_height c)) \<and>
      c' = c\<lparr>cr_blockheight := if gone then None else cr_blockheight c, cr_blocktime := if gone then None else cr_blocktime c,
        cr_spend_block_height := if unspent then None else cr_spend_block_height c,
        cr_spend_block_time := if unspent then None else cr_spend_block_time c,
        cr_is_from_self := cr_is_from_self c \<and> \<not> gone \<and> cr_blockheight c \<noteq> None\<rparr>) (db_coins db) (db_coins db') \<and>
    db' = db\<lparr>db_coins := db_coins db', db_tip := db_tip db'\<rparr> \<and>
    rollback_tip earlier db' = rollback_tip earlier db"
proof -
  have "chain_tip db' = Some tip" by (simp add: assms(3) chain_tip_def rollback_tip_def set_tip_def)
  moreover have "coins_ok db'" using coins_ok_rollback assms by simp
  moreover have "cr_blockheight (rollback_row h c) = None \<Longrightarrow> \<not> cr_is_from_self (rollback_row h c)" for h c
    by (simp add: rollback_row_def forget_from_self_def split: if_splits)
  then have "\<forall>c\<in>set (db_coins db'). \<not> above (bt_height tip) (cr_blockheight c) \<and>
      \<not> above (bt_height tip) (cr_spend_block_height c) \<and> (cr_blockheight c = None \<longrightarrow> \<not> cr_is_from_self c)"
    unfolding assms(3) rollback_tip_rows using rollback_row_below by auto
  moreover have "list_all2 (\<lambda>c c'. \<exists>gone unspent. gone = above (bt_height tip) (cr_blockheight c) \<and>
      unspent = (gone \<or> above (bt_height tip) (cr_spend_block_height c)) \<and>
      c' = c\<lparr>cr_blockheight := if gone then None else cr_blockheight c, cr_blocktime := if gone then None else cr_blocktime c,
        cr_spend_block_height := if unspent then None else cr_spend_block_height c,
        cr_spend_block_time := if unspent then None else cr_spend_block_time c,
        cr_is_from_self := cr_is_from_self c \<and> \<not> gone \<and> cr_blockheight c \<noteq> None\<rparr>) (db_coins db) (db_coins db')"
    unfolding assms(3) rollback_tip_rows
    by (simp add: list.rel_map rollback_row_exact list.rel_refl_strong)
  moreover have "db' = db\<lparr>db_coins := db_coins db', db_tip := db_tip db'\<rparr>"
    unfolding assms(3) rollback_tip_rows by simp
  moreover have "rollback_tip earlier db' = rollback_tip earlier db"
    unfolding assms(3) rollback_tip_rows using assms(2) by (simp add: rollback_row_compose comp_def set_tip_def)
  ultimately show ?thesis by blast
qed

end
