(* ===== verification/Wallet_Addresses.thy ===== *)
theory Wallet_Addresses
  imports Wallet_Coins
begin

text \<open>
  The derivation indices of the wallet and the table of its addresses
  (\<open>coincubed/src/database/sqlite/{mod,utils}.rs\<close>): creating a Vault or an imported database,
  raising an index, restoring one, and looking an address up.  The invariant is the address
  window: the table holds the addresses of the indices below the larger of the two branch
  indices plus the look-ahead, in order and nothing else.
\<close>

section \<open>Loops that return an error\<close>

fun fold_res :: "('s \<Rightarrow> 'a \<Rightarrow> ('e, 's) res) \<Rightarrow> 's \<Rightarrow> 'a list \<Rightarrow> ('e, 's) res" where
  "fold_res f s [] = Inr s"
| "fold_res f s (x # xs) = bind_res (f s x) (\<lambda>s'. fold_res f s' xs)"

section \<open>Creating the database\<close>

definition LOOK_AHEAD_LIMIT :: nat where "LOOK_AHEAD_LIMIT = 200"

datatype db_error =
    ChainMismatch chain_id chain_id     \<comment> \<open>expected, found\<close>
  | MalformedIdentity string
  | UnusableBranch branch_error         \<comment> \<open>\<open>MalformedIdentity\<close> with the library's message\<close>
  | Rusqlite

definition insert_address :: "wallet_db \<Rightarrow> string \<Rightarrow> string \<Rightarrow> nat \<Rightarrow> wallet_db option" where
  "insert_address db receive change index =
     (if \<exists>r\<in>set (db_addresses db). ad_receive_address r = receive \<or> ad_change_address r = change \<or>
           ad_derivation_index r = index then None
      else Some (db\<lparr>db_addresses := db_addresses db @
        [\<lparr>ad_receive_address = receive, ad_change_address = change, ad_derivation_index = index\<rparr>]\<rparr>))"

definition fresh_tables :: "chain_id \<Rightarrow> wallet_row \<Rightarrow> nat option \<Rightarrow> wallet_db" where
  "fresh_tables chain wallet discovery =
     \<lparr>db_tip = \<lparr>tp_network = bitcoin_network chain, tp_chain = dir_name chain, tp_block_height = None, tp_block_hash = None\<rparr>,
      db_wallet = wallet, db_discovery = discovery, db_coins = [], db_addresses = [], db_transactions = [],
      db_spends = [], db_label_rows = []\<rparr>"

definition create_fresh_db :: "address_api \<Rightarrow> chain_id \<Rightarrow> descriptor \<Rightarrow> nat \<Rightarrow> (db_error, wallet_db) res" where
  \<comment> \<open>at the current version of the schema\<close>
  "create_fresh_db A chain d timestamp = ok_or Rusqlite
     (try_fold (\<lambda>db index. insert_address db (lib_vault_address A d False (bitcoin_network chain) index)
          (lib_vault_address A d True (bitcoin_network chain) index) index)
        (fresh_tables chain \<lparr>wl_timestamp = timestamp, wl_kind = VaultKind d, wl_deposit_index = 0, wl_change_index = 0,
           wl_rescan_timestamp = None, wl_last_poll_timestamp = None\<rparr> None)
        [0..<LOOK_AHEAD_LIMIT])"

definition insert_branch_address :: "address_api \<Rightarrow> imported_descriptor \<Rightarrow> network \<Rightarrow> wallet_db \<Rightarrow> nat \<Rightarrow> (db_error, wallet_db) res" where
  "insert_branch_address A d network db index =
     bind_res (map_err UnusableBranch (lib_branch_address A (Imported d) False network index)) (\<lambda>receive.
     bind_res (map_err UnusableBranch (lib_branch_address A (Imported d) True network index)) (\<lambda>change.
     ok_or Rusqlite (insert_address db receive change index)))"

definition create_imported_db ::
  "address_api \<Rightarrow> chain_id \<Rightarrow> imported_descriptor \<Rightarrow> nat \<Rightarrow> nat \<Rightarrow> (db_error, wallet_db) res" where
  "create_imported_db A chain d birthday initial_lookahead =
     guard_res (id_chain d \<noteq> chain) (ChainMismatch chain (id_chain d))
     (guard_res (\<not> (1 \<le> initial_lookahead \<and> initial_lookahead \<le> 10000)) (MalformedIdentity ''import lookahead must be 1..10000'')
     (fold_res (insert_branch_address A d (bitcoin_network chain))
        (fresh_tables chain \<lparr>wl_timestamp = birthday,
           wl_kind = ImportedKind \<lparr>im_chain = dir_name chain, im_receive_descriptor = id_receive d,
             im_change_descriptor = id_change d, im_birthday = birthday, im_history_complete = False,
             im_initial_lookahead = initial_lookahead, im_receive_scanned = 0, im_change_scanned = 0\<rparr>,
           wl_deposit_index = 0, wl_change_index = 0, wl_rescan_timestamp = None, wl_last_poll_timestamp = None\<rparr>
           (Some initial_lookahead))
        [0..<initial_lookahead]))"

section \<open>Reading the identity\<close>

definition tip_decodes :: "wallet_db \<Rightarrow> bool" where
  \<comment> \<open>\<open>DbTip::try_from\<close> accepts the row\<close>
  "tip_decodes db = (case from_dir_name (tp_chain (db_tip db)) of
       None \<Rightarrow> False
     | Some chain \<Rightarrow> bitcoin_network chain = tp_network (db_tip db))"

definition wallet_desc :: "address_api \<Rightarrow> wallet_db \<Rightarrow> wallet_descriptor option" where
  \<comment> \<open>\<open>DbWallet::try_from\<close>\<close>
  "wallet_desc A db = (case wl_kind (db_wallet db) of
       VaultKind d \<Rightarrow> Some (Vault d)
     | ImportedKind r \<Rightarrow> (case from_dir_name (im_chain r) of
           None \<Rightarrow> None
         | Some chain \<Rightarrow> if lib_imported_parses A (im_receive_descriptor r) (im_change_descriptor r) chain
             then Some (Imported \<lparr>id_chain = chain, id_receive = im_receive_descriptor r, id_change = im_change_descriptor r\<rparr>)
             else None))"

definition lookahead :: "wallet_db \<Rightarrow> nat" where
  \<comment> \<open>\<open>COALESCE(import_initial_lookahead, LOOK_AHEAD_LIMIT)\<close>\<close>
  "lookahead db = (case wl_kind (db_wallet db) of VaultKind _ \<Rightarrow> LOOK_AHEAD_LIMIT | ImportedKind r \<Rightarrow> im_initial_lookahead r)"

section \<open>Raising an index\<close>

definition branch_index :: "bool \<Rightarrow> wallet_db \<Rightarrow> nat" where
  "branch_index change db = (if change then wl_change_index (db_wallet db) else wl_deposit_index (db_wallet db))"

definition set_branch_index :: "bool \<Rightarrow> nat \<Rightarrow> wallet_db \<Rightarrow> wallet_db" where
  "set_branch_index change index db = db\<lparr>db_wallet := (if change then (db_wallet db)\<lparr>wl_change_index := index\<rparr>
     else (db_wallet db)\<lparr>wl_deposit_index := index\<rparr>)\<rparr>"

definition highest_index :: "wallet_db \<Rightarrow> nat" where
  "highest_index db = max (wl_deposit_index (db_wallet db)) (wl_change_index (db_wallet db))"

definition map_lookahead :: "address_api \<Rightarrow> wallet_descriptor \<Rightarrow> network \<Rightarrow> nat \<Rightarrow> wallet_db \<Rightarrow> nat \<Rightarrow> wallet_db option" where
  "map_lookahead A desc network la db index =
     (case checked_add32 index (la - 1) of None \<Rightarrow> None | Some la_index \<Rightarrow>
        (case (lib_branch_address A desc False network la_index, lib_branch_address A desc True network la_index) of
            (Inr receive, Inr change) \<Rightarrow> insert_address db receive change la_index
          | _ \<Rightarrow> None))"

definition set_derivation_index :: "address_api \<Rightarrow> nat \<Rightarrow> bool \<Rightarrow> wallet_db \<Rightarrow> wallet_db option" where
  "set_derivation_index A index change db =
     (if \<not> tip_decodes db then None
      else (case wallet_desc A db of None \<Rightarrow> None | Some desc \<Rightarrow>
        if index \<le> branch_index change db then Some db
        else if highest_index db < index
        then try_fold (map_lookahead A desc (tp_network (db_tip db)) (lookahead db))
               (set_branch_index change index db) [highest_index db + 1..<index + 1]
        else Some (set_branch_index change index db)))"

section \<open>Looking an address up\<close>

definition db_address :: "string \<Rightarrow> wallet_db \<Rightarrow> address_row option option" where
  \<comment> \<open>outer \<open>None\<close>: a row with a hardened index fails the decoder's assertion\<close>
  "db_address address db =
     (let rows = filter (\<lambda>r. ad_receive_address r = address \<or> ad_change_address r = address) (db_addresses db)
      in if \<exists>r\<in>set rows. 2 ^ 31 \<le> ad_derivation_index r then None
         else Some (if rows = [] then None else Some (last rows)))"

definition derivation_index_by_address :: "string \<Rightarrow> wallet_db \<Rightarrow> (nat \<times> bool) option option" where
  "derivation_index_by_address address db =
     map_option (map_option (\<lambda>r. (ad_derivation_index r, address = ad_change_address r))) (db_address address db)"

section \<open>Imported wallets\<close>

definition import_identity :: "chain_id \<Rightarrow> imported_descriptor \<Rightarrow> nat \<Rightarrow> nat \<Rightarrow> wallet_db \<Rightarrow> import_row \<Rightarrow> bool" where
  \<comment> \<open>the stored identity is the attachment's\<close>
  "import_identity chain d birthday initial_lookahead db r \<longleftrightarrow>
     tp_chain (db_tip db) = dir_name chain \<and> tp_network (db_tip db) = bitcoin_network chain \<and>
     im_chain r = dir_name chain \<and> im_receive_descriptor r = id_receive d \<and> im_change_descriptor r = id_change d \<and>
     im_birthday r = birthday \<and> im_initial_lookahead r = initial_lookahead"

definition max_address_index :: "wallet_db \<Rightarrow> nat option" where
  "max_address_index db = (if db_addresses db = [] then None else Some (Max (ad_derivation_index ` set (db_addresses db))))"

definition saturating_add32 :: "nat \<Rightarrow> nat \<Rightarrow> nat" where
  "saturating_add32 a b = min (a + b) (2 ^ 32 - 1)"

definition restore_imported_address_state ::
  "address_api \<Rightarrow> chain_id \<Rightarrow> imported_descriptor \<Rightarrow> nat \<Rightarrow> nat \<Rightarrow> nat \<Rightarrow> nat \<Rightarrow> wallet_db \<Rightarrow> (db_error, wallet_db) res" where
  "restore_imported_address_state A chain d birthday initial_lookahead receive_index change_index db =
     guard_res (id_chain d \<noteq> chain) (ChainMismatch chain (id_chain d))
     (guard_res (receive_index > 1000000 \<or> change_index > 1000000)
        (MalformedIdentity ''imported address index exceeds the supported restore bound'')
     (bind_res (ok_or (MalformedIdentity ''imported address index overflow'')
        (checked_add32 (max receive_index change_index) (initial_lookahead - 1))) (\<lambda>target.
      guard_res (target \<ge> 2 ^ 31) (MalformedIdentity ''imported address index exceeds normal derivation range'')
      (case wl_kind (db_wallet db) of
         VaultKind _ \<Rightarrow> Inl Rusqlite  \<comment> \<open>the import columns are null\<close>
       | ImportedKind r \<Rightarrow>
         guard_res (\<not> import_identity chain d birthday initial_lookahead db r)
           (MalformedIdentity ''imported restore storage does not match the wallet attachment'')
         (let final_receive = max (wl_deposit_index (db_wallet db)) receive_index;
              final_change = max (wl_change_index (db_wallet db)) change_index in
          bind_res (ok_or (MalformedIdentity ''imported address index overflow'')
            (checked_add32 (max final_receive final_change) (initial_lookahead - 1))) (\<lambda>final_target.
          bind_res (fold_res (insert_branch_address A d (bitcoin_network chain)) db
            [(case max_address_index db of None \<Rightarrow> 0 | Some l \<Rightarrow> saturating_add32 l 1)..<final_target + 1]) (\<lambda>db'.
          Inr (db'\<lparr>db_wallet := (db_wallet db')\<lparr>wl_deposit_index := final_receive, wl_change_index := final_change,
            wl_kind := ImportedKind (r\<lparr>im_history_complete :=
              (if final_receive > wl_deposit_index (db_wallet db) \<or> final_change > wl_change_index (db_wallet db)
               then False else im_history_complete r)\<rparr>)\<rparr>\<rparr>))))))))"

definition expand_imported_discovery ::
  "chain_id \<Rightarrow> imported_descriptor \<Rightarrow> nat \<Rightarrow> nat \<Rightarrow> nat \<Rightarrow> wallet_db \<Rightarrow> (db_error, nat \<times> wallet_db) res" where
  "expand_imported_discovery chain d birthday initial_lookahead target db =
     guard_res (id_chain d \<noteq> chain) (ChainMismatch chain (id_chain d))
     (guard_res (\<not> (1 \<le> target \<and> target \<le> 10000) \<or> target < initial_lookahead)
        (MalformedIdentity ''discovery target must be at least the original lookahead and at most 10000'')
     (case wl_kind (db_wallet db) of
        VaultKind _ \<Rightarrow> Inl Rusqlite
      | ImportedKind r \<Rightarrow>
        guard_res (\<not> import_identity chain d birthday initial_lookahead db r)
          (MalformedIdentity ''discovery storage does not match the imported wallet attachment'')
        (let current = (case db_discovery db of None \<Rightarrow> initial_lookahead | Some t \<Rightarrow> t); final_target = max target current in
         if final_target > current
         then Inr (final_target, db\<lparr>db_discovery := Some final_target,
           db_wallet := (db_wallet db)\<lparr>wl_kind := ImportedKind (r\<lparr>im_history_complete := False\<rparr>)\<rparr>\<rparr>)
         else Inr (final_target, db))))"

record imported_history_t =
  ih_birthday :: nat
  ih_initial_lookahead :: nat
  ih_discovery_target :: nat
  ih_receive_scanned :: nat
  ih_change_scanned :: nat
  ih_history_complete :: bool

definition discovery_target :: "wallet_db \<Rightarrow> import_row \<Rightarrow> nat" where
  "discovery_target db r = (case db_discovery db of None \<Rightarrow> im_initial_lookahead r | Some t \<Rightarrow> t)"

definition imported_history :: "wallet_db \<Rightarrow> imported_history_t option" where
  "imported_history db = (case wl_kind (db_wallet db) of
       VaultKind _ \<Rightarrow> None
     | ImportedKind r \<Rightarrow> Some \<lparr>ih_birthday = im_birthday r, ih_initial_lookahead = im_initial_lookahead r,
         ih_discovery_target = discovery_target db r, ih_receive_scanned = im_receive_scanned r,
         ih_change_scanned = im_change_scanned r, ih_history_complete = im_history_complete r\<rparr>)"

definition mark_import_history_pending :: "wallet_db \<Rightarrow> wallet_db option" where
  \<comment> \<open>\<open>None\<close>: no imported row was updated\<close>
  "mark_import_history_pending db = (case wl_kind (db_wallet db) of
       VaultKind _ \<Rightarrow> None
     | ImportedKind r \<Rightarrow> Some (db\<lparr>db_wallet := (db_wallet db)\<lparr>wl_kind := ImportedKind (r\<lparr>im_history_complete := False\<rparr>)\<rparr>\<rparr>))"

definition complete_import_history :: "nat \<Rightarrow> nat \<Rightarrow> wallet_db \<Rightarrow> wallet_db option" where
  \<comment> \<open>the scanned columns are checked to fit 31 bits\<close>
  "complete_import_history receive_scanned change_scanned db = (case wl_kind (db_wallet db) of
       VaultKind _ \<Rightarrow> None
     | ImportedKind r \<Rightarrow>
         if receive_scanned > 2147483647 \<or> change_scanned > 2147483647 then None
         else (let covered = receive_scanned \<ge> wl_deposit_index (db_wallet db) + discovery_target db r \<and>
                     change_scanned \<ge> wl_change_index (db_wallet db) + discovery_target db r in
           Some (db\<lparr>db_wallet := (db_wallet db)\<lparr>
             wl_kind := ImportedKind (r\<lparr>im_receive_scanned := receive_scanned, im_change_scanned := change_scanned,
               im_history_complete := covered\<rparr>),
             wl_timestamp := (if covered then im_birthday r else wl_timestamp (db_wallet db))\<rparr>\<rparr>)))"

section \<open>Documented behaviour of address derivation\<close>

text \<open>
  Every normal index has an address on both branches, hardened indices have none, and the
  addresses of different branches or indices differ (they commit to different keys).  A Vault's
  own derivation gives the same addresses as its public branches.
\<close>

definition branch_addresses :: "address_api \<Rightarrow> wallet_descriptor \<Rightarrow> network \<Rightarrow> bool" where
  "branch_addresses A desc network \<longleftrightarrow>
     (\<forall>b i. i < 2 ^ 31 \<longrightarrow> (\<exists>a. lib_branch_address A desc b network i = Inr a)) \<and>
     (\<forall>b i. 2 ^ 31 \<le> i \<longrightarrow> lib_branch_address A desc b network i = Inl NoDerivation) \<and>
     (\<forall>b i c j a. lib_branch_address A desc b network i = Inr a \<longrightarrow> lib_branch_address A desc c network j = Inr a \<longrightarrow>
        b = c \<and> i = j)"

definition vault_addresses :: "address_api \<Rightarrow> bool" where
  "vault_addresses A \<longleftrightarrow> (\<forall>d b network i. i < 2 ^ 31 \<longrightarrow>
     lib_branch_address A (Vault d) b network i = Inr (lib_vault_address A d b network i))"

section \<open>The address window\<close>

definition row_at :: "address_api \<Rightarrow> wallet_descriptor \<Rightarrow> network \<Rightarrow> nat \<Rightarrow> address_row \<Rightarrow> bool" where
  "row_at A desc network i r \<longleftrightarrow> ad_derivation_index r = i \<and>
     lib_branch_address A desc False network i = Inr (ad_receive_address r) \<and>
     lib_branch_address A desc True network i = Inr (ad_change_address r)"

definition mapped :: "address_api \<Rightarrow> wallet_descriptor \<Rightarrow> network \<Rightarrow> address_row list \<Rightarrow> bool" where
  "mapped A desc network rows \<longleftrightarrow> (\<forall>i<length rows. row_at A desc network i (rows ! i))"

definition addresses_ok :: "address_api \<Rightarrow> wallet_db \<Rightarrow> bool" where
  "addresses_ok A db \<longleftrightarrow> tip_decodes db \<and> 1 \<le> lookahead db \<and> length (db_addresses db) = highest_index db + lookahead db \<and>
     (case wallet_desc A db of None \<Rightarrow> False
      | Some desc \<Rightarrow> branch_addresses A desc (tp_network (db_tip db)) \<and> mapped A desc (tp_network (db_tip db)) (db_addresses db))"

lemma branch_addressesD:
  assumes "branch_addresses A desc network"
  shows "i < 2 ^ 31 \<Longrightarrow> \<exists>a. lib_branch_address A desc b network i = Inr a"
    and "2 ^ 31 \<le> i \<Longrightarrow> lib_branch_address A desc b network i = Inl NoDerivation"
    and "\<lbrakk>lib_branch_address A desc b network i = Inr a; lib_branch_address A desc c network j = Inr a\<rbrakk> \<Longrightarrow> b = c \<and> i = j"
  using assms unfolding branch_addresses_def by blast+

lemma mapped_bound:
  assumes "branch_addresses A desc network" and "mapped A desc network rows"
  shows "length rows \<le> 2 ^ 31"
proof (rule ccontr)
  assume "\<not> ?thesis"
  then have "row_at A desc network (2 ^ 31) (rows ! (2 ^ 31))" using assms(2) by (simp add: mapped_def)
  then show False using branch_addressesD(2) [OF assms(1), of "2 ^ 31" False] by (simp add: row_at_def)
qed

lemma insert_address_mapped:
  assumes laws: "branch_addresses A desc network" and rows: "mapped A desc network (db_addresses db)"
    and "lib_branch_address A desc False network (length (db_addresses db)) = Inr receive"
    and "lib_branch_address A desc True network (length (db_addresses db)) = Inr change"
  shows "\<exists>rows. insert_address db receive change (length (db_addresses db)) = Some (db\<lparr>db_addresses := rows\<rparr>) \<and>
    mapped A desc network rows \<and> length rows = Suc (length (db_addresses db))"
proof -
  let ?n = "length (db_addresses db)"
  have "\<not> (ad_receive_address r = receive \<or> ad_change_address r = change \<or> ad_derivation_index r = ?n)"
    if "r \<in> set (db_addresses db)" for r
  proof -
    obtain i where i: "i < ?n" "row_at A desc network i r" using rows \<open>r \<in> _\<close> by (auto simp: mapped_def in_set_conv_nth)
    then show ?thesis
      using branch_addressesD(3) [OF laws _ assms(3), of False i] branch_addressesD(3) [OF laws _ assms(4), of True i]
      by (auto simp: row_at_def)
  qed
  then show ?thesis using rows assms(3,4)
    by (intro exI [of _ "db_addresses db @ [\<lparr>ad_receive_address = receive, ad_change_address = change, ad_derivation_index = ?n\<rparr>]"])
      (auto simp: insert_address_def mapped_def row_at_def nth_append less_Suc_eq)
qed

lemma try_fold_None: "\<lbrakk>x \<in> set xs; \<And>s. f s x = None\<rbrakk> \<Longrightarrow> try_fold f s xs = None"
  by (induction xs arbitrary: s) (auto split: option.split)

text \<open>Filling the window up to a bound succeeds exactly when the bound stays normal.\<close>

lemma map_lookahead_fill:
  assumes laws: "branch_addresses A desc network" and la: "1 \<le> la"
    and start: "mapped A desc network (db_addresses db)" "length (db_addresses db) = h + la" and "h \<le> n" and "n + la \<le> 2 ^ 31"
  shows "\<exists>rows. try_fold (map_lookahead A desc network la) db [h + 1..<n + 1] = Some (db\<lparr>db_addresses := rows\<rparr>) \<and>
    mapped A desc network rows \<and> length rows = n + la"
  using assms(5,6)
proof (induction n rule: dec_induct)
  case base
  show ?case using start by (intro exI [of _ "db_addresses db"]) simp
next
  case (step n)
  then obtain rows where rows: "try_fold (map_lookahead A desc network la) db [h + 1..<n + 1] = Some (db\<lparr>db_addresses := rows\<rparr>)"
    "mapped A desc network rows" "length rows = n + la" by auto
  have n: "n + la < 2 ^ 31" "checked_add32 (n + 1) (la - 1) = Some (n + la)"
    using step.prems la by (auto simp: checked_add32_def)
  obtain r c where rc: "lib_branch_address A desc False network (n + la) = Inr r" "lib_branch_address A desc True network (n + la) = Inr c"
    using branch_addressesD(1) [OF laws n(1)] by meson
  then obtain rows' where rows': "insert_address (db\<lparr>db_addresses := rows\<rparr>) r c (n + la) = Some (db\<lparr>db_addresses := rows'\<rparr>)"
    "mapped A desc network rows'" "length rows' = Suc (n + la)"
    using insert_address_mapped [OF laws, of "db\<lparr>db_addresses := rows\<rparr>" r c] rows by auto
  have one: "map_lookahead A desc network la (db\<lparr>db_addresses := rows\<rparr>) (n + 1) = Some (db\<lparr>db_addresses := rows'\<rparr>)"
    using n(2) rc rows'(1) by (simp only: map_lookahead_def option.case prod.case sum.case)
  have "[h + 1..<Suc n + 1] = [h + 1..<n + 1] @ [n + 1]" using step.hyps by simp
  then have "try_fold (map_lookahead A desc network la) db [h + 1..<Suc n + 1] = Some (db\<lparr>db_addresses := rows'\<rparr>)"
    by (simp only: try_fold_append rows(1) one option.case try_fold.simps)
  moreover have "length rows' = Suc n + la" using rows'(3) by simp
  ultimately show ?case using rows'(2) by blast
qed

lemma map_lookahead_exhausted:
  assumes laws: "branch_addresses A desc network" and "1 \<le> la" and "h + la \<le> 2 ^ 31" and "h < n" and "2 ^ 31 < n + la"
  shows "try_fold (map_lookahead A desc network la) db [h + 1..<n + 1] = None"
proof (rule try_fold_None)
  show "2 ^ 31 - la + 1 \<in> set [h + 1..<n + 1]" using assms by auto
  have "(2 ^ 31 - la + 1) + (la - 1) = 2 ^ 31" using assms by simp
  then show "map_lookahead A desc network la s (2 ^ 31 - la + 1) = None" for s
    using branch_addressesD(2) [OF laws, of "2 ^ 31"] by (simp add: map_lookahead_def checked_add32_def)
qed

lemma branch_index_set [simp]:
  "branch_index c (set_branch_index b i db) = (if c = b then i else branch_index c db)"
  "db_addresses (set_branch_index b i db) = db_addresses db" "db_tip (set_branch_index b i db) = db_tip db"
  "lookahead (set_branch_index b i db) = lookahead db" "wallet_desc A (set_branch_index b i db) = wallet_desc A db"
  "tip_decodes (set_branch_index b i db) = tip_decodes db"
  by (simp_all add: branch_index_def set_branch_index_def lookahead_def wallet_desc_def tip_decodes_def
      split: option.split wallet_kind.split)

lemma db_addresses_frame [simp]:
  "branch_index c (db\<lparr>db_addresses := rows\<rparr>) = branch_index c db" "highest_index (db\<lparr>db_addresses := rows\<rparr>) = highest_index db"
  "lookahead (db\<lparr>db_addresses := rows\<rparr>) = lookahead db" "wallet_desc A (db\<lparr>db_addresses := rows\<rparr>) = wallet_desc A db"
  "tip_decodes (db\<lparr>db_addresses := rows\<rparr>) = tip_decodes db"
  by (simp_all add: branch_index_def highest_index_def lookahead_def wallet_desc_def tip_decodes_def
      split: option.split wallet_kind.split)

lemma tip_decodes_wallet [simp]: "tip_decodes (db\<lparr>db_wallet := w\<rparr>) = tip_decodes db"
  by (simp add: tip_decodes_def split: option.split)

lemma highest_set: "branch_index b db \<le> i \<Longrightarrow> highest_index (set_branch_index b i db) = max (highest_index db) i"
  by (auto simp: highest_index_def set_branch_index_def branch_index_def)

lemma addresses_ok_bound: "addresses_ok A db \<Longrightarrow> highest_index db + lookahead db \<le> 2 ^ 31"
  using mapped_bound [of A "the (wallet_desc A db)" "tp_network (db_tip db)" "db_addresses db"]
  by (auto simp: addresses_ok_def split: option.splits)

lemma set_derivation_index_outcome:
  assumes ok: "addresses_ok A db"
  shows "if index \<le> branch_index change db then set_derivation_index A index change db = Some db
    else if index + lookahead db \<le> 2 ^ 31
    then \<exists>rows. set_derivation_index A index change db = Some ((set_branch_index change index db)\<lparr>db_addresses := rows\<rparr>) \<and>
      addresses_ok A ((set_branch_index change index db)\<lparr>db_addresses := rows\<rparr>)
    else set_derivation_index A index change db = None"
proof -
  let ?net = "tp_network (db_tip db)" and ?db = "set_branch_index change index db"
  obtain desc where desc: "wallet_desc A db = Some desc" "branch_addresses A desc ?net" "mapped A desc ?net (db_addresses db)"
    and tip: "tip_decodes db" "1 \<le> lookahead db" "length (db_addresses db) = highest_index db + lookahead db"
    using ok by (auto simp: addresses_ok_def split: option.splits)
  note def = set_derivation_index_def [of A index change db] and bound = addresses_ok_bound [OF ok]
  consider (low) "index \<le> branch_index change db" | (inside) "branch_index change db < index" "index \<le> highest_index db"
    | (fits) "branch_index change db < index" "highest_index db < index" "index + lookahead db \<le> 2 ^ 31"
    | (exhausted) "branch_index change db < index" "highest_index db < index" "2 ^ 31 < index + lookahead db"
    by linarith
  then show ?thesis
  proof cases
    case inside
    then have "set_derivation_index A index change db = Some (?db\<lparr>db_addresses := db_addresses ?db\<rparr>)"
      using desc tip by (simp add: def)
    moreover have "addresses_ok A ?db" using inside desc tip by (simp add: addresses_ok_def highest_set)
    moreover have "?db\<lparr>db_addresses := db_addresses ?db\<rparr> = ?db" by simp
    ultimately have "\<exists>rows. set_derivation_index A index change db = Some (?db\<lparr>db_addresses := rows\<rparr>) \<and>
        addresses_ok A (?db\<lparr>db_addresses := rows\<rparr>)" by metis
    then show ?thesis using inside bound by simp
  next
    case fits
    obtain rows where "try_fold (map_lookahead A desc ?net (lookahead db)) ?db [highest_index db + 1..<index + 1] =
        Some (?db\<lparr>db_addresses := rows\<rparr>)" "mapped A desc ?net rows" "length rows = index + lookahead db"
      using map_lookahead_fill [OF desc(2) tip(2), of ?db "highest_index db" index] desc(3) tip(3) fits by auto
    then show ?thesis using fits desc tip
      by (auto simp: def addresses_ok_def highest_set simp del: upt_Suc intro!: exI [of _ rows])
  next
    case exhausted
    then show ?thesis
      using map_lookahead_exhausted [OF desc(2) tip(2) bound exhausted(2,3)] desc tip by (simp add: def del: upt_Suc)
  qed (use desc tip in \<open>simp add: def\<close>)
qed

text \<open>
  C31.  Raising a branch's derivation index on a database whose address table is the look-ahead
  window: a lower or equal index changes nothing; an index whose window stays in the normal
  range becomes the branch's index, leaves the other branch alone, and the table is again exactly
  the window; any other index makes the call fail, so an index is never recorded without its
  addresses.
\<close>

theorem set_derivation_index_exact:
  assumes ok: "addresses_ok A db"
  shows "if index \<le> branch_index change db then set_derivation_index A index change db = Some db
    else if index + lookahead db \<le> 2 ^ 31
    then \<exists>rows. set_derivation_index A index change db = Some ((set_branch_index change index db)\<lparr>db_addresses := rows\<rparr>) \<and>
      addresses_ok A ((set_branch_index change index db)\<lparr>db_addresses := rows\<rparr>)
    else set_derivation_index A index change db = None"
  by (rule set_derivation_index_outcome [OF ok])

section \<open>Recognising an address\<close>

lemma lookup_total:
  assumes ok: "addresses_ok A db"
  shows "derivation_index_by_address address db \<noteq> None"
proof -
  obtain desc where laws: "branch_addresses A desc (tp_network (db_tip db))" and rows: "mapped A desc (tp_network (db_tip db)) (db_addresses db)"
    using ok by (auto simp: addresses_ok_def split: option.splits)
  have "ad_derivation_index r < 2 ^ 31" if "r \<in> set (db_addresses db)" for r
    using rows that mapped_bound [OF laws rows] by (auto simp: mapped_def row_at_def in_set_conv_nth)
  then show ?thesis by (auto simp: derivation_index_by_address_def db_address_def Let_def not_le)
qed

lemma address_lookup:
  assumes ok: "addresses_ok A db" and desc: "wallet_desc A db = Some desc"
  shows "(\<forall>change index address. lib_branch_address A desc change (tp_network (db_tip db)) index = Inr address \<longrightarrow>
      derivation_index_by_address address db = Some (if index < highest_index db + lookahead db then Some (index, change) else None)) \<and>
    (\<forall>address. (\<forall>change index. lib_branch_address A desc change (tp_network (db_tip db)) index \<noteq> Inr address) \<longrightarrow>
      derivation_index_by_address address db = Some None)"
proof -
  let ?net = "tp_network (db_tip db)" and ?rows = "db_addresses db"
  have laws: "branch_addresses A desc ?net" and rows: "mapped A desc ?net ?rows"
    and len: "length ?rows = highest_index db + lookahead db"
    using ok desc by (auto simp: addresses_ok_def)
  have row: "\<exists>i<length ?rows. r = ?rows ! i \<and> row_at A desc ?net i r" if "r \<in> set ?rows" for r
    using rows that by (auto simp: mapped_def in_set_conv_nth)
  have normal: "ad_derivation_index r < 2 ^ 31" if "r \<in> set ?rows" for r
    using row [OF that] mapped_bound [OF laws rows] by (auto simp: row_at_def)
  let ?at = "\<lambda>address r. ad_receive_address r = address \<or> ad_change_address r = address"
  have look: "derivation_index_by_address address db = Some (if filter (?at address) ?rows = [] then None
      else Some (ad_derivation_index (last (filter (?at address) ?rows)), address = ad_change_address (last (filter (?at address) ?rows))))"
    for address
    using normal by (auto simp: derivation_index_by_address_def db_address_def Let_def not_le)
  have found: "?at address r \<longleftrightarrow> ad_derivation_index r = index"
    if a: "lib_branch_address A desc change ?net index = Inr address" and r: "r \<in> set ?rows" for address change index r
  proof -
    obtain i where i: "row_at A desc ?net i r" using row [OF r] by blast
    show ?thesis using i a branch_addressesD(3) [OF laws a, of False i] branch_addressesD(3) [OF laws a, of True i]
      by (cases change) (auto simp: row_at_def)
  qed
  have branch: "(address = ad_change_address r) = change"
    if a: "lib_branch_address A desc change ?net index = Inr address" and "r \<in> set ?rows" "ad_derivation_index r = index"
    for address change index r
    using row [OF that(2)] a that(3) branch_addressesD(3) [OF laws a, of True index] by (cases change) (auto simp: row_at_def)
  have "derivation_index_by_address address db = Some (if index < length ?rows then Some (index, change) else None)"
    if a: "lib_branch_address A desc change ?net index = Inr address" for address change index
  proof (cases "index < length ?rows")
    case True
    then have "?rows ! index \<in> set (filter (?at address) ?rows)"
      using rows found [OF a, of "?rows ! index"] by (auto simp: mapped_def row_at_def)
    then have ne: "filter (?at address) ?rows \<noteq> []" by (metis list.set(1) empty_iff)
    from last_in_set [OF this] have "last (filter (?at address) ?rows) \<in> set ?rows"
      "?at address (last (filter (?at address) ?rows))" by auto
    then show ?thesis using True ne found [OF a] branch [OF a] look [of address] by simp
  next
    case False
    have "\<not> ?at address r" if "r \<in> set ?rows" for r
      using row [OF that] found [OF a that] False by (auto simp: row_at_def)
    then have "filter (?at address) ?rows = []" by (simp add: filter_empty_conv)
    then show ?thesis using False look [of address] by simp
  qed
  moreover have "derivation_index_by_address address db = Some None"
    if no: "\<forall>change index. lib_branch_address A desc change ?net index \<noteq> Inr address" for address
  proof -
    have "\<not> ?at address r" if "r \<in> set ?rows" for r
      using row [OF that] no by (auto simp: row_at_def)
    then have "filter (?at address) ?rows = []" by (simp add: filter_empty_conv)
    then show ?thesis using look [of address] by simp
  qed
  ultimately show ?thesis using len by auto
qed

text \<open>
  On such a database an address of the wallet is recognised exactly inside the window, with
  its own index and branch: looking up the address derived at an index and branch gives back that
  index and branch below the window's end and nothing above it, and an address that is none of
  the wallet's is never found.  The lookup's assertion that indices are normal holds.
\<close>

theorem address_lookup_exact:
  assumes ok: "addresses_ok A db" and desc: "wallet_desc A db = Some desc"
  shows "(\<forall>change index address. lib_branch_address A desc change (tp_network (db_tip db)) index = Inr address \<longrightarrow>
      derivation_index_by_address address db = Some (if index < highest_index db + lookahead db then Some (index, change) else None)) \<and>
    (\<forall>address. (\<forall>change index. lib_branch_address A desc change (tp_network (db_tip db)) index \<noteq> Inr address) \<longrightarrow>
      derivation_index_by_address address db = Some None)"
  by (rule address_lookup [OF assms])

section \<open>New and restored databases\<close>

lemma fold_res_append:
  "fold_res f s (xs @ ys) = bind_res (fold_res f s xs) (\<lambda>s'. fold_res f s' ys)"
proof (induction xs arbitrary: s)
  case (Cons x xs)
  then show ?case by (cases "f s x") auto
qed simp

lemma try_fold_fold_res: "ok_or e (try_fold g s xs) = fold_res (\<lambda>s x. ok_or e (g s x)) s xs"
proof (induction xs arbitrary: s)
  case (Cons x xs)
  then show ?case by (cases "g s x") auto
qed simp

lemma fill_window:
  assumes laws: "branch_addresses A desc network" and start: "mapped A desc network (db_addresses db)" "length (db_addresses db) = k"
    and step: "\<And>db i r c. \<lbrakk>i < 2 ^ 31; lib_branch_address A desc False network i = Inr r;
      lib_branch_address A desc True network i = Inr c\<rbrakk> \<Longrightarrow> f db i = ok_or e (insert_address db r c i)"
    and "k \<le> n" and "n \<le> 2 ^ 31"
  shows "\<exists>rows. fold_res f db [k..<n] = Inr (db\<lparr>db_addresses := rows\<rparr>) \<and> mapped A desc network rows \<and> length rows = n"
  using assms(5,6)
proof (induction n rule: dec_induct)
  case base
  show ?case using start by (intro exI [of _ "db_addresses db"]) simp
next
  case (step n)
  then obtain rows where rows: "fold_res f db [k..<n] = Inr (db\<lparr>db_addresses := rows\<rparr>)" "mapped A desc network rows" "length rows = n"
    by auto
  have n: "n < 2 ^ 31" using step.prems by simp
  obtain r c where rc: "lib_branch_address A desc False network n = Inr r" "lib_branch_address A desc True network n = Inr c"
    using branch_addressesD(1) [OF laws n] by meson
  from insert_address_mapped [OF laws, of "db\<lparr>db_addresses := rows\<rparr>" r c] rows rc
  obtain rows' where rows': "insert_address (db\<lparr>db_addresses := rows\<rparr>) r c n = Some (db\<lparr>db_addresses := rows'\<rparr>)"
    "mapped A desc network rows'" "length rows' = Suc n" by auto
  have "[k..<Suc n] = [k..<n] @ [n]" using step.hyps by simp
  then have "fold_res f db [k..<Suc n] = Inr (db\<lparr>db_addresses := rows'\<rparr>)"
    by (simp only: fold_res_append rows(1) bind_res_simps fold_res.simps assms(4) [OF n rc] rows'(1) ok_or_simps)
  then show ?case using rows'(2,3) by blast
qed

lemma tip_decodes_fresh [simp]: "tip_decodes (fresh_tables chain w x)"
  using dir.parse_spell [of chain] by (simp add: tip_decodes_def fresh_tables_def)

lemma fresh_tables_simps [simp]:
  "db_addresses (fresh_tables chain w x) = []" "db_wallet (fresh_tables chain w x) = w"
  "tp_network (db_tip (fresh_tables chain w x)) = bitcoin_network chain" "tp_chain (db_tip (fresh_tables chain w x)) = dir_name chain"
  "db_coins (fresh_tables chain w x) = []" "db_transactions (fresh_tables chain w x) = []"
  "db_spends (fresh_tables chain w x) = []" "db_label_rows (fresh_tables chain w x) = []"
  by (simp_all add: fresh_tables_def)

lemma mapped_Nil [simp]: "mapped A desc network []"
  by (simp add: mapped_def)

text \<open>A new database has the first window and is otherwise empty.\<close>

lemma create_fresh_db_ok:
  assumes "vault_addresses A" and "branch_addresses A (Vault d) (bitcoin_network chain)"
  shows "\<exists>w rows. create_fresh_db A chain d timestamp = Inr ((fresh_tables chain w None)\<lparr>db_addresses := rows\<rparr>) \<and>
    wl_kind w = VaultKind d \<and> wl_deposit_index w = 0 \<and> wl_change_index w = 0 \<and>
    addresses_ok A ((fresh_tables chain w None)\<lparr>db_addresses := rows\<rparr>)"
proof -
  define w where "w = \<lparr>wl_timestamp = timestamp, wl_kind = VaultKind d, wl_deposit_index = 0, wl_change_index = 0,
    wl_rescan_timestamp = None, wl_last_poll_timestamp = None\<rparr>"
  let ?net = "bitcoin_network chain"
  let ?f = "\<lambda>db i. ok_or Rusqlite (insert_address db (lib_vault_address A d False ?net i) (lib_vault_address A d True ?net i) i)"
  have "\<exists>rows. fold_res ?f (fresh_tables chain w None) [0..<LOOK_AHEAD_LIMIT] = Inr ((fresh_tables chain w None)\<lparr>db_addresses := rows\<rparr>) \<and>
      mapped A (Vault d) ?net rows \<and> length rows = LOOK_AHEAD_LIMIT"
  proof (rule fill_window [OF assms(2)])
    show "?f db i = ok_or Rusqlite (insert_address db r c i)" if "i < 2 ^ 31"
      "lib_branch_address A (Vault d) False ?net i = Inr r" "lib_branch_address A (Vault d) True ?net i = Inr c" for db i r c
      using that assms(1) by (simp add: vault_addresses_def)
    show "LOOK_AHEAD_LIMIT \<le> 2 ^ 31" by (simp add: LOOK_AHEAD_LIMIT_def)
  qed simp_all
  then obtain rows where rows: "fold_res ?f (fresh_tables chain w None) [0..<LOOK_AHEAD_LIMIT] = Inr ((fresh_tables chain w None)\<lparr>db_addresses := rows\<rparr>)"
    "mapped A (Vault d) ?net rows" "length rows = LOOK_AHEAD_LIMIT" by blast
  have "create_fresh_db A chain d timestamp = Inr ((fresh_tables chain w None)\<lparr>db_addresses := rows\<rparr>)"
    unfolding create_fresh_db_def w_def [symmetric] try_fold_fold_res using rows(1) .
  moreover have "wl_kind w = VaultKind d" "wl_deposit_index w = 0" "wl_change_index w = 0" by (simp_all add: w_def)
  moreover have "addresses_ok A ((fresh_tables chain w None)\<lparr>db_addresses := rows\<rparr>)"
    using rows(2,3) assms(2) by (simp add: addresses_ok_def wallet_desc_def lookahead_def highest_index_def w_def LOOK_AHEAD_LIMIT_def)
  ultimately show ?thesis by blast
qed

lemma insert_branch_step:
  "\<lbrakk>lib_branch_address A (Imported d) False network i = Inr r; lib_branch_address A (Imported d) True network i = Inr c\<rbrakk>
    \<Longrightarrow> insert_branch_address A d network db i = ok_or Rusqlite (insert_address db r c i)"
  by (simp add: insert_branch_address_def)

lemma create_imported_db_ok:
  assumes laws: "branch_addresses A (Imported d) (bitcoin_network chain)"
    and parses: "lib_imported_parses A (id_receive d) (id_change d) chain" and "id_chain d = chain"
    and la: "1 \<le> la" "la \<le> 10000"
  shows "\<exists>w r rows. create_imported_db A chain d birthday la = Inr ((fresh_tables chain w (Some la))\<lparr>db_addresses := rows\<rparr>) \<and>
    wl_kind w = ImportedKind r \<and> im_initial_lookahead r = la \<and> addresses_ok A ((fresh_tables chain w (Some la))\<lparr>db_addresses := rows\<rparr>)"
proof -
  define r where "r = \<lparr>im_chain = dir_name chain, im_receive_descriptor = id_receive d,
    im_change_descriptor = id_change d, im_birthday = birthday, im_history_complete = False,
    im_initial_lookahead = la, im_receive_scanned = 0, im_change_scanned = 0\<rparr>"
  define w where "w = \<lparr>wl_timestamp = birthday, wl_kind = ImportedKind r, wl_deposit_index = 0, wl_change_index = 0,
    wl_rescan_timestamp = None, wl_last_poll_timestamp = None\<rparr>"
  let ?net = "bitcoin_network chain"
  have "\<exists>rows. fold_res (insert_branch_address A d ?net) (fresh_tables chain w (Some la)) [0..<la] =
      Inr ((fresh_tables chain w (Some la))\<lparr>db_addresses := rows\<rparr>) \<and> mapped A (Imported d) ?net rows \<and> length rows = la"
    by (rule fill_window [OF laws _ _ insert_branch_step]) (use la in simp_all)
  then obtain rows where rows: "fold_res (insert_branch_address A d ?net) (fresh_tables chain w (Some la)) [0..<la] =
      Inr ((fresh_tables chain w (Some la))\<lparr>db_addresses := rows\<rparr>)" "mapped A (Imported d) ?net rows" "length rows = la"
    by blast
  have "create_imported_db A chain d birthday la = Inr ((fresh_tables chain w (Some la))\<lparr>db_addresses := rows\<rparr>)"
    using rows(1) assms(3) la unfolding create_imported_db_def r_def [symmetric] w_def [symmetric] by simp
  moreover have "wallet_desc A (fresh_tables chain w (Some la)) = Some (Imported d)"
    using parses assms(3) dir.parse_spell [of chain] by (simp add: wallet_desc_def w_def r_def)
  then have "addresses_ok A ((fresh_tables chain w (Some la))\<lparr>db_addresses := rows\<rparr>)"
    using rows(2,3) laws la by (simp add: addresses_ok_def lookahead_def highest_index_def w_def r_def)
  moreover have "wl_kind w = ImportedKind r" "im_initial_lookahead r = la" by (simp_all add: w_def r_def)
  ultimately show ?thesis by blast
qed

end
