(* ===== verification/Reservation.thy ===== *)
theory Reservation
  imports Wallet_Addresses
begin

text \<open>
  \<open>coincubed/src/database/sqlite/reservation.rs\<close>: allocating the next receive or change index.
  Each call is one immediate transaction; an error, or an expected index that is not the next
  one, drops the transaction and leaves the database as it was.
\<close>

section \<open>The operations\<close>

datatype reservation_error = Storage | IdentityMismatch | Exhausted | Unsupported

record change_reservation =
  rv_chain :: chain_id
  rv_descriptor :: descriptor
  rv_index :: nat

type_synonym 'a db_result = "(reservation_error, 'a) res \<times> wallet_db"

definition branch_address_res :: "address_api \<Rightarrow> imported_descriptor \<Rightarrow> bool \<Rightarrow> chain_id \<Rightarrow> nat \<Rightarrow> (reservation_error, string) res" where
  "branch_address_res A d change chain index =
     map_err (\<lambda>e. case e of NoDerivation \<Rightarrow> Exhausted | NoAddress \<Rightarrow> Storage)
       (lib_branch_address A (Imported d) change (bitcoin_network chain) index)"

definition imported_next :: "chain_id \<Rightarrow> imported_descriptor \<Rightarrow> bool \<Rightarrow> wallet_db \<Rightarrow> (reservation_error, nat \<times> nat) res" where
  \<comment> \<open>the identity checks, then the next index of the branch and the stored look-ahead\<close>
  "imported_next chain d change_branch db =
     guard_res (chain \<noteq> id_chain d) IdentityMismatch
     (guard_res (\<not> (tp_chain (db_tip db) = dir_name chain \<and> tp_network (db_tip db) = bitcoin_network chain)) IdentityMismatch
     (case wl_kind (db_wallet db) of
        VaultKind _ \<Rightarrow> Inl IdentityMismatch
      | ImportedKind r \<Rightarrow>
        guard_res (im_chain r \<noteq> dir_name chain \<or> im_receive_descriptor r \<noteq> id_receive d \<or>
          im_change_descriptor r \<noteq> id_change d \<or> \<not> (1 \<le> im_initial_lookahead r \<and> im_initial_lookahead r \<le> 10000))
          IdentityMismatch
        (bind_res (ok_or Exhausted (checked_add32 (branch_index change_branch db) 1)) (\<lambda>next.
         bind_res (ok_or Exhausted (from_normal_idx next)) (\<lambda>child. Inr (child, im_initial_lookahead r))))))"

definition allocate_imported_branch ::
  "address_api \<Rightarrow> chain_id \<Rightarrow> imported_descriptor \<Rightarrow> bool \<Rightarrow> nat option \<Rightarrow> wallet_db \<Rightarrow> (string \<times> nat) option db_result" where
  "allocate_imported_branch A chain d change_branch expected db =
     (case imported_next chain d change_branch db of Inl e \<Rightarrow> (Inl e, db) | Inr (next, la) \<Rightarrow>
        if expected \<noteq> None \<and> expected \<noteq> Some next then (Inr None, db)
        else (let highest = highest_index db in
          case bind_res (ok_or Exhausted (checked_add32 (max next highest) (la - 1))) (\<lambda>mapped_index.
               bind_res (ok_or Exhausted (from_normal_idx mapped_index)) (\<lambda>_.
               bind_res (branch_address_res A d change_branch chain next) (\<lambda>address.
               (let db1 = set_branch_index change_branch next db in
                if highest < next
                then bind_res (branch_address_res A d False chain mapped_index) (\<lambda>mapped_receive.
                     bind_res (branch_address_res A d True chain mapped_index) (\<lambda>mapped_change.
                     bind_res (ok_or Storage (insert_address db1 mapped_receive mapped_change mapped_index)) (\<lambda>db2.
                     Inr (address, db2))))
                else Inr (address, db1))))) of
            Inl e \<Rightarrow> (Inl e, db)
          | Inr (address, db') \<Rightarrow> (Inr (Some (address, next)), db')))"

definition reserve_imported_receive :: "address_api \<Rightarrow> chain_id \<Rightarrow> imported_descriptor \<Rightarrow> wallet_db \<Rightarrow> (string \<times> nat) db_result" where
  "reserve_imported_receive A chain d db =
     (case allocate_imported_branch A chain d False None db of
        (r, db') \<Rightarrow> (bind_res r (ok_or Storage), db'))"

definition commit_imported_change_if_next ::
  "address_api \<Rightarrow> chain_id \<Rightarrow> imported_descriptor \<Rightarrow> nat \<Rightarrow> wallet_db \<Rightarrow> bool db_result" where
  "commit_imported_change_if_next A chain d index db =
     (if 2 ^ 31 \<le> index then (Inl Exhausted, db)
      else (case allocate_imported_branch A chain d True (Some index) db of
        (r, db') \<Rightarrow> (bind_res r (\<lambda>opt. Inr (opt \<noteq> None)), db')))"

definition vault_next :: "chain_id \<Rightarrow> descriptor \<Rightarrow> wallet_db \<Rightarrow> (reservation_error, nat) res" where
  "vault_next chain d db =
     guard_res (\<not> (tp_chain (db_tip db) = dir_name chain \<and> tp_network (db_tip db) = bitcoin_network chain)) IdentityMismatch
     (case wl_kind (db_wallet db) of
        ImportedKind _ \<Rightarrow> Inl Storage  \<comment> \<open>\<open>main_descriptor\<close> is null\<close>
      | VaultKind stored \<Rightarrow>
        guard_res (stored \<noteq> d) IdentityMismatch
        (bind_res (ok_or Exhausted (checked_add32 (wl_change_index (db_wallet db)) 1)) (\<lambda>next.
         ok_or Exhausted (from_normal_idx next))))"

definition window_is_normal :: "nat \<Rightarrow> (reservation_error, unit) res" where
  "window_is_normal last_index =
     bind_res (ok_or Exhausted (checked_add32 last_index (LOOK_AHEAD_LIMIT - 1))) (\<lambda>la.
     bind_res (ok_or Exhausted (from_normal_idx la)) (\<lambda>_. Inr ()))"

definition allocate_change ::
  "address_api \<Rightarrow> chain_id \<Rightarrow> descriptor \<Rightarrow> nat option \<Rightarrow> wallet_db \<Rightarrow> change_reservation option db_result" where
  "allocate_change A chain d expected db =
     (case vault_next chain d db of Inl e \<Rightarrow> (Inl e, db) | Inr next \<Rightarrow>
        if expected \<noteq> None \<and> expected \<noteq> Some next then (Inr None, db)
        else (let highest = highest_index db in
          case bind_res (window_is_normal highest) (\<lambda>_.
               bind_res (window_is_normal next) (\<lambda>_.
               (let db1 = set_branch_index True next db; la = next + LOOK_AHEAD_LIMIT - 1 in
                if highest < next
                then ok_or Storage (insert_address db1 (lib_vault_address A d False (bitcoin_network chain) la)
                       (lib_vault_address A d True (bitcoin_network chain) la) la)
                else Inr db1))) of
            Inl e \<Rightarrow> (Inl e, db)
          | Inr db' \<Rightarrow> (Inr (Some \<lparr>rv_chain = chain, rv_descriptor = d, rv_index = next\<rparr>), db')))"

definition reserve_change :: "address_api \<Rightarrow> chain_id \<Rightarrow> descriptor \<Rightarrow> wallet_db \<Rightarrow> change_reservation db_result" where
  "reserve_change A chain d db =
     (case allocate_change A chain d None db of (r, db') \<Rightarrow> (bind_res r (ok_or Storage), db'))"

definition commit_change_if_next :: "address_api \<Rightarrow> chain_id \<Rightarrow> descriptor \<Rightarrow> nat \<Rightarrow> wallet_db \<Rightarrow> bool db_result" where
  "commit_change_if_next A chain d index db =
     (if 2 ^ 31 \<le> index then (Inl Exhausted, db)
      else (case allocate_change A chain d (Some index) db of (r, db') \<Rightarrow> (bind_res r (\<lambda>opt. Inr (opt \<noteq> None)), db')))"

section \<open>The next index\<close>

text \<open>Moving a branch one past the window's end adds the one row the window lacks.\<close>

lemma extend_window:
  assumes ok: "addresses_ok A db" and desc: "wallet_desc A db = Some desc" and nx: "next = branch_index b db + 1"
    and room: "highest_index db < next"
    and r: "lib_branch_address A desc False (tp_network (db_tip db)) (next + lookahead db - 1) = Inr receive"
    and c: "lib_branch_address A desc True (tp_network (db_tip db)) (next + lookahead db - 1) = Inr change"
  shows "\<exists>rows. insert_address (set_branch_index b next db) receive change (next + lookahead db - 1) =
      Some ((set_branch_index b next db)\<lparr>db_addresses := rows\<rparr>) \<and>
    addresses_ok A ((set_branch_index b next db)\<lparr>db_addresses := rows\<rparr>)"
proof -
  let ?net = "tp_network (db_tip db)" and ?db = "set_branch_index b next db"
  have laws: "branch_addresses A desc ?net" and rows: "mapped A desc ?net (db_addresses db)"
    and tip: "tip_decodes db" "1 \<le> lookahead db" and len: "length (db_addresses db) = highest_index db + lookahead db"
    using ok desc by (auto simp: addresses_ok_def)
  have "branch_index b db \<le> highest_index db" by (simp add: branch_index_def highest_index_def)
  with room nx have high: "next = highest_index db + 1" by simp
  then have end_: "next + lookahead db - 1 = length (db_addresses ?db)" using len by simp
  from insert_address_mapped [OF laws, of ?db receive change] rows r c
  obtain rows' where "insert_address ?db receive change (length (db_addresses ?db)) = Some (?db\<lparr>db_addresses := rows'\<rparr>)"
    "mapped A desc ?net rows'" "length rows' = Suc (length (db_addresses db))" unfolding end_ by auto
  then show ?thesis using end_ laws tip desc len high nx
    by (intro exI [of _ rows']) (simp add: addresses_ok_def highest_set)
qed

lemma inside_window:
  assumes "addresses_ok A db" and "next = branch_index b db + 1" and "next \<le> highest_index db"
  shows "addresses_ok A (set_branch_index b next db)"
  using assms by (auto simp: addresses_ok_def highest_set split: option.splits)

definition takes_next :: "address_api \<Rightarrow> bool \<Rightarrow> wallet_db \<Rightarrow> wallet_db \<Rightarrow> bool" where
  \<comment> \<open>only the branch's index moved, by one, and the address table followed\<close>
  "takes_next A b db db' \<longleftrightarrow>
     (\<exists>rows. db' = (set_branch_index b (branch_index b db + 1) db)\<lparr>db_addresses := rows\<rparr>) \<and> addresses_ok A db'"

lemma takes_next_index: "takes_next A b db db' \<Longrightarrow> branch_index c db' = (if c = b then branch_index b db + 1 else branch_index c db)"
  by (auto simp: takes_next_def)

lemma allocate_change_outcome:
  assumes ok: "addresses_ok A db" and vault: "vault_addresses A" and kind: "wl_kind (db_wallet db) = VaultKind d"
    and tip: "tp_chain (db_tip db) = dir_name chain" "tp_network (db_tip db) = bitcoin_network chain"
    and nx: "next = branch_index True db + 1"
  shows "if expected \<noteq> None \<and> expected \<noteq> Some next then allocate_change A chain d expected db = (Inr None, db)
    else if next + LOOK_AHEAD_LIMIT \<le> 2 ^ 31
    then \<exists>db'. allocate_change A chain d expected db =
        (Inr (Some \<lparr>rv_chain = chain, rv_descriptor = d, rv_index = next\<rparr>), db') \<and> takes_next A True db db'
    else allocate_change A chain d expected db = (Inl Exhausted, db)"
proof -
  have desc: "wallet_desc A db = Some (Vault d)" and la: "lookahead db = LOOK_AHEAD_LIMIT" and L: "LOOK_AHEAD_LIMIT = 200"
    using kind by (simp_all add: wallet_desc_def lookahead_def LOOK_AHEAD_LIMIT_def)
  have bound: "highest_index db + 200 \<le> 2 ^ 31" and le: "branch_index True db \<le> highest_index db"
    using addresses_ok_bound [OF ok] la L by (auto simp: branch_index_def highest_index_def)
  have vn: "vault_next chain d db = Inr next"
    using tip kind bound le nx by (simp add: vault_next_def checked_add32_def from_normal_idx_def branch_index_def)
  have high: "window_is_normal (highest_index db) = Inr ()"
    using bound by (simp add: window_is_normal_def checked_add32_def from_normal_idx_def L)
  have win: "window_is_normal next = (if next + 200 \<le> 2 ^ 31 then Inr () else Inl Exhausted)"
    using bound le nx by (simp add: window_is_normal_def checked_add32_def from_normal_idx_def L)
  note def = allocate_change_def [of A chain d expected db, unfolded vn high Let_def sum.case bind_res_simps win]
  have "\<exists>db'. allocate_change A chain d expected db =
      (Inr (Some \<lparr>rv_chain = chain, rv_descriptor = d, rv_index = next\<rparr>), db') \<and> takes_next A True db db'"
    if e: "\<not> (expected \<noteq> None \<and> expected \<noteq> Some next)" and room: "next + 200 \<le> 2 ^ 31"
  proof (cases "highest_index db < next")
    case True
    have addr: "lib_branch_address A (Vault d) b (bitcoin_network chain) (next + 200 - 1) =
        Inr (lib_vault_address A d b (bitcoin_network chain) (next + 200 - 1))" for b
      using vault room by (simp add: vault_addresses_def)
    obtain rows where "insert_address (set_branch_index True next db)
        (lib_vault_address A d False (bitcoin_network chain) (next + 200 - 1))
        (lib_vault_address A d True (bitcoin_network chain) (next + 200 - 1)) (next + 200 - 1) =
          Some ((set_branch_index True next db)\<lparr>db_addresses := rows\<rparr>)"
      "addresses_ok A ((set_branch_index True next db)\<lparr>db_addresses := rows\<rparr>)"
      using extend_window [OF ok desc nx True, unfolded la L tip(2), OF addr addr] by blast
    then show ?thesis using e room True unfolding def L by (auto simp: takes_next_def nx)
  next
    case False
    then have "addresses_ok A (set_branch_index True next db)" using inside_window [OF ok nx] by simp
    moreover have "\<exists>rows. set_branch_index True next db = (set_branch_index True next db)\<lparr>db_addresses := rows\<rparr>"
      by (rule exI [of _ "db_addresses (set_branch_index True next db)"]) simp
    ultimately show ?thesis using e room False unfolding def by (auto simp: takes_next_def nx)
  qed
  moreover have "allocate_change A chain d expected db = (Inr None, db)" if "expected \<noteq> None \<and> expected \<noteq> Some next"
    using that by (simp add: def)
  moreover have "allocate_change A chain d expected db = (Inl Exhausted, db)"
    if "\<not> (expected \<noteq> None \<and> expected \<noteq> Some next)" "\<not> next + 200 \<le> 2 ^ 31"
    using that by (simp add: def)
  ultimately show ?thesis unfolding L if_bool_eq_conj by blast
qed

lemma allocate_imported_outcome:
  assumes ok: "addresses_ok A db" and kind: "wl_kind (db_wallet db) = ImportedKind r"
    and stored: "im_chain r = dir_name chain" "im_receive_descriptor r = id_receive d" "im_change_descriptor r = id_change d"
      "im_initial_lookahead r \<le> 10000" and chain: "id_chain d = chain" and desc: "wallet_desc A db = Some (Imported d)"
    and tip: "tp_chain (db_tip db) = dir_name chain" "tp_network (db_tip db) = bitcoin_network chain"
    and nx: "next = branch_index b db + 1"
  shows "if 2 ^ 31 \<le> next then allocate_imported_branch A chain d b expected db = (Inl Exhausted, db)
    else if expected \<noteq> None \<and> expected \<noteq> Some next then allocate_imported_branch A chain d b expected db = (Inr None, db)
    else if next + lookahead db \<le> 2 ^ 31
    then \<exists>address db'. allocate_imported_branch A chain d b expected db = (Inr (Some (address, next)), db') \<and>
      lib_branch_address A (Imported d) b (bitcoin_network chain) next = Inr address \<and> takes_next A b db db'
    else allocate_imported_branch A chain d b expected db = (Inl Exhausted, db)"
proof -
  have la: "lookahead db = im_initial_lookahead r" "1 \<le> lookahead db"
    using kind ok by (simp_all add: lookahead_def addresses_ok_def)
  have laws: "branch_addresses A (Imported d) (bitcoin_network chain)" using ok desc tip by (simp add: addresses_ok_def)
  have bound: "highest_index db + lookahead db \<le> 2 ^ 31" and le: "branch_index b db \<le> highest_index db"
    using addresses_ok_bound [OF ok] by (auto simp: branch_index_def highest_index_def)
  have next_res: "imported_next chain d b db = (if 2 ^ 31 \<le> next then Inl Exhausted else Inr (next, lookahead db))"
    using tip kind stored chain bound le nx la
    by (simp add: imported_next_def checked_add32_def from_normal_idx_def)
  show ?thesis
  proof (cases "2 ^ 31 \<le> next")
    case True
    then show ?thesis by (simp add: allocate_imported_branch_def next_res)
  next
    case normal: False
    then have next_ok: "imported_next chain d b db = Inr (next, lookahead db)" by (simp add: next_res)
    define m where "m = max next (highest_index db) + (lookahead db - 1)"
    have m: "m < 2 ^ 32" "m < 2 ^ 31 \<longleftrightarrow> next + lookahead db \<le> 2 ^ 31" using bound le nx la(2) by (auto simp: m_def max_def)
    have idx: "checked_add32 (max next (highest_index db)) (lookahead db - 1) = Some m" using m(1) by (simp add: checked_add32_def m_def)
    note def = allocate_imported_branch_def [of A chain d b expected db, unfolded next_ok Let_def sum.case prod.case idx ok_or_simps bind_res_simps]
    have "\<exists>address db'. allocate_imported_branch A chain d b expected db = (Inr (Some (address, next)), db') \<and>
        lib_branch_address A (Imported d) b (bitcoin_network chain) next = Inr address \<and> takes_next A b db db'"
      if e: "\<not> (expected \<noteq> None \<and> expected \<noteq> Some next)" and room: "next + lookahead db \<le> 2 ^ 31"
    proof -
      have norm: "from_normal_idx m = Some m" and lt: "m < 2 ^ 31" "next < 2 ^ 31"
        using room m la(2) by (simp_all add: from_normal_idx_def)
      obtain a where a: "lib_branch_address A (Imported d) b (bitcoin_network chain) next = Inr a"
        using branch_addressesD(1) [OF laws lt(2)] by blast
      obtain rc cc where rc: "lib_branch_address A (Imported d) False (bitcoin_network chain) m = Inr rc"
        "lib_branch_address A (Imported d) True (bitcoin_network chain) m = Inr cc"
        using branch_addressesD(1) [OF laws lt(1)] by meson
      show ?thesis
      proof (cases "highest_index db < next")
        case True
        then have "m = next + lookahead db - 1" using la(2) by (simp add: m_def)
        then obtain rows where "insert_address (set_branch_index b next db) rc cc m =
            Some ((set_branch_index b next db)\<lparr>db_addresses := rows\<rparr>)"
          "addresses_ok A ((set_branch_index b next db)\<lparr>db_addresses := rows\<rparr>)"
          using extend_window [OF ok desc nx True] rc tip(2) by auto
        then show ?thesis using e True a rc norm unfolding def by (auto simp: branch_address_res_def takes_next_def nx)
      next
        case False
        then have "addresses_ok A (set_branch_index b next db)" using inside_window [OF ok nx] by simp
        moreover have "\<exists>rows. set_branch_index b next db = (set_branch_index b next db)\<lparr>db_addresses := rows\<rparr>"
          by (rule exI [of _ "db_addresses (set_branch_index b next db)"]) simp
        ultimately show ?thesis using e False a norm unfolding def by (auto simp: branch_address_res_def takes_next_def nx)
      qed
    qed
    moreover have "allocate_imported_branch A chain d b expected db = (Inr None, db)"
      if "expected \<noteq> None \<and> expected \<noteq> Some next" using that by (simp add: def)
    moreover have "allocate_imported_branch A chain d b expected db = (Inl Exhausted, db)"
      if "\<not> (expected \<noteq> None \<and> expected \<noteq> Some next)" "\<not> next + lookahead db \<le> 2 ^ 31"
    proof -
      have "from_normal_idx m = None" using m(2) that(2) by (simp add: from_normal_idx_def)
      then show ?thesis using that(1) by (simp add: def)
    qed
    ultimately show ?thesis using normal unfolding if_bool_eq_conj by blast
  qed
qed

section \<open>Handing out indices\<close>

text \<open>
  The contract of an index source shared with other writers: a grant takes the next index and
  records it, a refusal changes nothing, and nobody else ever lowers the index.  A run interleaves
  requests with steps of the others; its list holds the granted indices in order.
\<close>

inductive grants :: "(nat option \<Rightarrow> 's \<Rightarrow> nat option \<times> 's) \<Rightarrow> ('s \<Rightarrow> 's \<Rightarrow> bool) \<Rightarrow> 's \<Rightarrow> nat list \<Rightarrow> 's \<Rightarrow> bool"
  for alloc other where
  finished: "grants alloc other s [] s"
| grant: "\<lbrakk>alloc e s = (Some i, t); grants alloc other t is u\<rbrakk> \<Longrightarrow> grants alloc other s (i # is) u"
| refuse: "\<lbrakk>alloc e s = (None, t); grants alloc other t is u\<rbrakk> \<Longrightarrow> grants alloc other s is u"
| others: "\<lbrakk>other s t; grants alloc other t is u\<rbrakk> \<Longrightarrow> grants alloc other s is u"

locale index_source =
  fixes alloc :: "nat option \<Rightarrow> 's \<Rightarrow> nat option \<times> 's" and idx :: "'s \<Rightarrow> nat" and inv :: "'s \<Rightarrow> bool"
    and other :: "'s \<Rightarrow> 's \<Rightarrow> bool"
  assumes granted: "\<lbrakk>inv s; alloc e s = (Some i, t)\<rbrakk> \<Longrightarrow> i = idx s + 1 \<and> idx t = i \<and> inv t"
    and refused: "\<lbrakk>inv s; alloc e s = (None, t)\<rbrakk> \<Longrightarrow> t = s"
    and others_keep: "\<lbrakk>inv s; other s t\<rbrakk> \<Longrightarrow> inv t \<and> idx s \<le> idx t"
begin

lemma grants_increase:
  assumes "grants alloc other s is t" and "inv s"
  shows "inv t \<and> idx s \<le> idx t \<and> sorted_wrt (<) is \<and> (\<forall>i\<in>set is. idx s < i \<and> i \<le> idx t)"
  using assms
proof (induction rule: grants.induct)
  case (grant e s i t "is" u)
  have "i = idx s + 1" "idx t = i" "inv t" using granted [OF grant.prems grant.hyps(1)] by auto
  then show ?case using grant.IH by force
next
  case (refuse e s t "is" u)
  then show ?case using refused [OF refuse.prems refuse.hyps(1)] by simp
next
  case (others s t "is" u)
  then show ?case using others_keep [OF others.prems others.hyps(1)] by force
qed simp

end

end
