(* ===== verification/Wallet_Drafts.thy ===== *)
theory Wallet_Drafts
  imports Wallet_Coins
begin

text \<open>
  The transaction drafts and labels of the wallet database: storing, replacing and deleting a
  draft, storing an imported construction without losing signatures, recording the identifier a
  draft was broadcast under, and the labels.
\<close>

section \<open>Drafts\<close>

definition db_spend :: "txid \<Rightarrow> wallet_db \<Rightarrow> spend_row option" where
  "db_spend t db = (let rows = filter (\<lambda>r. sp_txid r = t) (db_spends db) in if rows = [] then None else Some (last rows))"

definition spend_tx :: "txid \<Rightarrow> wallet_db \<Rightarrow> psbt option" where
  "spend_tx t db = map_option sp_psbt (db_spend t db)"

definition list_spend :: "wallet_db \<Rightarrow> (psbt \<times> nat option \<times> txid option) list" where
  "list_spend db = map (\<lambda>r. (sp_psbt r, sp_updated_at r, sp_broadcast_txid r)) (db_spends db)"

definition store_spend :: "btc_api \<Rightarrow> nat \<Rightarrow> psbt \<Rightarrow> wallet_db \<Rightarrow> wallet_db" where
  \<comment> \<open>a row in conflict on either unique column gets the new PSBT and nothing else\<close>
  "store_spend L now p db = (let t = lib_txid L (ps_unsigned_tx p) in
     if \<exists>r\<in>set (db_spends db). sp_txid r = t \<or> sp_psbt r = p
     then db\<lparr>db_spends := map (\<lambda>r. if sp_txid r = t \<or> sp_psbt r = p then r\<lparr>sp_psbt := p\<rparr> else r) (db_spends db)\<rparr>
     else db\<lparr>db_spends := db_spends db @ [\<lparr>sp_psbt = p, sp_txid = t, sp_updated_at = Some now, sp_broadcast_txid = None\<rparr>]\<rparr>)"

definition clear_signatures :: "psbt \<Rightarrow> psbt" where
  "clear_signatures p = p\<lparr>ps_inputs := map (\<lambda>i. i\<lparr>pi_partial_sigs := []\<rparr>) (ps_inputs p)\<rparr>"

definition store_imported_construction :: "btc_api \<Rightarrow> nat \<Rightarrow> psbt \<Rightarrow> wallet_db \<Rightarrow> wallet_db option" where
  \<comment> \<open>\<open>None\<close>: an error, with nothing written\<close>
  "store_imported_construction L now p db =
     (if \<exists>i\<in>set (ps_inputs p). pi_partial_sigs i \<noteq> [] then None
      else (let t = lib_txid L (ps_unsigned_tx p);
                db1 = (if \<exists>r\<in>set (db_spends db). sp_txid r = t then db
                  else db\<lparr>db_spends := db_spends db @
                    [\<lparr>sp_psbt = p, sp_txid = t, sp_updated_at = Some now, sp_broadcast_txid = None\<rparr>]\<rparr>) in
        case filter (\<lambda>r. sp_txid r = t) (db_spends db1) of
          [] \<Rightarrow> None
        | r # _ \<Rightarrow> if clear_signatures (sp_psbt r) = p then Some db1 else None))"

definition spend_broadcast_txid :: "txid \<Rightarrow> wallet_db \<Rightarrow> txid option option" where
  \<comment> \<open>outer \<open>None\<close>: no such draft\<close>
  "spend_broadcast_txid t db = (case filter (\<lambda>r. sp_txid r = t) (db_spends db) of
       [] \<Rightarrow> None
     | r # _ \<Rightarrow> Some (sp_broadcast_txid r))"

definition records_broadcast :: "txid \<Rightarrow> txid \<Rightarrow> spend_row \<Rightarrow> bool" where
  "records_broadcast draft actual r \<longleftrightarrow> sp_txid r = draft \<and> (sp_broadcast_txid r = None \<or> sp_broadcast_txid r = Some actual)"

definition record_broadcast_txid :: "txid \<Rightarrow> txid \<Rightarrow> wallet_db \<Rightarrow> wallet_db option" where
  \<comment> \<open>the statement commits by itself; \<open>None\<close> when it did not update exactly one row, and a
    draft's identifier is unique, so then it updated none\<close>
  "record_broadcast_txid draft actual db =
     (if length (filter (records_broadcast draft actual) (db_spends db)) \<noteq> 1 then None
      else Some (db\<lparr>db_spends := map (\<lambda>r. if records_broadcast draft actual r then r\<lparr>sp_broadcast_txid := Some actual\<rparr> else r)
        (db_spends db)\<rparr>))"

definition delete_spend :: "txid \<Rightarrow> wallet_db \<Rightarrow> wallet_db" where
  "delete_spend t db = db\<lparr>db_spends := filter (\<lambda>r. sp_txid r \<noteq> t) (db_spends db)\<rparr>"

section \<open>Labels\<close>

definition set_label :: "wallet_db \<Rightarrow> string \<times> label_kind \<times> string option \<Rightarrow> wallet_db" where
  "set_label db = (\<lambda>(item, kind, value). case value of
       None \<Rightarrow> db\<lparr>db_label_rows := filter (\<lambda>l. lb_item l \<noteq> item) (db_label_rows db)\<rparr>
     | Some v \<Rightarrow>
         if \<exists>l\<in>set (db_label_rows db). lb_item l = item
         then db\<lparr>db_label_rows := map (\<lambda>l. if lb_item l = item then l\<lparr>lb_value := v\<rparr> else l) (db_label_rows db)\<rparr>
         else db\<lparr>db_label_rows := db_label_rows db @ [\<lparr>lb_item = item, lb_kind = kind, lb_value = v\<rparr>]\<rparr>)"

definition update_labels :: "(string \<times> label_kind \<times> string option) list \<Rightarrow> wallet_db \<Rightarrow> wallet_db" where
  \<comment> \<open>the entries of the map, in its iteration order\<close>
  "update_labels items db = foldl set_label db items"

definition db_labels :: "string set \<Rightarrow> wallet_db \<Rightarrow> label_row list" where
  "db_labels items db = filter (\<lambda>l. lb_item l \<in> items) (db_label_rows db)"

definition labels_bip329 :: "nat \<Rightarrow> nat \<Rightarrow> wallet_db \<Rightarrow> label_row list" where
  "labels_bip329 offset limit db = take limit (drop offset (db_label_rows db))"

section \<open>The invariant\<close>

definition drafts_ok :: "btc_api \<Rightarrow> wallet_db \<Rightarrow> bool" where
  "drafts_ok L db \<longleftrightarrow> distinct (map sp_txid (db_spends db)) \<and>
     (\<forall>r\<in>set (db_spends db). sp_txid r = lib_txid L (ps_unsigned_tx (sp_psbt r))) \<and> distinct (map lb_item (db_label_rows db))"

lemma drafts_filter: "drafts_ok L db \<Longrightarrow> r \<in> set (db_spends db) \<Longrightarrow> filter (\<lambda>s. sp_txid s = sp_txid r) (db_spends db) = [r]"
proof -
  assume ok: "drafts_ok L db" and r: "r \<in> set (db_spends db)"
  then obtain xs ys where xs: "db_spends db = xs @ r # ys" by (meson split_list)
  moreover have "distinct (map sp_txid (db_spends db))" using ok by (simp add: drafts_ok_def)
  ultimately have "\<forall>s\<in>set xs \<union> set ys. sp_txid s \<noteq> sp_txid r" by (force simp: image_iff)
  then have "filter (\<lambda>s. sp_txid s = sp_txid r) xs = []" "filter (\<lambda>s. sp_txid s = sp_txid r) ys = []"
    by (auto simp: filter_empty_conv)
  then show ?thesis by (simp add: xs)
qed

lemma drafts_filter_cases:
  assumes "drafts_ok L db"
  obtains "filter (\<lambda>r. sp_txid r = t) (db_spends db) = []" "\<forall>r\<in>set (db_spends db). sp_txid r \<noteq> t"
  | r where "filter (\<lambda>r. sp_txid r = t) (db_spends db) = [r]" "r \<in> set (db_spends db)" "sp_txid r = t"
proof (cases "\<exists>r\<in>set (db_spends db). sp_txid r = t")
  case True
  then show ?thesis using drafts_filter [OF assms] that(2) by blast
next
  case False
  then show ?thesis using that(1) by (auto simp: filter_empty_conv)
qed

lemma drafts_ok_map:
  assumes "drafts_ok L db" and "\<And>r. r \<in> set (db_spends db) \<Longrightarrow> sp_txid (f r) = sp_txid r \<and>
    lib_txid L (ps_unsigned_tx (sp_psbt (f r))) = sp_txid r"
  shows "drafts_ok L (db\<lparr>db_spends := map f (db_spends db)\<rparr>)"
proof -
  have eq: "map (sp_txid \<circ> f) (db_spends db) = map sp_txid (db_spends db)" using assms(2) by simp
  have "distinct (map (sp_txid \<circ> f) (db_spends db))" unfolding eq using assms(1) by (simp add: drafts_ok_def)
  then show ?thesis using assms by (simp add: drafts_ok_def)
qed

lemma drafts_ok_append:
  assumes "drafts_ok L db" and "\<forall>r\<in>set (db_spends db). sp_txid r \<noteq> lib_txid L (ps_unsigned_tx p)"
  shows "drafts_ok L (db\<lparr>db_spends := db_spends db @
    [\<lparr>sp_psbt = p, sp_txid = lib_txid L (ps_unsigned_tx p), sp_updated_at = u, sp_broadcast_txid = None\<rparr>]\<rparr>)"
proof -
  have "lib_txid L (ps_unsigned_tx p) \<notin> sp_txid ` set (db_spends db)" using assms(2) by (metis imageE)
  then show ?thesis using assms(1) by (simp add: drafts_ok_def)
qed

lemma drafts_ok_store:
  assumes "drafts_ok L db"
  shows "drafts_ok L (store_spend L now p db)"
proof (cases "\<exists>r\<in>set (db_spends db). sp_txid r = lib_txid L (ps_unsigned_tx p) \<or> sp_psbt r = p")
  case True
  let ?f = "\<lambda>r. if sp_txid r = lib_txid L (ps_unsigned_tx p) \<or> sp_psbt r = p then r\<lparr>sp_psbt := p\<rparr> else r"
  have "drafts_ok L (db\<lparr>db_spends := map ?f (db_spends db)\<rparr>)"
    using assms by (rule drafts_ok_map) (use assms in \<open>auto simp: drafts_ok_def\<close>)
  with True show ?thesis by (simp add: store_spend_def)
next
  case False
  then show ?thesis using assms by (auto simp: store_spend_def Let_def drafts_ok_append)
qed

lemma drafts_ok_imported:
  "\<lbrakk>store_imported_construction L now p db = Some db'; drafts_ok L db\<rbrakk> \<Longrightarrow> drafts_ok L db'"
  by (auto simp: store_imported_construction_def Let_def drafts_ok_append split: if_splits list.splits)

lemma drafts_ok_record:
  assumes "record_broadcast_txid draft actual db = Some db'" and "drafts_ok L db"
  shows "drafts_ok L db'"
proof -
  have "db' = db\<lparr>db_spends := map (\<lambda>r. if records_broadcast draft actual r then r\<lparr>sp_broadcast_txid := Some actual\<rparr> else r)
      (db_spends db)\<rparr>" using assms(1) by (simp add: record_broadcast_txid_def split: if_splits)
  moreover have "drafts_ok L (db\<lparr>db_spends := map (\<lambda>r. if records_broadcast draft actual r
      then r\<lparr>sp_broadcast_txid := Some actual\<rparr> else r) (db_spends db)\<rparr>)"
    using assms(2) by (rule drafts_ok_map) (use assms(2) in \<open>auto simp: drafts_ok_def\<close>)
  ultimately show ?thesis by simp
qed

lemma drafts_ok_delete: "drafts_ok L db \<Longrightarrow> drafts_ok L (delete_spend t db)"
  by (auto simp: delete_spend_def drafts_ok_def distinct_map_filter)

lemma set_label_distinct:
  "distinct (map lb_item (db_label_rows db)) \<Longrightarrow> distinct (map lb_item (db_label_rows (set_label db x)))"
proof -
  assume d: "distinct (map lb_item (db_label_rows db))"
  obtain item kind v where x: "x = (item, kind, v)" by (cases x)
  have eq: "map lb_item (map (\<lambda>l. if lb_item l = item then l\<lparr>lb_value := w\<rparr> else l) (db_label_rows db)) =
      map lb_item (db_label_rows db)" for w by simp
  have "distinct (map lb_item (map (\<lambda>l. if lb_item l = item then l\<lparr>lb_value := w\<rparr> else l) (db_label_rows db)))" for w
    unfolding eq by (rule d)
  then show ?thesis using d x
    by (cases v) (auto simp: set_label_def distinct_map_filter simp del: map_map)
qed

lemma drafts_ok_labels: "drafts_ok L db \<Longrightarrow> drafts_ok L (update_labels items db)"
  unfolding update_labels_def
proof (induction items arbitrary: db)
  case (Cons x items)
  have "db_spends (set_label db x) = db_spends db" by (cases x) (auto simp: set_label_def split: option.split)
  then have "drafts_ok L (set_label db x)" using Cons.prems set_label_distinct by (auto simp: drafts_ok_def)
  then show ?case using Cons.IH by simp
qed simp

section \<open>What a stored draft keeps\<close>

lemma filter_map_same:
  assumes "\<And>r. r \<in> set rs \<Longrightarrow> sp_txid (f r) = sp_txid r"
  shows "filter (\<lambda>r. sp_txid r = t) (map f rs) = map f (filter (\<lambda>r. sp_txid r = t) rs)"
  using assms by (induction rs) auto

lemma broadcast_store:
  assumes "drafts_ok L db" and "spend_broadcast_txid t db = Some b"
  shows "spend_broadcast_txid t (store_spend L now p db) = Some b"
proof -
  let ?f = "\<lambda>r. if sp_txid r = lib_txid L (ps_unsigned_tx p) \<or> sp_psbt r = p then r\<lparr>sp_psbt := p\<rparr> else r"
  obtain r rs where r: "filter (\<lambda>r. sp_txid r = t) (db_spends db) = r # rs" "sp_broadcast_txid r = b"
    using assms(2) by (auto simp: spend_broadcast_txid_def split: list.splits)
  have "filter (\<lambda>r. sp_txid r = t) (map ?f (db_spends db)) = ?f r # map ?f rs"
    using filter_map_same [of "db_spends db" ?f t] r(1) by simp
  then show ?thesis using r by (auto simp: store_spend_def spend_broadcast_txid_def Let_def)
qed

text \<open>
  The identifier a draft was broadcast under is recorded once.  After recording it reads
  back, recording the same one again changes nothing, recording another one is refused, saving a
  new version of any draft keeps it, and no other draft's record is touched.
\<close>

theorem broadcast_recorded_once:
  assumes ok: "drafts_ok L db" and rec: "record_broadcast_txid draft actual db = Some db'"
  shows "drafts_ok L db' \<and> spend_broadcast_txid draft db' = Some (Some actual) \<and>
    (\<forall>other. record_broadcast_txid draft other db' = (if other = actual then Some db' else None)) \<and>
    (\<forall>now p. spend_broadcast_txid draft (store_spend L now p db') = Some (Some actual)) \<and>
    (\<forall>t. t \<noteq> draft \<longrightarrow> spend_broadcast_txid t db' = spend_broadcast_txid t db)"
proof -
  let ?f = "\<lambda>r. if records_broadcast draft actual r then r\<lparr>sp_broadcast_txid := Some actual\<rparr> else r"
  have db': "db' = db\<lparr>db_spends := map ?f (db_spends db)\<rparr>" and one: "filter (records_broadcast draft actual) (db_spends db) \<noteq> []"
    using rec by (auto simp: record_broadcast_txid_def split: if_splits)
  from one obtain r where r: "r \<in> set (db_spends db)" "records_broadcast draft actual r" by (auto simp: filter_empty_conv)
  have rows: "filter (\<lambda>s. sp_txid s = t) (db_spends db') = map ?f (filter (\<lambda>s. sp_txid s = t) (db_spends db))" for t
    using filter_map_same [of "db_spends db" ?f t] by (simp add: db')
  have own: "filter (\<lambda>s. sp_txid s = draft) (db_spends db') = [r\<lparr>sp_broadcast_txid := Some actual\<rparr>]"
    using drafts_filter [OF ok r(1)] r(2) rows [of draft] by (simp add: records_broadcast_def)
  have ok': "drafts_ok L db'" using drafts_ok_record [OF rec ok] .
  have read: "spend_broadcast_txid draft db' = Some (Some actual)" using own by (simp add: spend_broadcast_txid_def)
  have again: "record_broadcast_txid draft other db' = (if other = actual then Some db' else None)" for other
  proof -
    have eq: "filter (records_broadcast draft other) (db_spends db') =
        filter (\<lambda>s. sp_broadcast_txid s = None \<or> sp_broadcast_txid s = Some other) (filter (\<lambda>s. sp_txid s = draft) (db_spends db'))"
      unfolding filter_filter by (rule filter_cong) (auto simp: records_broadcast_def)
    have "map (\<lambda>s. if records_broadcast draft actual s then s\<lparr>sp_broadcast_txid := Some actual\<rparr> else s) (db_spends db') = db_spends db'"
      by (auto simp: db' records_broadcast_def)
    then show ?thesis unfolding record_broadcast_txid_def eq own by auto
  qed
  have "spend_broadcast_txid t db' = spend_broadcast_txid t db" if "t \<noteq> draft" for t
  proof -
    have "map ?f (filter (\<lambda>s. sp_txid s = t) (db_spends db)) = filter (\<lambda>s. sp_txid s = t) (db_spends db)"
      using that by (intro map_idI) (auto simp: records_broadcast_def)
    then show ?thesis using rows [of t] by (simp add: spend_broadcast_txid_def)
  qed
  then show ?thesis using ok' read again broadcast_store [OF ok' read] by blast
qed

end
