(* ===== verification/From_Self.thy ===== *)
theory From_Self
  imports Wallet_Coins
begin

text \<open>
  \<open>SqliteConn::update_coins_from_self\<close>: the repeated update that marks the coins created by
  transactions whose inputs are all the wallet's own.  A pass can only enable another one by
  marking an unconfirmed coin, so the number of passes the code allows is enough and its final
  assertion never fails; the result is the least set of coins closed under the rule the comments
  of the source describe.
\<close>

section \<open>The rule\<close>

text \<open>
  An output of a transaction all of whose inputs are coins of the wallet, each confirmed or
  itself from the wallet; coins already marked stay marked.
\<close>

inductive from_self :: "int \<Rightarrow> wallet_db \<Rightarrow> outpoint \<Rightarrow> bool" for h db where
  marked: "\<lbrakk>c \<in> set (db_coins db); cr_is_from_self c\<rbrakk> \<Longrightarrow> from_self h db (cr_outpoint c)"
| created: "\<lbrakk>c \<in> set (db_coins db); cr_blockheight c = None \<or> above h (cr_blockheight c);
    r \<in> set (db_transactions db); tr_txid r = op_txid (cr_outpoint c);
    length (tx_input (tr_tx r)) = length (filter (spends_from h (tr_txid r)) (db_coins db));
    \<forall>d\<in>set (db_coins db). spends_from h (tr_txid r) d \<longrightarrow> cr_blockheight d \<noteq> None \<or> from_self h db (cr_outpoint d)\<rbrakk>
    \<Longrightarrow> from_self h db (cr_outpoint c)"

section \<open>Passes as growing sets\<close>

definition flag :: "outpoint set \<Rightarrow> coin_row \<Rightarrow> coin_row" where
  "flag X c = c\<lparr>cr_is_from_self := cr_outpoint c \<in> X\<rparr>"

definition with_flags :: "outpoint set \<Rightarrow> wallet_db \<Rightarrow> wallet_db" where
  "with_flags X db = db\<lparr>db_coins := map (flag X) (db_coins db)\<rparr>"

definition flagged :: "wallet_db \<Rightarrow> outpoint set" where
  "flagged db = {cr_outpoint c |c. c \<in> set (db_coins db) \<and> cr_is_from_self c}"

definition newly :: "int \<Rightarrow> wallet_db \<Rightarrow> outpoint set" where
  "newly h db = {cr_outpoint c |c. c \<in> set (db_coins db) \<and> marks_from_self h db c}"

lemma flag_simps [simp]:
  "cr_outpoint (flag X c) = cr_outpoint c" "cr_blockheight (flag X c) = cr_blockheight c"
  "cr_is_from_self (flag X c) = (cr_outpoint c \<in> X)" "spends_from h t (flag X c) = spends_from h t c"
  "flag Y (flag X c) = flag Y c" "(flag X c)\<lparr>cr_is_from_self := b\<rparr> = c\<lparr>cr_is_from_self := b\<rparr>"
  by (simp_all add: flag_def spends_from_def)

lemma same_row:
  "\<lbrakk>distinct (map cr_outpoint (db_coins db)); c \<in> set (db_coins db); d \<in> set (db_coins db); cr_outpoint c = cr_outpoint d\<rbrakk>
    \<Longrightarrow> c = d"
  by (meson distinct_map inj_onD)

lemma with_flags_flagged:
  assumes d: "distinct (map cr_outpoint (db_coins db))"
  shows "with_flags (flagged db) db = db"
proof -
  have "cr_outpoint c \<in> flagged db \<longleftrightarrow> cr_is_from_self c" if "c \<in> set (db_coins db)" for c
    using same_row [OF d that] that unfolding flagged_def by blast
  then have "map (flag (flagged db)) (db_coins db) = db_coins db"
    by (simp add: map_idI flag_def)
  then show ?thesis by (simp add: with_flags_def)
qed

lemma with_flags_simps [simp]:
  "db_transactions (with_flags X db) = db_transactions db" "with_flags Y (with_flags X db) = with_flags Y db"
  "map cr_outpoint (db_coins (with_flags X db)) = map cr_outpoint (db_coins db)"
  "db_coins (with_flags X db) = map (flag X) (db_coins db)"
  by (simp_all add: with_flags_def comp_def)

lemma spend_count_flags:
  "spend_count h (map (flag X) cs) t =
     length (filter (\<lambda>c. spends_from h t c \<and> (cr_blockheight c \<noteq> None \<or> cr_outpoint c \<in> X)) cs)"
  by (simp add: spend_count_def filter_map comp_def counted_def)

lemma marks_flag:
  "marks_from_self h db' (flag X c) \<longleftrightarrow> all_inputs_ours h db' (op_txid (cr_outpoint c)) \<and>
     (cr_blockheight c = None \<or> above h (cr_blockheight c)) \<and> cr_outpoint c \<notin> X"
  by (simp add: marks_from_self_def above_def split: option.split)

lemma setcompr_image: "{f y |y. y \<in> g ` S \<and> P y} = {f (g x) |x. x \<in> S \<and> P (g x)}"
  by blast

lemma newly_flags:
  "newly h (with_flags X db) = {cr_outpoint c |c. c \<in> set (db_coins db) \<and>
     all_inputs_ours h (with_flags X db) (op_txid (cr_outpoint c)) \<and>
     (cr_blockheight c = None \<or> above h (cr_blockheight c)) \<and> cr_outpoint c \<notin> X}"
proof -
  have "newly h (with_flags X db) = {cr_outpoint c |c. c \<in> set (db_coins db) \<and>
      marks_from_self h (with_flags X db) (flag X c)}"
    unfolding newly_def with_flags_simps set_map setcompr_image flag_simps ..
  then show ?thesis by (simp only: marks_flag)
qed

lemma from_self_pass_flags:
  assumes "distinct (map cr_outpoint (db_coins db))"
  shows "from_self_pass h (with_flags X db) = with_flags (X \<union> newly h (with_flags X db)) db"
proof -
  let ?db = "with_flags X db"
  have "(if marks_from_self h ?db (flag X c) then (flag X c)\<lparr>cr_is_from_self := True\<rparr> else flag X c) =
      flag (X \<union> newly h ?db) c" if c: "c \<in> set (db_coins db)" for c
  proof -
    have new: "marks_from_self h ?db (flag X c) \<longleftrightarrow> cr_outpoint c \<in> newly h ?db"
    proof
      assume "cr_outpoint c \<in> newly h ?db"
      then obtain d where d: "d \<in> set (db_coins db)" "cr_outpoint c = cr_outpoint d"
        and m: "marks_from_self h ?db (flag X d)"
        unfolding newly_flags marks_flag by blast
      show "marks_from_self h ?db (flag X c)" using m same_row [OF assms c d] by simp
    qed (use c in \<open>auto simp: newly_flags marks_flag\<close>)
    have union: "flag (X \<union> N) c = (if cr_outpoint c \<in> N then c\<lparr>cr_is_from_self := True\<rparr> else flag X c)" for N
      by (simp add: flag_def)
    show ?thesis unfolding new union flag_simps ..
  qed
  then have "map (\<lambda>c. if marks_from_self h ?db c then c\<lparr>cr_is_from_self := True\<rparr> else c) (map (flag X) (db_coins db)) =
      map (flag (X \<union> newly h ?db)) (db_coins db)" by simp
  then show ?thesis unfolding from_self_pass_def with_flags_simps by (simp add: with_flags_def)
qed

lemma from_self_updated_zero: "from_self_updated h db = 0 \<longleftrightarrow> newly h db = {}"
  by (auto simp: from_self_updated_def newly_def filter_empty_conv)

section \<open>Enough passes\<close>

lemma pass_coins: "db_coins (from_self_pass h db) =
    map (\<lambda>c. if marks_from_self h db c then c\<lparr>cr_is_from_self := True\<rparr> else c) (db_coins db)"
  by (simp add: from_self_pass_def)

text \<open>If no unconfirmed coin was marked, no count changed and the next pass marks nothing.\<close>

lemma pass_productive:
  assumes "from_self_updated h (from_self_pass h db) \<noteq> 0"
  shows "\<exists>c\<in>set (db_coins db). cr_blockheight c = None \<and> marks_from_self h db c"
proof (rule ccontr)
  assume none: "\<not> ?thesis"
  let ?f = "\<lambda>c. if marks_from_self h db c then c\<lparr>cr_is_from_self := True\<rparr> else c"
  have count: "spend_count h (db_coins (from_self_pass h db)) t = spend_count h (db_coins db) t" for t
  proof -
    have "spends_from h t (?f c) \<and> counted (?f c) \<longleftrightarrow> spends_from h t c \<and> counted c" if "c \<in> set (db_coins db)" for c
      using none that by (auto simp: counted_def spends_from_def)
    then show ?thesis unfolding spend_count_def pass_coins by (simp add: filter_map comp_def cong: filter_cong)
  qed
  have ours: "all_inputs_ours h (from_self_pass h db) t \<longleftrightarrow> all_inputs_ours h db t" for t
  proof -
    have "spends_from h t (?f c) \<longleftrightarrow> spends_from h t c" for c by (simp add: spends_from_def)
    then have "(\<exists>c\<in>set (db_coins (from_self_pass h db)). spends_from h t c) \<longleftrightarrow> (\<exists>c\<in>set (db_coins db). spends_from h t c)"
      by (simp only: pass_coins set_map bex_simps)
    moreover have "db_transactions (from_self_pass h db) = db_transactions db" by (simp add: from_self_pass_def)
    ultimately show ?thesis unfolding all_inputs_ours_def count by simp
  qed
  obtain c where "c \<in> set (db_coins db)" "marks_from_self h (from_self_pass h db) (?f c)"
    using assms by (auto simp: from_self_updated_def filter_empty_conv pass_coins)
  then show False by (auto simp: marks_from_self_def ours split: if_splits)
qed

lemma filter_length_mono: "(\<And>x. Q x \<Longrightarrow> P x) \<Longrightarrow> length (filter Q xs) \<le> length (filter P xs)"
  by (induction xs) auto

lemma filter_length_strict:
  assumes "\<And>x. Q x \<Longrightarrow> P x" and "P c" and "\<not> Q c" and "c \<in> set xs"
  shows "length (filter Q xs) < length (filter P xs)"
proof -
  obtain ys zs where "xs = ys @ c # zs" using assms(4) by (meson split_list)
  then show ?thesis
    using filter_length_mono [of Q P ys, OF assms(1)] filter_length_mono [of Q P zs, OF assms(1)] assms(2,3) by simp
qed

lemma pass_decreases:
  assumes "from_self_updated h (from_self_pass h db) \<noteq> 0"
  shows "unconfirmed_not_self (from_self_pass h db) < unconfirmed_not_self db"
proof -
  let ?f = "\<lambda>c. if marks_from_self h db c then c\<lparr>cr_is_from_self := True\<rparr> else c"
  let ?P = "\<lambda>c. cr_blockheight c = None \<and> \<not> cr_is_from_self c"
  obtain c where c: "c \<in> set (db_coins db)" "cr_blockheight c = None" "marks_from_self h db c"
    using pass_productive [OF assms] by blast
  have "?P d" if "?P (?f d)" for d using that by (auto split: if_splits)
  moreover have "?P c" "\<not> ?P (?f c)" using c by (simp_all add: marks_from_self_def)
  ultimately have "length (filter (\<lambda>d. ?P (?f d)) (db_coins db)) < length (filter ?P (db_coins db))"
    using filter_length_strict [of "\<lambda>d. ?P (?f d)" ?P c] c(1) by blast
  then show ?thesis unfolding unconfirmed_not_self_def pass_coins by (simp add: filter_map comp_def)
qed

lemma from_self_loop_ends:
  "unconfirmed_not_self db + 2 \<le> n \<Longrightarrow> snd (from_self_loop n h u db) = 0 \<and>
     from_self_updated h (fst (from_self_loop n h u db)) = 0"
proof (induction n arbitrary: u db)
  case (Suc n)
  show ?case
  proof (cases "from_self_updated h db = 0")
    case False
    show ?thesis
    proof (cases "from_self_updated h (from_self_pass h db) = 0")
      case True
      obtain m where "n = Suc m" using Suc.prems by (cases n) auto
      then show ?thesis using False True by simp
    next
      case f: False
      have "unconfirmed_not_self (from_self_pass h db) + 2 \<le> n" using pass_decreases [OF f] Suc.prems by simp
      from Suc.IH [OF this] show ?thesis using False by simp
    qed
  qed simp
qed simp

section \<open>The least fixpoint\<close>

lemma filter_length_eq:
  assumes "length (filter (\<lambda>x. P x \<and> Q x) xs) = length (filter P xs)" and "x \<in> set xs" and "P x"
  shows "Q x"
proof -
  have "length (filter Q (filter P xs)) = length (filter P xs)" using assms(1) by (simp add: conj_commute)
  then have "\<forall>y\<in>set (filter P xs). Q y" by (metis filter_id_conv length_filter_less linorder_neq_iff)
  with assms show ?thesis by simp
qed

definition spends_are_inputs :: "wallet_db \<Rightarrow> bool" where
  "spends_are_inputs db \<longleftrightarrow> (\<forall>c\<in>set (db_coins db). \<forall>r\<in>set (db_transactions db).
     cr_spend_txid c = Some (tr_txid r) \<longrightarrow> cr_outpoint c \<in> set (prevouts (tr_tx r)))"

lemma spends_bounded:
  assumes "coins_ok db" and "spends_are_inputs db" and "r \<in> set (db_transactions db)"
  shows "length (filter (spends_from h (tr_txid r)) (db_coins db)) \<le> length (tx_input (tr_tx r))"
proof -
  let ?cs = "filter (spends_from h (tr_txid r)) (db_coins db)"
  have "distinct (map cr_outpoint ?cs)" using assms(1) by (simp add: coins_ok_def distinct_map_filter)
  moreover have "set (map cr_outpoint ?cs) \<subseteq> set (prevouts (tr_tx r))"
    using assms(2,3) by (auto simp: spends_are_inputs_def spends_from_def)
  ultimately have "length (map cr_outpoint ?cs) \<le> length (prevouts (tr_tx r))"
    by (metis card_mono card_length distinct_card finite_set order_trans)
  then show ?thesis by (simp add: prevouts_def)
qed

lemma newly_sound:
  assumes "coins_ok db" and "txs_ok L db" and "spends_are_inputs db" and X: "X \<subseteq> Collect (from_self h db)"
  shows "newly h (with_flags X db) \<subseteq> Collect (from_self h db)"
proof
  fix p assume "p \<in> newly h (with_flags X db)"
  then obtain c where c: "c \<in> set (db_coins db)" "p = cr_outpoint c" "cr_blockheight c = None \<or> above h (cr_blockheight c)"
    and ours: "all_inputs_ours h (with_flags X db) (op_txid (cr_outpoint c))"
    unfolding newly_flags by blast
  then obtain r where r: "r \<in> set (db_transactions db)" "tr_txid r = op_txid (cr_outpoint c)"
    and n: "tr_num_inputs r = Some (spend_count h (map (flag X) (db_coins db)) (tr_txid r))"
    by (auto simp: all_inputs_ours_def)
  let ?S = "spends_from h (tr_txid r)" and ?Q = "\<lambda>c. cr_blockheight c \<noteq> None \<or> cr_outpoint c \<in> X"
  have len: "length (tx_input (tr_tx r)) = length (filter (\<lambda>c. ?S c \<and> ?Q c) (db_coins db))"
    using n assms(2) r(1) unfolding spend_count_flags by (auto simp: txs_ok_def)
  moreover have "length (filter (\<lambda>c. ?S c \<and> ?Q c) (db_coins db)) \<le> length (filter ?S (db_coins db))"
    by (rule filter_length_mono) simp
  ultimately have eq: "length (filter (\<lambda>c. ?S c \<and> ?Q c) (db_coins db)) = length (filter ?S (db_coins db))"
    using spends_bounded [OF assms(1,3) r(1), of h] by simp
  have "\<forall>d\<in>set (db_coins db). ?S d \<longrightarrow> cr_blockheight d \<noteq> None \<or> from_self h db (cr_outpoint d)"
    using filter_length_eq [OF eq] X by blast
  then show "p \<in> Collect (from_self h db)"
    using from_self.created [OF c(1,3) r] len eq c(2) by simp
qed

lemma from_self_complete:
  assumes "coins_ok db" and "txs_ok L db" and "flagged db \<subseteq> X" and closed: "newly h (with_flags X db) = {}"
  shows "from_self h db p \<Longrightarrow> p \<in> X"
proof (induction rule: from_self.induct)
  case (marked c)
  then show ?case using assms(3) by (auto simp: flagged_def)
next
  case (created c r)
  let ?S = "spends_from h (tr_txid r)"
  have all: "\<forall>d\<in>set (db_coins db). ?S d \<longrightarrow> cr_blockheight d \<noteq> None \<or> cr_outpoint d \<in> X" using created by blast
  then have "filter (\<lambda>c. ?S c \<and> (cr_blockheight c \<noteq> None \<or> cr_outpoint c \<in> X)) (db_coins db) = filter ?S (db_coins db)"
    by (intro filter_cong) auto
  then have "tr_num_inputs r = Some (spend_count h (map (flag X) (db_coins db)) (tr_txid r))"
    using assms(2) created(3,5) unfolding spend_count_flags by (simp add: txs_ok_def)
  moreover have "filter ?S (db_coins db) \<noteq> []" using assms(2) created(3,5) by (auto simp: txs_ok_def)
  then have "\<exists>c\<in>set (db_coins (with_flags X db)). ?S c" by (auto simp: filter_empty_conv)
  ultimately have "all_inputs_ours h (with_flags X db) (op_txid (cr_outpoint c))"
    unfolding all_inputs_ours_def using created(3,4) by auto
  then show ?case using closed created(1,2) unfolding newly_flags by blast
qed

lemma from_self_loop_flags:
  assumes "coins_ok db" and "txs_ok L db" and "spends_are_inputs db"
    and "flagged db \<subseteq> X" and "X \<subseteq> Collect (from_self h db)"
  shows "\<exists>Y. fst (from_self_loop n h u (with_flags X db)) = with_flags Y db \<and> flagged db \<subseteq> Y \<and> Y \<subseteq> Collect (from_self h db)"
  using assms(4,5)
proof (induction n arbitrary: u X)
  case (Suc n)
  have "distinct (map cr_outpoint (db_coins db))" using assms(1) by (simp add: coins_ok_def)
  note pass = from_self_pass_flags [OF this, of h X]
  have "X \<union> newly h (with_flags X db) \<subseteq> Collect (from_self h db)"
    using newly_sound [OF assms(1-3) Suc.prems(2)] Suc.prems(2) by blast
  then show ?case using Suc.IH [of "X \<union> newly h (with_flags X db)"] Suc.prems by (auto simp: pass)
qed auto

text \<open>
  C29.  Recomputing which coins come from the wallet always finishes within the passes the code
  allows (its closing assertion holds), changes nothing but that mark, and marks exactly the
  coins of the rule: those already marked, and the outputs, unconfirmed or confirmed after the
  given height, of transactions all of whose inputs are coins of the wallet that are confirmed or
  themselves from the wallet.  The recorded spends must be inputs of the transactions they name.
\<close>

theorem update_coins_from_self_exact:
  assumes "coins_ok db" and "txs_ok L db" and "spends_are_inputs db"
  shows "update_coins_from_self h db = Some (db\<lparr>db_coins :=
    map (\<lambda>c. c\<lparr>cr_is_from_self := from_self h db (cr_outpoint c)\<rparr>) (db_coins db)\<rparr>)"
proof -
  have d: "distinct (map cr_outpoint (db_coins db))" using assms(1) by (simp add: coins_ok_def)
  let ?loop = "from_self_loop (unconfirmed_not_self db + 2) h 0 db"
  have ends: "snd ?loop = 0" "newly h (fst ?loop) = {}"
    using from_self_loop_ends [of db "unconfirmed_not_self db + 2" h 0] by (simp_all add: from_self_updated_zero)
  have "flagged db \<subseteq> Collect (from_self h db)" by (auto simp: flagged_def intro: from_self.marked)
  from from_self_loop_flags [OF assms order_refl this, of "unconfirmed_not_self db + 2" 0]
  obtain Y where Y: "fst ?loop = with_flags Y db" "flagged db \<subseteq> Y" "Y \<subseteq> Collect (from_self h db)"
    unfolding with_flags_flagged [OF d] by blast
  have "Collect (from_self h db) \<subseteq> Y" using from_self_complete [OF assms(1,2) Y(2)] ends(2) Y(1) by auto
  with Y(3) have "Y = Collect (from_self h db)" by blast
  then have "fst ?loop = db\<lparr>db_coins := map (\<lambda>c. c\<lparr>cr_is_from_self := from_self h db (cr_outpoint c)\<rparr>) (db_coins db)\<rparr>"
    using Y(1) by (simp add: with_flags_def flag_def [abs_def])
  then show ?thesis using ends(1) by (simp add: update_coins_from_self_def prod.case_eq_if del: from_self_loop.simps)
qed

text \<open>
  The bound on the passes needs no assumption on the data: for every database, however
  inconsistent, the closing assertion of the loop holds.
\<close>

theorem update_coins_from_self_returns: "\<exists>db'. update_coins_from_self h db = Some db'"
  using from_self_loop_ends [of db "unconfirmed_not_self db + 2" h 0]
  by (simp add: update_coins_from_self_def prod.case_eq_if del: from_self_loop.simps)

end
