(* ===== verification/Wallet_State.thy ===== *)
theory Wallet_State
  imports Reservation Wallet_Drafts From_Self
begin

text \<open>
  The wallet database as a state machine: its states are the ones reached from a new Vault or
  imported database by the methods of the connection, in any order; the invariant of every table
  holds in all of them; and the indices the reservations hand out never repeat, whatever the
  poller and the other clients do in between.
\<close>

section \<open>The invariant of the whole database\<close>

definition db_ok :: "btc_api \<Rightarrow> address_api \<Rightarrow> wallet_db \<Rightarrow> bool" where
  "db_ok L A db \<longleftrightarrow> coins_ok db \<and> txs_ok L db \<and> drafts_ok L db \<and> addresses_ok A db"

text \<open>Each part depends on its own tables.\<close>

lemma coins_ok_cong: "\<lbrakk>db_coins db' = db_coins db; db_transactions db' = db_transactions db\<rbrakk> \<Longrightarrow> coins_ok db' = coins_ok db"
  by (simp add: coins_ok_def saved_txids_def)

lemma txs_ok_cong: "db_transactions db' = db_transactions db \<Longrightarrow> txs_ok L db' = txs_ok L db"
  by (simp add: txs_ok_def saved_txids_def)

lemma drafts_ok_cong:
  "\<lbrakk>db_spends db' = db_spends db; db_label_rows db' = db_label_rows db\<rbrakk> \<Longrightarrow> drafts_ok L db' = drafts_ok L db"
  by (simp add: drafts_ok_def)

lemma db_okI:
  assumes "db_ok L A db" and "addresses_ok A db'" and "db_coins db' = db_coins db" "db_transactions db' = db_transactions db"
    "db_spends db' = db_spends db" "db_label_rows db' = db_label_rows db"
  shows "db_ok L A db'"
  using assms(1,2) coins_ok_cong [OF assms(3,4)] txs_ok_cong [OF assms(4)] drafts_ok_cong [OF assms(5,6)]
  by (simp add: db_ok_def)

lemma imported_wallet_desc:
  assumes ok: "addresses_ok A db" and kind: "wl_kind (db_wallet db) = ImportedKind r" and chain: "im_chain r = dir_name (id_chain d)"
    and texts: "im_receive_descriptor r = id_receive d" "im_change_descriptor r = id_change d"
  shows "wallet_desc A db = Some (Imported d)"
proof -
  have "wallet_desc A db = (if lib_imported_parses A (id_receive d) (id_change d) (id_chain d) then Some (Imported d) else None)"
    unfolding wallet_desc_def kind wallet_kind.case chain dir.parse_spell option.case texts by simp
  moreover have "wallet_desc A db \<noteq> None" using ok by (auto simp: addresses_ok_def split: option.splits)
  ultimately show ?thesis by (simp split: if_splits)
qed

fun kind_identity :: "wallet_kind \<Rightarrow> descriptor + string \<times> string \<times> string \<times> nat" where
  "kind_identity (VaultKind d) = Inl d"
| "kind_identity (ImportedKind r) =
     Inr (im_chain r, im_receive_descriptor r, im_change_descriptor r, im_initial_lookahead r)"

definition same_identity :: "wallet_db \<Rightarrow> wallet_db \<Rightarrow> bool" where
  "same_identity db db' \<longleftrightarrow> db_addresses db' = db_addresses db \<and> tp_network (db_tip db') = tp_network (db_tip db) \<and>
     tp_chain (db_tip db') = tp_chain (db_tip db) \<and> kind_identity (wl_kind (db_wallet db')) = kind_identity (wl_kind (db_wallet db)) \<and>
     wl_deposit_index (db_wallet db') = wl_deposit_index (db_wallet db) \<and>
     wl_change_index (db_wallet db') = wl_change_index (db_wallet db)"

lemma wallet_desc_kind:
  assumes "kind_identity (wl_kind (db_wallet db')) = kind_identity (wl_kind (db_wallet db))"
  shows "wallet_desc A db' = wallet_desc A db"
proof (cases "wl_kind (db_wallet db)")
  case (VaultKind d)
  then have "wl_kind (db_wallet db') = VaultKind d" using assms by (cases "wl_kind (db_wallet db')") auto
  with VaultKind show ?thesis by (simp add: wallet_desc_def)
next
  case (ImportedKind r)
  then obtain r' where r': "wl_kind (db_wallet db') = ImportedKind r'" using assms by (cases "wl_kind (db_wallet db')") auto
  then have eqs: "im_chain r' = im_chain r" "im_receive_descriptor r' = im_receive_descriptor r"
    "im_change_descriptor r' = im_change_descriptor r" using assms ImportedKind by simp_all
  show ?thesis unfolding wallet_desc_def r' ImportedKind wallet_kind.case eqs ..
qed

lemma lookahead_kind:
  assumes "kind_identity (wl_kind (db_wallet db')) = kind_identity (wl_kind (db_wallet db))"
  shows "lookahead db' = lookahead db"
  using assms by (cases "wl_kind (db_wallet db)"; cases "wl_kind (db_wallet db')") (auto simp: lookahead_def)

lemma addresses_ok_cong:
  assumes "same_identity db db'"
  shows "addresses_ok A db' = addresses_ok A db"
proof -
  have eqs: "db_addresses db' = db_addresses db" "tp_network (db_tip db') = tp_network (db_tip db)"
    "tp_chain (db_tip db') = tp_chain (db_tip db)" "wl_deposit_index (db_wallet db') = wl_deposit_index (db_wallet db)"
    "wl_change_index (db_wallet db') = wl_change_index (db_wallet db)"
    and kind: "kind_identity (wl_kind (db_wallet db')) = kind_identity (wl_kind (db_wallet db))"
    using assms by (simp_all add: same_identity_def)
  note same = wallet_desc_kind [OF kind] lookahead_kind [OF kind]
  show ?thesis unfolding addresses_ok_def tip_decodes_def highest_index_def eqs same ..
qed

lemma same_identity_index: "same_identity db db' \<Longrightarrow> branch_index b db' = branch_index b db"
  by (simp add: same_identity_def branch_index_def)

definition touches_coins :: "wallet_db \<Rightarrow> wallet_db \<Rightarrow> bool" where
  \<comment> \<open>only the coins, the transactions and the block of the tip may differ\<close>
  "touches_coins db db' \<longleftrightarrow> db_wallet db' = db_wallet db \<and> db_discovery db' = db_discovery db \<and>
     db_addresses db' = db_addresses db \<and> db_spends db' = db_spends db \<and> db_label_rows db' = db_label_rows db \<and>
     tp_network (db_tip db') = tp_network (db_tip db) \<and> tp_chain (db_tip db') = tp_chain (db_tip db)"

lemma touches_coins_simps [simp]:
  "touches_coins db db" "touches_coins db (db\<lparr>db_coins := cs\<rparr>)" "touches_coins db (db\<lparr>db_transactions := txs\<rparr>)"
  by (simp_all add: touches_coins_def)

lemma touches_coins_trans: "\<lbrakk>touches_coins a b; touches_coins b c\<rbrakk> \<Longrightarrow> touches_coins a c"
  by (simp add: touches_coins_def)

lemma touches_coins_ok:
  assumes "touches_coins db db'" and "db_ok L A db" and "coins_ok db'" and "txs_ok L db'"
  shows "db_ok L A db'"
proof -
  have "same_identity db db'" and d: "db_spends db' = db_spends db" "db_label_rows db' = db_label_rows db"
    using assms(1) by (auto simp: touches_coins_def same_identity_def)
  then show ?thesis using assms(2-4) addresses_ok_cong drafts_ok_cong [OF d] by (simp add: db_ok_def)
qed

section \<open>Every method keeps it\<close>

definition only_coins :: "wallet_db \<Rightarrow> wallet_db \<Rightarrow> bool" where
  "only_coins db db' \<longleftrightarrow> touches_coins db db' \<and> db_transactions db' = db_transactions db"

lemma only_coins_simps [simp]: "only_coins db db" "only_coins db (db\<lparr>db_coins := cs\<rparr>)" "only_coins db (update_coin f p db)"
  by (simp_all add: only_coins_def update_coin_def)

lemma only_coins_trans: "\<lbrakk>only_coins a b; only_coins b c\<rbrakk> \<Longrightarrow> only_coins a c"
  by (auto simp: only_coins_def intro: touches_coins_trans)

lemma only_coins_try_fold:
  assumes "\<And>s x t. f s x = Some t \<Longrightarrow> only_coins s t" and "try_fold f db xs = Some db'"
  shows "only_coins db db'"
  using assms(2) by (rule try_fold_invariant [where P = "only_coins db"])
    (use assms(1) only_coins_simps(1) only_coins_trans in blast)+

lemma only_coins_foldl:
  assumes "\<And>s x. only_coins s (f s x)"
  shows "only_coins db (foldl f db xs)"
  by (induction xs rule: rev_induct) (simp_all add: only_coins_trans [OF _ assms])

lemma coin_methods_touch:
  "new_unspent_coins cs db = Some db' \<Longrightarrow> only_coins db db'" "spend_coins xs db = Some db' \<Longrightarrow> only_coins db db'"
  "confirm_spend ys db = Some db' \<Longrightarrow> only_coins db db'"
  "only_coins db (remove_coins ps db)" "only_coins db (confirm_coins zs db)" "only_coins db (unspend_coins ps db)"
  "only_coins db (update_tip tip db)" "only_coins db (rollback_tip tip db)"
proof -
  have "only_coins s t" if "insert_coin s x = Some t" for s x t
    using insert_coin_frame [OF that] by auto
  then show "new_unspent_coins cs db = Some db' \<Longrightarrow> only_coins db db'"
    unfolding new_unspent_coins_def using only_coins_try_fold by blast
  have "only_coins s t" if "spend_coin s x = Some t" for s x t
    using that by (auto simp: spend_coin_def split: prod.splits if_splits)
  then show "spend_coins xs db = Some db' \<Longrightarrow> only_coins db db'"
    unfolding spend_coins_def using only_coins_try_fold by blast
  have "only_coins s t" if "confirm_spend_row s x = Some t" for s x t
    using that by (auto simp: confirm_spend_row_def split: prod.splits if_splits)
  then show "confirm_spend ys db = Some db' \<Longrightarrow> only_coins db db'"
    unfolding confirm_spend_def using only_coins_try_fold by blast
  show "only_coins db (remove_coins ps db)" "only_coins db (confirm_coins zs db)" "only_coins db (unspend_coins ps db)"
    unfolding remove_coins_def confirm_coins_def unspend_coins_def
    by (rule only_coins_foldl; simp split: prod.split)+
  show "only_coins db (update_tip tip db)" "only_coins db (rollback_tip tip db)"
    by (simp_all add: only_coins_def touches_coins_def update_tip_def rollback_tip_def set_tip_def)
qed

lemma new_txs_touches:
  assumes "new_txs L txs db = Some db'"
  shows "touches_coins db db'"
proof -
  have "touches_coins s t" if "new_tx L s x = Some t" for s x t
    using that by (auto simp: new_tx_def split: if_splits)
  then show ?thesis
    using try_fold_invariant [OF assms [unfolded new_txs_def], of "touches_coins db"] touches_coins_trans touches_coins_simps(1)
    by blast
qed

lemma from_self_loop_frame:
  assumes "from_self_loop n h u db = (db', v)"
  shows "only_coins db db' \<and> (coins_ok db \<longrightarrow> coins_ok db')"
  using assms
proof (induction n arbitrary: u db)
  case (Suc n)
  have "coins_ok (from_self_pass h db)" if "coins_ok db"
    unfolding from_self_pass_def by (rule coins_ok_map [OF that]) (auto simp: wf_coin_row_def coin_refs_def)
  moreover have "only_coins db (from_self_pass h db)" unfolding from_self_pass_def by simp
  ultimately show ?case using Suc only_coins_trans by (auto split: if_splits)
qed simp

lemma from_self_frame:
  assumes "update_coins_from_self h db = Some db'"
  shows "only_coins db db' \<and> (coins_ok db \<longrightarrow> coins_ok db')"
proof -
  obtain v where "from_self_loop (unconfirmed_not_self db + 2) h 0 db = (db', v)"
    using assms unfolding update_coins_from_self_def by (auto simp del: from_self_loop.simps split: prod.splits if_splits)
  then show ?thesis by (rule from_self_loop_frame)
qed

lemma allocate_change_step:
  assumes ok: "addresses_ok A db" and vault: "vault_addresses A" and run: "allocate_change A chain d expected db = (res, db')"
  shows "(db' = db \<and> (\<forall>rv. res \<noteq> Inr (Some rv))) \<or>
    (takes_next A True db db' \<and> (\<exists>rv. res = Inr (Some rv) \<and> rv_index rv = branch_index True db + 1) \<and>
      (expected = None \<or> expected = Some (branch_index True db + 1)))"
proof (cases "vault_next chain d db")
  case (Inl e)
  then show ?thesis using run by (auto simp: allocate_change_def)
next
  case (Inr nx)
  then have "wl_kind (db_wallet db) = VaultKind d" "tp_chain (db_tip db) = dir_name chain" "tp_network (db_tip db) = bitcoin_network chain"
    by (auto simp: vault_next_def res_rules split: wallet_kind.splits)
  from allocate_change_outcome [OF ok vault this refl, of expected] show ?thesis
    using run by (auto split: if_splits)
qed

lemma allocate_imported_step:
  assumes ok: "addresses_ok A db" and run: "allocate_imported_branch A chain d b expected db = (res, db')"
  shows "(db' = db \<and> (\<forall>x. res \<noteq> Inr (Some x))) \<or>
    (takes_next A b db db' \<and> (\<exists>address. res = Inr (Some (address, branch_index b db + 1)) \<and>
       lib_branch_address A (Imported d) b (bitcoin_network chain) (branch_index b db + 1) = Inr address) \<and>
      (expected = None \<or> expected = Some (branch_index b db + 1)))"
proof (cases "imported_next chain d b db")
  case (Inl e)
  then show ?thesis using run by (auto simp: allocate_imported_branch_def)
next
  case (Inr x)
  obtain r where kind: "wl_kind (db_wallet db) = ImportedKind r"
    using Inr by (cases "wl_kind (db_wallet db)") (auto simp: imported_next_def guard_res_Inr)
  have r: "im_chain r = dir_name chain" "im_receive_descriptor r = id_receive d" "im_change_descriptor r = id_change d"
      "im_initial_lookahead r \<le> 10000" "id_chain d = chain" "tp_chain (db_tip db) = dir_name chain"
      "tp_network (db_tip db) = bitcoin_network chain"
    using Inr unfolding imported_next_def kind wallet_kind.case guard_res_Inr by blast+
  have "wallet_desc A db = Some (Imported d)" using imported_wallet_desc [OF ok kind _ r(2,3)] r(1,5) by simp
  from allocate_imported_outcome [OF ok kind r(1-5) this r(6,7) refl, of b expected] show ?thesis
    using run by (auto split: if_splits)
qed


lemma takes_next_ok:
  assumes "takes_next A b db db'" and "db_ok L A db"
  shows "db_ok L A db'"
proof -
  obtain rows where "db' = (set_branch_index b (branch_index b db + 1) db)\<lparr>db_addresses := rows\<rparr>" and "addresses_ok A db'"
    using assms(1) by (auto simp: takes_next_def)
  then show ?thesis using db_okI [OF assms(2), of db'] by (simp add: set_branch_index_def)
qed

lemma set_derivation_index_ok:
  assumes "set_derivation_index A index change db = Some db'" and "db_ok L A db"
  shows "db_ok L A db' \<and> (\<forall>b. branch_index b db \<le> branch_index b db') \<and>
    wallet_desc A db' = wallet_desc A db \<and> tp_network (db_tip db') = tp_network (db_tip db)"
proof -
  have ok: "addresses_ok A db" using assms(2) by (simp add: db_ok_def)
  consider "db' = db" | rows where "db' = (set_branch_index change index db)\<lparr>db_addresses := rows\<rparr>" "addresses_ok A db'"
      "branch_index change db < index"
    using set_derivation_index_outcome [OF ok, of index change] assms(1) by (auto split: if_splits)
  then show ?thesis
  proof cases
    case 2
    have "db_ok L A db'"
      using 2 db_okI [OF assms(2), of db'] by (simp add: set_branch_index_def)
    then show ?thesis using 2(1,3) by simp
  qed (use assms(2) in simp)
qed

lemma mapped_max:
  assumes "mapped A desc network rows" and "rows \<noteq> []"
  shows "Max (ad_derivation_index ` set rows) = length rows - 1"
proof -
  have nth: "ad_derivation_index (rows ! i) = i" if "i < length rows" for i
    using assms(1) that by (simp add: mapped_def row_at_def)
  have "map ad_derivation_index rows = [0..<length rows]" by (rule nth_equalityI) (simp_all add: nth)
  then have "ad_derivation_index ` set rows = {0..<length rows}" by (metis list.set_map set_upt)
  moreover have "Max {0..<length rows} = length rows - 1"
    using assms(2) by (intro Max_eqI) auto
  ultimately show ?thesis by simp
qed

lemma restore_imported_ok:
  assumes run: "restore_imported_address_state A chain d birthday la receive_index change_index db = Inr db'" and "db_ok L A db"
  shows "db_ok L A db' \<and> branch_index False db' = max (branch_index False db) receive_index \<and>
    branch_index True db' = max (branch_index True db) change_index \<and>
    wallet_desc A db' = wallet_desc A db \<and> tp_network (db_tip db') = tp_network (db_tip db)"
proof -
  define fr fc where "fr = max (wl_deposit_index (db_wallet db)) receive_index" and "fc = max (wl_change_index (db_wallet db)) change_index"
  obtain r ft rows_db where r: "wl_kind (db_wallet db) = ImportedKind r" "id_chain d = chain" "import_identity chain d birthday la db r"
    and target: "max receive_index change_index + (la - 1) < 2 ^ 31"
    and ft: "ft = max fr fc + (la - 1)"
    and fill: "fold_res (insert_branch_address A d (bitcoin_network chain)) db
        [(case max_address_index db of None \<Rightarrow> 0 | Some l \<Rightarrow> saturating_add32 l 1)..<ft + 1] = Inr rows_db"
    and db': "db' = rows_db\<lparr>db_wallet := (db_wallet rows_db)\<lparr>wl_deposit_index := fr, wl_change_index := fc,
      wl_kind := ImportedKind (r\<lparr>im_history_complete := (if fr > wl_deposit_index (db_wallet db) \<or> fc > wl_change_index (db_wallet db)
        then False else im_history_complete r)\<rparr>)\<rparr>\<rparr>"
    using run unfolding restore_imported_address_state_def fr_def fc_def Let_def
    by (auto simp: res_rules not_le split: wallet_kind.splits)
  have ok: "addresses_ok A db" using assms(2) by (simp add: db_ok_def)
  have id: "tp_network (db_tip db) = bitcoin_network chain" "lookahead db = la" "1 \<le> la"
    using r(1,3) ok by (simp_all add: import_identity_def lookahead_def addresses_ok_def)
  have desc: "wallet_desc A db = Some (Imported d)"
    using imported_wallet_desc [OF ok r(1)] r(2,3) by (simp add: import_identity_def)
  then have laws: "branch_addresses A (Imported d) (bitcoin_network chain)" and rows: "mapped A (Imported d) (bitcoin_network chain) (db_addresses db)"
    and len: "length (db_addresses db) = highest_index db + la"
    using ok id by (simp_all add: addresses_ok_def)
  have bound: "highest_index db + la \<le> 2 ^ 31" using addresses_ok_bound [OF ok] id by simp
  have high: "highest_index db \<le> max fr fc" and top: "max fr fc + la \<le> 2 ^ 31"
    using bound target id(3) by (auto simp: fr_def fc_def highest_index_def)
  have start: "(case max_address_index db of None \<Rightarrow> 0 | Some l \<Rightarrow> saturating_add32 l 1) = length (db_addresses db)"
    using mapped_max [OF rows] len id(3) bound by (auto simp: max_address_index_def saturating_add32_def)
  have "\<exists>rows. fold_res (insert_branch_address A d (bitcoin_network chain)) db [length (db_addresses db)..<ft + 1] =
      Inr (db\<lparr>db_addresses := rows\<rparr>) \<and> mapped A (Imported d) (bitcoin_network chain) rows \<and> length rows = ft + 1"
    by (rule fill_window [OF laws rows refl insert_branch_step]) (use ft top high len id(3) in auto)
  then obtain rows' where rows': "rows_db = db\<lparr>db_addresses := rows'\<rparr>" "mapped A (Imported d) (bitcoin_network chain) rows'"
    "length rows' = ft + 1" using fill [unfolded start] by auto
  have kind: "kind_identity (wl_kind (db_wallet db')) = kind_identity (wl_kind (db_wallet db))" using r(1) by (simp add: db')
  have "wallet_desc A db' = Some (Imported d)" "tip_decodes db'" "lookahead db' = la" "highest_index db' = max fr fc"
    using desc ok id(2) wallet_desc_kind [OF kind, of A] lookahead_kind [OF kind]
    by (simp_all add: addresses_ok_def highest_index_def db' rows'(1))
  then have "addresses_ok A db'" using rows' laws id ft by (simp add: addresses_ok_def db')
  then have "db_ok L A db'" by (rule db_okI [OF assms(2)]) (simp_all add: db' rows'(1))
  then show ?thesis using wallet_desc_kind [OF kind, of A] by (simp add: db' rows'(1) fr_def fc_def branch_index_def)
qed


section \<open>The state machine\<close>

inductive db_step :: "btc_api \<Rightarrow> address_api \<Rightarrow> wallet_db \<Rightarrow> wallet_db \<Rightarrow> bool" for L A where
  step_new_txs: "new_txs L txs db = Some db' \<Longrightarrow> db_step L A db db'"
| step_new_coins: "\<lbrakk>new_unspent_coins cs db = Some db'; \<forall>c\<in>set cs. cn_amount c < 2 ^ 63\<rbrakk> \<Longrightarrow> db_step L A db db'"
| step_remove: "db_step L A db (remove_coins ps db)"
| step_confirm: "db_step L A db (confirm_coins cfs db)"
| step_spend: "spend_coins sps db = Some db' \<Longrightarrow> db_step L A db db'"
| step_unspend: "db_step L A db (unspend_coins ps db)"
| step_confirm_spend: "confirm_spend css db = Some db' \<Longrightarrow> db_step L A db db'"
| step_from_self: "update_coins_from_self h db = Some db' \<Longrightarrow> db_step L A db db'"
| step_update_tip: "db_step L A db (update_tip tip db)"
| step_rollback: "db_step L A db (rollback_tip tip db)"
| step_set_rescan: "db_step L A db (set_wallet_rescan_timestamp timestamp db)"
| step_complete_rescan: "complete_wallet_rescan db = Some db' \<Longrightarrow> db_step L A db db'"
| step_last_poll: "db_step L A db (set_wallet_last_poll_timestamp timestamp db)"
| step_set_index: "set_derivation_index A index change db = Some db' \<Longrightarrow> db_step L A db db'"
| step_reserve_vault: "allocate_change A chain d expected db = (r, db') \<Longrightarrow> db_step L A db db'"
| step_reserve_imported: "allocate_imported_branch A chain im change expected db = (ri, db') \<Longrightarrow> db_step L A db db'"
| step_restore: "restore_imported_address_state A chain im birthday la receive_index change_index db = Inr db' \<Longrightarrow> db_step L A db db'"
| step_expand: "expand_imported_discovery chain im birthday la target db = Inr (t, db') \<Longrightarrow> db_step L A db db'"
| step_history_pending: "mark_import_history_pending db = Some db' \<Longrightarrow> db_step L A db db'"
| step_history_complete: "complete_import_history rs chs db = Some db' \<Longrightarrow> db_step L A db db'"
| step_store_spend: "db_step L A db (store_spend L now p db)"
| step_store_imported: "store_imported_construction L now p db = Some db' \<Longrightarrow> db_step L A db db'"
| step_record_broadcast: "record_broadcast_txid draft actual db = Some db' \<Longrightarrow> db_step L A db db'"
| step_delete_spend: "db_step L A db (delete_spend draft db)"
| step_labels: "db_step L A db (update_labels items db)"

definition touches_drafts :: "wallet_db \<Rightarrow> wallet_db \<Rightarrow> bool" where
  "touches_drafts db db' \<longleftrightarrow> (\<exists>sp ls. db' = db\<lparr>db_spends := sp, db_label_rows := ls\<rparr>)"

lemma touches_drafts_ok: "\<lbrakk>touches_drafts db db'; db_ok L A db; drafts_ok L db'\<rbrakk> \<Longrightarrow> db_ok L A db' \<and> same_identity db db'"
  using addresses_ok_cong [of db db' A]
  by (auto simp: touches_drafts_def db_ok_def same_identity_def coins_ok_def txs_ok_def saved_txids_def)

lemma draft_methods_touch:
  "touches_drafts db (store_spend L now p db)" "touches_drafts db (delete_spend t db)" "touches_drafts db (update_labels items db)"
  "store_imported_construction L now p db = Some db' \<Longrightarrow> touches_drafts db db'"
  "record_broadcast_txid draft actual db = Some db' \<Longrightarrow> touches_drafts db db'"
proof -
  have spends: "touches_drafts db (db\<lparr>db_spends := sp\<rparr>)" for sp db
    unfolding touches_drafts_def by (intro exI [of _ sp] exI [of _ "db_label_rows db"]) simp
  show "touches_drafts db (store_spend L now p db)" "touches_drafts db (delete_spend t db)"
    by (simp_all add: store_spend_def delete_spend_def Let_def spends)
  have same: "touches_drafts db db" for db using spends [of db "db_spends db"] by simp
  show "store_imported_construction L now p db = Some db' \<Longrightarrow> touches_drafts db db'"
    by (auto simp: store_imported_construction_def Let_def spends same split: if_splits list.splits)
  show "record_broadcast_txid draft actual db = Some db' \<Longrightarrow> touches_drafts db db'"
    by (auto simp: record_broadcast_txid_def spends split: if_splits)
  have one: "\<exists>ls. set_label db x = db\<lparr>db_label_rows := ls\<rparr>" for db x
    by (cases x) (auto simp: set_label_def split: option.split)
  have "\<exists>ls. update_labels items db = db\<lparr>db_label_rows := ls\<rparr>" for items
    unfolding update_labels_def
  proof (induction items rule: rev_induct)
    case Nil
    show ?case by (rule exI [of _ "db_label_rows db"]) simp
  next
    case (snoc x xs)
    then obtain ls where ls: "foldl set_label db xs = db\<lparr>db_label_rows := ls\<rparr>" by blast
    obtain ls' where "set_label (db\<lparr>db_label_rows := ls\<rparr>) x = (db\<lparr>db_label_rows := ls\<rparr>)\<lparr>db_label_rows := ls'\<rparr>"
      using one by blast
    then show ?case by (intro exI [of _ ls']) (simp add: ls)
  qed
  then obtain ls where "update_labels items db = db\<lparr>db_label_rows := ls\<rparr>" by blast
  then show "touches_drafts db (update_labels items db)"
    unfolding touches_drafts_def by (intro exI [of _ "db_spends db"] exI [of _ ls]) simp
qed

lemma wallet_row_ok:
  assumes "db' = db\<lparr>db_wallet := w, db_discovery := x\<rparr>" and "kind_identity (wl_kind w) = kind_identity (wl_kind (db_wallet db))"
    and "wl_deposit_index w = wl_deposit_index (db_wallet db)" and "wl_change_index w = wl_change_index (db_wallet db)"
    and "db_ok L A db"
  shows "db_ok L A db' \<and> same_identity db db'"
proof -
  have id: "same_identity db db'" using assms by (simp add: same_identity_def)
  moreover have "addresses_ok A db'" using addresses_ok_cong [OF id] assms(5) by (simp add: db_ok_def)
  then have "db_ok L A db'" by (rule db_okI [OF assms(5)]) (simp_all add: assms(1))
  ultimately show ?thesis by blast
qed

lemma import_methods_ok:
  assumes "db_ok L A db"
  shows "expand_imported_discovery chain im birthday la target db = Inr (t, db') \<Longrightarrow> db_ok L A db' \<and> same_identity db db'"
    and "mark_import_history_pending db = Some db' \<Longrightarrow> db_ok L A db' \<and> same_identity db db'"
    and "complete_import_history rs chs db = Some db' \<Longrightarrow> db_ok L A db' \<and> same_identity db db'"
    and "complete_wallet_rescan db = Some db' \<Longrightarrow> db_ok L A db' \<and> same_identity db db'"
proof -
  note ok = wallet_row_ok [OF _ _ _ _ assms, where x = "db_discovery db'" and w = "db_wallet db'" and db' = db']
  show "mark_import_history_pending db = Some db' \<Longrightarrow> db_ok L A db' \<and> same_identity db db'"
    by (rule ok) (auto simp: mark_import_history_pending_def split: wallet_kind.splits)
  show "complete_import_history rs chs db = Some db' \<Longrightarrow> db_ok L A db' \<and> same_identity db db'"
    by (rule ok) (auto simp: complete_import_history_def Let_def split: wallet_kind.splits if_splits)
  show "complete_wallet_rescan db = Some db' \<Longrightarrow> db_ok L A db' \<and> same_identity db db'"
    by (rule ok) (auto simp: complete_wallet_rescan_def split: option.splits)
  show "expand_imported_discovery chain im birthday la target db = Inr (t, db') \<Longrightarrow> db_ok L A db' \<and> same_identity db db'"
    by (rule ok) (auto simp: expand_imported_discovery_def Let_def res_rules split: wallet_kind.splits if_splits)
qed

lemma touches_coins_identity: "touches_coins db db' \<Longrightarrow> same_identity db db'"
  by (simp add: touches_coins_def same_identity_def)

definition db_advances :: "btc_api \<Rightarrow> address_api \<Rightarrow> wallet_db \<Rightarrow> wallet_db \<Rightarrow> bool" where
  "db_advances L A db db' \<longleftrightarrow> db_ok L A db' \<and> (\<forall>b. branch_index b db \<le> branch_index b db') \<and>
     wallet_desc A db' = wallet_desc A db \<and> tp_network (db_tip db') = tp_network (db_tip db)"

text \<open>One step keeps the invariant and the wallet's identity and never lowers an index.\<close>

lemma db_step_ok:
  assumes vault: "vault_addresses A" and "db_step L A db db'" and "db_ok L A db"
  shows "db_advances L A db db'"
proof -
  have keeps: "db_advances L A db db'" if "db_ok L A db' \<and> same_identity db db'" for db'
    using that same_identity_index [of db db'] wallet_desc_kind [of db' db A] by (auto simp: db_advances_def same_identity_def)
  have coins: "db_advances L A db db'" if "only_coins db db'" "coins_ok db'" for db'
    using touches_coins_ok [of db db' L A] that assms(3) touches_coins_identity keeps txs_ok_cong [of db' db L]
    by (auto simp: only_coins_def db_ok_def)
  have drafts: "db_advances L A db db'" if "touches_drafts db db'" "drafts_ok L db'" for db'
    using touches_drafts_ok that assms(3) keeps by blast
  have row: "db_advances L A db (db\<lparr>db_wallet := w\<rparr>)"
    if "kind_identity (wl_kind w) = kind_identity (wl_kind (db_wallet db))"
      "wl_deposit_index w = wl_deposit_index (db_wallet db)" "wl_change_index w = wl_change_index (db_wallet db)" for w
    using wallet_row_ok [OF _ that assms(3), of "db\<lparr>db_wallet := w\<rparr>" "db_discovery db"] keeps by simp
  have taken: "db_advances L A db db'" if "takes_next A c db db'" for c db'
    using takes_next_ok [OF that assms(3)] that by (auto simp: takes_next_def db_advances_def)
  have same: "db_advances L A db db" using assms(3) by (simp add: db_advances_def)
  have ok: "coins_ok db" "txs_ok L db" "drafts_ok L db" "addresses_ok A db" using assms(3) by (simp_all add: db_ok_def)
  show ?thesis using assms(2)
  proof (cases rule: db_step.cases)
    case (step_new_txs txs)
    then show ?thesis
      using keeps touches_coins_ok [OF new_txs_touches assms(3)] touches_coins_identity new_txs_touches new_txs_ok ok by blast
  next
    case (step_new_coins cs)
    then show ?thesis using coins coin_methods_touch(1) coins_ok_new_unspent ok(1) by blast
  next
    case (step_remove ps)
    then show ?thesis using coins coin_methods_touch(4) coins_ok_remove ok(1) by blast
  next
    case (step_confirm cfs)
    then show ?thesis using coins coin_methods_touch(5) coins_ok_confirm ok(1) by blast
  next
    case (step_spend sps)
    then show ?thesis using coins coin_methods_touch(2) coins_ok_spend ok(1) by blast
  next
    case (step_unspend ps)
    then show ?thesis using coins coin_methods_touch(6) coins_ok_unspend ok(1) by blast
  next
    case (step_confirm_spend css)
    then show ?thesis using coins coin_methods_touch(3) coins_ok_confirm_spend ok(1) by blast
  next
    case (step_from_self h)
    then show ?thesis using coins from_self_frame ok(1) by blast
  next
    case (step_update_tip tip)
    then show ?thesis using coins coin_methods_touch(7) ok(1) by (simp add: update_tip_def)
  next
    case (step_rollback tip)
    then show ?thesis using coins coin_methods_touch(8) coins_ok_rollback ok(1) by blast
  next
    case (step_set_rescan timestamp)
    then show ?thesis using row by (simp add: set_wallet_rescan_timestamp_def)
  next
    case step_complete_rescan
    then show ?thesis using keeps import_methods_ok(4) [OF assms(3)] by blast
  next
    case (step_last_poll timestamp)
    then show ?thesis using row by (simp add: set_wallet_last_poll_timestamp_def)
  next
    case (step_set_index index change)
    then show ?thesis using set_derivation_index_ok [OF _ assms(3)] unfolding db_advances_def by blast
  next
    case (step_reserve_vault chain d expected r)
    from allocate_change_step [OF ok(4) vault this] show ?thesis using taken same by auto
  next
    case (step_reserve_imported chain im change expected ri)
    from allocate_imported_step [OF ok(4) this] show ?thesis using taken same by auto
  next
    case (step_restore chain im birthday la receive_index change_index)
    from restore_imported_ok [OF this assms(3)] show ?thesis
      unfolding db_advances_def by (metis max.cobounded1)
  next
    case (step_expand chain im birthday la target t)
    then show ?thesis using keeps import_methods_ok(1) [OF assms(3)] by blast
  next
    case step_history_pending
    then show ?thesis using keeps import_methods_ok(2) [OF assms(3)] by blast
  next
    case (step_history_complete rs chs)
    then show ?thesis using keeps import_methods_ok(3) [OF assms(3)] by blast
  next
    case (step_store_spend now p)
    then show ?thesis using drafts draft_methods_touch(1) drafts_ok_store ok(3) by blast
  next
    case (step_store_imported now p)
    then show ?thesis using drafts draft_methods_touch(4) drafts_ok_imported ok(3) by blast
  next
    case (step_record_broadcast draft actual)
    then show ?thesis using drafts draft_methods_touch(5) drafts_ok_record ok(3) by blast
  next
    case (step_delete_spend draft)
    then show ?thesis using drafts draft_methods_touch(2) drafts_ok_delete ok(3) by blast
  next
    case (step_labels items)
    then show ?thesis using drafts draft_methods_touch(3) drafts_ok_labels ok(3) by blast
  qed
qed


section \<open>Reachable databases\<close>

inductive db_reachable :: "btc_api \<Rightarrow> address_api \<Rightarrow> wallet_db \<Rightarrow> bool" for L A where
  new_vault: "\<lbrakk>create_fresh_db A chain d timestamp = Inr db; branch_addresses A (Vault d) (bitcoin_network chain)\<rbrakk>
    \<Longrightarrow> db_reachable L A db"
| new_imported: "\<lbrakk>create_imported_db A chain im birthday la = Inr db; branch_addresses A (Imported im) (bitcoin_network chain);
    lib_imported_parses A (id_receive im) (id_change im) chain\<rbrakk> \<Longrightarrow> db_reachable L A db"
| step: "\<lbrakk>db_reachable L A db; db_step L A db db'\<rbrakk> \<Longrightarrow> db_reachable L A db'"

lemma fresh_db_ok:
  assumes "addresses_ok A ((fresh_tables chain w x)\<lparr>db_addresses := rows\<rparr>)"
  shows "db_ok L A ((fresh_tables chain w x)\<lparr>db_addresses := rows\<rparr>)"
  using assms by (simp add: db_ok_def coins_ok_def txs_ok_def drafts_ok_def saved_txids_def)

text \<open>
  C26.  In every database the daemon can reach, from a new Vault or imported wallet by any
  sequence of the connection's methods, where received coins carry amounts below \<open>2 ^ 63\<close> satoshis (the
  column is a signed 64-bit integer; all bitcoins are fewer than \<open>2 ^ 51\<close> satoshis): outpoints are unique, block heights and times come in
  pairs, a confirmed spend names its transaction, every transaction a coin names is stored, amounts
  are not negative, drafts are stored under their own identifier, and the address table is exactly
  the look-ahead window of the wallet.  So decoding a row never fails an assertion.
\<close>

theorem reachable_db_ok:
  assumes "vault_addresses A" and "db_reachable L A db"
  shows "db_ok L A db \<and> (\<forall>r\<in>set (db_coins db). coin_of_row r \<noteq> None) \<and>
    (\<forall>address. derivation_index_by_address address db \<noteq> None)"
proof -
  have ok: "db_ok L A db" using assms(2)
  proof (induction rule: db_reachable.induct)
    case (new_vault chain d timestamp db)
    then show ?case using create_fresh_db_ok [OF assms(1) new_vault(2), of timestamp] fresh_db_ok by fastforce
  next
    case (new_imported chain im birthday la db)
    then have "id_chain im = chain" "1 \<le> la" "la \<le> 10000" by (auto simp: create_imported_db_def res_rules)
    with new_imported show ?case using create_imported_db_ok [OF new_imported(2,3), of la birthday] fresh_db_ok by fastforce
  next
    case (step db db')
    then show ?case using db_step_ok [OF assms(1)] by (auto simp: db_advances_def)
  qed
  have "\<forall>r\<in>set (db_coins db). coin_of_row r \<noteq> None" using ok coin_of_row_total by (auto simp: db_ok_def coins_ok_def)
  moreover have "derivation_index_by_address address db \<noteq> None" for address
    using ok lookup_total [of A db address] by (simp add: db_ok_def)
  ultimately show ?thesis using ok by blast
qed


section \<open>Reservations\<close>

text \<open>A request for the next index of a branch, with the index it expects if any.\<close>

definition reserve_next :: "address_api \<Rightarrow> chain_id \<Rightarrow> wallet_descriptor \<Rightarrow> bool \<Rightarrow> nat option \<Rightarrow> wallet_db \<Rightarrow> nat option \<times> wallet_db" where
  "reserve_next A chain desc b expected db = (case desc of
       Vault d \<Rightarrow> (case allocate_change A chain d expected db of
           (Inr (Some rv), db') \<Rightarrow> (Some (rv_index rv), db') | (_, db') \<Rightarrow> (None, db'))
     | Imported d \<Rightarrow> (case allocate_imported_branch A chain d b expected db of
           (Inr (Some (_, i)), db') \<Rightarrow> (Some i, db') | (_, db') \<Rightarrow> (None, db')))"

definition reservable :: "btc_api \<Rightarrow> address_api \<Rightarrow> wallet_descriptor \<Rightarrow> network \<Rightarrow> wallet_db \<Rightarrow> bool" where
  "reservable L A desc network db \<longleftrightarrow> vault_addresses A \<and> db_ok L A db \<and> wallet_desc A db = Some desc \<and>
     tp_network (db_tip db) = network"

fun reserved_branch :: "wallet_descriptor \<Rightarrow> bool \<Rightarrow> bool" where
  "reserved_branch (Vault _) b = True"
| "reserved_branch (Imported _) b = b"

lemma reserve_next_cases:
  assumes "reservable L A desc network db" and "reserve_next A chain desc b e db = (res, db')"
  shows "(res = None \<and> db' = db) \<or> (res = Some (branch_index (reserved_branch desc b) db + 1) \<and>
    takes_next A (reserved_branch desc b) db db')"
proof -
  have ok: "addresses_ok A db" and vault: "vault_addresses A" using assms(1) by (auto simp: reservable_def db_ok_def)
  show ?thesis
  proof (cases desc)
    case (Vault d)
    obtain r t where run: "allocate_change A chain d e db = (r, t)" by (cases "allocate_change A chain d e db")
    show ?thesis using assms(2) allocate_change_step [OF ok vault run] Vault run
      by (auto simp: reserve_next_def split: sum.splits option.splits)
  next
    case (Imported d)
    obtain r t where run: "allocate_imported_branch A chain d b e db = (r, t)" by (cases "allocate_imported_branch A chain d b e db")
    show ?thesis using assms(2) allocate_imported_step [OF ok run] Imported run
      by (auto simp: reserve_next_def split: sum.splits option.splits)
  qed
qed

interpretation reservation: index_source "reserve_next A chain desc b" "branch_index (reserved_branch desc b)"
  "reservable L A desc network" "db_step L A"
  for A chain desc b L network
proof unfold_locales
  fix s e i t
  assume s: "reservable L A desc network s" and run: "reserve_next A chain desc b e s = (Some i, t)"
  then have "i = branch_index (reserved_branch desc b) s + 1" and nx: "takes_next A (reserved_branch desc b) s t"
    using reserve_next_cases by fastforce+
  moreover have "reservable L A desc network t" using s takes_next_ok [OF nx] nx by (auto simp: reservable_def takes_next_def)
  ultimately show "i = branch_index (reserved_branch desc b) s + 1 \<and> branch_index (reserved_branch desc b) t = i \<and> reservable L A desc network t"
    using takes_next_index [OF nx] by simp
next
  fix s e t
  assume "reservable L A desc network s" "reserve_next A chain desc b e s = (None, t)"
  then show "t = s" using reserve_next_cases by fastforce
next
  fix s t
  assume "reservable L A desc network s" "db_step L A s t"
  then show "reservable L A desc network t \<and> branch_index (reserved_branch desc b) s \<le> branch_index (reserved_branch desc b) t"
    using db_step_ok [of A L s t] by (auto simp: reservable_def db_advances_def)
qed

text \<open>
  C27.  An index is handed out once.  However requests for a branch interleave with every other
  method of the database (the poller raising indices, rollbacks, other reservations), the granted
  indices strictly increase, so no address is ever given out twice; they are normal indices beyond
  the index at the start; and at the end the wallet still recognises the address of each of them
  as its own, at that index and branch.
\<close>

theorem reserved_indices_unique:
  assumes "reservable L A desc network db" and "grants (reserve_next A chain desc b) (db_step L A) db is db'"
  shows "sorted_wrt (<) is \<and> distinct is \<and> (\<forall>i\<in>set is. branch_index (reserved_branch desc b) db < i \<and> i < 2 ^ 31 \<and>
    (\<exists>address. lib_branch_address A desc (reserved_branch desc b) network i = Inr address \<and>
      derivation_index_by_address address db' = Some (Some (i, reserved_branch desc b))))"
proof -
  let ?c = "reserved_branch desc b"
  have inc: "reservable L A desc network db'" "sorted_wrt (<) is" and range: "\<forall>i\<in>set is. branch_index ?c db < i \<and> i \<le> branch_index ?c db'"
    using reservation.grants_increase [OF assms(2,1)] by auto
  have ok: "addresses_ok A db'" and desc: "wallet_desc A db' = Some desc" and net: "tp_network (db_tip db') = network"
    using inc(1) by (auto simp: reservable_def db_ok_def)
  have "i < 2 ^ 31 \<and> (\<exists>address. lib_branch_address A desc ?c network i = Inr address \<and>
      derivation_index_by_address address db' = Some (Some (i, ?c)))" if "i \<in> set is" for i
  proof -
    have "branch_index ?c db' \<le> highest_index db'" by (simp add: branch_index_def highest_index_def)
    then have i: "i < highest_index db' + lookahead db'" using range that ok by (force simp: addresses_ok_def)
    then have "i < 2 ^ 31" using addresses_ok_bound [OF ok] by simp
    moreover obtain a where "lib_branch_address A desc ?c network i = Inr a"
      using branch_addressesD(1) [of A desc network i ?c] calculation ok desc net by (auto simp: addresses_ok_def)
    ultimately show ?thesis using address_lookup [OF ok desc] net i by auto
  qed
  moreover have "distinct is" using inc(2) by (simp add: strict_sorted_iff)
  ultimately show ?thesis using inc(2) range by blast
qed

text \<open>
  C28.  Committing a change index that was previewed succeeds exactly when it is still the next one.
  On a Vault's database, with its chain and descriptor: a hardened index is refused as exhausted, any
  index other than the next is answered \<open>false\<close>, and the next one is taken if its look-ahead window
  stays normal and refused as exhausted otherwise.  Unless it is taken the database is unchanged; with
  another chain or descriptor it is refused and unchanged.
\<close>

theorem commit_change_exact:
  assumes ok: "db_ok L A db" and vault: "vault_addresses A" and kind: "wl_kind (db_wallet db) = VaultKind stored"
  shows "if 2 ^ 31 \<le> index then commit_change_if_next A chain d index db = (Inl Exhausted, db)
    else if tp_chain (db_tip db) \<noteq> dir_name chain \<or> tp_network (db_tip db) \<noteq> bitcoin_network chain \<or> stored \<noteq> d
    then commit_change_if_next A chain d index db = (Inl IdentityMismatch, db)
    else if index \<noteq> branch_index True db + 1 then commit_change_if_next A chain d index db = (Inr False, db)
    else if index + LOOK_AHEAD_LIMIT \<le> 2 ^ 31
    then \<exists>db'. commit_change_if_next A chain d index db = (Inr True, db') \<and> branch_index True db' = index \<and>
      branch_index False db' = branch_index False db \<and> db_ok L A db'
    else commit_change_if_next A chain d index db = (Inl Exhausted, db)"
proof -
  let ?other = "tp_chain (db_tip db) \<noteq> dir_name chain \<or> tp_network (db_tip db) \<noteq> bitcoin_network chain \<or> stored \<noteq> d"
  have a: "addresses_ok A db" using ok by (simp add: db_ok_def)
  have mismatch: "commit_change_if_next A chain d index db = (Inl IdentityMismatch, db)" if "index < 2 ^ 31" ?other
  proof -
    have "vault_next chain d db = Inl IdentityMismatch" using that(2) kind by (auto simp: vault_next_def guard_res_def)
    then show ?thesis using that(1) by (simp add: commit_change_if_next_def allocate_change_def)
  qed
  have own: "if index \<noteq> branch_index True db + 1 then commit_change_if_next A chain d index db = (Inr False, db)
      else if index + LOOK_AHEAD_LIMIT \<le> 2 ^ 31
      then \<exists>db'. commit_change_if_next A chain d index db = (Inr True, db') \<and> takes_next A True db db'
      else commit_change_if_next A chain d index db = (Inl Exhausted, db)" if lt: "index < 2 ^ 31" and id: "\<not> ?other"
  proof -
    have d: "wl_kind (db_wallet db) = VaultKind d" "tp_chain (db_tip db) = dir_name chain" "tp_network (db_tip db) = bitcoin_network chain"
      using id kind by auto
    show ?thesis using allocate_change_outcome [OF a vault d refl, of "Some index"] lt
      by (auto simp: commit_change_if_next_def split: if_splits)
  qed
  show ?thesis
  proof (cases "2 ^ 31 \<le> index")
    case True
    then show ?thesis by (simp add: commit_change_if_next_def)
  next
    case False
    then have lt: "index < 2 ^ 31" by simp
    show ?thesis
    proof (cases ?other)
      case True
      then show ?thesis using mismatch [OF lt True] False by simp
    next
      case same: False
      have "db_ok L A db' \<and> branch_index True db' = branch_index True db + 1 \<and> branch_index False db' = branch_index False db"
        if "takes_next A True db db'" for db'
        using takes_next_ok [OF that ok] takes_next_index [OF that] by simp
      then show ?thesis using own [OF lt same] False same unfolding if_bool_eq_conj by (metis (no_types, lifting))
    qed
  qed
qed

end
