(* ===== verification/Chain_Lookup.thy ===== *)
theory Chain_Lookup
  imports Wallet_Db
begin

text \<open>
  Where the wallet's chain stands relative to the node's: the binary search for the last block
  before a date (\<open>coincubed/src/bitcoin/d/utils.rs\<close>) and the bounded walk back to the common
  ancestor (\<open>common_ancestor\<close> of the bitcoind backend, \<open>coincubed/src/bitcoin/mod.rs\<close>).  The node
  is a parameter: the two lookups the code makes, as functions that do not change during one
  search.  Heights are 32-bit signed integers, times 32-bit unsigned ones.
\<close>

section \<open>The code\<close>

record block_stats =
  bs_confirmations :: int
  bs_previous_blockhash :: "block_hash option"
  bs_blockhash :: block_hash
  bs_height :: int
  bs_time :: nat
  bs_median_time_past :: nat

definition checked_i32 :: "int \<Rightarrow> int option" where
  "checked_i32 x = (if - (2 ^ 31) \<le> x \<and> x < 2 ^ 31 then Some x else None)"

text \<open>The search; the outer \<open>None\<close> is an \<open>unwrap\<close> or assertion that fails, the inner one a failed lookup.\<close>

function search_before ::
  "(int \<Rightarrow> block_hash option) \<Rightarrow> (block_hash \<Rightarrow> block_stats option) \<Rightarrow> nat \<Rightarrow> int \<Rightarrow> int \<Rightarrow> int option option" where
  "search_before get_hash get_stats target start_height end_height =
     (if \<not> start_height < end_height then Some (Some start_height)
      else (case checked_i32 (end_height - start_height) of None \<Rightarrow> None | Some delta \<Rightarrow>
        (case checked_i32 (start_height + delta div 2 + 1) of None \<Rightarrow> None | Some next_height \<Rightarrow>
          (case Option.bind (get_hash next_height) get_stats of None \<Rightarrow> Some None | Some next_stats \<Rightarrow>
             if target > bs_time next_stats then search_before get_hash get_stats target next_height end_height
             else if \<not> start_height + delta div 2 < end_height then None
             else search_before get_hash get_stats target start_height (start_height + delta div 2)))))"
  by pat_completeness auto
termination
  by (relation "measure (\<lambda>(get_hash, get_stats, target, start_height, end_height). nat (end_height - start_height))")
    (auto simp: checked_i32_def split: if_splits)

declare search_before.simps [simp del]

definition block_before_date ::
  "nat \<Rightarrow> block_chain_tip \<Rightarrow> (int \<Rightarrow> block_hash option) \<Rightarrow> (block_hash \<Rightarrow> block_stats option) \<Rightarrow>
   block_chain_tip option option" where
  "block_before_date target tip get_hash get_stats =
     (case Option.bind (get_hash 0) get_stats of None \<Rightarrow> Some None | Some genesis_stats \<Rightarrow>
       (case get_stats (bt_hash tip) of None \<Rightarrow> Some None | Some tip_stats \<Rightarrow>
         if \<not> (bs_time genesis_stats \<le> target \<and> target < bs_time tip_stats) then Some None
         else (case search_before get_hash get_stats target 0 (bt_height tip) of
             None \<Rightarrow> None
           | Some None \<Rightarrow> Some None
           | Some (Some height) \<Rightarrow> Some (case get_hash height of
               None \<Rightarrow> None | Some hash \<Rightarrow> Some \<lparr>bt_height = height, bt_hash = hash\<rparr>))))"

datatype ancestor_search = Found block_chain_tip | TooDeep | SearchFailed

fun ancestor_walk ::
  "(block_hash \<Rightarrow> (string, block_stats) res) \<Rightarrow> nat \<Rightarrow> block_stats \<Rightarrow> block_chain_tip \<Rightarrow> ancestor_search" where
  \<comment> \<open>the steps left, and the block reached\<close>
  "ancestor_walk get_stats n stats ancestor =
     (if bs_confirmations stats \<noteq> -1 then Found ancestor
      else (case n of 0 \<Rightarrow> TooDeep | Suc m \<Rightarrow>
        (case bs_previous_blockhash stats of None \<Rightarrow> SearchFailed | Some previous \<Rightarrow>
          (case get_stats previous of Inl _ \<Rightarrow> SearchFailed | Inr next_stats \<Rightarrow>
             ancestor_walk get_stats m next_stats \<lparr>bt_height = bs_height next_stats, bt_hash = bs_blockhash next_stats\<rparr>))))"

declare ancestor_walk.simps [simp del]

definition common_ancestor ::
  "(block_hash \<Rightarrow> (string, block_stats) res) \<Rightarrow> block_chain_tip \<Rightarrow> int \<Rightarrow> ancestor_search" where
  "common_ancestor get_stats tip max_depth =
     (case get_stats (bt_hash tip) of Inl _ \<Rightarrow> SearchFailed | Inr stats \<Rightarrow> ancestor_walk get_stats (nat max_depth) stats tip)"

section \<open>The last block before a date\<close>

definition time_at :: "(int \<Rightarrow> block_hash option) \<Rightarrow> (block_hash \<Rightarrow> block_stats option) \<Rightarrow> int \<Rightarrow> nat option" where
  "time_at get_hash get_stats h = map_option bs_time (Option.bind (get_hash h) get_stats)"

text \<open>The height found separates the times around it, whatever the order of the other times.\<close>

definition separates :: "(int \<Rightarrow> nat option) \<Rightarrow> nat \<Rightarrow> int \<Rightarrow> bool" where
  "separates tm target h \<longleftrightarrow> (h = 0 \<or> (\<exists>t. tm h = Some t \<and> t < target)) \<and> (\<exists>t. tm (h + 1) = Some t \<and> target \<le> t)"

lemma search_before_sound:
  assumes "0 \<le> s" "s \<le> e" "e < 2 ^ 31"
    and "s = 0 \<or> (\<exists>t. time_at get_hash get_stats s = Some t \<and> t < target)"
    and "e = last_height \<or> (\<exists>t. time_at get_hash get_stats (e + 1) = Some t \<and> target \<le> t)"
  shows "\<exists>r. search_before get_hash get_stats target s e = Some r \<and>
    (case r of
       None \<Rightarrow> \<exists>h. s < h \<and> h \<le> e \<and> time_at get_hash get_stats h = None
     | Some h \<Rightarrow> s \<le> h \<and> h \<le> e \<and> (h = 0 \<or> (\<exists>t. time_at get_hash get_stats h = Some t \<and> t < target)) \<and>
         (h = last_height \<or> (\<exists>t. time_at get_hash get_stats (h + 1) = Some t \<and> target \<le> t)))"
  using assms
proof (induction "nat (e - s)" arbitrary: s e rule: less_induct)
  case less
  show ?case
  proof (cases "s < e")
    case False
    then have "search_before get_hash get_stats target s e = Some (Some s)"
      by (simp add: search_before.simps [of get_hash get_stats target s e])
    moreover have "s = e" using False less.prems(2) by simp
    ultimately show ?thesis using less.prems(1,4,5) by simp
  next
    case True
    define m where "m = s + (e - s) div 2"
    have m: "s \<le> m" "m < e" "m + 1 \<le> e" "0 \<le> m" using True less.prems(1) by (auto simp: m_def)
    have eq: "search_before get_hash get_stats target s e =
        (case Option.bind (get_hash (m + 1)) get_stats of None \<Rightarrow> Some None | Some st \<Rightarrow>
           if target > bs_time st then search_before get_hash get_stats target (m + 1) e
           else search_before get_hash get_stats target s m)"
    proof -
      have "checked_i32 (e - s) = Some (e - s)" "checked_i32 (m + 1) = Some (m + 1)"
        using True less.prems(1,3) m by (simp_all add: checked_i32_def)
      then show ?thesis using True m(2)
        by (simp only: search_before.simps [of get_hash get_stats target s e] m_def [symmetric] option.case if_False not_True_eq_False)
    qed
    show ?thesis
    proof (cases "Option.bind (get_hash (m + 1)) get_stats")
      case None
      then have "time_at get_hash get_stats (m + 1) = None" by (simp add: time_at_def)
      then show ?thesis using m by (auto simp: eq None intro!: exI [of _ "m + 1"])
    next
      case (Some st)
      then have t: "time_at get_hash get_stats (m + 1) = Some (bs_time st)" by (simp add: time_at_def)
      show ?thesis
      proof (cases "target > bs_time st")
        case True
        have "nat (e - (m + 1)) < nat (e - s)" using m by simp
        from less.hyps [OF this] obtain r where "search_before get_hash get_stats target (m + 1) e = Some r"
          "case r of
             None \<Rightarrow> \<exists>h. m + 1 < h \<and> h \<le> e \<and> time_at get_hash get_stats h = None
           | Some h \<Rightarrow> m + 1 \<le> h \<and> h \<le> e \<and> (h = 0 \<or> (\<exists>t. time_at get_hash get_stats h = Some t \<and> t < target)) \<and>
               (h = last_height \<or> (\<exists>t. time_at get_hash get_stats (h + 1) = Some t \<and> target \<le> t))"
          using less.prems m t True by auto
        then show ?thesis using m(1) True Some by (cases r) (force simp: eq)+
      next
        case False
        have "nat (m - s) < nat (e - s)" using m by simp
        from less.hyps [OF this] obtain r where "search_before get_hash get_stats target s m = Some r"
          "case r of
             None \<Rightarrow> \<exists>h. s < h \<and> h \<le> m \<and> time_at get_hash get_stats h = None
           | Some h \<Rightarrow> s \<le> h \<and> h \<le> m \<and> (h = 0 \<or> (\<exists>t. time_at get_hash get_stats h = Some t \<and> t < target)) \<and>
               (h = last_height \<or> (\<exists>t. time_at get_hash get_stats (h + 1) = Some t \<and> target \<le> t))"
          using less.prems m t False by auto
        then show ?thesis using m(2) False Some by (auto simp: eq split: option.splits)
      qed
    qed
  qed
qed

text \<open>With times that never decrease, the separating height is the last one before the date.\<close>

lemma separates_last:
  assumes "separates tm target h" and "\<And>i j t u. \<lbrakk>0 \<le> i; i \<le> j; j \<le> last_height; tm i = Some t; tm j = Some u\<rbrakk> \<Longrightarrow> t \<le> u"
    and "0 \<le> h" "h < last_height" and "0 < i" "i \<le> last_height" and "tm i = Some t"
  shows "t < target \<longleftrightarrow> i \<le> h"
proof
  assume "t < target"
  show "i \<le> h"
  proof (rule ccontr)
    assume "\<not> i \<le> h"
    obtain u where u: "tm (h + 1) = Some u" "target \<le> u" using assms(1) by (auto simp: separates_def)
    have "u \<le> t" using assms(2) [of "h + 1" i] u(1) assms(3,4,6,7) \<open>\<not> i \<le> h\<close> by simp
    then show False using u(2) \<open>t < target\<close> by simp
  qed
next
  assume "i \<le> h"
  then obtain u where "tm h = Some u" "u < target" using assms(1,5) by (auto simp: separates_def)
  then show "t < target" using assms(2) [of i h t u] \<open>i \<le> h\<close> assms(4,5,7) by simp
qed

text \<open>
  C39.  The search for the block before a date never panics and always ends.  On a node that
  knows its tip, it answers with a block of the node's chain below the tip, at the start of the
  chain or dated before the target, whose successor is not dated before the target; it gives no
  answer only when the target is outside the dates of the chain or a lookup failed.  When dates
  never decrease with height, the blocks after genesis dated before the target are exactly those
  up to the answer.
\<close>

theorem block_before_date_exact:
  assumes tip: "get_hash (bt_height tip) = Some (bt_hash tip)" "0 \<le> bt_height tip" "bt_height tip < 2 ^ 31"
    and tm: "tm = time_at get_hash get_stats"
  shows "\<exists>answer. block_before_date target tip get_hash get_stats = Some answer \<and>
    (case answer of
       None \<Rightarrow> (\<exists>h. 0 \<le> h \<and> h \<le> bt_height tip \<and> tm h = None) \<or>
         (\<exists>g t. tm 0 = Some g \<and> tm (bt_height tip) = Some t \<and> (target < g \<or> t \<le> target))
     | Some b \<Rightarrow> get_hash (bt_height b) = Some (bt_hash b) \<and> 0 \<le> bt_height b \<and> bt_height b < bt_height tip \<and>
         separates tm target (bt_height b) \<and>
         ((\<forall>i j t u. 0 \<le> i \<and> i \<le> j \<and> j \<le> bt_height tip \<and> tm i = Some t \<and> tm j = Some u \<longrightarrow> t \<le> u) \<longrightarrow>
           (\<forall>i t. 0 < i \<and> i \<le> bt_height tip \<and> tm i = Some t \<longrightarrow> (t < target \<longleftrightarrow> i \<le> bt_height b))))"
proof (cases "Option.bind (get_hash 0) get_stats")
  case None
  then have "tm 0 = None" by (simp add: tm time_at_def)
  then show ?thesis using tip(2) by (auto simp: block_before_date_def None)
next
  case genesis: (Some g)
  then have g: "tm 0 = Some (bs_time g)" by (simp add: tm time_at_def)
  have tip_time: "tm (bt_height tip) = map_option bs_time (get_stats (bt_hash tip))" by (simp add: tm time_at_def tip(1))
  show ?thesis
  proof (cases "get_stats (bt_hash tip)")
    case None
    then show ?thesis using tip(2) tip_time by (auto simp: block_before_date_def genesis)
  next
    case (Some t)
    show ?thesis
    proof (cases "bs_time g \<le> target \<and> target < bs_time t")
      case False
      then show ?thesis using g tip_time by (auto simp: block_before_date_def genesis Some)
    next
      case True
      obtain r where r: "search_before get_hash get_stats target 0 (bt_height tip) = Some r"
        "case r of
           None \<Rightarrow> \<exists>h. 0 < h \<and> h \<le> bt_height tip \<and> tm h = None
         | Some h \<Rightarrow> 0 \<le> h \<and> h \<le> bt_height tip \<and> (h = 0 \<or> (\<exists>t. tm h = Some t \<and> t < target)) \<and>
             (h = bt_height tip \<or> (\<exists>t. tm (h + 1) = Some t \<and> target \<le> t))"
        using search_before_sound [of 0 "bt_height tip" get_hash get_stats target "bt_height tip"] tip(2,3) unfolding tm by blast
      have run: "block_before_date target tip get_hash get_stats = Some (case r of None \<Rightarrow> None | Some height \<Rightarrow>
          (case get_hash height of None \<Rightarrow> None | Some hash \<Rightarrow> Some \<lparr>bt_height = height, bt_hash = hash\<rparr>))"
        using True by (simp add: block_before_date_def genesis Some r(1) split: option.split)
      show ?thesis
      proof (cases r)
        case None
        then show ?thesis using r(2) by (fastforce simp: run)
      next
        case (Some h)
        have "h \<noteq> bt_height tip"
        proof
          assume h: "h = bt_height tip"
          have "bs_time t < target"
            using r(2) g tip_time True \<open>get_stats (bt_hash tip) = Some t\<close> unfolding Some h by auto
          then show False using True by simp
        qed
        then have h: "0 \<le> h" "h < bt_height tip" "separates tm target h" using r(2) Some by (auto simp: separates_def)
        show ?thesis
        proof (cases "get_hash h")
          case None
          then have "tm h = None" by (simp add: tm time_at_def)
          then show ?thesis using h(1,2) None by (auto simp: run Some intro!: exI [of _ h])
        next
          case (Some hash)
          have "t < target \<longleftrightarrow> i \<le> h" if "\<forall>i j t u. 0 \<le> i \<and> i \<le> j \<and> j \<le> bt_height tip \<and> tm i = Some t \<and> tm j = Some u \<longrightarrow> t \<le> u"
            "0 < i \<and> i \<le> bt_height tip \<and> tm i = Some t" for i t
            using separates_last [OF h(3), of "bt_height tip" i t] that h(1,2) by blast
          then show ?thesis using h Some by (simp add: run \<open>r = Some h\<close>)
        qed
      qed
    qed
  qed
qed

section \<open>The common ancestor\<close>

text \<open>The blocks behind a block, as the node links them.\<close>

fun behind :: "(block_hash \<Rightarrow> (string, block_stats) res) \<Rightarrow> block_stats \<Rightarrow> nat \<Rightarrow> block_stats option" where
  "behind get_stats st 0 = Some st"
| "behind get_stats st (Suc k) = (case bs_previous_blockhash st of None \<Rightarrow> None | Some previous \<Rightarrow>
     (case get_stats previous of Inl _ \<Rightarrow> None | Inr prev \<Rightarrow> behind get_stats prev k))"

definition ancestor_at :: "(block_hash \<Rightarrow> (string, block_stats) res) \<Rightarrow> block_hash \<Rightarrow> nat \<Rightarrow> block_stats option" where
  "ancestor_at get_stats hash k = (case get_stats hash of Inl _ \<Rightarrow> None | Inr st \<Rightarrow> behind get_stats st k)"

definition stale :: "block_stats option \<Rightarrow> bool" where
  \<comment> \<open>known to the node and not on its best chain\<close>
  "stale b \<longleftrightarrow> (\<exists>s. b = Some s \<and> bs_confirmations s = -1)"

definition joins_at :: "(nat \<Rightarrow> block_stats option) \<Rightarrow> nat \<Rightarrow> block_stats \<Rightarrow> bool" where
  "joins_at anc k s \<longleftrightarrow> anc k = Some s \<and> bs_confirmations s \<noteq> -1 \<and> (\<forall>j<k. stale (anc j))"

lemma joins_at_Suc: "joins_at anc (Suc k) s \<longleftrightarrow> stale (anc 0) \<and> joins_at (\<lambda>i. anc (Suc i)) k s"
  by (auto simp: joins_at_def less_Suc_eq_0_disj)

lemma joins_at_unique: "\<lbrakk>joins_at anc k s; joins_at anc j u\<rbrakk> \<Longrightarrow> k = j \<and> s = u"
  unfolding joins_at_def stale_def by (metis linorder_neqE_nat option.inject)

lemma ancestor_walk_Found:
  "ancestor_walk gs n st anc = Found a \<longleftrightarrow> (\<exists>k\<le>n. \<exists>s. joins_at (behind gs st) k s \<and>
     a = (if k = 0 then anc else \<lparr>bt_height = bs_height s, bt_hash = bs_blockhash s\<rparr>))"
proof (induction n arbitrary: st anc)
  case 0
  then show ?case by (subst ancestor_walk.simps) (auto simp: joins_at_def)
next
  case (Suc n)
  show ?case
  proof (cases "bs_confirmations st = -1")
    case False
    then have "joins_at (behind gs st) k s \<longleftrightarrow> k = 0 \<and> s = st" for k s
      by (cases k) (auto simp: joins_at_Suc, auto simp: joins_at_def stale_def)
    then show ?thesis using False by (subst ancestor_walk.simps) auto
  next
    case True
    have step: "(\<exists>k\<le>Suc n. P k) \<longleftrightarrow> P 0 \<or> (\<exists>k\<le>n. P (Suc k))" for P :: "nat \<Rightarrow> bool"
      by (metis Suc_le_mono le0 not0_implies_Suc)
    have start: "\<not> joins_at (behind gs st) 0 s" for s using True by (auto simp: joins_at_def)
    show ?thesis
    proof (cases "Option.bind (bs_previous_blockhash st) (\<lambda>p. case gs p of Inl _ \<Rightarrow> None | Inr s \<Rightarrow> Some s)")
      case None
      then have none: "behind gs st (Suc k) = None" for k by (auto split: option.splits sum.splits)
      have "ancestor_walk gs (Suc n) st anc = SearchFailed"
        using None True by (subst ancestor_walk.simps) (auto split: option.splits sum.splits)
      moreover have "\<not> joins_at (behind gs st) (Suc k) s" for k s using none [of k] by (simp add: joins_at_def)
      ultimately show ?thesis using start by (auto simp: step)
    next
      case (Some prev)
      then obtain p where p: "bs_previous_blockhash st = Some p" "gs p = Inr prev"
        by (cases "bs_previous_blockhash st"; cases "gs (the (bs_previous_blockhash st))") auto
      then have "(\<lambda>i. behind gs st (Suc i)) = behind gs prev" by auto
      then have shift: "joins_at (behind gs st) (Suc k) s \<longleftrightarrow> joins_at (behind gs prev) k s" for k s
        using True by (simp only: joins_at_Suc) (simp add: stale_def)
      have walk: "ancestor_walk gs (Suc n) st anc =
          ancestor_walk gs n prev \<lparr>bt_height = bs_height prev, bt_hash = bs_blockhash prev\<rparr>"
        using p True by (subst ancestor_walk.simps) simp
      have "joins_at (behind gs prev) k s \<and> a = (if k = 0 then tip_of prev else tip_of s) \<longleftrightarrow>
          joins_at (behind gs prev) k s \<and> a = tip_of s" for k s and tip_of :: "block_stats \<Rightarrow> block_chain_tip"
        by (auto simp: joins_at_def)
      note same = this [of _ _ "\<lambda>s. \<lparr>bt_height = bs_height s, bt_hash = bs_blockhash s\<rparr>"]
      with shift walk show ?thesis unfolding step using start by (simp only: Suc.IH same) simp
    qed
  qed
qed

lemma ancestor_walk_TooDeep:
  "ancestor_walk gs n st anc = TooDeep \<longleftrightarrow> (\<forall>k\<le>n. stale (behind gs st k))"
proof (induction n arbitrary: st anc)
  case 0
  then show ?case by (subst ancestor_walk.simps) (auto simp: stale_def)
next
  case (Suc n)
  have step: "(\<forall>k\<le>Suc n. P k) \<longleftrightarrow> P 0 \<and> (\<forall>k\<le>n. P (Suc k))" for P :: "nat \<Rightarrow> bool"
    by (metis Suc_le_mono le0 not0_implies_Suc)
  have none: "\<not> stale None" by (simp add: stale_def)
  show ?case
    by (subst ancestor_walk.simps) (auto simp: step Suc.IH none stale_def [of "Some _"] split: option.split sum.split)
qed

lemma walk_trichotomy:
  "(\<exists>k\<le>n. anc k = None \<and> (\<forall>j<k. stale (anc j))) \<longleftrightarrow> \<not> (\<exists>k\<le>n. \<exists>s. joins_at anc k s) \<and> \<not> (\<forall>k\<le>n. stale (anc k))"
    (is "?failed \<longleftrightarrow> \<not> ?joins \<and> \<not> ?deep")
proof (cases "?deep")
  case True
  then show ?thesis by (auto simp: stale_def joins_at_def)
next
  case False
  define k where "k = (LEAST k. \<not> stale (anc k))"
  obtain i where i: "\<not> stale (anc i)" "i \<le> n" using False by blast
  have k: "\<not> stale (anc k)" unfolding k_def by (rule LeastI) (rule i(1))
  have before: "\<forall>j<k. stale (anc j)" unfolding k_def using not_less_Least by blast
  have "k \<le> n" using Least_le [of "\<lambda>k. \<not> stale (anc k)", OF i(1)] i(2) by (simp add: k_def)
  have same: "i = k" if "\<forall>j<i. stale (anc j)" "\<not> stale (anc i)" for i
    using that k before by (meson linorder_neqE_nat)
  have none: "\<not> stale None" by (simp add: stale_def)
  have "?failed \<longleftrightarrow> anc k = None" using same none before \<open>k \<le> n\<close> by metis
  moreover have "?joins \<longleftrightarrow> anc k \<noteq> None"
  proof
    assume "?joins"
    then obtain i s where "\<forall>j<i. stale (anc j)" "anc i = Some s" "bs_confirmations s \<noteq> -1" by (auto simp: joins_at_def)
    then show "anc k \<noteq> None" using same [of i] by (auto simp: stale_def)
  next
    assume "anc k \<noteq> None"
    then obtain s where "anc k = Some s" by blast
    then show "?joins" using k before \<open>k \<le> n\<close> by (auto simp: joins_at_def stale_def)
  qed
  ultimately show ?thesis using False by simp
qed

text \<open>
  C40.  The walk back from the wallet's tip.  It finds the first of the blocks behind the tip,
  the tip included, that is on the node's best chain, if it is at most \<open>max_depth\<close> steps away and
  every step could be read; it answers "too deep" exactly when the tip and the \<open>max_depth\<close> blocks
  behind it are all known and off the best chain; and it fails exactly when a lookup it needed
  failed before that could be decided.  It makes at most \<open>max_depth\<close> steps by construction.
\<close>

theorem common_ancestor_exact:
  "(common_ancestor get_stats tip max_depth = Found a \<longleftrightarrow>
      (\<exists>k\<le>nat max_depth. \<exists>s. joins_at (ancestor_at get_stats (bt_hash tip)) k s \<and>
        a = (if k = 0 then tip else \<lparr>bt_height = bs_height s, bt_hash = bs_blockhash s\<rparr>))) \<and>
   (common_ancestor get_stats tip max_depth = TooDeep \<longleftrightarrow>
      (\<forall>k\<le>nat max_depth. stale (ancestor_at get_stats (bt_hash tip) k))) \<and>
   (common_ancestor get_stats tip max_depth = SearchFailed \<longleftrightarrow>
      (\<exists>k\<le>nat max_depth. ancestor_at get_stats (bt_hash tip) k = None \<and>
        (\<forall>j<k. stale (ancestor_at get_stats (bt_hash tip) j))))"
proof (cases "get_stats (bt_hash tip)")
  case (Inl e)
  then show ?thesis by (auto simp: common_ancestor_def ancestor_at_def joins_at_def stale_def)
next
  case (Inr st)
  then have anc: "ancestor_at get_stats (bt_hash tip) = behind get_stats st" by (simp add: fun_eq_iff ancestor_at_def)
  have run: "common_ancestor get_stats tip max_depth = ancestor_walk get_stats (nat max_depth) st tip"
    by (simp add: common_ancestor_def Inr)
  have "r = SearchFailed \<longleftrightarrow> \<not> (\<exists>a. r = Found a) \<and> r \<noteq> TooDeep" for r by (cases r) auto
  then have "ancestor_walk get_stats (nat max_depth) st tip = SearchFailed \<longleftrightarrow>
      \<not> (\<exists>k\<le>nat max_depth. \<exists>s. joins_at (behind get_stats st) k s) \<and> \<not> (\<forall>k\<le>nat max_depth. stale (behind get_stats st k))"
    by (simp add: ancestor_walk_Found ancestor_walk_TooDeep) blast
  then show ?thesis unfolding run anc ancestor_walk_Found ancestor_walk_TooDeep walk_trichotomy by blast
qed

end
