(* ===== verification/History_Sync.thy ===== *)
theory History_Sync
  imports Prelude
begin

text \<open>
  The records that the poller publishes for \<open>get_info\<close> (\<open>coincubed/src/bitcoin/mod.rs\<close>): the chain
  alert kept in one signed 64-bit atomic, the progress of full scans with the run of failed
  polls, and the replay tickets of the bitcoind backend.  Each is a record whose operations are
  the single atomic updates of the source, in program order of the one poller thread.
\<close>

section \<open>Chain alerts\<close>

datatype chain_alert = NoAlert | RefusedReorg int | DivergedAlert

type_synonym alert_slot = "64 word"

definition DIVERGED_SENTINEL :: alert_slot where
  \<comment> \<open>\<open>i64::MIN\<close>\<close>
  "DIVERGED_SENTINEL = push_bit 63 1"

definition store_refused_reorg :: "int \<Rightarrow> alert_slot" where
  "store_refused_reorg depth = word_of_int depth"

definition load_alert :: "alert_slot \<Rightarrow> chain_alert" where
  "load_alert slot = (if slot = 0 then NoAlert else if slot = DIVERGED_SENTINEL then DivergedAlert
     else RefusedReorg (sint (ucast slot :: 32 word)))"

lemma signed_take_bit_range: "- (2 ^ n) \<le> x \<Longrightarrow> x < 2 ^ n \<Longrightarrow> signed_take_bit n x = (x :: int)"
  by (simp add: signed_take_bit_int_eq_self)

text \<open>Every nonzero depth that fits 32 bits comes back, the extremes included; no depth reads as a divergence.\<close>

lemma load_refused:
  assumes "- (2 ^ 31) \<le> depth" "depth < 2 ^ 31" "depth \<noteq> 0"
  shows "load_alert (store_refused_reorg depth) = RefusedReorg depth"
proof -
  have s: "sint (word_of_int depth :: 64 word) = depth"
    using assms(1,2) by (simp add: sint_sbintrunc' signed_take_bit_range)
  have "sint DIVERGED_SENTINEL = - (2 ^ 63)" by (simp add: DIVERGED_SENTINEL_def)
  then have "word_of_int depth \<noteq> DIVERGED_SENTINEL" using s assms(1) by auto
  moreover have "word_of_int depth \<noteq> (0 :: 64 word)" using s assms(3) by force
  moreover have "sint (ucast (word_of_int depth :: 64 word) :: 32 word) = depth"
    using assms(1,2) by (simp add: unsigned_of_int sint_sbintrunc' signed_take_bit_take_bit signed_take_bit_range)
  ultimately show ?thesis by (simp add: load_alert_def store_refused_reorg_def)
qed

lemma load_alert_simps [simp]: "load_alert 0 = NoAlert" "load_alert DIVERGED_SENTINEL = DivergedAlert"
  by (simp_all add: load_alert_def DIVERGED_SENTINEL_def)

section \<open>Failed polls\<close>

record poll_failure =
  pf_message :: string
  pf_since :: nat
  pf_last_at :: nat
  pf_consecutive :: nat

record history_cache =
  hc_eager_sync_requested :: bool
  hc_scanning :: bool
  hc_checked :: nat
  hc_receive_checked :: nat
  hc_change_checked :: nat
  hc_expected :: nat
  hc_awaiting_commit :: bool
  hc_completed_at :: nat
  hc_failure :: "poll_failure option"

definition new_history_cache :: history_cache where
  \<comment> \<open>\<open>Default\<close>\<close>
  "new_history_cache = \<lparr>hc_eager_sync_requested = False, hc_scanning = False, hc_checked = 0, hc_receive_checked = 0,
     hc_change_checked = 0, hc_expected = 0, hc_awaiting_commit = False, hc_completed_at = 0, hc_failure = None\<rparr>"

definition request_eager_sync :: "history_cache \<Rightarrow> history_cache" where
  "request_eager_sync h = h\<lparr>hc_eager_sync_requested := True\<rparr>"

definition take_eager_sync_request :: "history_cache \<Rightarrow> bool \<times> history_cache" where
  "take_eager_sync_request h = (hc_eager_sync_requested h, h\<lparr>hc_eager_sync_requested := False\<rparr>)"

definition begin_full_scan :: "nat \<Rightarrow> history_cache \<Rightarrow> history_cache" where
  "begin_full_scan expected h = h\<lparr>hc_checked := 0, hc_receive_checked := 0, hc_change_checked := 0,
     hc_expected := expected, hc_scanning := True\<rparr>"

definition wrapping_inc64 :: "nat \<Rightarrow> nat" where
  "wrapping_inc64 n = (n + 1) mod 2 ^ 64"

definition address_checked :: "history_cache \<Rightarrow> history_cache" where
  "address_checked h = h\<lparr>hc_checked := wrapping_inc64 (hc_checked h)\<rparr>"

definition branch_address_checked :: "bool \<Rightarrow> history_cache \<Rightarrow> history_cache" where
  "branch_address_checked change h = (let h = address_checked h in
     if change then h\<lparr>hc_change_checked := wrapping_inc64 (hc_change_checked h)\<rparr>
     else h\<lparr>hc_receive_checked := wrapping_inc64 (hc_receive_checked h)\<rparr>)"

definition pending_full_scan_coverage :: "history_cache \<Rightarrow> (nat \<times> nat) option" where
  "pending_full_scan_coverage h = (if hc_awaiting_commit h
     then Some (min (hc_receive_checked h) 2147483647, min (hc_change_checked h) 2147483647) else None)"

definition full_scan_fetched :: "history_cache \<Rightarrow> history_cache" where
  "full_scan_fetched h = h\<lparr>hc_scanning := False, hc_awaiting_commit := True\<rparr>"

definition poll_succeeded :: "nat \<Rightarrow> history_cache \<Rightarrow> history_cache" where
  "poll_succeeded now h = h\<lparr>hc_scanning := False, hc_awaiting_commit := False,
     hc_completed_at := (if hc_awaiting_commit h then now else hc_completed_at h), hc_failure := None\<rparr>"

definition MIN_VOLATILE_DIGITS :: nat where "MIN_VOLATILE_DIGITS = 4"

definition is_ascii_digit :: "char \<Rightarrow> bool" where
  "is_ascii_digit c \<longleftrightarrow> c \<in> set ''0123456789''"

definition NUL :: char where "NUL = CHR 0x00"

fun error_kind_loop :: "string \<Rightarrow> string \<Rightarrow> string" where
  \<comment> \<open>the digits read since the last other character\<close>
  "error_kind_loop digits [] = []"
| "error_kind_loop digits (c # cs) =
     (if is_ascii_digit c then error_kind_loop (digits @ [c]) cs
      else (if length digits < MIN_VOLATILE_DIGITS then digits else []) @ (if c \<noteq> NUL then [c] else []) @
        error_kind_loop [] cs)"

definition error_kind :: "string \<Rightarrow> string" where
  "error_kind message = error_kind_loop [] (message @ [NUL])"

definition saturating_inc32 :: "nat \<Rightarrow> nat" where
  "saturating_inc32 n = min (n + 1) (2 ^ 32 - 1)"

definition poll_failed :: "string \<Rightarrow> nat \<Rightarrow> history_cache \<Rightarrow> (poll_failure \<times> bool) \<times> history_cache" where
  "poll_failed message now h =
     (let (updated, changed) = (case hc_failure h of
          Some previous \<Rightarrow> (\<lparr>pf_message = message, pf_since = pf_since previous, pf_last_at = now,
              pf_consecutive = saturating_inc32 (pf_consecutive previous)\<rparr>,
            error_kind (pf_message previous) \<noteq> error_kind message)
        | None \<Rightarrow> (\<lparr>pf_message = message, pf_since = now, pf_last_at = now, pf_consecutive = 1\<rparr>, True))
      in ((updated, changed), h\<lparr>hc_scanning := False, hc_failure := Some updated\<rparr>))"

definition REPEATED_FAILURE_WARN_INTERVAL :: nat where "REPEATED_FAILURE_WARN_INTERVAL = 10"

definition failure_is_worth_a_warning :: "poll_failure \<Rightarrow> bool \<Rightarrow> bool" where
  "failure_is_worth_a_warning failure changed \<longleftrightarrow> pf_consecutive failure \<ge> 2 \<and>
     (changed \<or> pf_consecutive failure = 2 \<or> REPEATED_FAILURE_WARN_INTERVAL dvd pf_consecutive failure)"

record history_sync =
  hs_full_scan_in_progress :: bool
  hs_addresses_checked :: nat
  hs_addresses_expected :: nat
  hs_full_scan_completed_at :: "nat option"
  hs_last_failure :: "poll_failure option"

definition snapshot :: "history_cache \<Rightarrow> history_sync" where
  "snapshot h = \<lparr>hs_full_scan_in_progress = hc_scanning h,
     hs_addresses_checked = (if hc_scanning h then hc_checked h else 0),
     hs_addresses_expected = (if hc_scanning h then hc_expected h else 0),
     hs_full_scan_completed_at = (if hc_completed_at h = 0 then None else Some (hc_completed_at h)),
     hs_last_failure = hc_failure h\<rparr>"

definition expected_full_scan_addresses :: "nat \<Rightarrow> nat list \<Rightarrow> nat \<Rightarrow> nat" where
  "expected_full_scan_addresses keychains last_revealed stop_gap =
     sum_list (map (\<lambda>i. i + 1) last_revealed) + keychains * stop_gap"

text \<open>What repeats of a failure have in common: long runs of digits do not count.\<close>

lemma error_kind_loop_digits:
  "list_all is_ascii_digit ds \<Longrightarrow> error_kind_loop digits (ds @ rest) = error_kind_loop (digits @ ds) rest"
  by (induction ds arbitrary: digits) auto

lemma error_kind_loop_split:
  assumes "\<not> is_ascii_digit c"
  shows "error_kind_loop digits (xs @ c # ys) = error_kind_loop digits (xs @ [c]) @ error_kind_loop [] ys"
  using assms by (induction xs arbitrary: digits) auto

lemma error_kind_loop_long:
  assumes "list_all is_ascii_digit ds" and "4 \<le> length ds" and "\<not> is_ascii_digit c"
  shows "error_kind_loop [] (ds @ c # rest) = error_kind_loop [] (c # rest)"
  using assms error_kind_loop_digits [of ds "[]" "c # rest"] by (simp add: MIN_VOLATILE_DIGITS_def)

lemma error_kind_volatile:
  assumes "list_all is_ascii_digit ds" "4 \<le> length ds" and "list_all is_ascii_digit es" "4 \<le> length es"
    and "\<not> is_ascii_digit a"
    and "rest = [] \<or> \<not> is_ascii_digit (hd rest)"
  shows "error_kind (pre @ a # ds @ rest) = error_kind (pre @ a # es @ rest)"
proof -
  obtain c cs where c: "rest @ [NUL] = c # cs" "\<not> is_ascii_digit c"
    using assms(6) by (cases rest) (auto simp: is_ascii_digit_def NUL_def)
  have run: "error_kind (pre @ a # ds @ rest) = error_kind_loop [] (pre @ [a]) @ error_kind_loop [] (c # cs)"
    if "list_all is_ascii_digit ds" "4 \<le> length ds" for ds
    using error_kind_loop_split [OF assms(5), of "[]" pre "ds @ c # cs"] error_kind_loop_long [OF that c(2), of cs]
    by (simp add: error_kind_def c(1))
  show ?thesis using run [OF assms(1,2)] run [OF assms(3,4)] by simp
qed

text \<open>A run of failed polls: messages and times, oldest first; the warnings it raises.\<close>

fun fail_run :: "(string \<times> nat) list \<Rightarrow> history_cache \<Rightarrow> bool list \<times> history_cache" where
  "fail_run [] h = ([], h)"
| "fail_run ((message, now) # xs) h = (case poll_failed message now h of ((failure, changed), h') \<Rightarrow>
     (case fail_run xs h' of (ws, h'') \<Rightarrow> (failure_is_worth_a_warning failure changed # ws, h'')))"

lemma fail_run_snoc:
  "fail_run (xs @ [(m, now)]) h = (case fail_run xs h of (ws, h') \<Rightarrow> (case poll_failed m now h' of ((failure, changed), h'') \<Rightarrow>
     (ws @ [failure_is_worth_a_warning failure changed], h'')))"
  by (induction xs arbitrary: h) (auto split: prod.splits)

lemma fail_run_state:
  assumes "hc_failure h = None" and "xs \<noteq> []" and "length xs < 2 ^ 32" and "fail_run xs h = (ws, h')"
  shows "h' = h\<lparr>hc_scanning := False, hc_failure := Some \<lparr>pf_message = fst (last xs), pf_since = snd (hd xs),
      pf_last_at = snd (last xs), pf_consecutive = length xs\<rparr>\<rparr> \<and>
    ws = map (\<lambda>i. 1 \<le> i \<and> (error_kind (fst (xs ! (i - 1))) \<noteq> error_kind (fst (xs ! i)) \<or> i = 1 \<or> 10 dvd i + 1)) [0..<length xs]"
  using assms(2-4)
proof (induction xs arbitrary: ws h' rule: rev_induct)
  case (snoc x xs)
  obtain m now where x: "x = (m, now)" by (cases x)
  show ?case
  proof (cases "xs = []")
    case True
    then show ?thesis using snoc.prems assms(1)
      by (auto simp: x poll_failed_def failure_is_worth_a_warning_def)
  next
    case False
    obtain ws0 h0 where run: "fail_run xs h = (ws0, h0)" by fastforce
    define warn where "warn ys i \<longleftrightarrow> 1 \<le> i \<and> (error_kind (fst (ys ! (i - 1))) \<noteq> error_kind (fst (ys ! i)) \<or> i = 1 \<or> 10 dvd i + 1)"
      for ys :: "(string \<times> nat) list" and i
    have IH: "h0 = h\<lparr>hc_scanning := False, hc_failure := Some \<lparr>pf_message = fst (last xs), pf_since = snd (hd xs),
        pf_last_at = snd (last xs), pf_consecutive = length xs\<rparr>\<rparr>" and ws0: "ws0 = map (warn xs) [0..<length xs]"
      using snoc.IH [OF False _ run] snoc.prems(2) unfolding warn_def by auto
    have len: "saturating_inc32 (length xs) = length xs + 1" "1 \<le> length xs"
      using snoc.prems(2) False by (auto simp: saturating_inc32_def Suc_le_eq)
    have step: "poll_failed m now h0 = ((\<lparr>pf_message = m, pf_since = snd (hd xs), pf_last_at = now, pf_consecutive = length xs + 1\<rparr>,
        error_kind (fst (last xs)) \<noteq> error_kind m), h\<lparr>hc_scanning := False, hc_failure := Some \<lparr>pf_message = m,
        pf_since = snd (hd xs), pf_last_at = now, pf_consecutive = length xs + 1\<rparr>\<rparr>)"
      by (simp add: poll_failed_def IH len)
    have "warn (xs @ [x]) (length xs) \<longleftrightarrow> error_kind (fst (last xs)) \<noteq> error_kind m \<or> length xs = 1 \<or> 10 dvd length xs + 1"
      using len(2) False by (simp add: warn_def x nth_append last_conv_nth)
    moreover have "ws0 = map (warn (xs @ [x])) [0..<length xs]"
      unfolding ws0 by (rule map_cong) (auto simp: warn_def nth_append)
    ultimately have "ws = map (warn (xs @ [x])) [0..<length (xs @ [x])]"
      using snoc.prems(3) len(2)
      by (auto simp: x fail_run_snoc run step failure_is_worth_a_warning_def REPEATED_FAILURE_WARN_INTERVAL_def)
    moreover have "h' = h\<lparr>hc_scanning := False, hc_failure := Some \<lparr>pf_message = m,
        pf_since = snd (hd xs), pf_last_at = now, pf_consecutive = length xs + 1\<rparr>\<rparr>"
      using snoc.prems(3) by (simp add: x fail_run_snoc run step)
    ultimately show ?thesis using False by (simp add: x warn_def [abs_def])
  qed
qed simp

text \<open>
  The record of failed polls.  After any run of failures since the last success it holds the
  last message, when the run began, when the last failure happened and how many there were; a full
  scan that was fetched before stays pending with its coverage, and the time of the last committed
  scan is unchanged.  A failure is logged as a warning exactly when it is not the first and it is
  the second, or a multiple of the tenth, or of another kind than its predecessor; messages that
  differ only in a run of four or more digits are of one kind.
\<close>

theorem failure_run_exact:
  assumes "hc_failure h = None" and "xs \<noteq> []" and "length xs < 2 ^ 32" and "fail_run xs h = (warnings, h')"
  shows "hs_last_failure (snapshot h') = Some \<lparr>pf_message = fst (last xs), pf_since = snd (hd xs),
      pf_last_at = snd (last xs), pf_consecutive = length xs\<rparr> \<and>
    pending_full_scan_coverage h' = pending_full_scan_coverage h \<and>
    hs_full_scan_completed_at (snapshot h') = hs_full_scan_completed_at (snapshot h) \<and>
    warnings = map (\<lambda>i. 1 \<le> i \<and> (error_kind (fst (xs ! (i - 1))) \<noteq> error_kind (fst (xs ! i)) \<or> i = 1 \<or> 10 dvd i + 1)) [0..<length xs] \<and>
    (\<forall>pre a ds es rest. list_all is_ascii_digit (ds @ es) \<and> 4 \<le> length ds \<and> 4 \<le> length es \<and> \<not> is_ascii_digit a \<and>
      (rest = [] \<or> \<not> is_ascii_digit (hd rest)) \<longrightarrow> error_kind (pre @ a # ds @ rest) = error_kind (pre @ a # es @ rest)) \<and>
    hs_last_failure (snapshot (poll_succeeded now h')) = None \<and>
    (hc_awaiting_commit h \<and> now \<noteq> 0 \<longrightarrow> hs_full_scan_completed_at (snapshot (poll_succeeded now h')) = Some now)"
proof -
  have "error_kind (pre @ a # ds @ rest) = error_kind (pre @ a # es @ rest)"
    if "list_all is_ascii_digit (ds @ es) \<and> 4 \<le> length ds \<and> 4 \<le> length es \<and> \<not> is_ascii_digit a \<and>
      (rest = [] \<or> \<not> is_ascii_digit (hd rest))" for pre a ds es rest
    by (rule error_kind_volatile) (use that in auto)
  moreover note run = fail_run_state [OF assms]
  ultimately show ?thesis
    by (simp add: snapshot_def poll_succeeded_def pending_full_scan_coverage_def)
qed

theorem failure_run_exact_witness:
  "fst (fail_run [(''HTTP 503 id 12345'', 7), (''HTTP 503 id 67890'', 8), (''HTTP 503 id 2222'', 9), (''HTTP 429'', 10)] new_history_cache) =
     [False, True, False, True]"
proof -
  define xs where "xs = [(''HTTP 503 id 12345'', 7 :: nat), (''HTTP 503 id 67890'', 8), (''HTTP 503 id 2222'', 9), (''HTTP 429'', 10)]"
  obtain ws h' where run: "fail_run xs new_history_cache = (ws, h')" by fastforce
  have "hc_failure new_history_cache = None" "xs \<noteq> []" "length xs < 2 ^ 32" by (simp_all add: new_history_cache_def xs_def)
  from failure_run_exact [OF this run] have
    "ws = map (\<lambda>i. 1 \<le> i \<and> (error_kind (fst (xs ! (i - 1))) \<noteq> error_kind (fst (xs ! i)) \<or> i = 1 \<or> 10 dvd i + 1)) [0..<length xs]"
    by blast
  also have "\<dots> = [False, True, False, True]"
    by (simp add: xs_def error_kind_def is_ascii_digit_def NUL_def MIN_VOLATILE_DIGITS_def upt_rec dvd_eq_mod_eq_0)
  finally show ?thesis using run by (simp add: xs_def)
qed

section \<open>Replay tickets\<close>

record wallet_record_replay =
  rr_requested :: nat
  rr_acknowledged :: nat

definition new_replay :: wallet_record_replay where
  "new_replay = \<lparr>rr_requested = 1, rr_acknowledged = 0\<rparr>"

definition replay_request :: "wallet_record_replay \<Rightarrow> (string, nat \<times> wallet_record_replay) res" where
  "replay_request r = bind_res (ok_or ''Wallet replay ticket exhausted'' (checked_add64 (rr_requested r) 1))
     (\<lambda>t. Inr (t, r\<lparr>rr_requested := t\<rparr>))"

definition replay_pending :: "wallet_record_replay \<Rightarrow> nat option" where
  "replay_pending r = (if rr_requested r > rr_acknowledged r then Some (rr_requested r) else None)"

definition replay_acknowledge :: "nat \<Rightarrow> wallet_record_replay \<Rightarrow> wallet_record_replay" where
  "replay_acknowledge ticket r = r\<lparr>rr_acknowledged := max (rr_acknowledged r) (min ticket (rr_requested r))\<rparr>"

text \<open>An acknowledgement answers its own request and earlier ones, never a later one.\<close>

lemma replay_acknowledge_pending:
  assumes "replay_pending r = Some ticket" and "replay_request r = Inr (later, r')"
  shows "replay_pending (replay_acknowledge ticket r) = None" and "replay_pending (replay_acknowledge ticket r') = Some later"
  using assms by (auto simp: replay_pending_def replay_request_def replay_acknowledge_def res_rules split: if_splits)

end
