(* ===== verification/Poller.thy ===== *)
theory Poller
  imports Wallet_State Chain_Lookup History_Sync
begin

text \<open>
  \<open>coincubed/src/bitcoin/poller\<close>: the poller that keeps the wallet database in step with a Bitcoin
  backend.  A backend is a record of the methods of the trait \<open>BitcoinInterface\<close> that the poller
  calls, each a function of the backend's own state, which every call may change.  The poller's
  functions are state transformers that end in a value, in the source's error text or in a panic;
  the database keeps what was written before either.
\<close>

section \<open>The backend interface\<close>

datatype utxo_address = UAddress string | DerivIndex nat bool

record utxo =
  ux_outpoint :: outpoint
  ux_amount :: nat
  ux_block_height :: "int option"
  ux_address :: utxo_address
  ux_is_immature :: bool

type_synonym confirmed_coins = "(outpoint \<times> int \<times> nat) list \<times> outpoint list"
type_synonym spent_coin = "outpoint \<times> txid \<times> int \<times> nat"

record 'b bitcoin_interface =
  try_chain_tip :: "'b \<Rightarrow> (string, block_chain_tip) res \<times> 'b"
  try_is_in_chain :: "block_chain_tip \<Rightarrow> 'b \<Rightarrow> (string, bool) res \<times> 'b"
  sync_wallet :: "nat \<Rightarrow> nat \<Rightarrow> history_cache \<Rightarrow> 'b \<Rightarrow> (string, block_chain_tip option) res \<times> history_cache \<times> 'b"
    \<comment> \<open>a scanning backend publishes its progress into the cache it shares with the poller\<close>
  try_received_coins :: "block_chain_tip \<Rightarrow> descriptor list \<Rightarrow> 'b \<Rightarrow> (string, utxo list) res \<times> 'b"
  try_historical_received_coins :: "block_chain_tip \<Rightarrow> descriptor list \<Rightarrow> 'b \<Rightarrow> (string, utxo list) res \<times> 'b"
  try_confirmed_coins :: "outpoint list \<Rightarrow> 'b \<Rightarrow> (string, confirmed_coins) res \<times> 'b"
  try_spending_coins :: "outpoint list \<Rightarrow> 'b \<Rightarrow> (string, (outpoint \<times> txid) list) res \<times> 'b"
  try_spent_coins :: "(outpoint \<times> txid) list \<Rightarrow> 'b \<Rightarrow> (string, spent_coin list \<times> outpoint list) res \<times> 'b"
  try_wallet_transaction :: "txid \<Rightarrow> 'b \<Rightarrow> (string, (transaction \<times> block_info option) option) res \<times> 'b"
  bit_common_ancestor :: "block_chain_tip \<Rightarrow> int \<Rightarrow> 'b \<Rightarrow> ancestor_search \<times> 'b"
  walks_common_ancestor :: "'b \<Rightarrow> bool"
  try_rescan_progress :: "'b \<Rightarrow> (string, bool) res \<times> 'b"
    \<comment> \<open>whether a rescan runs; its percentage is only logged\<close>
  try_block_before_date :: "nat \<Rightarrow> 'b \<Rightarrow> (string, block_chain_tip option) res \<times> 'b"
  genesis_block :: "'b \<Rightarrow> (string, block_chain_tip) res \<times> 'b"
  wallet_record_replay_pending :: "'b \<Rightarrow> nat option"
  acknowledge_wallet_record_replay :: "nat \<Rightarrow> 'b \<Rightarrow> 'b"
  try_sync_progress :: "'b \<Rightarrow> (string, bool) res \<times> 'b"
    \<comment> \<open>whether the backend is fully synchronized\<close>
  bit_request_eager_sync :: "'b \<Rightarrow> 'b"
  is_bitcoind :: "'b \<Rightarrow> bool"

definition wallet_record_replay_requires_complete_mapping :: "'b bitcoin_interface \<Rightarrow> 'b \<Rightarrow> bool" where
  \<comment> \<open>the trait's default method\<close>
  "wallet_record_replay_requires_complete_mapping N b =
     (case wallet_record_replay_pending N b of None \<Rightarrow> False | Some ticket \<Rightarrow> ticket > 1)"

text \<open>The library calls of the poller, the iteration orders of its hash tables included.\<close>

record poll_api =
  lib_require_network :: "string \<Rightarrow> network \<Rightarrow> bool"
  lib_desc_address :: "descriptor \<Rightarrow> network \<Rightarrow> nat \<Rightarrow> (string, string) res"
    \<comment> \<open>\<open>at_derivation_index(i)?.address(network)?\<close>\<close>
  lib_coin_order :: "coin list \<Rightarrow> coin list"
  lib_txid_order :: "txid list \<Rightarrow> txid list"
  lib_import_error :: string
    \<comment> \<open>the text of the error that \<open>complete_import_history\<close> returns\<close>

section \<open>State transformers\<close>

datatype poll_error = Failed string | Panic

record 'b poller_state =
  ps_bit :: 'b
  ps_db :: wallet_db
  ps_alert :: alert_slot
  ps_history :: history_cache

type_synonym ('b, 'a) act = "'b poller_state \<Rightarrow> (poll_error, 'a) res \<times> 'b poller_state"

definition act_ok :: "'a \<Rightarrow> ('b, 'a) act" where "act_ok x s = (Inr x, s)"
definition act_err :: "poll_error \<Rightarrow> ('b, 'a) act" where "act_err e s = (Inl e, s)"

definition act_bind :: "('b, 'a) act \<Rightarrow> ('a \<Rightarrow> ('b, 'c) act) \<Rightarrow> ('b, 'c) act" where
  "act_bind m f s = (case m s of (r, s') \<Rightarrow> (case r of Inl e \<Rightarrow> (Inl e, s') | Inr x \<Rightarrow> f x s'))"

definition call :: "('b \<Rightarrow> (string, 'a) res \<times> 'b) \<Rightarrow> ('b, 'a) act" where
  "call f s = (case f (ps_bit s) of (r, b) \<Rightarrow> (map_err Failed r, s\<lparr>ps_bit := b\<rparr>))"

definition ask :: "('b \<Rightarrow> 'a) \<Rightarrow> ('b, 'a) act" where
  "ask f s = (Inr (f (ps_bit s)), s)"

definition lift_res :: "(poll_error, 'a) res \<Rightarrow> ('b, 'a) act" where
  "lift_res r s = (r, s)"

definition read_db :: "(wallet_db \<Rightarrow> 'a option) \<Rightarrow> ('b, 'a) act" where
  "read_db f s = (ok_or Panic (f (ps_db s)), s)"

definition write_db :: "(wallet_db \<Rightarrow> wallet_db option) \<Rightarrow> ('b, unit) act" where
  "write_db f s = (case f (ps_db s) of None \<Rightarrow> (Inl Panic, s) | Some db \<Rightarrow> (Inr (), s\<lparr>ps_db := db\<rparr>))"

definition set_alert :: "alert_slot \<Rightarrow> ('b, unit) act" where
  "set_alert a s = (Inr (), s\<lparr>ps_alert := a\<rparr>)"

section \<open>Reading the database\<close>

definition db_network :: "wallet_db \<Rightarrow> network option" where
  "db_network db = (if tip_decodes db then Some (tp_network (db_tip db)) else None)"

definition receive_index :: "address_api \<Rightarrow> wallet_db \<Rightarrow> nat option" where
  "receive_index A db = (case wallet_desc A db of None \<Rightarrow> None | Some _ \<Rightarrow> Some (wl_deposit_index (db_wallet db)))"

definition change_index :: "address_api \<Rightarrow> wallet_db \<Rightarrow> nat option" where
  "change_index A db = (case wallet_desc A db of None \<Rightarrow> None | Some _ \<Rightarrow> Some (wl_change_index (db_wallet db)))"

definition rescan_timestamp :: "address_api \<Rightarrow> wallet_db \<Rightarrow> nat option option" where
  "rescan_timestamp A db = (case wallet_desc A db of None \<Rightarrow> None | Some _ \<Rightarrow> Some (wl_rescan_timestamp (db_wallet db)))"

definition db_chain_tip :: "wallet_db \<Rightarrow> block_chain_tip option option" where
  "db_chain_tip db = (if tip_decodes db then Some (chain_tip db) else None)"

section \<open>Mapping received outputs to derivation indices\<close>

fun search_branches :: "poll_api \<Rightarrow> network \<Rightarrow> string \<Rightarrow> nat \<Rightarrow> (nat \<times> descriptor) list \<Rightarrow> (string, bool option) res" where
  "search_branches P network address child [] = Inr None"
| "search_branches P network address child ((branch, desc) # rest) =
     bind_res (lib_desc_address P desc network child) (\<lambda>a.
       if a = address then Inr (Some (branch = 1)) else search_branches P network address child rest)"

fun search_window :: "poll_api \<Rightarrow> network \<Rightarrow> descriptor list \<Rightarrow> string \<Rightarrow> nat list \<Rightarrow> (string, (nat \<times> bool) option) res" where
  "search_window P network descs address [] = Inr None"
| "search_window P network descs address (index # rest) =
     bind_res (ok_or ''Derivation range exhausted'' (from_normal_idx index)) (\<lambda>child.
     bind_res (search_branches P network address child (take 2 (enumerate 0 descs))) (\<lambda>found.
       case found of Some is_change \<Rightarrow> Inr (Some (child, is_change)) | None \<Rightarrow> search_window P network descs address rest))"

datatype mapped_utxo = InvalidNetwork | UnknownAddress | MappedTo nat bool

definition map_utxo ::
  "poll_api \<Rightarrow> descriptor list \<Rightarrow> network \<Rightarrow> bool \<Rightarrow> wallet_db \<Rightarrow> nat \<Rightarrow> nat \<Rightarrow> utxo \<Rightarrow> (poll_error, mapped_utxo) res" where
  "map_utxo P descs network replay db initial_highest highest u = (case ux_address u of
       DerivIndex index is_change \<Rightarrow> Inr (MappedTo index is_change)
     | UAddress address \<Rightarrow>
         if \<not> lib_require_network P address network then Inr InvalidNetwork
         else (case derivation_index_by_address address db of
             None \<Rightarrow> Inl Panic
           | Some (Some (index, is_change)) \<Rightarrow> Inr (MappedTo index is_change)
           | Some None \<Rightarrow>
               bind_res (ok_or (Failed ''Derivation range overflow'') (checked_add32 initial_highest LOOK_AHEAD_LIMIT)) (\<lambda>start.
               bind_res (ok_or (Failed ''Derivation range overflow'') (checked_add32 highest LOOK_AHEAD_LIMIT)) (\<lambda>end_index.
               bind_res (map_err Failed (search_window P network descs address
                 [start..<(if replay then max end_index 1001 else end_index)])) (\<lambda>found.
               Inr (case found of Some (index, is_change) \<Rightarrow> MappedTo index is_change | None \<Rightarrow> UnknownAddress))))))"

record scan =
  sn_receive_index :: nat
  sn_change_index :: nat
  sn_received :: "coin list"
  sn_unresolved :: "utxo list"

definition raise_index :: "nat \<Rightarrow> bool \<Rightarrow> scan \<Rightarrow> scan" where
  "raise_index index is_change st =
     (if \<not> is_change \<and> index > sn_receive_index st then st\<lparr>sn_receive_index := index\<rparr>
      else if is_change \<and> index > sn_change_index st then st\<lparr>sn_change_index := index\<rparr> else st)"

definition new_coin :: "utxo \<Rightarrow> nat \<Rightarrow> bool \<Rightarrow> coin" where
  "new_coin u index is_change = \<lparr>cn_outpoint = ux_outpoint u, cn_is_immature = ux_is_immature u, cn_block_info = None,
     cn_amount = ux_amount u, cn_derivation_index = index, cn_is_change = is_change, cn_spend_txid = None,
     cn_spend_block = None, cn_is_from_self = False\<rparr>"

definition scan_utxo ::
  "poll_api \<Rightarrow> descriptor list \<Rightarrow> network \<Rightarrow> bool \<Rightarrow> wallet_db \<Rightarrow> outpoint set \<Rightarrow> nat \<Rightarrow> scan \<Rightarrow> utxo \<Rightarrow> (poll_error, scan) res" where
  "scan_utxo P descs network replay db known initial_highest st u =
     bind_res (map_utxo P descs network replay db initial_highest (max (sn_receive_index st) (sn_change_index st)) u) (\<lambda>m.
       Inr (case m of
           InvalidNetwork \<Rightarrow> st
         | UnknownAddress \<Rightarrow> st\<lparr>sn_unresolved := sn_unresolved st @ [u]\<rparr>
         | MappedTo index is_change \<Rightarrow> (let st' = raise_index index is_change st in
             if ux_outpoint u \<in> known then st' else st'\<lparr>sn_received := sn_received st' @ [new_coin u index is_change]\<rparr>)))"

lemma raise_index_simps [simp]:
  "sn_unresolved (raise_index i c st) = sn_unresolved st" "sn_received (raise_index i c st) = sn_received st"
  by (simp_all add: raise_index_def)

lemma scan_utxo_cases:
  assumes "scan_utxo P descs network replay db known initial_highest st u = Inr st'"
  obtains "st' = st" | "st' = st\<lparr>sn_unresolved := sn_unresolved st @ [u]\<rparr>"
  | index is_change where "map_utxo P descs network replay db initial_highest (max (sn_receive_index st) (sn_change_index st)) u =
        Inr (MappedTo index is_change)" "st' = raise_index index is_change st \<and> ux_outpoint u \<in> known \<or>
        st' = (raise_index index is_change st)\<lparr>sn_received := sn_received st @ [new_coin u index is_change]\<rparr> \<and> ux_outpoint u \<notin> known"
proof -
  obtain m where m: "map_utxo P descs network replay db initial_highest (max (sn_receive_index st) (sn_change_index st)) u = Inr m"
    using assms by (auto simp: scan_utxo_def res_rules)
  then show ?thesis using assms that by (cases m) (auto simp: scan_utxo_def Let_def split: if_splits)
qed

lemma scan_unresolved_step:
  assumes "scan_utxo P descs network replay db known initial_highest st u = Inr st'"
  shows "length (sn_unresolved st') \<le> length (sn_unresolved st) + 1"
  using assms by (rule scan_utxo_cases) auto

lemma scan_unresolved_length:
  assumes "fold_res (scan_utxo P descs network replay db known initial_highest) st pending = Inr st'"
  shows "length (sn_unresolved st') \<le> length (sn_unresolved st) + length pending"
  using assms
proof (induction pending arbitrary: st)
  case (Cons u us)
  then obtain t where "scan_utxo P descs network replay db known initial_highest st u = Inr t"
    "fold_res (scan_utxo P descs network replay db known initial_highest) t us = Inr st'" by (auto simp: res_rules)
  from Cons.IH [OF this(2)] scan_unresolved_step [OF this(1)] show ?case by simp
qed simp

definition UNMAPPED_ERROR :: string where
  "UNMAPPED_ERROR = ''Recovered wallet outputs could not be mapped within the prepared address range; restore the Vault's address indices before completing recovery''"

text \<open>The loop over the outputs not mapped yet; each further round has fewer of them.\<close>

function map_pending ::
  "poll_api \<Rightarrow> descriptor list \<Rightarrow> network \<Rightarrow> bool \<Rightarrow> bool \<Rightarrow> wallet_db \<Rightarrow> outpoint set \<Rightarrow> nat \<Rightarrow> scan \<Rightarrow> utxo list \<Rightarrow> (poll_error, scan) res" where
  "map_pending P descs network replay complete db known initial_highest st pending =
     bind_res (fold_res (scan_utxo P descs network replay db known initial_highest) (st\<lparr>sn_unresolved := []\<rparr>) pending) (\<lambda>st'.
       if sn_unresolved st' = [] then Inr st'
       else if length (sn_unresolved st') = length pending
       then (if complete then Inl (Failed UNMAPPED_ERROR) else Inr st')
       else map_pending P descs network replay complete db known initial_highest st' (sn_unresolved st'))"
  by pat_completeness auto
termination
proof (relation "measure (\<lambda>(P, descs, network, replay, complete, db, known, initial_highest, st, pending). length pending)")
  fix P descs network replay complete db known initial_highest st pending st'
  assume "fold_res (scan_utxo P descs network replay db known initial_highest) (st\<lparr>sn_unresolved := []\<rparr>) pending = Inr st'"
    and "length (sn_unresolved st') \<noteq> length pending"
  then show "((P, descs, network, replay, complete, db, known, initial_highest, st', sn_unresolved st'),
      P, descs, network, replay, complete, db, known, initial_highest, st, pending) \<in>
      measure (\<lambda>(P, descs, network, replay, complete, db, known, initial_highest, st, pending). length pending)"
    using scan_unresolved_length by fastforce
qed simp

declare map_pending.simps [simp del]

section \<open>What changed since the last poll\<close>

record updated_coins =
  uc_receive_index :: nat
  uc_change_index :: nat
  uc_received :: "coin list"
  uc_confirmed :: "(outpoint \<times> int \<times> nat) list"
  uc_expired :: "outpoint list"
  uc_spending :: "(outpoint \<times> txid) list"
  uc_expired_spending :: "outpoint list"
  uc_spent :: "spent_coin list"

definition history_pending :: "wallet_db \<Rightarrow> bool" where
  "history_pending db = (case imported_history db of None \<Rightarrow> False | Some h \<Rightarrow> \<not> ih_history_complete h)"

definition to_be_confirmed :: "coin list \<Rightarrow> outpoint list" where
  "to_be_confirmed cs = map cn_outpoint (filter (\<lambda>c. cn_block_info c = None) cs)"

definition to_be_spent :: "outpoint list \<Rightarrow> coin list \<Rightarrow> outpoint list" where
  "to_be_spent expired cs = map cn_outpoint (filter (\<lambda>c. \<not> ((cn_spend_txid c \<noteq> None \<and> cn_spend_block c \<noteq> None) \<or>
     cn_outpoint c \<in> set expired)) cs)"

definition spending_pairs :: "coin list \<Rightarrow> (outpoint \<times> txid) list option" where
  \<comment> \<open>\<open>coin.spend_txid.expect("Coin is spending")\<close>\<close>
  "spending_pairs = collect_opt (\<lambda>c. map_option (Pair (cn_outpoint c)) (cn_spend_txid c))"

definition update_coins ::
  "poll_api \<Rightarrow> address_api \<Rightarrow> 'b bitcoin_interface \<Rightarrow> block_chain_tip \<Rightarrow> descriptor list \<Rightarrow> ('b, updated_coins) act" where
  "update_coins P A N previous_tip descs =
     act_bind (read_db db_network) (\<lambda>network.
     act_bind (read_db (coins [] [])) (\<lambda>curr_coins.
     act_bind (read_db (receive_index A)) (\<lambda>receive.
     act_bind (read_db (change_index A)) (\<lambda>change.
     act_bind (read_db (\<lambda>db. Some (history_pending db))) (\<lambda>historical.
     act_bind (call (if historical then try_historical_received_coins N previous_tip descs
       else try_received_coins N previous_tip descs)) (\<lambda>pending.
     act_bind (ask (\<lambda>b. wallet_record_replay_pending N b \<noteq> None)) (\<lambda>replay.
     act_bind (ask (wallet_record_replay_requires_complete_mapping N)) (\<lambda>complete.
     act_bind (read_db Some) (\<lambda>db.
     act_bind (lift_res (map_pending P descs network replay complete db (cn_outpoint ` set curr_coins) (max receive change)
       \<lparr>sn_receive_index = receive, sn_change_index = change, sn_received = [], sn_unresolved = []\<rparr> pending)) (\<lambda>st.
     let all_coins = lib_coin_order P curr_coins @ sn_received st in
     act_bind (call (try_confirmed_coins N (to_be_confirmed all_coins))) (\<lambda>(confirmed, expired).
     act_bind (call (try_spending_coins N (to_be_spent expired all_coins))) (\<lambda>spending.
     act_bind (read_db list_spending_coins) (\<lambda>spending_coins.
     act_bind (lift_res (ok_or Panic (spending_pairs (lib_coin_order P spending_coins)))) (\<lambda>pairs.
     act_bind (call (try_spent_coins N (pairs @ spending))) (\<lambda>(spent, expired_spending).
     act_ok \<lparr>uc_receive_index = sn_receive_index st, uc_change_index = sn_change_index st, uc_received = sn_received st,
       uc_confirmed = confirmed, uc_expired = expired, uc_spending = spending,
       uc_expired_spending = expired_spending, uc_spent = spent\<rparr>)))))))))))))))"

fun fetch_txs :: "'b bitcoin_interface \<Rightarrow> txid list \<Rightarrow> ('b, transaction list) act" where
  "fetch_txs N [] = act_ok []"
| "fetch_txs N (t # ts) =
     act_bind (call (try_wallet_transaction N t)) (\<lambda>found.
     act_bind (lift_res (ok_or (Failed ''Wallet transaction disappeared during polling'') (map_option fst found))) (\<lambda>tx.
     act_bind (fetch_txs N ts) (\<lambda>txs. act_ok (tx # txs))))"

definition missing_txids :: "wallet_db \<Rightarrow> updated_coins \<Rightarrow> txid list" where
  "missing_txids db u = filter (\<lambda>t. t \<notin> set (saved_txids db))
     (remdups (map (\<lambda>c. op_txid (cn_outpoint c)) (uc_received u) @ map snd (uc_spending u)))"

definition collect_txs :: "poll_api \<Rightarrow> 'b bitcoin_interface \<Rightarrow> updated_coins \<Rightarrow> ('b, transaction list) act" where
  "collect_txs P N u = act_bind (read_db (\<lambda>db. Some (missing_txids db u))) (\<lambda>missing. fetch_txs N (lib_txid_order P missing))"

section \<open>The new tip\<close>

definition MAX_REORG_DEPTH :: int where "MAX_REORG_DEPTH = 500"
definition ANCESTOR_LOOKUP_ATTEMPTS :: nat where "ANCESTOR_LOOKUP_ATTEMPTS = 3"

definition saturating_sub_i32 :: "int \<Rightarrow> int \<Rightarrow> int" where
  "saturating_sub_i32 a b = max (- (2 ^ 31)) (min (a - b) (2 ^ 31 - 1))"

datatype tip_update = Same | Progress block_chain_tip | Reorged block_chain_tip | ImplausibleReorg int
  | Diverged block_chain_tip | Unavailable

fun new_tip_loop :: "'b bitcoin_interface \<Rightarrow> block_chain_tip \<Rightarrow> nat \<Rightarrow> 'b \<Rightarrow> tip_update \<times> 'b" where
  \<comment> \<open>the attempts left\<close>
  "new_tip_loop N current_tip 0 b = (Unavailable, b)"
| "new_tip_loop N current_tip (Suc n) b = (case try_chain_tip N b of
       (Inl _, b) \<Rightarrow> (Unavailable, b)
     | (Inr bitcoin_tip, b) \<Rightarrow>
         if current_tip = bitcoin_tip then (Same, b)
         else (case (if bt_height bitcoin_tip > bt_height current_tip then try_is_in_chain N current_tip b else (Inr False, b)) of
             (Inl _, b) \<Rightarrow> (Unavailable, b)
           | (Inr True, b) \<Rightarrow> (Progress bitcoin_tip, b)
           | (Inr False, b) \<Rightarrow>
               if \<not> walks_common_ancestor N b then (Diverged bitcoin_tip, b)
               else (case bit_common_ancestor N current_tip (MAX_REORG_DEPTH + 1) b of
                   (Found ancestor, b) \<Rightarrow>
                     let depth = saturating_sub_i32 (bt_height current_tip) (bt_height ancestor) in
                     if depth > MAX_REORG_DEPTH then (ImplausibleReorg depth, b) else (Reorged ancestor, b)
                 | (TooDeep, b) \<Rightarrow> (ImplausibleReorg (MAX_REORG_DEPTH + 1), b)
                 | (SearchFailed, b) \<Rightarrow> new_tip_loop N current_tip n b)))"

definition new_tip :: "'b bitcoin_interface \<Rightarrow> block_chain_tip \<Rightarrow> 'b \<Rightarrow> tip_update \<times> 'b" where
  "new_tip N current_tip = new_tip_loop N current_tip ANCESTOR_LOOKUP_ATTEMPTS"

definition refuse_deep_reorg :: "int \<Rightarrow> ('b, unit) act" where
  "refuse_deep_reorg depth = set_alert (store_refused_reorg depth)"

definition report_divergence :: "('b, unit) act" where
  "report_divergence = set_alert DIVERGED_SENTINEL"

definition ROLLED_BACK :: string where "ROLLED_BACK = ''Chain rollback requires a new scheduled poll''"
definition INCOHERENT :: string where "INCOHERENT = ''Poll did not produce a coherent chain update''"
definition TIP_CHANGED :: string where
  "TIP_CHANGED = ''Chain tip changed during polling; retry on the next scheduled poll''"

definition roll_back_to :: "block_chain_tip \<Rightarrow> ('b, 'a) act" where
  "roll_back_to tip = act_bind (write_db (\<lambda>db. Some (rollback_tip tip db))) (\<lambda>_. act_err (Failed ROLLED_BACK))"

definition sync_call :: "'b bitcoin_interface \<Rightarrow> nat \<Rightarrow> nat \<Rightarrow> ('b, block_chain_tip option) act" where
  "sync_call N receive change s = (case sync_wallet N receive change (ps_history s) (ps_bit s) of
     (r, h, b) \<Rightarrow> (map_err Failed r, s\<lparr>ps_bit := b, ps_history := h\<rparr>))"

definition latest_tip :: "'b bitcoin_interface \<Rightarrow> block_chain_tip \<Rightarrow> nat \<Rightarrow> nat \<Rightarrow> ('b, block_chain_tip) act" where
  "latest_tip N current_tip receive change =
     act_bind (sync_call N receive change) (\<lambda>ancestor. case ancestor of
       None \<Rightarrow> act_bind (call (\<lambda>b. apfst Inr (new_tip N current_tip b))) (\<lambda>update. case update of
           Same \<Rightarrow> act_ok current_tip
         | Progress tip \<Rightarrow> act_ok tip
         | Reorged tip \<Rightarrow> roll_back_to tip
         | ImplausibleReorg min_depth \<Rightarrow> act_bind (refuse_deep_reorg min_depth) (\<lambda>_. act_err (Failed INCOHERENT))
         | Diverged backend_tip \<Rightarrow> act_bind report_divergence (\<lambda>_. act_err (Failed INCOHERENT))
         | Unavailable \<Rightarrow> act_err (Failed ''Backend unavailable during tip lookup''))
     | Some tip \<Rightarrow>
         if bt_height tip \<le> bt_height current_tip \<and> bt_hash tip \<noteq> bt_hash current_tip
         then (let depth = saturating_sub_i32 (bt_height current_tip) (bt_height tip) in
           if depth > MAX_REORG_DEPTH then act_bind (refuse_deep_reorg depth) (\<lambda>_. act_err (Failed INCOHERENT))
           else roll_back_to tip)
         else act_err (Failed ROLLED_BACK))"

section \<open>One poll\<close>

definition when_act :: "bool \<Rightarrow> ('b, unit) act \<Rightarrow> ('b, unit) act" where
  "when_act c m = (if c then m else act_ok ())"

definition raise_indices :: "address_api \<Rightarrow> updated_coins \<Rightarrow> ('b, unit) act" where
  "raise_indices A u =
     act_bind (read_db (receive_index A)) (\<lambda>receive.
     act_bind (when_act (uc_receive_index u > receive) (write_db (set_derivation_index A (uc_receive_index u) False))) (\<lambda>_.
     act_bind (read_db (change_index A)) (\<lambda>change.
     when_act (uc_change_index u > change) (write_db (set_derivation_index A (uc_change_index u) True)))))"

definition record_coins :: "block_chain_tip \<Rightarrow> updated_coins \<Rightarrow> ('b, unit) act" where
  "record_coins current_tip u =
     act_bind (write_db (new_unspent_coins (uc_received u))) (\<lambda>_.
     act_bind (write_db (\<lambda>db. Some (remove_coins (uc_expired u) db))) (\<lambda>_.
     act_bind (write_db (\<lambda>db. Some (confirm_coins (uc_confirmed u) db))) (\<lambda>_.
     act_bind (write_db (\<lambda>db. Some (unspend_coins (uc_expired_spending u) db))) (\<lambda>_.
     act_bind (write_db (spend_coins (uc_spending u))) (\<lambda>_.
     act_bind (write_db (confirm_spend (uc_spent u))) (\<lambda>_.
     write_db (update_coins_from_self (bt_height current_tip))))))))"

definition record_updates ::
  "address_api \<Rightarrow> btc_api \<Rightarrow> block_chain_tip \<Rightarrow> block_chain_tip \<Rightarrow> updated_coins \<Rightarrow> transaction list \<Rightarrow> ('b, unit) act" where
  "record_updates A L current_tip latest u transactions =
     act_bind (when_act (transactions \<noteq> []) (write_db (new_txs L transactions))) (\<lambda>_.
     act_bind (set_alert 0) (\<lambda>_.
     act_bind (raise_indices A u) (\<lambda>_.
     act_bind (record_coins current_tip u) (\<lambda>_.
     when_act (latest \<noteq> current_tip) (write_db (\<lambda>db. Some (update_tip latest db)))))))"

definition updates :: "poll_api \<Rightarrow> address_api \<Rightarrow> btc_api \<Rightarrow> 'b bitcoin_interface \<Rightarrow> descriptor list \<Rightarrow> ('b, unit) act" where
  "updates P A L N descs =
     act_bind (read_db (\<lambda>db. Option.bind (db_chain_tip db) id)) (\<lambda>current_tip.
     act_bind (read_db (receive_index A)) (\<lambda>receive.
     act_bind (read_db (change_index A)) (\<lambda>change.
     act_bind (latest_tip N current_tip receive change) (\<lambda>latest.
     act_bind (update_coins P A N current_tip descs) (\<lambda>updated.
     act_bind (collect_txs P N updated) (\<lambda>transactions.
     act_bind (call (try_chain_tip N)) (\<lambda>tip.
     if tip \<noteq> latest then act_err (Failed TIP_CHANGED)
     else record_updates A L current_tip latest updated transactions)))))))"

datatype rescan_observation = Idle | Running | Completed block_chain_tip

definition observe_rescan :: "address_api \<Rightarrow> 'b bitcoin_interface \<Rightarrow> ('b, rescan_observation) act" where
  "observe_rescan A N =
     act_bind (call (try_rescan_progress N)) (\<lambda>running.
     if running then act_ok Running
     else act_bind (read_db (rescan_timestamp A)) (\<lambda>started. case started of
         None \<Rightarrow> act_ok Idle
       | Some timestamp \<Rightarrow> act_bind (call (try_block_before_date N timestamp)) (\<lambda>block.
           lift_res (map_err Failed (ok_or ''Could not retrieve the rescan starting block'' (map_option Completed block))))))"

definition poll_result :: "poll_api \<Rightarrow> address_api \<Rightarrow> btc_api \<Rightarrow> 'b bitcoin_interface \<Rightarrow> descriptor list \<Rightarrow> ('b, unit) act" where
  "poll_result P A L N descs = act_bind (observe_rescan A N) (\<lambda>rescan. case rescan of
       Completed tip \<Rightarrow>
         act_bind (write_db (\<lambda>db. Some (rollback_tip tip db))) (\<lambda>_.
         act_bind (updates P A L N descs) (\<lambda>_.
         write_db complete_wallet_rescan))
     | _ \<Rightarrow> updates P A L N descs)"

definition fail_poll :: "string \<Rightarrow> nat \<Rightarrow> 'b poller_state \<Rightarrow> 'b poller_state" where
  "fail_poll error now s = s\<lparr>ps_history := snd (poll_failed error now (ps_history s))\<rparr>"

definition poll_done :: "nat \<Rightarrow> 'b poller_state \<Rightarrow> 'b poller_state" where
  "poll_done now s = s\<lparr>ps_history := poll_succeeded now (ps_history s), ps_db := set_wallet_last_poll_timestamp now (ps_db s)\<rparr>"

text \<open>\<open>poll\<close> handles every error; \<open>Inl\<close> is the panic of the poller thread.\<close>

definition poll ::
  "poll_api \<Rightarrow> address_api \<Rightarrow> btc_api \<Rightarrow> 'b bitcoin_interface \<Rightarrow> descriptor list \<Rightarrow> nat \<Rightarrow> 'b poller_state \<Rightarrow> (poll_error, unit) res \<times> 'b poller_state" where
  "poll P A L N descs now s0 =
     (let replay_ticket = wallet_record_replay_pending N (ps_bit s0) in
      case poll_result P A L N descs s0 of
        (Inl Panic, s) \<Rightarrow> (Inl Panic, s)
      | (Inl (Failed error), s) \<Rightarrow> (Inr (), fail_poll error now s)
      | (Inr _, s) \<Rightarrow>
          let s = (case replay_ticket of None \<Rightarrow> s | Some ticket \<Rightarrow> s\<lparr>ps_bit := acknowledge_wallet_record_replay N ticket (ps_bit s)\<rparr>) in
          (case pending_full_scan_coverage (ps_history s) of
             None \<Rightarrow> (Inr (), poll_done now s)
           | Some (receive_scanned, change_scanned) \<Rightarrow>
               if imported_history (ps_db s) = None then (Inr (), poll_done now s)
               else (case complete_import_history receive_scanned change_scanned (ps_db s) of
                   None \<Rightarrow> (Inr (), fail_poll (lib_import_error P) now s)
                 | Some db \<Rightarrow> (Inr (), poll_done now (s\<lparr>ps_db := db\<rparr>)))))"

section \<open>The poller thread\<close>

definition maybe_initialize_tip :: "'b bitcoin_interface \<Rightarrow> ('b, unit) act" where
  "maybe_initialize_tip N = act_bind (read_db db_chain_tip) (\<lambda>tip.
     when_act (tip = None) (act_bind (call (genesis_block N)) (\<lambda>genesis. write_db (\<lambda>db. Some (update_tip genesis db)))))"

record 'b poller =
  pl_state :: "'b poller_state"
  pl_synced :: bool
  pl_last_poll :: "nat option"

text \<open>What ends a wait of the poller: a message, the end of the interval, or a closed channel.\<close>

datatype poller_event = Shutdown | PollNow | PollNowNoAck | Timeout | Disconnected

definition paused_for_node_maintenance :: "'b bitcoin_interface \<Rightarrow> bool \<Rightarrow> 'b poller \<Rightarrow> bool" where
  "paused_for_node_maintenance N maintenance p \<longleftrightarrow> maintenance \<and> is_bitcoind N (ps_bit (pl_state p))"

definition apply_eager_request :: "'b bitcoin_interface \<Rightarrow> 'b poller_state \<Rightarrow> 'b poller_state" where
  "apply_eager_request N s = (case take_eager_sync_request (ps_history s) of (requested, h) \<Rightarrow>
     let s = s\<lparr>ps_history := h\<rparr> in if requested then s\<lparr>ps_bit := bit_request_eager_sync N (ps_bit s)\<rparr> else s)"

definition check_synced :: "'b bitcoin_interface \<Rightarrow> 'b poller \<Rightarrow> (string, unit) res \<times> 'b poller" where
  \<comment> \<open>\<open>if !synced { .. }\<close>: ask for the progress once more\<close>
  "check_synced N p = (if pl_synced p then (Inr (), p)
     else (case try_sync_progress N (ps_bit (pl_state p)) of
         (Inl e, b) \<Rightarrow> (Inl e, p\<lparr>pl_state := (pl_state p)\<lparr>ps_bit := b\<rparr>\<rparr>)
       | (Inr complete, b) \<Rightarrow> (Inr (), p\<lparr>pl_state := (pl_state p)\<lparr>ps_bit := b\<rparr>, pl_synced := complete\<rparr>)))"

definition poll_once ::
  "poll_api \<Rightarrow> address_api \<Rightarrow> btc_api \<Rightarrow> 'b bitcoin_interface \<Rightarrow> descriptor list \<Rightarrow> nat \<Rightarrow> 'b poller \<Rightarrow> (poll_error, unit) res \<times> 'b poller" where
  "poll_once P A L N descs now p = (case poll P A L N descs now (apply_eager_request N (pl_state p)) of
     (r, s) \<Rightarrow> (r, p\<lparr>pl_state := s\<rparr>))"

definition run_immediate_poll ::
  "poll_api \<Rightarrow> address_api \<Rightarrow> btc_api \<Rightarrow> 'b bitcoin_interface \<Rightarrow> descriptor list \<Rightarrow> bool \<Rightarrow> nat \<Rightarrow> 'b poller \<Rightarrow> (poll_error, unit) res \<times> 'b poller" where
  "run_immediate_poll P A L N descs maintenance now p =
     (if paused_for_node_maintenance N maintenance p then (Inr (), p\<lparr>pl_last_poll := Some now\<rparr>)
      else (case check_synced N p of
          (Inl _, p) \<Rightarrow> (Inr (), p\<lparr>pl_last_poll := Some now\<rparr>)
        | (Inr _, p) \<Rightarrow> let p = p\<lparr>pl_last_poll := Some now\<rparr> in
            if pl_synced p then poll_once P A L N descs now p else (Inr (), p)))"

definition scheduled_poll ::
  "poll_api \<Rightarrow> address_api \<Rightarrow> btc_api \<Rightarrow> 'b bitcoin_interface \<Rightarrow> descriptor list \<Rightarrow> bool \<Rightarrow> nat \<Rightarrow> 'b poller \<Rightarrow> (poll_error, unit) res \<times> 'b poller" where
  "scheduled_poll P A L N descs maintenance now p =
     (let p = p\<lparr>pl_last_poll := Some now\<rparr> in
      if paused_for_node_maintenance N maintenance p then (Inr (), p)
      else (case check_synced N p of
          (Inl _, p) \<Rightarrow> (Inr (), p)
        | (Inr _, p) \<Rightarrow> if pl_synced p then poll_once P A L N descs now p else (Inr (), p)))"

text \<open>The loop over the events, each with the time and the maintenance flag when it is handled.\<close>

fun poll_forever ::
  "poll_api \<Rightarrow> address_api \<Rightarrow> btc_api \<Rightarrow> 'b bitcoin_interface \<Rightarrow> descriptor list \<Rightarrow> (poller_event \<times> nat \<times> bool) list \<Rightarrow> 'b poller \<Rightarrow>
   (poll_error, unit) res \<times> 'b poller" where
  "poll_forever P A L N descs [] p = (Inr (), p)"
| "poll_forever P A L N descs ((event, now, maintenance) # events) p =
     (if event = Shutdown \<or> event = Disconnected then (Inr (), p)
      else (case (if event = Timeout then scheduled_poll P A L N descs maintenance now p
                  else run_immediate_poll P A L N descs maintenance now p) of
          (Inl e, p) \<Rightarrow> (Inl e, p)
        | (Inr _, p) \<Rightarrow> poll_forever P A L N descs events p))"

end
