(* ===== verification/Poller_Safety.thy ===== *)
theory Poller_Safety
  imports Poller
begin

text \<open>
  What a poll can do to the wallet.  Everything before the last tip check only reads; a poll that
  fails leaves the database as it was or rolled back within the depth limit; whatever happens, a
  panic included, the database moves only by the steps of its state machine.
\<close>

section \<open>Reasoning about state transformers\<close>

lemma act_bind_Inr: "act_bind m f s = (Inr y, s'') \<longleftrightarrow> (\<exists>x s'. m s = (Inr x, s') \<and> f x s' = (Inr y, s''))"
  by (auto simp: act_bind_def split: prod.splits sum.splits)

lemma act_bind_Inl:
  "act_bind m f s = (Inl e, s'') \<longleftrightarrow> m s = (Inl e, s'') \<or> (\<exists>x s'. m s = (Inr x, s') \<and> f x s' = (Inl e, s''))"
  by (auto simp: act_bind_def split: prod.splits sum.splits)

lemma act_ok_eq [simp]: "act_ok x s = (r, s') \<longleftrightarrow> r = Inr x \<and> s' = s"
  by (auto simp: act_ok_def)

lemma act_err_eq [simp]: "act_err e s = (r, s') \<longleftrightarrow> r = Inl e \<and> s' = s"
  by (auto simp: act_err_def)

lemma lift_res_eq [simp]: "lift_res q s = (r, s') \<longleftrightarrow> r = q \<and> s' = s"
  by (auto simp: lift_res_def)

lemma ask_eq [simp]: "ask g s = (r, s') \<longleftrightarrow> r = Inr (g (ps_bit s)) \<and> s' = s"
  by (auto simp: ask_def)

lemma read_db_eq [simp]: "read_db h s = (r, s') \<longleftrightarrow> r = ok_or Panic (h (ps_db s)) \<and> s' = s"
  by (auto simp: read_db_def)

lemma set_alert_eq [simp]: "set_alert a s = (r, s') \<longleftrightarrow> r = Inr () \<and> s' = s\<lparr>ps_alert := a\<rparr>"
  by (auto simp: set_alert_def)

lemma write_db_Inr [simp]: "write_db f s = (Inr u, s') \<longleftrightarrow> (\<exists>db. f (ps_db s) = Some db \<and> s' = s\<lparr>ps_db := db\<rparr>)"
  by (auto simp: write_db_def split: option.splits)

lemma write_db_Inl [simp]: "write_db f s = (Inl e, s') \<longleftrightarrow> f (ps_db s) = None \<and> e = Panic \<and> s' = s"
  by (auto simp: write_db_def split: option.splits)

text \<open>The transformers are built from a few forms; a property closed under them holds of all.\<close>

locale act_property =
  fixes ok :: "'b poller_state \<Rightarrow> 'b poller_state \<Rightarrow> bool"
  assumes refl: "ok s s" and trans: "\<lbrakk>ok s t; ok t u\<rbrakk> \<Longrightarrow> ok s u" and bit: "ok s (s\<lparr>ps_bit := b\<rparr>)"
begin

definition keeps :: "('b, 'a) act \<Rightarrow> bool" where
  "keeps m \<longleftrightarrow> (\<forall>s. ok s (snd (m s)))"

lemma keepsD: "\<lbrakk>keeps m; m s = (r, s')\<rbrakk> \<Longrightarrow> ok s s'"
  unfolding keeps_def by (metis snd_conv)

lemma keeps_pure: "keeps (act_ok x)" "keeps (act_err e)" "keeps (lift_res r)" "keeps (ask g)" "keeps (read_db h)"
  by (simp_all add: keeps_def act_ok_def act_err_def lift_res_def ask_def read_db_def refl)

lemma keeps_call: "keeps (call g)"
  by (simp add: keeps_def call_def bit split: prod.split)

lemma keeps_bind_result: "\<lbrakk>keeps m; \<And>x s s'. m s = (Inr x, s') \<Longrightarrow> keeps (f x)\<rbrakk> \<Longrightarrow> keeps (act_bind m f)"
  unfolding keeps_def act_bind_def by (auto split: prod.split sum.split intro: refl trans) (metis snd_conv trans)+

lemma keeps_bind: "\<lbrakk>keeps m; \<And>x. keeps (f x)\<rbrakk> \<Longrightarrow> keeps (act_bind m f)"
  by (rule keeps_bind_result)

lemma keeps_if: "\<lbrakk>keeps m; keeps n\<rbrakk> \<Longrightarrow> keeps (if c then m else n)"
  by simp

lemma keeps_prod: "(\<And>x y. keeps (f x y)) \<Longrightarrow> keeps (case p of (x, y) \<Rightarrow> f x y)"
  by (cases p) simp

lemma keeps_option: "\<lbrakk>keeps m; \<And>y. keeps (f y)\<rbrakk> \<Longrightarrow> keeps (case x of None \<Rightarrow> m | Some y \<Rightarrow> f y)"
  by (cases x) simp_all

lemma keeps_when: "keeps m \<Longrightarrow> keeps (when_act c m)"
  by (simp add: when_act_def keeps_pure)

lemmas keeps_intros = keeps_pure keeps_call keeps_bind keeps_if keeps_prod keeps_option keeps_when

lemma keeps_update_coins: "keeps (update_coins P A N tip descs)"
  unfolding update_coins_def Let_def by (intro keeps_intros)

lemma keeps_fetch_txs: "keeps (fetch_txs N ts)"
  by (induction ts) (auto intro!: keeps_intros)

lemma keeps_collect_txs: "keeps (collect_txs P N u)"
  unfolding collect_txs_def by (intro keeps_intros keeps_fetch_txs)

lemma keeps_observe_rescan: "keeps (observe_rescan A N)"
  unfolding observe_rescan_def by (intro keeps_intros)

end

text \<open>Reading leaves the database, the alert and the history record alone.\<close>

definition unchanged :: "'b poller_state \<Rightarrow> 'b poller_state \<Rightarrow> bool" where
  "unchanged s t \<longleftrightarrow> ps_db t = ps_db s \<and> ps_alert t = ps_alert s \<and> ps_history t = ps_history s"

interpretation reading: act_property unchanged
  by unfold_locales (simp_all add: unchanged_def)

text \<open>The database moves by the steps of its state machine.\<close>

interpretation stepping: act_property "\<lambda>s t. (db_step L A)\<^sup>*\<^sup>* (ps_db s) (ps_db t)" for L A
  by unfold_locales auto

section \<open>The database moves by its own steps\<close>

lemma stepping_write:
  assumes "\<And>db db'. f db = Some db' \<Longrightarrow> db_step L A db db'"
  shows "stepping.keeps L A (write_db f)"
  using assms by (auto simp: stepping.keeps_def write_db_def split: option.split)

lemma stepping_alert: "stepping.keeps L A (set_alert a)"
  by (simp add: stepping.keeps_def set_alert_def)

lemma stepping_sync_call: "stepping.keeps L A (sync_call N receive change)"
  by (simp add: stepping.keeps_def sync_call_def split: prod.split)

lemma stepping_roll_back: "stepping.keeps L A (roll_back_to tip)"
  unfolding roll_back_to_def by (intro stepping.keeps_intros stepping_write) (auto intro: step_rollback)

lemma stepping_latest_tip: "stepping.keeps L A (latest_tip N current_tip receive change)"
proof -
  have "stepping.keeps L A (case u of Same \<Rightarrow> act_ok current_tip | Progress tip \<Rightarrow> act_ok tip | Reorged tip \<Rightarrow> roll_back_to tip
     | ImplausibleReorg d \<Rightarrow> act_bind (refuse_deep_reorg d) (\<lambda>_. act_err (Failed INCOHERENT))
     | Diverged t \<Rightarrow> act_bind report_divergence (\<lambda>_. act_err (Failed INCOHERENT))
     | Unavailable \<Rightarrow> act_err (Failed e))" for u and e :: string
    by (cases u) (auto simp: refuse_deep_reorg_def report_divergence_def
        intro!: stepping.keeps_intros stepping_roll_back stepping_alert)
  then show ?thesis unfolding latest_tip_def Let_def refuse_deep_reorg_def
    by (intro stepping.keeps_intros stepping_roll_back stepping_alert stepping_sync_call) (simp add: refuse_deep_reorg_def)
qed

lemma stepping_record_updates:
  assumes "\<forall>c\<in>set (uc_received u). cn_amount c < 2 ^ 63"
  shows "stepping.keeps L A (record_updates A L current_tip latest u transactions)"
  unfolding record_updates_def raise_indices_def record_coins_def
  by (intro stepping.keeps_intros stepping_write stepping_alert)
    (use assms in \<open>auto intro: db_step.intros\<close>)

text \<open>The amounts a backend reports fit the signed column they are stored in.\<close>

definition sane_amounts :: "'b bitcoin_interface \<Rightarrow> bool" where
  "sane_amounts N \<longleftrightarrow> (\<forall>tip descs b us b'.
     try_received_coins N tip descs b = (Inr us, b') \<or> try_historical_received_coins N tip descs b = (Inr us, b') \<longrightarrow>
     (\<forall>u\<in>set us. ux_amount u < 2 ^ 63))"

text \<open>The coins a scan receives come from the outputs it was given.\<close>

lemma fold_scan_received:
  assumes "fold_res (scan_utxo P descs network replay db known initial_highest) st pending = Inr st'"
  shows "set (sn_unresolved st') \<subseteq> set (sn_unresolved st) \<union> set pending \<and>
    (\<forall>c\<in>set (sn_received st'). c \<in> set (sn_received st) \<or> (\<exists>u\<in>set pending. \<exists>i ch. c = new_coin u i ch \<and> ux_outpoint u \<notin> known))"
  using assms
proof (induction pending arbitrary: st)
  case (Cons u us)
  then obtain t where t: "scan_utxo P descs network replay db known initial_highest st u = Inr t"
    "fold_res (scan_utxo P descs network replay db known initial_highest) t us = Inr st'" by (auto simp: res_rules)
  have "set (sn_unresolved t) \<subseteq> set (sn_unresolved st) \<union> {u} \<and>
      (\<forall>c\<in>set (sn_received t). c \<in> set (sn_received st) \<or> (\<exists>i ch. c = new_coin u i ch \<and> ux_outpoint u \<notin> known))"
    using t(1) by (rule scan_utxo_cases) (auto, blast)
  then show ?case using Cons.IH [OF t(2)] by fastforce
qed simp

lemma map_pending_received:
  assumes "map_pending P descs network replay complete db known initial_highest st pending = Inr st'"
    and "c \<in> set (sn_received st')"
  shows "c \<in> set (sn_received st) \<or> (\<exists>u\<in>set pending. \<exists>i ch. c = new_coin u i ch \<and> ux_outpoint u \<notin> known)"
  using assms(1)
proof (induction P descs network replay complete db known initial_highest st pending rule: map_pending.induct)
  case (1 P descs network replay complete db known initial_highest st pending)
  obtain t where t: "fold_res (scan_utxo P descs network replay db known initial_highest) (st\<lparr>sn_unresolved := []\<rparr>) pending = Inr t"
    "st' = t \<or> (sn_unresolved t \<noteq> [] \<and> length (sn_unresolved t) \<noteq> length pending \<and>
      map_pending P descs network replay complete db known initial_highest t (sn_unresolved t) = Inr st')"
    using "1.prems" by (subst (asm) map_pending.simps) (auto simp: res_rules split: if_splits)
  have sub: "set (sn_unresolved t) \<subseteq> set pending" and
    rec: "\<forall>c\<in>set (sn_received t). c \<in> set (sn_received st) \<or> (\<exists>u\<in>set pending. \<exists>i ch. c = new_coin u i ch \<and> ux_outpoint u \<notin> known)"
    using fold_scan_received [OF t(1)] by simp_all
  from t(2) show ?case
  proof
    assume "st' = t"
    then show ?thesis using rec assms(2) by blast
  next
    assume "sn_unresolved t \<noteq> [] \<and> length (sn_unresolved t) \<noteq> length pending \<and>
      map_pending P descs network replay complete db known initial_highest t (sn_unresolved t) = Inr st'"
    then have "c \<in> set (sn_received t) \<or> (\<exists>u\<in>set (sn_unresolved t). \<exists>i ch. c = new_coin u i ch \<and> ux_outpoint u \<notin> known)"
      using "1.IH" [OF t(1)] by blast
    then show ?thesis using rec sub by blast
  qed
qed

lemma call_Inr: "call f s = (Inr x, s') \<longleftrightarrow> (\<exists>b. f (ps_bit s) = (Inr x, b) \<and> s' = s\<lparr>ps_bit := b\<rparr>)"
  by (auto simp: call_def split: prod.splits sum.splits) (metis map_err_Inr)+

lemma call_Inl: "call f s = (Inl e, s') \<longleftrightarrow> (\<exists>m b. e = Failed m \<and> f (ps_bit s) = (Inl m, b) \<and> s' = s\<lparr>ps_bit := b\<rparr>)"
  by (auto simp: call_def map_err_def split: prod.splits sum.splits)

text \<open>A completed comparison with the backend, taken apart into the backend's answers.\<close>

lemma update_coins_parts:
  assumes "update_coins P A N tip descs s = (Inr u, s')"
  obtains network curr receive change pending replay complete st sp pairs b1 b2 b3 b4 where
    "db_network (ps_db s) = Some network" "coins [] [] (ps_db s) = Some curr"
    "receive_index A (ps_db s) = Some receive" "change_index A (ps_db s) = Some change"
    "(if history_pending (ps_db s) then try_historical_received_coins N tip descs else try_received_coins N tip descs) (ps_bit s) =
       (Inr pending, b1)"
    "map_pending P descs network replay complete (ps_db s) (cn_outpoint ` set curr) (max receive change)
       \<lparr>sn_receive_index = receive, sn_change_index = change, sn_received = [], sn_unresolved = []\<rparr> pending = Inr st"
    "uc_receive_index u = sn_receive_index st" "uc_change_index u = sn_change_index st" "uc_received u = sn_received st"
    "try_confirmed_coins N (to_be_confirmed (lib_coin_order P curr @ uc_received u)) b1 = (Inr (uc_confirmed u, uc_expired u), b2)"
    "try_spending_coins N (to_be_spent (uc_expired u) (lib_coin_order P curr @ uc_received u)) b2 = (Inr (uc_spending u), b3)"
    "list_spending_coins (ps_db s) = Some sp" "spending_pairs (lib_coin_order P sp) = Some pairs"
    "try_spent_coins N (pairs @ uc_spending u) b3 = (Inr (uc_spent u, uc_expired_spending u), b4)"
    "s' = s\<lparr>ps_bit := b4\<rparr>"
  using assms unfolding update_coins_def Let_def
  by (clarsimp simp: act_bind_Inr call_Inr ok_or_Inr eq_commute [of "Inr _" "ok_or _ _"] eq_commute [of "Inr _" "map_pending _ _ _ _ _ _ _ _ _ _"]
      split: prod.splits)

lemma received_amounts:
  assumes "update_coins P A N tip descs s = (Inr u, s')" and "sane_amounts N"
  shows "\<forall>c\<in>set (uc_received u). cn_amount c < 2 ^ 63"
  using assms(1)
proof (rule update_coins_parts)
  fix network curr receive change pending replay complete st b1
  assume "(if history_pending (ps_db s) then try_historical_received_coins N tip descs else try_received_coins N tip descs) (ps_bit s) =
       (Inr pending, b1)"
  then have "\<forall>u\<in>set pending. ux_amount u < 2 ^ 63" using assms(2) unfolding sane_amounts_def by (metis (full_types))
  moreover assume "map_pending P descs network replay complete (ps_db s) (cn_outpoint ` set curr) (max receive change)
       \<lparr>sn_receive_index = receive, sn_change_index = change, sn_received = [], sn_unresolved = []\<rparr> pending = Inr st"
    and "uc_received u = sn_received st"
  ultimately show ?thesis by (auto simp: new_coin_def dest!: map_pending_received)
qed

lemma stepping_updates: "sane_amounts N \<Longrightarrow> stepping.keeps L A (updates P A L N descs)"
  unfolding updates_def
  by (intro stepping.keeps_pure stepping.keeps_bind stepping_latest_tip stepping.keeps_bind_result [OF stepping.keeps_update_coins]
      stepping.keeps_collect_txs stepping.keeps_call stepping.keeps_if stepping_record_updates)
    (rule received_amounts)

lemma stepping_poll_result:
  assumes "sane_amounts N"
  shows "stepping.keeps L A (poll_result P A L N descs)"
proof -
  have "stepping.keeps L A (case r of Completed tip \<Rightarrow> act_bind (write_db (\<lambda>db. Some (rollback_tip tip db)))
      (\<lambda>_. act_bind (updates P A L N descs) (\<lambda>_. write_db complete_wallet_rescan)) | _ \<Rightarrow> updates P A L N descs)" for r
    by (cases r) (auto intro!: stepping.keeps_bind stepping_write stepping_updates [OF assms] intro: db_step.intros)
  then show ?thesis unfolding poll_result_def by (rule stepping.keeps_bind [OF stepping.keeps_observe_rescan])
qed

lemma poll_steps:
  assumes "sane_amounts N" and "poll P A L N descs now s = (r, s')"
  shows "(db_step L A)\<^sup>*\<^sup>* (ps_db s) (ps_db s')"
proof -
  obtain q t where q: "poll_result P A L N descs s = (q, t)" by (cases "poll_result P A L N descs s")
  have t: "(db_step L A)\<^sup>*\<^sup>* (ps_db s) (ps_db t)"
    using stepping.keepsD [OF stepping_poll_result [OF assms(1)] q] .
  have last: "(db_step L A)\<^sup>*\<^sup>* db (set_wallet_last_poll_timestamp now db)" for db
    by (rule r_into_rtranclp) (rule step_last_poll)
  have scanned: "(db_step L A)\<^sup>*\<^sup>* db (set_wallet_last_poll_timestamp now db')" if "complete_import_history rs cs db = Some db'" for rs cs db db'
    by (rule converse_rtranclp_into_rtranclp [OF step_history_complete [OF that] last])
  have "(db_step L A)\<^sup>*\<^sup>* (ps_db t) (ps_db s')"
    using assms(2) q
    by (auto simp: poll_def Let_def fail_poll_def poll_done_def intro: last scanned
        split: sum.splits poll_error.splits option.splits prod.splits if_splits)
  with t show ?thesis by (rule rtranclp_trans)
qed

lemma poll_once_steps:
  assumes "sane_amounts N" and "poll_once P A L N descs now p = (r, p')"
  shows "(db_step L A)\<^sup>*\<^sup>* (ps_db (pl_state p)) (ps_db (pl_state p'))"
proof -
  have "ps_db (apply_eager_request N (pl_state p)) = ps_db (pl_state p)"
    by (simp add: apply_eager_request_def take_eager_sync_request_def Let_def)
  then show ?thesis using assms(2) poll_steps [OF assms(1), of P A L descs now "apply_eager_request N (pl_state p)"]
    by (auto simp: poll_once_def split: prod.splits)
qed

lemma check_synced_db: "check_synced N p = (r, p') \<Longrightarrow> ps_db (pl_state p') = ps_db (pl_state p)"
  by (auto simp: check_synced_def split: if_splits prod.splits sum.splits)

lemma event_steps:
  assumes "sane_amounts N"
  shows "run_immediate_poll P A L N descs maintenance now p = (r, p') \<Longrightarrow> (db_step L A)\<^sup>*\<^sup>* (ps_db (pl_state p)) (ps_db (pl_state p'))"
    and "scheduled_poll P A L N descs maintenance now p = (r, p') \<Longrightarrow> (db_step L A)\<^sup>*\<^sup>* (ps_db (pl_state p)) (ps_db (pl_state p'))"
  using poll_once_steps [OF assms]
  by (auto simp: run_immediate_poll_def scheduled_poll_def Let_def dest!: check_synced_db split: if_splits prod.splits sum.splits)
     fastforce+

lemma poll_forever_steps:
  assumes "sane_amounts N" and "poll_forever P A L N descs events p = (r, p')"
  shows "(db_step L A)\<^sup>*\<^sup>* (ps_db (pl_state p)) (ps_db (pl_state p'))"
  using assms(2)
proof (induction events arbitrary: p)
  case (Cons x events)
  obtain event now maintenance where x: "x = (event, now, maintenance)" by (cases x)
  show ?case
  proof (cases "event = Shutdown \<or> event = Disconnected")
    case False
    define handle where "handle = (if event = Timeout then scheduled_poll P A L N descs maintenance now p
      else run_immediate_poll P A L N descs maintenance now p)"
    obtain q p1 where q: "handle = (q, p1)" by (cases handle)
    have "(db_step L A)\<^sup>*\<^sup>* (ps_db (pl_state p)) (ps_db (pl_state p1))"
      using event_steps [OF assms(1)] q unfolding handle_def by (auto split: if_splits)
    moreover have "(case q of Inl e \<Rightarrow> (Inl e, p1) | Inr _ \<Rightarrow> poll_forever P A L N descs events p1) = (r, p')"
      using Cons.prems False q unfolding x poll_forever.simps handle_def [symmetric] by (simp split: sum.splits)
    ultimately show ?thesis using Cons.IH [of p1] rtranclp_trans by (fastforce split: sum.splits)
  qed (use Cons.prems x in auto)
qed simp

lemma steps_ok:
  assumes "(db_step L A)\<^sup>*\<^sup>* db db'" and "vault_addresses A"
  shows "db_ok L A db \<Longrightarrow> db_ok L A db'" and "db_reachable L A db \<Longrightarrow> db_reachable L A db'"
  using assms(1) by (induction; use db_step_ok [OF assms(2)] in \<open>auto simp: db_advances_def intro: db_reachable.step\<close>)+

section \<open>Failed polls\<close>

definition panics_only :: "('b, 'a) act \<Rightarrow> bool" where
  "panics_only m \<longleftrightarrow> (\<forall>s e s'. m s = (Inl e, s') \<longrightarrow> e = Panic)"

lemma panics_only_intros:
  "panics_only (act_ok x)" "panics_only (read_db h)" "panics_only (write_db g)" "panics_only (set_alert a)"
  by (auto simp: panics_only_def ok_or_def split: option.splits)

lemma panics_only_bind: "\<lbrakk>panics_only m; \<And>x. panics_only (f x)\<rbrakk> \<Longrightarrow> panics_only (act_bind m f)"
  unfolding panics_only_def act_bind_Inl by blast

lemma panics_only_when: "panics_only m \<Longrightarrow> panics_only (when_act c m)"
  by (simp add: when_act_def panics_only_intros)

lemma record_updates_panics_only: "panics_only (record_updates A L current_tip latest u transactions)"
  unfolding record_updates_def raise_indices_def record_coins_def by (intro panics_only_intros panics_only_bind panics_only_when)

lemma saturating_sub_le: "saturating_sub_i32 a b \<le> MAX_REORG_DEPTH \<Longrightarrow> a - b \<le> 500"
  by (simp add: saturating_sub_i32_def MAX_REORG_DEPTH_def min_def max_def split: if_splits)

lemma saturating_sub_bound: "saturating_sub_i32 a b < 2 ^ 31"
  by (simp add: saturating_sub_i32_def)

lemma new_tip_loop_bounds:
  assumes "new_tip_loop N current_tip n b = (u, b')"
  shows "(\<forall>tip. u = Reorged tip \<longrightarrow> bt_height current_tip - bt_height tip \<le> 500) \<and>
    (\<forall>d. u = ImplausibleReorg d \<longrightarrow> 500 < d \<and> d < 2 ^ 31)"
  using assms
proof (induction n arbitrary: b)
  case (Suc n)
  show ?case
    using Suc.prems
    by (simp split: prod.splits sum.splits if_splits bool.splits ancestor_search.splits)
      (auto simp: Let_def MAX_REORG_DEPTH_def split: if_splits dest!: Suc.IH
        intro: saturating_sub_le [unfolded MAX_REORG_DEPTH_def] saturating_sub_bound [simplified])
qed auto

lemma refused_alert: "\<lbrakk>500 < d; d < 2 ^ 31\<rbrakk> \<Longrightarrow> load_alert (store_refused_reorg d) = RefusedReorg d"
  by (rule load_refused) simp_all

text \<open>How a lookup of the new tip ends when it gives none.\<close>

definition alert_raised :: "alert_slot \<Rightarrow> alert_slot \<Rightarrow> bool" where
  \<comment> \<open>the alert is as before, or names a divergence or a reorganisation over the limit\<close>
  "alert_raised a a' \<longleftrightarrow> a' = a \<or> load_alert a' = DivergedAlert \<or> (\<exists>d>500. load_alert a' = RefusedReorg d)"

definition held_back :: "'b poller_state \<Rightarrow> 'b poller_state \<Rightarrow> bool" where
  "held_back s s' \<longleftrightarrow> ps_db s' = ps_db s \<and> alert_raised (ps_alert s) (ps_alert s')"

definition rolled_back :: "block_chain_tip \<Rightarrow> 'b poller_state \<Rightarrow> 'b poller_state \<Rightarrow> bool" where
  "rolled_back current_tip s s' \<longleftrightarrow> ps_alert s' = ps_alert s \<and>
     (\<exists>tip. ps_db s' = rollback_tip tip (ps_db s) \<and> bt_height current_tip - bt_height tip \<le> 500)"

lemma latest_tip_failed:
  assumes "latest_tip N current_tip receive change s = (Inl (Failed e), s')"
  shows "held_back s s' \<or> (e = ROLLED_BACK \<and> rolled_back current_tip s s')"
proof -
  have undone: "e = ROLLED_BACK \<and> rolled_back current_tip s s'"
    if "roll_back_to tip (s\<lparr>ps_bit := b, ps_history := h\<rparr>) = (Inl (Failed e) :: (poll_error, block_chain_tip) res, s')" "bt_height current_tip - bt_height tip \<le> 500" for tip b h
    using that by (auto simp: roll_back_to_def act_bind_Inl rolled_back_def)
  have refuse: "held_back s s'" if "act_bind (refuse_deep_reorg d) (\<lambda>_. act_err (Failed INCOHERENT)) (s\<lparr>ps_bit := b, ps_history := h\<rparr>) =
      (Inl (Failed e) :: (poll_error, block_chain_tip) res, s')" "500 < d" "d < 2 ^ 31" for d b h
    using that refused_alert [OF that(2,3)] by (auto simp: refuse_deep_reorg_def act_bind_Inl held_back_def alert_raised_def)
  obtain r h b where sync: "sync_wallet N receive change (ps_history s) (ps_bit s) = (r, h, b)" by (metis surj_pair)
  show ?thesis
  proof (cases r)
    case (Inl m)
    then show ?thesis using assms sync by (auto simp: latest_tip_def act_bind_def sync_call_def held_back_def alert_raised_def)
  next
    case (Inr ancestor)
    show ?thesis
    proof (cases ancestor)
      case None
      obtain u b' where u: "new_tip N current_tip b = (u, b')" by (cases "new_tip N current_tip b")
      note bounds = new_tip_loop_bounds [OF u [unfolded new_tip_def]]
      have call: "call (\<lambda>b. apfst Inr (new_tip N current_tip b)) (s\<lparr>ps_bit := b, ps_history := h\<rparr>) = (Inr u, s\<lparr>ps_bit := b', ps_history := h\<rparr>)"
        by (simp add: call_def u)
      have "(case u of Same \<Rightarrow> act_ok current_tip | Progress tip \<Rightarrow> act_ok tip | Reorged tip \<Rightarrow> roll_back_to tip
          | ImplausibleReorg d \<Rightarrow> act_bind (refuse_deep_reorg d) (\<lambda>_. act_err (Failed INCOHERENT))
          | Diverged t \<Rightarrow> act_bind report_divergence (\<lambda>_. act_err (Failed INCOHERENT))
          | Unavailable \<Rightarrow> act_err (Failed ''Backend unavailable during tip lookup'')) (s\<lparr>ps_bit := b', ps_history := h\<rparr>) = (Inl (Failed e) :: (poll_error, block_chain_tip) res, s')"
        using assms sync Inr None call by (simp add: latest_tip_def act_bind_def [of "sync_call N receive change"]
            act_bind_def [of "call (\<lambda>b. apfst Inr (new_tip N current_tip b))"] sync_call_def)
      then show ?thesis using bounds undone refuse
        by (cases u) (auto simp: held_back_def alert_raised_def report_divergence_def act_bind_Inl)
    next
      case (Some tip)
      define depth where "depth = saturating_sub_i32 (bt_height current_tip) (bt_height tip)"
      show ?thesis
      proof (cases "bt_height tip \<le> bt_height current_tip \<and> bt_hash tip \<noteq> bt_hash current_tip")
        case False
        then show ?thesis using assms sync Inr Some
          by (auto simp: latest_tip_def act_bind_def [of "sync_call N receive change"] sync_call_def held_back_def alert_raised_def)
      next
        case True
        show ?thesis
        proof (cases "depth > MAX_REORG_DEPTH")
          case True
          have "500 < depth" "depth < 2 ^ 31" using True saturating_sub_bound unfolding depth_def by (simp_all add: MAX_REORG_DEPTH_def)
          moreover have "act_bind (refuse_deep_reorg depth) (\<lambda>_. act_err (Failed INCOHERENT)) (s\<lparr>ps_bit := b, ps_history := h\<rparr>) =
              (Inl (Failed e) :: (poll_error, block_chain_tip) res, s')"
            using assms sync Inr Some True \<open>bt_height tip \<le> _ \<and> _\<close>
            by (simp add: latest_tip_def act_bind_def [of "sync_call N receive change"] sync_call_def depth_def)
          ultimately show ?thesis using refuse by blast
        next
          case False
          then have "bt_height current_tip - bt_height tip \<le> 500" using saturating_sub_le unfolding depth_def by simp
          moreover have "roll_back_to tip (s\<lparr>ps_bit := b, ps_history := h\<rparr>) = (Inl (Failed e) :: (poll_error, block_chain_tip) res, s')"
            using assms sync Inr Some False \<open>bt_height tip \<le> _ \<and> _\<close>
            by (simp add: latest_tip_def act_bind_def [of "sync_call N receive change"] sync_call_def depth_def)
          ultimately show ?thesis using undone by blast
        qed
      qed
    qed
  qed
qed

lemma latest_tip_found:
  assumes "latest_tip N current_tip receive change s = (Inr tip, s')"
  shows "ps_db s' = ps_db s \<and> ps_alert s' = ps_alert s"
proof -
  obtain ancestor s1 where s1: "sync_call N receive change s = (Inr ancestor, s1)"
    and rest: "(case ancestor of
       None \<Rightarrow> act_bind (call (\<lambda>b. apfst Inr (new_tip N current_tip b))) (\<lambda>update. case update of
           Same \<Rightarrow> act_ok current_tip | Progress tip \<Rightarrow> act_ok tip | Reorged tip \<Rightarrow> roll_back_to tip
         | ImplausibleReorg min_depth \<Rightarrow> act_bind (refuse_deep_reorg min_depth) (\<lambda>_. act_err (Failed INCOHERENT))
         | Diverged backend_tip \<Rightarrow> act_bind report_divergence (\<lambda>_. act_err (Failed INCOHERENT))
         | Unavailable \<Rightarrow> act_err (Failed ''Backend unavailable during tip lookup''))
     | Some tip \<Rightarrow>
         if bt_height tip \<le> bt_height current_tip \<and> bt_hash tip \<noteq> bt_hash current_tip
         then (let depth = saturating_sub_i32 (bt_height current_tip) (bt_height tip) in
           if depth > MAX_REORG_DEPTH then act_bind (refuse_deep_reorg depth) (\<lambda>_. act_err (Failed INCOHERENT))
           else roll_back_to tip)
         else act_err (Failed ROLLED_BACK)) s1 = (Inr tip, s')"
    using assms unfolding latest_tip_def act_bind_Inr [of "sync_call N receive change"] by blast
  have same: "ps_db s1 = ps_db s \<and> ps_alert s1 = ps_alert s" using s1 by (auto simp: sync_call_def split: prod.splits)
  show ?thesis
  proof (cases ancestor)
    case None
    then show ?thesis using rest same
      by (clarsimp simp: act_bind_Inr call_Inr, rename_tac u b, case_tac u) (auto simp: roll_back_to_def act_bind_Inr)
  next
    case (Some t)
    then show ?thesis using rest by (auto simp: Let_def roll_back_to_def act_bind_Inr split: if_splits)
  qed
qed

lemma updates_failed:
  assumes "updates P A L N descs s = (Inl (Failed e), s')"
  shows "held_back s s' \<or> (e = ROLLED_BACK \<and> (\<exists>current_tip. chain_tip (ps_db s) = Some current_tip \<and> rolled_back current_tip s s'))"
proof -
  obtain current_tip where tip: "db_chain_tip (ps_db s) = Some (Some current_tip)"
    using assms by (auto simp: updates_def act_bind_Inl ok_or_def bind_eq_Some_conv split: option.splits)
  then have cur: "chain_tip (ps_db s) = Some current_tip" by (auto simp: db_chain_tip_def split: if_splits)
  obtain receive change where idx: "receive_index A (ps_db s) = Some receive" "change_index A (ps_db s) = Some change"
    using assms tip by (auto simp: updates_def act_bind_Inl ok_or_def split: option.splits)
  define later where "later latest = act_bind (update_coins P A N current_tip descs) (\<lambda>updated.
     act_bind (collect_txs P N updated) (\<lambda>transactions. act_bind (call (try_chain_tip N)) (\<lambda>tip.
     if tip \<noteq> latest then act_err (Failed TIP_CHANGED) else record_updates A L current_tip latest updated transactions)))" for latest
  have run: "latest_tip N current_tip receive change s = (Inl (Failed e), s') \<or>
      (\<exists>latest s1. latest_tip N current_tip receive change s = (Inr latest, s1) \<and> later latest s1 = (Inl (Failed e), s'))"
    using assms tip idx unfolding updates_def later_def by (simp add: act_bind_Inl)
  have "unchanged s1 s'" if "later latest s1 = (Inl (Failed e), s')" for latest s1
  proof -
    have "record_updates A L current_tip latest u txs t \<noteq> (Inl (Failed e), s')" for u txs t
      using record_updates_panics_only unfolding panics_only_def by blast
    then show ?thesis using that unfolding later_def act_bind_Inl
      by (auto dest!: reading.keepsD [OF reading.keeps_update_coins] reading.keepsD [OF reading.keeps_collect_txs]
          reading.keepsD [OF reading.keeps_call] simp: unchanged_def split: if_splits)
  qed
  then show ?thesis using run latest_tip_failed cur latest_tip_found unfolding held_back_def alert_raised_def unchanged_def by metis
qed

text \<open>The rescan marker and the other columns of the wallet row survive a failed poll.\<close>

definition rollbacks :: "block_chain_tip list \<Rightarrow> wallet_db \<Rightarrow> wallet_db" where
  "rollbacks tips db = foldl (\<lambda>db tip. rollback_tip tip db) db tips"

definition completed_rescan :: "address_api \<Rightarrow> 'b bitcoin_interface \<Rightarrow> 'b \<Rightarrow> wallet_db \<Rightarrow> block_chain_tip list" where
  \<comment> \<open>the block a rescan that has completed started from: none runs any more and the database still has its marker\<close>
  "completed_rescan A N b db = (case (try_rescan_progress N b, rescan_timestamp A db) of
       ((Inr False, b'), Some (Some timestamp)) \<Rightarrow> (case try_block_before_date N timestamp b' of (Inr (Some tip), _) \<Rightarrow> [tip] | _ \<Rightarrow> [])
     | _ \<Rightarrow> [])"

definition shallow_reorg :: "wallet_db \<Rightarrow> block_chain_tip list \<Rightarrow> bool" where
  \<comment> \<open>at most one rollback, by at most 500 blocks\<close>
  "shallow_reorg db tips \<longleftrightarrow> length tips \<le> 1 \<and>
     (\<forall>tip\<in>set tips. \<exists>current_tip. chain_tip db = Some current_tip \<and> bt_height current_tip - bt_height tip \<le> 500)"

lemma observe_rescan_exact:
  assumes "observe_rescan A N s = (r, s')"
  shows "completed_rescan A N (ps_bit s) (ps_db s) = (case r of Inr (Completed tip) \<Rightarrow> [tip] | _ \<Rightarrow> [])"
proof (cases "try_rescan_progress N (ps_bit s)")
  case (Pair q b)
  show ?thesis
  proof (cases q)
    case (Inl e)
    then show ?thesis using assms Pair by (auto simp: observe_rescan_def completed_rescan_def act_bind_def call_def)
  next
    case (Inr running)
    then show ?thesis using assms Pair
      by (cases "try_block_before_date N (the (the (rescan_timestamp A (ps_db s)))) b")
        (auto simp: observe_rescan_def completed_rescan_def act_bind_def call_def read_db_def lift_res_def act_ok_def map_err_def ok_or_def
          split: bool.splits option.splits sum.splits if_splits)
  qed
qed

lemma rollbacks_keep:
  "map cr_outpoint (db_coins (rollbacks tips db)) = map cr_outpoint (db_coins db) \<and>
   map cr_spend_txid (db_coins (rollbacks tips db)) = map cr_spend_txid (db_coins db) \<and>
   db_wallet (rollbacks tips db) = db_wallet db \<and> db_transactions (rollbacks tips db) = db_transactions db \<and>
   db_addresses (rollbacks tips db) = db_addresses db \<and> db_spends (rollbacks tips db) = db_spends db \<and>
   db_label_rows (rollbacks tips db) = db_label_rows db"
proof (induction tips rule: rev_induct)
  case (snoc tip tips)
  have "cr_outpoint (forget_from_self (unconfirm_spend_above h (unconfirm_above h c))) = cr_outpoint c \<and>
      cr_spend_txid (forget_from_self (unconfirm_spend_above h (unconfirm_above h c))) = cr_spend_txid c" for h c
    by (simp add: forget_from_self_def unconfirm_spend_above_def unconfirm_above_def)
  then have "map cr_outpoint (db_coins (rollback_tip tip db)) = map cr_outpoint (db_coins db) \<and>
      map cr_spend_txid (db_coins (rollback_tip tip db)) = map cr_spend_txid (db_coins db)" for db
    by (simp add: rollback_tip_def)
  then show ?case using snoc by (simp add: rollbacks_def) (simp add: rollback_tip_def)
qed (simp add: rollbacks_def)

lemma updates_failed_rollbacks:
  assumes "updates P A L N descs s = (Inl (Failed e), s')"
  shows "\<exists>tips. ps_db s' = rollbacks tips (ps_db s) \<and> alert_raised (ps_alert s) (ps_alert s') \<and> shallow_reorg (ps_db s) tips"
  using updates_failed [OF assms]
proof
  assume "held_back s s'"
  then show ?thesis by (intro exI [of _ "[]"]) (simp add: held_back_def rollbacks_def shallow_reorg_def)
next
  assume "e = ROLLED_BACK \<and> (\<exists>current_tip. chain_tip (ps_db s) = Some current_tip \<and> rolled_back current_tip s s')"
  then obtain cur tip where "chain_tip (ps_db s) = Some cur" "ps_db s' = rollback_tip tip (ps_db s)" "bt_height cur - bt_height tip \<le> 500"
    "ps_alert s' = ps_alert s"
    by (auto simp: rolled_back_def)
  then show ?thesis by (intro exI [of _ "[tip]"]) (simp add: rollbacks_def alert_raised_def shallow_reorg_def)
qed

lemma import_history_completes:
  "\<lbrakk>pending_full_scan_coverage h = Some (rs, cs); imported_history db \<noteq> None\<rbrakk> \<Longrightarrow> complete_import_history rs cs db \<noteq> None"
  by (auto simp: pending_full_scan_coverage_def imported_history_def complete_import_history_def Let_def split: if_splits wallet_kind.splits)

lemma poll_failed_result:
  assumes "poll P A L N descs now s = (Inr (), s')" and "hc_failure (ps_history s') \<noteq> None"
  shows "\<exists>e t. poll_result P A L N descs s = (Inl (Failed e), t) \<and> s' = fail_poll e now t"
  using assms import_history_completes
  by (fastforce simp: poll_def Let_def poll_done_def poll_succeeded_def
      split: prod.splits sum.splits poll_error.splits option.splits if_splits)

lemma rollbacks_append: "rollbacks (xs @ ys) db = rollbacks ys (rollbacks xs db)"
  by (simp add: rollbacks_def)

lemma poll_result_failed:
  assumes "poll_result P A L N descs s = (Inl (Failed e), s')" and rescan: "rescan = completed_rescan A N (ps_bit s) (ps_db s)"
  shows "\<exists>reorg. ps_db s' = rollbacks (rescan @ reorg) (ps_db s) \<and> alert_raised (ps_alert s) (ps_alert s') \<and>
    shallow_reorg (rollbacks rescan (ps_db s)) reorg"
proof -
  obtain q s1 where q: "observe_rescan A N s = (q, s1)" by (cases "observe_rescan A N s")
  note seen = observe_rescan_exact [OF q, folded rescan]
  have same: "ps_db s1 = ps_db s" "ps_alert s1 = ps_alert s" using reading.keepsD [OF reading.keeps_observe_rescan q] by (simp_all add: unchanged_def)
  show ?thesis
  proof (cases q)
    case (Inl f)
    then have "s' = s1" using assms(1) q unfolding poll_result_def by (simp add: act_bind_def)
    then show ?thesis using seen same Inl by (intro exI [of _ "[]"]) (simp add: rollbacks_def alert_raised_def shallow_reorg_def)
  next
    case (Inr r)
    have run: "(case r of Completed tip \<Rightarrow> act_bind (write_db (\<lambda>db. Some (rollback_tip tip db)))
        (\<lambda>_. act_bind (updates P A L N descs) (\<lambda>_. write_db complete_wallet_rescan)) | _ \<Rightarrow> updates P A L N descs) s1 = (Inl (Failed e), s')"
      using assms(1) q Inr unfolding poll_result_def by (simp add: act_bind_def)
    have "updates P A L N descs (s1\<lparr>ps_db := rollbacks rescan (ps_db s)\<rparr>) = (Inl (Failed e), s')"
    proof (cases r)
      case (Completed tip)
      then show ?thesis using run seen Inr same by (auto simp: act_bind_Inl rollbacks_def)
    qed (use run seen Inr in \<open>simp_all add: rollbacks_def same(1) [symmetric]\<close>)
    from updates_failed_rollbacks [OF this] show ?thesis using same by (auto simp: rollbacks_append)
  qed
qed

text \<open>
  C34.  A poll that fails, for whatever reason, costs the wallet nothing.  The database is the one
  before, rolled back to the start of a rescan exactly if one had completed, and then at most once
  more, by at most 500 blocks below the tip it then had.  No coin, spending transaction, index,
  address, stored transaction, draft or label is lost, and the rescan marker and the time of the last
  successful poll stay.  The alert is as it was, unless it now names a divergence or a reorganisation
  deeper than 500 blocks.
\<close>

theorem failed_poll_safe:
  assumes "poll P A L N descs now s = (Inr (), s')" and "hc_failure (ps_history s') \<noteq> None"
    and "rescan = completed_rescan A N (ps_bit s) (ps_db s)"
  shows "\<exists>reorg. ps_db s' = rollbacks (rescan @ reorg) (ps_db s) \<and> shallow_reorg (rollbacks rescan (ps_db s)) reorg \<and>
    map cr_outpoint (db_coins (ps_db s')) = map cr_outpoint (db_coins (ps_db s)) \<and>
    map cr_spend_txid (db_coins (ps_db s')) = map cr_spend_txid (db_coins (ps_db s)) \<and>
    db_wallet (ps_db s') = db_wallet (ps_db s) \<and> db_transactions (ps_db s') = db_transactions (ps_db s) \<and>
    db_addresses (ps_db s') = db_addresses (ps_db s) \<and> db_spends (ps_db s') = db_spends (ps_db s) \<and>
    db_label_rows (ps_db s') = db_label_rows (ps_db s) \<and> alert_raised (ps_alert s) (ps_alert s')"
proof -
  obtain e t where t: "poll_result P A L N descs s = (Inl (Failed e), t)" "s' = fail_poll e now t"
    using poll_failed_result [OF assms(1,2)] by blast
  obtain reorg where "ps_db t = rollbacks (rescan @ reorg) (ps_db s)" "alert_raised (ps_alert s) (ps_alert t)"
    "shallow_reorg (rollbacks rescan (ps_db s)) reorg"
    using poll_result_failed [OF t(1) assms(3)] by blast
  then show ?thesis using rollbacks_keep [of "rescan @ reorg" "ps_db s"] by (intro exI [of _ reorg]) (simp add: t(2) fail_poll_def)
qed

end
