(* ===== verification/Poller_Exact.thy ===== *)
theory Poller_Exact
  imports Poller_Safety
begin

text \<open>
  What a successful poll writes: the coin table after the sequence of database calls, as one
  function of the table before and of the backend's answers; and when the sequence cannot panic.
\<close>

section \<open>Statements that update rows one outpoint at a time\<close>

text \<open>The last entry for an outpoint decides.\<close>

definition overwrite :: "('a \<Rightarrow> coin_row \<Rightarrow> coin_row) \<Rightarrow> (outpoint \<times> 'a) list \<Rightarrow> coin_row \<Rightarrow> coin_row" where
  "overwrite f xs c = (case map_of (rev xs) (cr_outpoint c) of None \<Rightarrow> c | Some x \<Rightarrow> f x c)"

definition overwrites :: "('a \<Rightarrow> coin_row \<Rightarrow> coin_row) \<Rightarrow> bool" where
  "overwrites f \<longleftrightarrow> (\<forall>x c. cr_outpoint (f x c) = cr_outpoint c) \<and> (\<forall>x y c. f x (f y c) = f x c)"

lemma overwrite_snoc:
  assumes "overwrites f"
  shows "overwrite f (xs @ [(p, x)]) c = (if cr_outpoint (overwrite f xs c) = p then f x (overwrite f xs c) else overwrite f xs c)"
  using assms by (auto simp: overwrite_def overwrites_def split: option.split)

lemma overwrite_outpoint: "overwrites f \<Longrightarrow> cr_outpoint (overwrite f xs c) = cr_outpoint c"
  by (auto simp: overwrite_def overwrites_def split: option.split)

lemma foldl_update_coin:
  assumes "overwrites f"
  shows "foldl (\<lambda>db x. update_coin (f (snd x)) (fst x) db) db xs = db\<lparr>db_coins := map (overwrite f xs) (db_coins db)\<rparr>"
proof (induction xs rule: rev_induct)
  case Nil
  then show ?case by (simp add: overwrite_def [abs_def])
next
  case (snoc x xs)
  obtain p y where x: "x = (p, y)" by (cases x)
  show ?case unfolding foldl_append foldl_Cons foldl_Nil snoc.IH x by (simp add: update_coin_def overwrite_snoc [OF assms])
qed

text \<open>The same with a check before each update.\<close>

lemma try_fold_update_coin:
  assumes "overwrites f" and "\<And>s x t. step s x = Some t \<Longrightarrow> t = update_coin (f (snd x)) (fst x) s"
    and "try_fold step db xs = Some db'"
  shows "db' = db\<lparr>db_coins := map (overwrite f xs) (db_coins db)\<rparr>"
proof -
  have "try_fold step s xs = Some s' \<Longrightarrow> s' = foldl (\<lambda>db x. update_coin (f (snd x)) (fst x) db) s xs" for s s' xs
  proof (induction xs arbitrary: s)
    case (Cons x xs)
    then obtain t where "step s x = Some t" "try_fold step t xs = Some s'" by (auto split: option.splits)
    then show ?case using Cons.IH assms(2) by fastforce
  qed simp
  then show ?thesis using assms(3) foldl_update_coin [OF assms(1)] by blast
qed

definition confirm_row :: "(outpoint \<times> int \<times> nat) list \<Rightarrow> coin_row \<Rightarrow> coin_row" where
  "confirm_row = overwrite (\<lambda>(height, time) c. c\<lparr>cr_blockheight := Some height, cr_blocktime := Some time, cr_is_immature := False\<rparr>)"

definition unspend_row :: "outpoint list \<Rightarrow> coin_row \<Rightarrow> coin_row" where
  "unspend_row ps c = (if cr_outpoint c \<in> set ps
     then c\<lparr>cr_spend_txid := None, cr_spend_block_height := None, cr_spend_block_time := None\<rparr> else c)"

definition spending_row :: "(outpoint \<times> txid) list \<Rightarrow> coin_row \<Rightarrow> coin_row" where
  "spending_row = overwrite (\<lambda>t c. c\<lparr>cr_spend_txid := Some t\<rparr>)"

definition spent_row :: "spent_coin list \<Rightarrow> coin_row \<Rightarrow> coin_row" where
  "spent_row = overwrite (\<lambda>(t, height, time) c. c\<lparr>cr_spend_txid := Some t, cr_spend_block_height := Some height, cr_spend_block_time := Some time\<rparr>)"

definition received_row :: "coin \<Rightarrow> coin_row" where
  "received_row c = \<lparr>cr_blockheight = None, cr_blocktime = None, cr_outpoint = cn_outpoint c,
     cr_amount_sat = u64_as_i64 (cn_amount c), cr_derivation_index = cn_derivation_index c,
     cr_is_change = cn_is_change c, cr_spend_txid = None, cr_spend_block_height = None,
     cr_spend_block_time = None, cr_is_immature = cn_is_immature c, cr_is_from_self = False\<rparr>"

lemma confirm_coins_rows: "confirm_coins xs db = db\<lparr>db_coins := map (confirm_row xs) (db_coins db)\<rparr>"
proof -
  let ?f = "\<lambda>(height :: int, time :: nat) c. c\<lparr>cr_blockheight := Some height, cr_blocktime := Some time, cr_is_immature := False\<rparr>"
  have "overwrites ?f" by (auto simp: overwrites_def)
  from foldl_update_coin [OF this] show ?thesis by (simp add: confirm_coins_def confirm_row_def case_prod_unfold)
qed

lemma unspend_coins_rows: "unspend_coins ps db = db\<lparr>db_coins := map (unspend_row ps) (db_coins db)\<rparr>"
proof -
  let ?f = "\<lambda>(_ :: unit) c. c\<lparr>cr_spend_txid := None, cr_spend_block_height := None, cr_spend_block_time := None\<rparr>"
  have "overwrites ?f" by (auto simp: overwrites_def)
  from foldl_update_coin [OF this, of db "map (\<lambda>p. (p, ())) ps"]
  have "unspend_coins ps db = db\<lparr>db_coins := map (overwrite ?f (map (\<lambda>p. (p, ())) ps)) (db_coins db)\<rparr>"
    by (simp add: unspend_coins_def foldl_map)
  moreover have "map_of (rev (map (\<lambda>p. (p, ())) ps)) q = (if q \<in> set ps then Some () else None)" for q
    by (induction ps) (auto simp: map_add_def map_of_append split: option.splits)
  then have "overwrite ?f (map (\<lambda>p. (p, ())) ps) = unspend_row ps" by (simp add: fun_eq_iff overwrite_def unspend_row_def)
  ultimately show ?thesis by simp
qed

lemma spend_coins_rows:
  assumes "spend_coins xs db = Some db'"
  shows "db' = db\<lparr>db_coins := map (spending_row xs) (db_coins db)\<rparr>"
  unfolding spending_row_def
  by (rule try_fold_update_coin [OF _ _ assms [unfolded spend_coins_def]])
    (auto simp: overwrites_def spend_coin_def split: if_splits)

lemma confirm_spend_rows:
  assumes "confirm_spend xs db = Some db'"
  shows "db' = db\<lparr>db_coins := map (spent_row xs) (db_coins db)\<rparr>"
  unfolding spent_row_def
  by (rule try_fold_update_coin [OF _ _ assms [unfolded confirm_spend_def]])
    (auto simp: overwrites_def confirm_spend_row_def split: if_splits)

lemma remove_coins_rows: "remove_coins ps db = db\<lparr>db_coins := filter (\<lambda>c. cr_outpoint c \<notin> set ps) (db_coins db)\<rparr>"
  unfolding remove_coins_def by (induction ps rule: rev_induct) (auto simp: conj_commute)

lemma new_unspent_coins_rows:
  assumes "new_unspent_coins cs db = Some db'"
  shows "db' = db\<lparr>db_coins := db_coins db @ map received_row cs\<rparr>"
  using assms unfolding new_unspent_coins_def
proof (induction cs arbitrary: db)
  case (Cons c cs)
  then obtain t where t: "insert_coin db c = Some t" "try_fold insert_coin t cs = Some db'" by (auto split: option.splits)
  have "t = db\<lparr>db_coins := db_coins db @ [received_row c]\<rparr>" using t(1) by (auto simp: insert_coin_def received_row_def split: if_splits)
  then show ?case using Cons.IH [OF t(2)] by simp
qed simp

section \<open>Marking own coins changes nothing else\<close>

definition unmarked :: "coin_row \<Rightarrow> coin_row" where
  "unmarked c = c\<lparr>cr_is_from_self := False\<rparr>"

lemma from_self_loop_unmarked:
  "from_self_loop n h v db = (db', w) \<Longrightarrow> map unmarked (db_coins db') = map unmarked (db_coins db) \<and> db_tip db' = db_tip db"
proof (induction n arbitrary: v db)
  case (Suc n)
  have "map unmarked (db_coins (from_self_pass h db)) = map unmarked (db_coins db) \<and> db_tip (from_self_pass h db) = db_tip db"
    by (simp add: from_self_pass_def unmarked_def)
  then show ?case using Suc by (auto split: if_splits)
qed simp

lemma update_coins_from_self_total: "\<exists>db'. update_coins_from_self h db = Some db'"
  using from_self_loop_ends [of db "unconfirmed_not_self db + 2" h 0]
  by (simp add: update_coins_from_self_def prod.case_eq_if del: from_self_loop.simps)

lemma update_coins_from_self_unmarked:
  assumes "update_coins_from_self h db = Some db'"
  shows "map unmarked (db_coins db') = map unmarked (db_coins db) \<and> db_tip db' = db_tip db"
proof -
  obtain v where "from_self_loop (unconfirmed_not_self db + 2) h 0 db = (db', v)"
    using assms unfolding update_coins_from_self_def by (auto simp del: from_self_loop.simps split: prod.splits if_splits)
  then show ?thesis by (rule from_self_loop_unmarked)
qed

section \<open>Stored transactions\<close>

lemma new_tx_saved:
  assumes "new_tx L db tx = Some db'" and "txs_ok L db"
  shows "set (saved_txids db') = insert (lib_txid L tx) (set (saved_txids db)) \<and> db_coins db' = db_coins db \<and> txs_ok L db'"
proof -
  have "txs_ok L db'" using assms by (force simp: new_tx_def txs_ok_def saved_txids_def split: if_splits)
  then show ?thesis using assms by (force simp: new_tx_def txs_ok_def saved_txids_def split: if_splits)
qed

lemma new_txs_saved:
  assumes "new_txs L txs db = Some db'" and "txs_ok L db"
  shows "set (saved_txids db') = lib_txid L ` set txs \<union> set (saved_txids db) \<and> db_coins db' = db_coins db \<and> txs_ok L db'"
  using assms unfolding new_txs_def
proof (induction txs arbitrary: db)
  case (Cons tx txs)
  then obtain t where t: "new_tx L db tx = Some t" "try_fold (new_tx L) t txs = Some db'" by (auto split: option.splits)
  note step = new_tx_saved [OF t(1) Cons.prems(2)]
  then show ?case using Cons.IH [OF t(2)] by auto
qed simp

lemma new_txs_tip:
  assumes "new_txs L txs db = Some db'"
  shows "db_tip db' = db_tip db"
  using assms unfolding new_txs_def
  by (rule try_fold_invariant [where P = "\<lambda>d. db_tip d = db_tip db"]) (auto simp: new_tx_def split: if_splits)

lemma new_txs_total: "\<forall>tx\<in>set txs. tx_input tx \<noteq> [] \<and> tx_output tx \<noteq> [] \<Longrightarrow> \<exists>db'. new_txs L txs db = Some db'"
  unfolding new_txs_def by (induction txs arbitrary: db) (auto simp: new_tx_def)

section \<open>What a successful poll records\<close>

definition updated_rows :: "updated_coins \<Rightarrow> coin_row list \<Rightarrow> coin_row list" where
  "updated_rows u rows = map (\<lambda>c. spent_row (uc_spent u) (spending_row (uc_spending u)
      (unspend_row (uc_expired_spending u) (confirm_row (uc_confirmed u) c))))
    (filter (\<lambda>c. cr_outpoint c \<notin> set (uc_expired u)) (rows @ map received_row (uc_received u)))"

lemma raise_write:
  assumes ok: "addresses_ok A db"
    and run: "when_act (index > branch_index b db) (write_db (set_derivation_index A index b)) s = (Inr (), s')" and db: "ps_db s = db"
  obtains rows where "ps_db s' = (set_branch_index b (max (branch_index b db) index) db)\<lparr>db_addresses := rows\<rparr>"
    "addresses_ok A (ps_db s')" "s' = s\<lparr>ps_db := ps_db s'\<rparr>"
proof (cases "index > branch_index b db")
  case False
  have "set_branch_index b (branch_index b db) db = db" by (simp add: set_branch_index_def branch_index_def)
  then show ?thesis using that [of "db_addresses db"] False run ok db by (simp add: when_act_def max_def)
next
  case True
  then obtain db' where db': "set_derivation_index A index b db = Some db'" "s' = s\<lparr>ps_db := db'\<rparr>"
    using run db by (auto simp: when_act_def)
  obtain rows where "db' = (set_branch_index b index db)\<lparr>db_addresses := rows\<rparr>" "addresses_ok A db'"
    using set_derivation_index_outcome [OF ok, of index b] True db'(1) by (auto split: if_splits)
  then show ?thesis using that [of rows] True db'(2) by (simp add: max_def)
qed

lemma branch_index_other: "branch_index b (set_branch_index c i db) = (if b = c then i else branch_index b db)"
  by (simp add: branch_index_def set_branch_index_def)

lemma indices_read:
  assumes "addresses_ok A db"
  shows "receive_index A db = Some (branch_index False db)" "change_index A db = Some (branch_index True db)"
  using assms by (auto simp: receive_index_def change_index_def branch_index_def addresses_ok_def split: option.splits)

definition only_indices :: "wallet_db \<Rightarrow> wallet_db \<Rightarrow> bool" where
  "only_indices db db' \<longleftrightarrow> db_coins db' = db_coins db \<and> db_transactions db' = db_transactions db \<and> db_tip db' = db_tip db \<and>
     db_spends db' = db_spends db \<and> db_label_rows db' = db_label_rows db \<and>
     wl_rescan_timestamp (db_wallet db') = wl_rescan_timestamp (db_wallet db)"

lemma raise_indices_db:
  assumes ok: "addresses_ok A (ps_db s)" and run: "raise_indices A u s = (Inr (), s')"
  shows "only_indices (ps_db s) (ps_db s') \<and> branch_index False (ps_db s') = max (branch_index False (ps_db s)) (uc_receive_index u) \<and>
    branch_index True (ps_db s') = max (branch_index True (ps_db s)) (uc_change_index u) \<and> ps_alert s' = ps_alert s"
proof -
  obtain s1 where s1: "when_act (uc_receive_index u > branch_index False (ps_db s))
        (write_db (set_derivation_index A (uc_receive_index u) False)) s = (Inr (), s1)"
    and rest: "act_bind (read_db (change_index A)) (\<lambda>change. when_act (uc_change_index u > change)
        (write_db (set_derivation_index A (uc_change_index u) True))) s1 = (Inr (), s')"
    using run indices_read [OF ok] unfolding raise_indices_def by (auto simp: act_bind_Inr)
  obtain rows where r1: "ps_db s1 = (set_branch_index False (max (branch_index False (ps_db s)) (uc_receive_index u)) (ps_db s))\<lparr>db_addresses := rows\<rparr>"
    "addresses_ok A (ps_db s1)" "s1 = s\<lparr>ps_db := ps_db s1\<rparr>"
    using raise_write [OF ok s1 refl] .
  have s2: "when_act (uc_change_index u > branch_index True (ps_db s1))
        (write_db (set_derivation_index A (uc_change_index u) True)) s1 = (Inr (), s')"
    using rest indices_read [OF r1(2)] by (auto simp: act_bind_Inr)
  obtain rows' where r2: "ps_db s' = (set_branch_index True (max (branch_index True (ps_db s1)) (uc_change_index u)) (ps_db s1))\<lparr>db_addresses := rows'\<rparr>"
    "s' = s1\<lparr>ps_db := ps_db s'\<rparr>"
    using raise_write [OF r1(2) s2 refl] .
  have branches: "branch_index b (db\<lparr>db_addresses := r\<rparr>) = branch_index b db" for b r db by (simp add: branch_index_def)
  have "only_indices db ((set_branch_index b i db)\<lparr>db_addresses := r\<rparr>)" for b i db r by (simp add: only_indices_def set_branch_index_def)
  then have "only_indices (ps_db s) (ps_db s')" using r1(1) r2(1) unfolding only_indices_def by metis
  moreover have "ps_alert s' = ps_alert s" using r1(3) r2(2) by (metis poller_state.select_convs(3) poller_state.surjective poller_state.update_convs(2))
  ultimately show ?thesis unfolding r2(1) branches branch_index_other unfolding r1(1) branches branch_index_other by simp
qed

lemma record_coins_db:
  assumes run: "record_coins current_tip u s = (Inr (), s')"
  shows "map unmarked (db_coins (ps_db s')) = map unmarked (updated_rows u (db_coins (ps_db s))) \<and> only_coins (ps_db s) (ps_db s') \<and>
    ps_alert s' = ps_alert s \<and> db_tip (ps_db s') = db_tip (ps_db s)"
proof -
  obtain db1 db2 db3 db4 where w: "new_unspent_coins (uc_received u) (ps_db s) = Some db1"
    "spend_coins (uc_spending u) (unspend_coins (uc_expired_spending u) (confirm_coins (uc_confirmed u) (remove_coins (uc_expired u) db1))) = Some db2"
    "confirm_spend (uc_spent u) db2 = Some db3" "update_coins_from_self (bt_height current_tip) db3 = Some db4" "s' = s\<lparr>ps_db := db4\<rparr>"
    using run unfolding record_coins_def by (auto simp: act_bind_Inr)
  have db3: "db3 = (ps_db s)\<lparr>db_coins := updated_rows u (db_coins (ps_db s))\<rparr>"
    using new_unspent_coins_rows [OF w(1)] spend_coins_rows [OF w(2)] confirm_spend_rows [OF w(3)]
    by (simp add: remove_coins_rows confirm_coins_rows unspend_coins_rows updated_rows_def)
  note from_self_frame [OF w(4)] update_coins_from_self_unmarked [OF w(4)]
  then show ?thesis using db3 w(5) only_coins_trans [of "ps_db s" db3 db4] by simp
qed

text \<open>What is recorded: every table the poll writes, as a function of the table before.\<close>

definition recorded :: "btc_api \<Rightarrow> wallet_db \<Rightarrow> block_chain_tip \<Rightarrow> updated_coins \<Rightarrow> transaction list \<Rightarrow> wallet_db \<Rightarrow> bool" where
  "recorded L db latest u transactions db' \<longleftrightarrow> map unmarked (db_coins db') = map unmarked (updated_rows u (db_coins db)) \<and>
     chain_tip db' = Some latest \<and> set (saved_txids db') = lib_txid L ` set transactions \<union> set (saved_txids db) \<and>
     branch_index False db' = max (branch_index False db) (uc_receive_index u) \<and>
     branch_index True db' = max (branch_index True db) (uc_change_index u) \<and>
     db_spends db' = db_spends db \<and> db_label_rows db' = db_label_rows db"

lemma record_updates_db:
  assumes ok: "db_ok L A (ps_db s)" and tip: "chain_tip (ps_db s) = Some current_tip"
    and run: "record_updates A L current_tip latest u transactions s = (Inr (), s')"
  shows "recorded L (ps_db s) latest u transactions (ps_db s') \<and> load_alert (ps_alert s') = NoAlert \<and>
    wl_rescan_timestamp (db_wallet (ps_db s')) = wl_rescan_timestamp (db_wallet (ps_db s))"
proof -
  obtain s1 s3 s4 where s1: "when_act (transactions \<noteq> []) (write_db (new_txs L transactions)) s = (Inr (), s1)"
    and s3: "raise_indices A u (s1\<lparr>ps_alert := 0\<rparr>) = (Inr (), s3)" and s4: "record_coins current_tip u s3 = (Inr (), s4)"
    and s': "when_act (latest \<noteq> current_tip) (write_db (\<lambda>db. Some (update_tip latest db))) s4 = (Inr (), s')"
    using run unfolding record_updates_def by (auto simp: act_bind_Inr)
  have txs: "txs_ok L (ps_db s)" using ok by (simp add: db_ok_def)
  have step1: "set (saved_txids (ps_db s1)) = lib_txid L ` set transactions \<union> set (saved_txids (ps_db s)) \<and>
      db_coins (ps_db s1) = db_coins (ps_db s) \<and> touches_coins (ps_db s) (ps_db s1) \<and> db_tip (ps_db s1) = db_tip (ps_db s)"
  proof (cases "transactions = []")
    case False
    then have new: "new_txs L transactions (ps_db s) = Some (ps_db s1)" using s1 by (auto simp: when_act_def)
    show ?thesis using new_txs_saved [OF new txs] new_txs_touches [OF new] new_txs_tip [OF new] by blast
  qed (use s1 in \<open>simp add: when_act_def\<close>)
  have id1: "same_identity (ps_db s) (ps_db s1)" using step1 touches_coins_identity by blast
  have ok1: "addresses_ok A (ps_db (s1\<lparr>ps_alert := 0\<rparr>))" using addresses_ok_cong [OF id1] ok by (simp add: db_ok_def)
  note same1 = same_identity_index [OF id1]
  note step3 = raise_indices_db [OF ok1 s3, unfolded only_indices_def, simplified] and step4 = record_coins_db [OF s4]
  have keep4: "branch_index b (ps_db s4) = branch_index b (ps_db s3)" "saved_txids (ps_db s4) = saved_txids (ps_db s3)"
      "db_spends (ps_db s4) = db_spends (ps_db s3)" "db_label_rows (ps_db s4) = db_label_rows (ps_db s3)" for b
    using step4 by (simp_all add: only_coins_def touches_coins_def branch_index_def saved_txids_def)
  have last: "ps_db s' = (if latest = current_tip then ps_db s4 else update_tip latest (ps_db s4)) \<and> ps_alert s' = ps_alert s4"
    using s' by (auto simp: when_act_def split: if_splits)
  have "chain_tip (ps_db s4) = Some current_tip" using tip step1 step3 step4 by (simp add: chain_tip_def)
  then have "chain_tip (ps_db s') = Some latest" using last by (simp add: chain_tip_def update_tip_def set_tip_def)
  moreover have "db_coins (ps_db s') = db_coins (ps_db s4)" "saved_txids (ps_db s') = saved_txids (ps_db s4)"
      "branch_index b (ps_db s') = branch_index b (ps_db s4)" "db_spends (ps_db s') = db_spends (ps_db s4)"
      "db_label_rows (ps_db s') = db_label_rows (ps_db s4)" for b
    using last by (simp_all add: update_tip_def saved_txids_def branch_index_def)
  moreover have "wl_rescan_timestamp (db_wallet (ps_db s')) = wl_rescan_timestamp (db_wallet (ps_db s))"
    using last step1 step3 step4 by (simp add: update_tip_def only_coins_def touches_coins_def)
  ultimately show ?thesis using step1 step3 step4 keep4 same1 last
    unfolding recorded_def by (simp add: saved_txids_def touches_coins_def)
qed

text \<open>
  C35.  What a completed poll writes.  The coin table becomes the old one with the received coins
  appended and the expired ones removed, in which every coin has the block the backend confirmed
  it in, and the spending transaction and block the backend last reported, entries that expired
  cleared first (up to the own-coin flags, which the last update computes).  Both derivation
  indices rise to the highest one seen, the fetched transactions are stored, the tip is the
  latest one, the alert is cleared, and drafts and labels are
  untouched.
\<close>

theorem record_updates_exact:
  assumes ok: "db_ok L A (ps_db s)" and tip: "chain_tip (ps_db s) = Some current_tip"
    and run: "record_updates A L current_tip latest u transactions s = (Inr (), s')"
  shows "map unmarked (db_coins (ps_db s')) = map unmarked (updated_rows u (db_coins (ps_db s))) \<and>
    chain_tip (ps_db s') = Some latest \<and> load_alert (ps_alert s') = NoAlert \<and>
    set (saved_txids (ps_db s')) = lib_txid L ` set transactions \<union> set (saved_txids (ps_db s)) \<and>
    branch_index False (ps_db s') = max (branch_index False (ps_db s)) (uc_receive_index u) \<and>
    branch_index True (ps_db s') = max (branch_index True (ps_db s)) (uc_change_index u) \<and>
    db_spends (ps_db s') = db_spends (ps_db s) \<and> db_label_rows (ps_db s') = db_label_rows (ps_db s)"
  using record_updates_db [OF assms] by (simp add: recorded_def)

end
