(* ===== verification/Poller_Total.thy ===== *)
theory Poller_Total
  imports Poller_Exact
begin

text \<open>
  When a poll can panic.  Every write of a poll has an \<open>expect\<close> behind it: an outpoint recorded twice, a
  transaction missing from its table or an address index past the last normal child ends the poller
  thread.  On a database that keeps its invariant, and with a backend that keeps the laws stated
  below, two things remain: an exhausted address index, and a confirmed spender that the backend names
  but that is neither stored nor fetched.
\<close>

section \<open>Received coins are new\<close>

lemma new_coin_outpoint [simp]: "cn_outpoint (new_coin u i c) = ux_outpoint u"
  by (simp add: new_coin_def)

lemma fold_scan_distinct:
  assumes "fold_res (scan_utxo P descs network replay db known initial_highest) st pending = Inr st'"
    and "distinct (map cn_outpoint (sn_received st) @ map ux_outpoint (sn_unresolved st @ pending))"
  shows "distinct (map cn_outpoint (sn_received st') @ map ux_outpoint (sn_unresolved st'))"
  using assms
proof (induction pending arbitrary: st)
  case (Cons u us)
  then obtain t where t: "scan_utxo P descs network replay db known initial_highest st u = Inr t"
    "fold_res (scan_utxo P descs network replay db known initial_highest) t us = Inr st'" by (auto simp: res_rules)
  have "distinct (map cn_outpoint (sn_received t) @ map ux_outpoint (sn_unresolved t @ us))"
  proof (cases rule: scan_utxo_cases [OF t(1)])
    case (3 index is_change)
    then consider "sn_received t = sn_received st" "sn_unresolved t = sn_unresolved st"
      | "sn_received t = sn_received st @ [new_coin u index is_change]" "sn_unresolved t = sn_unresolved st"
      by auto
    then show ?thesis
    proof cases
      case 2
      then show ?thesis using Cons.prems(2) by simp
    qed (use Cons.prems(2) in simp)
  qed (use Cons.prems(2) in \<open>simp_all add: disjoint_iff\<close>)
  then show ?case using Cons.IH [OF t(2)] by simp
qed simp

lemma map_pending_distinct:
  assumes "map_pending P descs network replay complete db known initial_highest st pending = Inr st'"
    and "distinct (map cn_outpoint (sn_received st) @ map ux_outpoint pending)"
  shows "distinct (map cn_outpoint (sn_received st'))"
  using assms
proof (induction P descs network replay complete db known initial_highest st pending rule: map_pending.induct)
  case (1 P descs network replay complete db known initial_highest st pending)
  obtain t where t: "fold_res (scan_utxo P descs network replay db known initial_highest) (st\<lparr>sn_unresolved := []\<rparr>) pending = Inr t"
    "st' = t \<or> (sn_unresolved t \<noteq> [] \<and> length (sn_unresolved t) \<noteq> length pending \<and>
      map_pending P descs network replay complete db known initial_highest t (sn_unresolved t) = Inr st')"
    using "1.prems"(1) by (subst (asm) map_pending.simps) (auto simp: res_rules split: if_splits)
  have dist: "distinct (map cn_outpoint (sn_received t) @ map ux_outpoint (sn_unresolved t))"
    using fold_scan_distinct [OF t(1)] "1.prems"(2) by simp
  from t(2) show ?case
  proof
    assume "st' = t" then show ?thesis using dist by simp
  next
    assume "sn_unresolved t \<noteq> [] \<and> length (sn_unresolved t) \<noteq> length pending \<and>
      map_pending P descs network replay complete db known initial_highest t (sn_unresolved t) = Inr st'"
    then show ?thesis using "1.IH" [OF t(1)] dist by blast
  qed
qed

section \<open>Reading does not panic\<close>

lemma map_utxo_no_panic:
  assumes "addresses_ok A db"
  shows "map_utxo P descs network replay db i h u \<noteq> Inl Panic"
proof (cases "ux_address u")
  case (UAddress a)
  obtain r where "derivation_index_by_address a db = Some r" using lookup_total [OF assms, of a] by blast
  then show ?thesis
    by (cases r) (auto simp: map_utxo_def UAddress bind_res_Inl ok_or_Inl map_err_def split: sum.splits)
qed (simp add: map_utxo_def)

lemma fold_scan_no_panic:
  "addresses_ok A db \<Longrightarrow> fold_res (scan_utxo P descs network replay db known i) st us \<noteq> Inl Panic"
  using map_utxo_no_panic [of A db]
  by (induction us arbitrary: st) (auto simp: bind_res_Inl scan_utxo_def)

lemma map_pending_no_panic:
  assumes "addresses_ok A db"
  shows "map_pending P descs network replay complete db known i st us \<noteq> Inl Panic"
  using assms
proof (induction P descs network replay complete db known i st us rule: map_pending.induct)
  case (1 P descs network replay complete db known i st us)
  then show ?case using fold_scan_no_panic [OF "1.prems", of P descs network replay known i "st\<lparr>sn_unresolved := []\<rparr>" us]
    by (subst map_pending.simps) (auto simp: bind_res_Inl split: if_splits)
qed

lemma coins_read:
  assumes "coins_ok db"
  shows "\<exists>cs. coins statuses outpoints db = Some cs \<and>
    (\<forall>c\<in>set cs. \<exists>r\<in>set (select_coins_where statuses outpoints db). coin_of_row r = Some c) \<and>
    map cn_outpoint cs = map cr_outpoint (select_coins_where statuses outpoints db)"
proof -
  have total: "\<forall>c\<in>set (select_coins_where statuses outpoints db). coin_of_row c \<noteq> None"
    using assms coin_of_row_total by (auto simp: select_coins_where_def coins_ok_def)
  let ?cs = "map (the \<circ> coin_of_row) (select_coins_where statuses outpoints db)"
  have "coins statuses outpoints db = Some ?cs" unfolding coins_def by (rule collect_opt_total [OF total])
  moreover have "coin_of_row r = Some c \<Longrightarrow> cn_outpoint c = cr_outpoint r" for r c
    by (auto simp: coin_of_row_def split: option.splits if_splits)
  then have "map cn_outpoint ?cs = map cr_outpoint (select_coins_where statuses outpoints db)" using total by auto
  moreover have "\<forall>c\<in>set ?cs. \<exists>r\<in>set (select_coins_where statuses outpoints db). coin_of_row r = Some c" using total by auto
  ultimately show ?thesis by blast
qed

lemma spending_read:
  assumes ok: "coins_ok db" and sp: "list_spending_coins db = Some sp" and "set cs = set sp"
  shows "\<exists>pairs. spending_pairs cs = Some pairs \<and> snd ` set pairs \<subseteq> set (saved_txids db)"
proof -
  obtain ds where ds: "coins [Spending] [] db = Some ds"
    "\<forall>c\<in>set ds. \<exists>r\<in>set (select_coins_where [Spending] [] db). coin_of_row r = Some c"
    using coins_read [OF ok, of "[Spending]" "[]"] by (elim exE conjE)
  have eq: "set cs = set ds" using sp ds(1) assms(3) unfolding list_spending_coins_def by (simp only: option.inject)
  have "\<exists>t. cn_spend_txid c = Some t \<and> t \<in> set (saved_txids db)" if "c \<in> set cs" for c
  proof -
    have "c \<in> set ds" using that eq by (simp only:)
    then obtain r where r: "r \<in> set (select_coins_where [Spending] [] db)" "coin_of_row r = Some c"
      using bspec [OF ds(2), of c] by (elim meta_impE bexE) auto
    then have "cr_spend_txid r \<noteq> None" "r \<in> set (db_coins db)" by (auto simp: select_coins_where_def)
    moreover have "cn_spend_txid c = cr_spend_txid r" using r(2) by (auto simp: coin_of_row_def split: option.splits if_splits)
    ultimately show ?thesis using ok by (auto simp: coins_ok_def coin_refs_def)
  qed
  then have total: "\<forall>c\<in>set cs. map_option (Pair (cn_outpoint c)) (cn_spend_txid c) \<noteq> None" and
    saved: "\<forall>c\<in>set cs. \<forall>t. cn_spend_txid c = Some t \<longrightarrow> t \<in> set (saved_txids db)" by fastforce+
  show ?thesis unfolding spending_pairs_def collect_opt_total [OF total] using total saved by fastforce
qed

section \<open>Writing does not panic\<close>

lemma new_unspent_total:
  assumes "distinct (map cn_outpoint cs)" and "\<forall>c\<in>set cs. cn_outpoint c \<notin> cr_outpoint ` set (db_coins db) \<and>
    op_txid (cn_outpoint c) \<in> set (saved_txids db)"
  shows "\<exists>db'. new_unspent_coins cs db = Some db'"
  using assms unfolding new_unspent_coins_def
proof (induction cs arbitrary: db)
  case (Cons c cs)
  obtain t where t: "insert_coin db c = Some t" "t = db\<lparr>db_coins := db_coins db @ [received_row c]\<rparr>"
    using Cons.prems(2) by (auto simp: insert_coin_def received_row_def)
  have "\<exists>db'. try_fold insert_coin t cs = Some db'"
  proof (rule Cons.IH)
    show "\<forall>d\<in>set cs. cn_outpoint d \<notin> cr_outpoint ` set (db_coins t) \<and> op_txid (cn_outpoint d) \<in> set (saved_txids t)"
    proof
      fix d assume d: "d \<in> set cs"
      then have "cn_outpoint d \<noteq> cn_outpoint c" using Cons.prems(1) by (metis distinct.simps(2) image_eqI list.set_map list.simps(9))
      then show "cn_outpoint d \<notin> cr_outpoint ` set (db_coins t) \<and> op_txid (cn_outpoint d) \<in> set (saved_txids t)"
        using Cons.prems(2) d by (auto simp: t(2) received_row_def)
    qed
  qed (use Cons.prems(1) in simp)
  then show ?case by (simp add: t(1))
qed simp

lemma try_fold_total:
  assumes "I s" and "\<And>s x. \<lbrakk>I s; x \<in> set xs\<rbrakk> \<Longrightarrow> \<exists>t. f s x = Some t \<and> I t"
  shows "\<exists>t. try_fold f s xs = Some t"
  using assms
proof (induction xs arbitrary: s)
  case (Cons x xs)
  then obtain t where t: "f s x = Some t" "I t" by fastforce
  have "\<exists>u. try_fold f t xs = Some u" by (rule Cons.IH [OF t(2)]) (use Cons.prems(2) in auto)
  then show ?case by (simp add: t(1))
qed simp

lemma spend_coins_total:
  assumes "snd ` set xs \<subseteq> set (saved_txids db)"
  shows "\<exists>db'. spend_coins xs db = Some db'"
  unfolding spend_coins_def
  by (rule try_fold_total [where I = "\<lambda>d. saved_txids d = saved_txids db"]) (use assms in \<open>auto simp: spend_coin_def\<close>)

lemma confirm_spend_row_frame:
  assumes "confirm_spend_row db x = Some db'"
  shows "saved_txids db' = saved_txids db" "has_coin db' p = has_coin db p" "has_coin db (fst x) \<longrightarrow> fst (snd x) \<in> set (saved_txids db)"
proof -
  obtain p' t height time where x: "x = (p', t, height, time)" by (cases x)
  have known: "has_coin db p' \<longrightarrow> t \<in> set (saved_txids db)" and db': "db' = update_coin
      (\<lambda>c. c\<lparr>cr_spend_txid := Some t, cr_spend_block_height := Some height, cr_spend_block_time := Some time\<rparr>) p' db"
    using assms by (auto simp: x confirm_spend_row_def split: if_splits)
  show "has_coin db (fst x) \<longrightarrow> fst (snd x) \<in> set (saved_txids db)" using known by (simp add: x)
  show "saved_txids db' = saved_txids db" by (simp add: db' update_coin_def saved_txids_def)
  have "map cr_outpoint (db_coins db') = map cr_outpoint (db_coins db)" by (simp add: db' update_coin_def)
  then show "has_coin db' p = has_coin db p" unfolding has_coin_def by (metis set_map)
qed

text \<open>Confirming the spend of a coin refers to a stored transaction.\<close>

lemma confirm_spend_iff:
  "(\<exists>db'. confirm_spend xs db = Some db') \<longleftrightarrow> (\<forall>x\<in>set xs. has_coin db (fst x) \<longrightarrow> fst (snd x) \<in> set (saved_txids db))"
  unfolding confirm_spend_def
proof (induction xs arbitrary: db)
  case (Cons x xs)
  show ?case
  proof (cases "confirm_spend_row db x")
    case None
    then show ?thesis by (cases x) (simp add: confirm_spend_row_def split: if_splits)
  next
    case (Some t)
    then show ?thesis using Cons.IH [of t] confirm_spend_row_frame [OF Some] by simp
  qed
qed simp

definition recorded_outpoints :: "wallet_db \<Rightarrow> updated_coins \<Rightarrow> outpoint set" where
  \<comment> \<open>the coins of the database after the received ones are added and the expired ones removed\<close>
  "recorded_outpoints db u = (cr_outpoint ` set (db_coins db) \<union> cn_outpoint ` set (uc_received u)) - set (uc_expired u)"

lemma row_outpoints: "cr_outpoint (received_row d) = cn_outpoint d" "cr_outpoint (confirm_row xs c) = cr_outpoint c"
  "cr_outpoint (unspend_row ps c) = cr_outpoint c" "cr_outpoint (spending_row ys c) = cr_outpoint c"
  by (simp_all add: received_row_def confirm_row_def unspend_row_def spending_row_def overwrite_outpoint overwrites_def split: prod.split)

lemma before_confirm_spend:
  assumes "new_unspent_coins (uc_received u) db = Some db1"
    and "spend_coins (uc_spending u) (unspend_coins (uc_expired_spending u) (confirm_coins (uc_confirmed u) (remove_coins (uc_expired u) db1))) = Some db2"
  shows "saved_txids db2 = saved_txids db" and "has_coin db2 p \<longleftrightarrow> p \<in> recorded_outpoints db u"
proof -
  have db2: "db2 = db\<lparr>db_coins := map (\<lambda>c. spending_row (uc_spending u) (unspend_row (uc_expired_spending u) (confirm_row (uc_confirmed u) c)))
      (filter (\<lambda>c. cr_outpoint c \<notin> set (uc_expired u)) (db_coins db @ map received_row (uc_received u)))\<rparr>"
    using new_unspent_coins_rows [OF assms(1)] spend_coins_rows [OF assms(2)] by (simp add: remove_coins_rows confirm_coins_rows unspend_coins_rows comp_def)
  then show "saved_txids db2 = saved_txids db" by (simp add: saved_txids_def)
  show "has_coin db2 p \<longleftrightarrow> p \<in> recorded_outpoints db u"
    unfolding db2 has_coin_def recorded_outpoints_def by (simp add: image_image image_Un row_outpoints) (auto simp: row_outpoints image_iff)
qed

lemma record_coins_total:
  assumes "distinct (map cn_outpoint (uc_received u))"
    and "\<forall>c\<in>set (uc_received u). cn_outpoint c \<notin> cr_outpoint ` set (db_coins (ps_db s)) \<and> op_txid (cn_outpoint c) \<in> set (saved_txids (ps_db s))"
    and "snd ` set (uc_spending u) \<subseteq> set (saved_txids (ps_db s))" 
    and "\<forall>x\<in>set (uc_spent u). fst x \<in> recorded_outpoints (ps_db s) u \<longrightarrow> fst (snd x) \<in> set (saved_txids (ps_db s))"
  shows "\<exists>s'. record_coins current_tip u s = (Inr (), s')"
proof -
  obtain db1 where db1: "new_unspent_coins (uc_received u) (ps_db s) = Some db1" using new_unspent_total [OF assms(1,2)] by blast
  let ?db = "unspend_coins (uc_expired_spending u) (confirm_coins (uc_confirmed u) (remove_coins (uc_expired u) db1))"
  have saved: "saved_txids ?db = saved_txids (ps_db s)"
    using new_unspent_coins_rows [OF db1] by (simp add: remove_coins_rows confirm_coins_rows unspend_coins_rows)
  obtain db2 where db2: "spend_coins (uc_spending u) ?db = Some db2" using spend_coins_total [of "uc_spending u" ?db] assms(3) saved by auto
  obtain db3 where db3: "confirm_spend (uc_spent u) db2 = Some db3"
    using confirm_spend_iff [of "uc_spent u" db2] assms(4) before_confirm_spend [OF db1 db2] by auto
  obtain db4 where db4: "update_coins_from_self (bt_height current_tip) db3 = Some db4" using update_coins_from_self_total by blast
  show ?thesis unfolding record_coins_def by (auto simp: act_bind_Inr db1 db2 db3 db4)
qed

lemma lookahead_set_branch: "lookahead ((set_branch_index b i db)\<lparr>db_addresses := rows\<rparr>) = lookahead db"
  by (simp add: lookahead_def set_branch_index_def)

lemma raise_total:
  assumes "addresses_ok A (ps_db s)" and "index + lookahead (ps_db s) \<le> 2 ^ 31"
  shows "\<exists>s'. when_act (index > branch_index b (ps_db s)) (write_db (set_derivation_index A index b)) s = (Inr (), s') \<and>
    lookahead (ps_db s') = lookahead (ps_db s)"
proof (cases "index > branch_index b (ps_db s)")
  case True
  then obtain rows where "set_derivation_index A index b (ps_db s) = Some ((set_branch_index b index (ps_db s))\<lparr>db_addresses := rows\<rparr>)"
    using set_derivation_index_outcome [OF assms(1), of index b] assms(2) by auto
  then show ?thesis using True by (auto simp: when_act_def lookahead_set_branch)
qed (simp add: when_act_def)

lemma raise_indices_total:
  assumes ok: "addresses_ok A (ps_db s)" and room: "uc_receive_index u + lookahead (ps_db s) \<le> 2 ^ 31" "uc_change_index u + lookahead (ps_db s) \<le> 2 ^ 31"
  shows "\<exists>s'. raise_indices A u s = (Inr (), s')"
proof -
  obtain s1 where s1: "when_act (uc_receive_index u > branch_index False (ps_db s))
      (write_db (set_derivation_index A (uc_receive_index u) False)) s = (Inr (), s1)" "lookahead (ps_db s1) = lookahead (ps_db s)"
    using raise_total [OF ok room(1)] by blast
  obtain rows where ok1: "addresses_ok A (ps_db s1)" using raise_write [OF ok s1(1) refl] .
  obtain s2 where s2: "when_act (uc_change_index u > branch_index True (ps_db s1))
      (write_db (set_derivation_index A (uc_change_index u) True)) s1 = (Inr (), s2)"
    using raise_total [OF ok1, of "uc_change_index u" True] room(2) s1(2) by auto
  show ?thesis unfolding raise_indices_def using indices_read [OF ok] indices_read [OF ok1] s1(1) s2 by (auto simp: act_bind_Inr)
qed

section \<open>A completed comparison can be recorded\<close>

text \<open>
  What the poller relies on: hash tables iterate over their elements; a backend lists an output
  once and answers for the transaction it was asked for.
\<close>

definition hash_orders :: "poll_api \<Rightarrow> bool" where
  "hash_orders P \<longleftrightarrow> (\<forall>cs. set (lib_coin_order P cs) = set cs) \<and> (\<forall>ts. set (lib_txid_order P ts) = set ts)"

definition lists_once :: "'b bitcoin_interface \<Rightarrow> bool" where
  "lists_once N \<longleftrightarrow> (\<forall>tip descs b us b'.
     try_received_coins N tip descs b = (Inr us, b') \<or> try_historical_received_coins N tip descs b = (Inr us, b') \<longrightarrow>
     distinct (map ux_outpoint us))"

definition answers_txid :: "btc_api \<Rightarrow> 'b bitcoin_interface \<Rightarrow> bool" where
  "answers_txid L N \<longleftrightarrow> (\<forall>t b tx block b'. try_wallet_transaction N t b = (Inr (Some (tx, block)), b') \<longrightarrow>
     lib_txid L tx = t \<and> tx_input tx \<noteq> [] \<and> tx_output tx \<noteq> [])"

text \<open>
  A backend may name a confirmed spender other than the transaction it was asked about; the poll then
  needs that transaction to be stored, or to be one it fetches for another reason, if the coin is kept.
\<close>

definition unknown_spender :: "wallet_db \<Rightarrow> updated_coins \<Rightarrow> bool" where
  "unknown_spender db u \<longleftrightarrow> (\<exists>x\<in>set (uc_spent u). fst x \<in> recorded_outpoints db u \<and>
     fst (snd x) \<notin> set (saved_txids db) \<union> (\<lambda>c. op_txid (cn_outpoint c)) ` set (uc_received u) \<union> snd ` set (uc_spending u))"

lemma fetch_txs_ids:
  assumes "answers_txid L N" and "fetch_txs N ts s = (Inr txs, s')"
  shows "lib_txid L ` set txs = set ts \<and> (\<forall>tx\<in>set txs. tx_input tx \<noteq> [] \<and> tx_output tx \<noteq> [])"
  using assms(2)
proof (induction ts arbitrary: s txs)
  case (Cons t ts)
  then obtain tx block b s1 rest where "try_wallet_transaction N t (ps_bit s) = (Inr (Some (tx, block)), b)"
    "fetch_txs N ts s1 = (Inr rest, s')" "txs = tx # rest"
    by (auto simp: act_bind_Inr call_Inr ok_or_Inr eq_commute [of "Inr _" "ok_or _ _"])
  moreover from this(1) have "lib_txid L tx = t \<and> tx_input tx \<noteq> [] \<and> tx_output tx \<noteq> []"
    using assms(1) unfolding answers_txid_def by blast
  ultimately show ?case using Cons.IH [of s1 rest] by simp
qed simp

lemma received_new:
  assumes ok: "coins_ok db" and law: "lists_once N" and upd: "update_coins P A N tip descs s = (Inr u, s')" "ps_db s = db"
  shows "distinct (map cn_outpoint (uc_received u)) \<and> (\<forall>c\<in>set (uc_received u). cn_outpoint c \<notin> cr_outpoint ` set (db_coins db))"
proof (rule update_coins_parts [OF upd(1)])
  fix network curr receive change pending replay complete st b1
  assume curr: "coins [] [] (ps_db s) = Some curr"
    and pending: "(if history_pending (ps_db s) then try_historical_received_coins N tip descs else try_received_coins N tip descs) (ps_bit s) =
       (Inr pending, b1)"
    and st: "map_pending P descs network replay complete (ps_db s) (cn_outpoint ` set curr) (max receive change)
       \<lparr>sn_receive_index = receive, sn_change_index = change, sn_received = [], sn_unresolved = []\<rparr> pending = Inr st"
    and rec: "uc_received u = sn_received st"
  have "distinct (map ux_outpoint pending)" using pending law unfolding lists_once_def by (metis (full_types))
  then have "distinct (map cn_outpoint (uc_received u))" using map_pending_distinct [OF st] rec by simp
  moreover have "map cn_outpoint curr = map cr_outpoint (db_coins db)"
    using coins_read [OF ok, of "[]" "[]"] curr upd(2) by (auto simp: select_coins_where_def)
  then have "cn_outpoint ` set curr = cr_outpoint ` set (db_coins db)" by (metis list.set_map)
  then have "cn_outpoint c \<notin> cr_outpoint ` set (db_coins db)" if "c \<in> set (uc_received u)" for c
    using map_pending_received [OF st, of c] that rec by auto
  ultimately show ?thesis by blast
qed

lemma record_updates_runs:
  assumes ok: "db_ok L A (ps_db s)" and shape: "\<forall>tx\<in>set txs. tx_input tx \<noteq> [] \<and> tx_output tx \<noteq> []"
    and new: "distinct (map cn_outpoint (uc_received u))" "\<forall>c\<in>set (uc_received u). cn_outpoint c \<notin> cr_outpoint ` set (db_coins (ps_db s))"
    and refs: "(\<lambda>c. op_txid (cn_outpoint c)) ` set (uc_received u) \<union> snd ` set (uc_spending u) \<subseteq> lib_txid L ` set txs \<union> set (saved_txids (ps_db s))"
    and spent: "\<forall>x\<in>set (uc_spent u). fst x \<in> recorded_outpoints (ps_db s) u \<longrightarrow> fst (snd x) \<in> lib_txid L ` set txs \<union> set (saved_txids (ps_db s))"
    and room: "uc_receive_index u + lookahead (ps_db s) \<le> 2 ^ 31" "uc_change_index u + lookahead (ps_db s) \<le> 2 ^ 31"
  shows "\<exists>s'. record_updates A L current_tip latest u txs s = (Inr (), s')"
proof -
  have parts: "txs_ok L (ps_db s)" "addresses_ok A (ps_db s)" using ok by (simp_all add: db_ok_def)
  obtain db' where db': "new_txs L txs (ps_db s) = Some db'" using new_txs_total [OF shape] by blast
  define t where "t = (if txs = [] then s else s\<lparr>ps_db := db'\<rparr>)\<lparr>ps_alert := 0\<rparr>"
  have "new_txs L [] (ps_db s) = Some (ps_db s)" by (simp add: new_txs_def)
  then have t: "when_act (txs \<noteq> []) (write_db (new_txs L txs)) s = (Inr (), t\<lparr>ps_alert := ps_alert s\<rparr>)" "ps_db t = db'"
    using db' by (auto simp: when_act_def t_def)
  note saved = new_txs_saved [OF db' parts(1)] and id1 = touches_coins_identity [OF new_txs_touches [OF db']]
  have ok1: "addresses_ok A (ps_db t)" and la: "lookahead (ps_db t) = lookahead (ps_db s)"
    using addresses_ok_cong [OF id1] parts(2) id1 lookahead_kind [of db' "ps_db s"] by (auto simp: t(2) same_identity_def)
  obtain s3 where s3: "raise_indices A u t = (Inr (), s3)" using raise_indices_total [OF ok1] room la by auto
  have same3: "db_coins (ps_db s3) = db_coins (ps_db s)" "set (saved_txids (ps_db s3)) = lib_txid L ` set txs \<union> set (saved_txids (ps_db s))"
    using raise_indices_db [OF ok1 s3] saved by (simp_all add: only_indices_def t(2) saved_txids_def)
  have "(\<lambda>c. op_txid (cn_outpoint c)) ` set (uc_received u) \<union> snd ` set (uc_spending u) \<subseteq> set (saved_txids (ps_db s3))" using refs unfolding same3(2) .
  moreover have "recorded_outpoints (ps_db s3) u = recorded_outpoints (ps_db s) u" by (simp add: recorded_outpoints_def same3(1))
  then have "\<forall>x\<in>set (uc_spent u). fst x \<in> recorded_outpoints (ps_db s3) u \<longrightarrow> fst (snd x) \<in> set (saved_txids (ps_db s3))"
    using spent unfolding same3(2) by simp
  ultimately have "\<exists>s4. record_coins current_tip u s3 = (Inr (), s4)"
    using new by (intro record_coins_total) (auto simp: same3(1))
  then obtain s4 where s4: "record_coins current_tip u s3 = (Inr (), s4)" ..
  have "raise_indices A u (t\<lparr>ps_alert := ps_alert s, ps_alert := 0\<rparr>) = (Inr (), s3)" using s3 by (simp add: t_def)
  then show ?thesis unfolding record_updates_def using t(1) s4
    by (cases "latest = current_tip") (auto simp: act_bind_Inr when_act_def [of True] when_act_def [of False])
qed

lemma collected_ids:
  assumes "answers_txid L N" and "hash_orders P" and "collect_txs P N u s = (Inr txs, s')"
  shows "lib_txid L ` set txs = set (missing_txids (ps_db s) u) \<and> (\<forall>tx\<in>set txs. tx_input tx \<noteq> [] \<and> tx_output tx \<noteq> [])"
  using assms(3) fetch_txs_ids [OF assms(1)] assms(2) unfolding collect_txs_def hash_orders_def by (auto simp: act_bind_Inr)

lemma record_updates_total:
  assumes ok: "db_ok L A (ps_db s)" and orders: "hash_orders P" and laws: "lists_once N" "answers_txid L N"
    and upd: "update_coins P A N current_tip descs s0 = (Inr u, s1)" "ps_db s0 = ps_db s"
    and col: "collect_txs P N u s1 = (Inr txs, s2)" and known: "\<not> unknown_spender (ps_db s) u"
    and room: "uc_receive_index u + lookahead (ps_db s) \<le> 2 ^ 31" "uc_change_index u + lookahead (ps_db s) \<le> 2 ^ 31"
  shows "\<exists>s'. record_updates A L current_tip latest u txs s = (Inr (), s')"
proof (rule record_updates_runs [OF ok _ _ _ _ _ room])
  have ok1: "coins_ok (ps_db s)" using ok by (simp add: db_ok_def)
  have "ps_db s1 = ps_db s" using reading.keepsD [OF reading.keeps_update_coins upd(1)] upd(2) by (simp add: unchanged_def)
  then have ids: "lib_txid L ` set txs = set (missing_txids (ps_db s) u)" "\<forall>tx\<in>set txs. tx_input tx \<noteq> [] \<and> tx_output tx \<noteq> []"
    using collected_ids [OF laws(2) orders col] by simp_all
  show "\<forall>tx\<in>set txs. tx_input tx \<noteq> [] \<and> tx_output tx \<noteq> []" by (rule ids(2))
  show "distinct (map cn_outpoint (uc_received u))" "\<forall>c\<in>set (uc_received u). cn_outpoint c \<notin> cr_outpoint ` set (db_coins (ps_db s))"
    using received_new [OF ok1 laws(1) upd] by blast+
  show asked: "(\<lambda>c. op_txid (cn_outpoint c)) ` set (uc_received u) \<union> snd ` set (uc_spending u) \<subseteq> lib_txid L ` set txs \<union> set (saved_txids (ps_db s))"
    unfolding ids(1) missing_txids_def by auto
  show "\<forall>x\<in>set (uc_spent u). fst x \<in> recorded_outpoints (ps_db s) u \<longrightarrow> fst (snd x) \<in> lib_txid L ` set txs \<union> set (saved_txids (ps_db s))"
    using known asked unfolding unknown_spender_def by blast
qed

lemma recorded_known:
  assumes ok: "db_ok L A (ps_db s)" and run: "record_updates A L current_tip latest u txs s = (Inr (), s')"
  shows "\<forall>x\<in>set (uc_spent u). fst x \<in> recorded_outpoints (ps_db s) u \<longrightarrow> fst (snd x) \<in> lib_txid L ` set txs \<union> set (saved_txids (ps_db s))"
proof -
  obtain s1 s3 s4 where s1: "when_act (txs \<noteq> []) (write_db (new_txs L txs)) s = (Inr (), s1)"
    and s3: "raise_indices A u (s1\<lparr>ps_alert := 0\<rparr>) = (Inr (), s3)" and s4: "record_coins current_tip u s3 = (Inr (), s4)"
    using run unfolding record_updates_def by (auto simp: act_bind_Inr)
  have parts: "txs_ok L (ps_db s)" "addresses_ok A (ps_db s)" using ok by (simp_all add: db_ok_def)
  have step1: "set (saved_txids (ps_db s1)) = lib_txid L ` set txs \<union> set (saved_txids (ps_db s)) \<and> same_identity (ps_db s) (ps_db s1) \<and>
      db_coins (ps_db s1) = db_coins (ps_db s)"
  proof (cases "txs = []")
    case False
    then have new: "new_txs L txs (ps_db s) = Some (ps_db s1)" using s1 by (auto simp: when_act_def)
    show ?thesis using new_txs_saved [OF new parts(1)] touches_coins_identity [OF new_txs_touches [OF new]] by blast
  qed (use s1 in \<open>simp add: when_act_def same_identity_def\<close>)
  then have ok1: "addresses_ok A (ps_db (s1\<lparr>ps_alert := 0\<rparr>))" using addresses_ok_cong parts(2) by auto
  have same3: "saved_txids (ps_db s3) = saved_txids (ps_db s1)" "db_coins (ps_db s3) = db_coins (ps_db s1)"
    using raise_indices_db [OF ok1 s3] by (simp_all add: only_indices_def saved_txids_def)
  obtain db1 db2 db3 where w: "new_unspent_coins (uc_received u) (ps_db s3) = Some db1"
    "spend_coins (uc_spending u) (unspend_coins (uc_expired_spending u) (confirm_coins (uc_confirmed u) (remove_coins (uc_expired u) db1))) = Some db2"
    "confirm_spend (uc_spent u) db2 = Some db3"
    using s4 unfolding record_coins_def by (auto simp: act_bind_Inr)
  have "recorded_outpoints (ps_db s3) u = recorded_outpoints (ps_db s) u" using same3(2) step1 by (simp add: recorded_outpoints_def)
  then show ?thesis using confirm_spend_iff [of "uc_spent u" db2] w(3) before_confirm_spend [OF w(1,2)] same3(1) step1 by auto
qed

section \<open>The poller thread survives\<close>

lemma latest_tip_no_panic: "latest_tip N cur receive change s \<noteq> (Inl Panic, s')"
  unfolding latest_tip_def Let_def
  by (auto simp: act_bind_Inl sync_call_def call_Inl roll_back_to_def refuse_deep_reorg_def report_divergence_def map_err_def
      split: option.splits tip_update.splits if_splits prod.splits sum.splits)

lemma fetch_txs_no_panic: "fetch_txs N ts s \<noteq> (Inl Panic, s')"
  by (induction ts arbitrary: s) (auto simp: act_bind_Inl call_Inl ok_or_def split: option.splits)

lemma collect_txs_no_panic: "collect_txs P N u s \<noteq> (Inl Panic, s')"
  using fetch_txs_no_panic by (auto simp: collect_txs_def act_bind_Inl)

lemma update_coins_no_panic:
  assumes ok: "db_ok L A (ps_db s)" and orders: "hash_orders P"
  shows "update_coins P A N tip descs s \<noteq> (Inl Panic, s')"
proof
  assume run: "update_coins P A N tip descs s = (Inl Panic, s')"
  have parts: "coins_ok (ps_db s)" "addresses_ok A (ps_db s)" using ok by (simp_all add: db_ok_def)
  obtain curr where curr: "coins [] [] (ps_db s) = Some curr" using coins_read [OF parts(1), of "[]" "[]"] by (elim exE conjE)
  obtain sp where sp: "list_spending_coins (ps_db s) = Some sp"
    using coins_read [OF parts(1), of "[Spending]" "[]"] unfolding list_spending_coins_def by (elim exE conjE)
  have order: "set (lib_coin_order P sp) = set sp" using orders unfolding hash_orders_def by blast
  obtain pairs where pairs: "spending_pairs (lib_coin_order P sp) = Some pairs" using spending_read [OF parts(1) sp order] by (elim exE conjE)
  have net: "db_network (ps_db s) = Some (tp_network (db_tip (ps_db s)))" using parts(2) by (simp add: db_network_def addresses_ok_def)
  note idx = indices_read [OF parts(2)] and np = map_pending_no_panic [OF parts(2)]
  show False using run unfolding update_coins_def Let_def
    by (auto simp: act_bind_Inl call_Inl call_Inr curr sp pairs net idx np np [symmetric] split: prod.splits)
qed

definition index_exhausted :: "wallet_db \<Rightarrow> updated_coins \<Rightarrow> bool" where
  "index_exhausted db u \<longleftrightarrow> uc_receive_index u + lookahead db > 2 ^ 31 \<or> uc_change_index u + lookahead db > 2 ^ 31"

lemma updates_panic_cause:
  assumes ok: "db_ok L A (ps_db s)" and tip: "chain_tip (ps_db s) = Some cur" and orders: "hash_orders P"
    and laws: "lists_once N" "answers_txid L N" and run: "updates P A L N descs s = (Inl Panic, s')"
  shows "\<exists>latest s1 u s2. latest_tip N cur (branch_index False (ps_db s)) (branch_index True (ps_db s)) s = (Inr latest, s1) \<and>
    update_coins P A N cur descs s1 = (Inr u, s2) \<and> (index_exhausted (ps_db s) u \<or> unknown_spender (ps_db s) u)"
proof -
  have parts: "addresses_ok A (ps_db s)" using ok by (simp add: db_ok_def)
  have cur: "db_chain_tip (ps_db s) = Some (Some cur)" using parts tip by (simp add: db_chain_tip_def addresses_ok_def)
  let ?rest = "\<lambda>latest u. act_bind (collect_txs P N u) (\<lambda>transactions. act_bind (call (try_chain_tip N)) (\<lambda>tip.
     if tip \<noteq> latest then act_err (Failed TIP_CHANGED) else record_updates A L cur latest u transactions))"
  obtain latest s1 where lt: "latest_tip N cur (branch_index False (ps_db s)) (branch_index True (ps_db s)) s = (Inr latest, s1)"
    and run1: "act_bind (update_coins P A N cur descs) (?rest latest) s1 = (Inl Panic, s')"
  proof -
    have "act_bind (latest_tip N cur (branch_index False (ps_db s)) (branch_index True (ps_db s)))
        (\<lambda>latest. act_bind (update_coins P A N cur descs) (?rest latest)) s = (Inl Panic, s')"
      using run cur indices_read [OF parts] unfolding updates_def by (simp add: act_bind_def read_db_def ok_or_def)
    then show ?thesis using that latest_tip_no_panic unfolding act_bind_Inl [of "latest_tip N cur _ _"] by blast
  qed
  have db1: "ps_db s1 = ps_db s" using latest_tip_found [OF lt] by (simp add: unchanged_def)
  obtain u s2 where u: "update_coins P A N cur descs s1 = (Inr u, s2)" and run2: "?rest latest u s2 = (Inl Panic, s')"
    using run1 update_coins_no_panic [of L A s1 P N cur descs s'] ok orders db1 unfolding act_bind_Inl by auto
  have db2: "ps_db s2 = ps_db s" using reading.keepsD [OF reading.keeps_update_coins u] db1 by (simp add: unchanged_def)
  obtain txs s3 where txs: "collect_txs P N u s2 = (Inr txs, s3)" and run3: "act_bind (call (try_chain_tip N)) (\<lambda>tip.
     if tip \<noteq> latest then act_err (Failed TIP_CHANGED) else record_updates A L cur latest u txs) s3 = (Inl Panic, s')"
    using run2 collect_txs_no_panic [of P N u s2 s'] unfolding act_bind_Inl by auto
  obtain s4 where s4: "unchanged s3 s4" "record_updates A L cur latest u txs s4 = (Inl Panic, s')"
  proof -
    obtain b where "record_updates A L cur latest u txs (s3\<lparr>ps_bit := b\<rparr>) = (Inl Panic, s')"
      using run3 by (auto simp: act_bind_Inl call_Inl call_Inr split: if_splits)
    then show ?thesis by (rule that [rotated]) (simp add: unchanged_def)
  qed
  have db4: "ps_db s4 = ps_db s" using s4(1) reading.keepsD [OF reading.keeps_collect_txs txs] db2 by (simp add: unchanged_def)
  have "index_exhausted (ps_db s) u \<or> unknown_spender (ps_db s) u"
  proof (rule ccontr)
    assume "\<not> ?thesis"
    then have "\<exists>s'. record_updates A L cur latest u txs s4 = (Inr (), s')"
      using record_updates_total [OF _ orders laws u _ txs, of s4 latest] ok db1 db4 unfolding index_exhausted_def by simp
    then show False using s4(2) by simp
  qed
  then show ?thesis using lt u by blast
qed

lemma unknown_spender_panics:
  assumes ok: "db_ok L A (ps_db s)" and tip: "chain_tip (ps_db s) = Some cur" and orders: "hash_orders P" and law: "answers_txid L N"
    and latest: "latest_tip N cur (branch_index False (ps_db s)) (branch_index True (ps_db s)) s = (Inr latest, s1)"
    and u: "update_coins P A N cur descs s1 = (Inr u, s2)" and txs: "collect_txs P N u s2 = (Inr txs, s3)"
    and again: "try_chain_tip N (ps_bit s3) = (Inr latest, b)" and unknown: "unknown_spender (ps_db s) u"
  shows "\<exists>t. updates P A L N descs s = (Inl Panic, t)"
proof -
  have parts: "addresses_ok A (ps_db s)" using ok by (simp add: db_ok_def)
  have cur: "db_chain_tip (ps_db s) = Some (Some cur)" using parts tip by (simp add: db_chain_tip_def addresses_ok_def)
  have db1: "ps_db s1 = ps_db s" using latest_tip_found [OF latest] by blast
  have db2: "ps_db s2 = ps_db s" using reading.keepsD [OF reading.keeps_update_coins u] db1 by (simp add: unchanged_def)
  have db3: "ps_db s3 = ps_db s" using reading.keepsD [OF reading.keeps_collect_txs txs] db2 by (simp add: unchanged_def)
  have ids: "lib_txid L ` set txs \<subseteq> (\<lambda>c. op_txid (cn_outpoint c)) ` set (uc_received u) \<union> snd ` set (uc_spending u)"
    using collected_ids [OF law orders txs] by (auto simp: missing_txids_def)
  obtain q t where q: "record_updates A L cur latest u txs (s3\<lparr>ps_bit := b\<rparr>) = (q, t)" by fastforce
  have "q \<noteq> Inr ()"
  proof
    assume "q = Inr ()"
    then have "\<forall>x\<in>set (uc_spent u). fst x \<in> recorded_outpoints (ps_db s) u \<longrightarrow> fst (snd x) \<in> lib_txid L ` set txs \<union> set (saved_txids (ps_db s))"
      using recorded_known [of L A "s3\<lparr>ps_bit := b\<rparr>"] q ok db3 by simp
    then show False using unknown ids unfolding unknown_spender_def by blast
  qed
  then have "q = Inl Panic" using q record_updates_panics_only [of A L cur latest u txs] unfolding panics_only_def by (cases q) (blast, simp)
  then show ?thesis using cur indices_read [OF parts] latest u txs again q
    by (simp add: updates_def act_bind_def read_db_def ok_or_def call_def)
qed

text \<open>
  C36. When the poller thread dies.  An update of an initialized vault whose database keeps its
  invariant ends in a value or in a reported failure and not in a panic, unless the comparison with
  the backend found a coin whose address index, with the look-ahead the vault keeps, lies past the
  last normal child index, or the backend named as the confirmed spender of a coin a transaction that
  the database does not have and the poll does not fetch.  The second always ends in a panic, once
  all the reads succeeded.  The backend lists an output once and answers with the transaction it was
  asked for; hash tables iterate over their own elements.
\<close>

theorem updates_panic:
  assumes ok: "db_ok L A (ps_db s)" and tip: "chain_tip (ps_db s) = Some cur" and orders: "hash_orders P"
    and laws: "lists_once N" "answers_txid L N"
  shows "(\<forall>t. updates P A L N descs s = (Inl Panic, t) \<longrightarrow>
      (\<exists>latest s1 u s2. latest_tip N cur (branch_index False (ps_db s)) (branch_index True (ps_db s)) s = (Inr latest, s1) \<and>
        update_coins P A N cur descs s1 = (Inr u, s2) \<and> (index_exhausted (ps_db s) u \<or> unknown_spender (ps_db s) u))) \<and>
    (\<forall>latest s1 u s2 txs s3 b. latest_tip N cur (branch_index False (ps_db s)) (branch_index True (ps_db s)) s = (Inr latest, s1) \<longrightarrow>
      update_coins P A N cur descs s1 = (Inr u, s2) \<longrightarrow> collect_txs P N u s2 = (Inr txs, s3) \<longrightarrow>
      try_chain_tip N (ps_bit s3) = (Inr latest, b) \<longrightarrow> unknown_spender (ps_db s) u \<longrightarrow>
      (\<exists>t. updates P A L N descs s = (Inl Panic, t)))"
  using updates_panic_cause [OF assms] unknown_spender_panics [OF ok tip orders laws(2)] by blast

end
