(* ===== verification/Poller_Refines.thy ===== *)
theory Poller_Refines
  imports Poller_Exact
begin

text \<open>
  The poller thread against a specification of one poll: what it may do to the database and the
  alert, in terms of the backend's answers only.
\<close>

section \<open>What one poll may do\<close>

definition extends_tip :: "'b bitcoin_interface \<Rightarrow> block_chain_tip \<Rightarrow> block_chain_tip \<Rightarrow> bool" where
  \<comment> \<open>the backend named the tip, and it is the stored one or a higher one whose chain holds the stored one\<close>
  "extends_tip N current latest \<longleftrightarrow> (\<exists>b b'. try_chain_tip N b = (Inr latest, b')) \<and>
     (latest = current \<or> bt_height current < bt_height latest \<and> (\<exists>b b'. try_is_in_chain N current b = (Inr True, b')))"

definition coherent_reads ::
  "poll_api \<Rightarrow> address_api \<Rightarrow> 'b bitcoin_interface \<Rightarrow> descriptor list \<Rightarrow> wallet_db \<Rightarrow> block_chain_tip \<Rightarrow> block_chain_tip \<Rightarrow> updated_coins \<Rightarrow>
   transaction list \<Rightarrow> bool" where
  \<comment> \<open>the comparison of the database with the backend and the transactions it needs, after which the backend
    still names the same tip\<close>
  "coherent_reads P A N descs db current latest u txs \<longleftrightarrow> (\<exists>s s1 s2 b. ps_db s = db \<and> update_coins P A N current descs s = (Inr u, s1) \<and>
     collect_txs P N u s1 = (Inr txs, s2) \<and> try_chain_tip N (ps_bit s2) = (Inr latest, b))"

inductive poll_spec ::
  "poll_api \<Rightarrow> address_api \<Rightarrow> btc_api \<Rightarrow> 'b bitcoin_interface \<Rightarrow> descriptor list \<Rightarrow> wallet_db \<times> alert_slot \<Rightarrow> wallet_db \<times> alert_slot \<Rightarrow> bool"
  for P A L N descs where
  spec_failed: "\<lbrakk>rescan = completed_rescan A N b db; shallow_reorg (rollbacks rescan db) reorg; alert_raised alert alert'\<rbrakk>
    \<Longrightarrow> poll_spec P A L N descs (db, alert) (rollbacks (rescan @ reorg) db, alert')"
| spec_recorded: "\<lbrakk>rescan = completed_rescan A N b db; chain_tip (rollbacks rescan db) = Some current; extends_tip N current latest;
    coherent_reads P A N descs (rollbacks rescan db) current latest u txs; recorded L (rollbacks rescan db) latest u txs db';
    wl_rescan_timestamp (db_wallet db') = (if rescan = [] then wl_rescan_timestamp (db_wallet db) else None);
    load_alert alert' = NoAlert\<rbrakk>
    \<Longrightarrow> poll_spec P A L N descs (db, alert) (db', alert')"

section \<open>A poll that succeeds\<close>

lemma new_tip_loop_extends:
  assumes "new_tip_loop N current n b = (u, b')"
  shows "(u = Same \<longrightarrow> extends_tip N current current) \<and> (\<forall>tip. u = Progress tip \<longrightarrow> extends_tip N current tip)"
  using assms
proof (induction n arbitrary: b)
  case (Suc n)
  show ?case using Suc.prems
    by (simp split: prod.splits sum.splits if_splits bool.splits ancestor_search.splits)
      (auto simp: extends_tip_def Let_def split: if_splits dest!: Suc.IH)
qed simp

lemma latest_tip_extends:
  assumes "latest_tip N current receive change s = (Inr latest, s')"
  shows "extends_tip N current latest"
proof -
  obtain ancestor h b where sync: "sync_wallet N receive change (ps_history s) (ps_bit s) = (Inr ancestor, h, b)"
    using assms by (auto simp: latest_tip_def act_bind_def sync_call_def map_err_def split: prod.splits sum.splits)
  show ?thesis
  proof (cases ancestor)
    case None
    obtain u b' where u: "new_tip N current b = (u, b')" by (cases "new_tip N current b")
    then show ?thesis using assms sync None new_tip_loop_extends [OF u [unfolded new_tip_def]]
      by (cases u) (auto simp: latest_tip_def act_bind_def sync_call_def call_def roll_back_to_def refuse_deep_reorg_def report_divergence_def
          write_db_def act_ok_def act_err_def set_alert_def)
  next
    case (Some tip)
    then show ?thesis using assms sync
      by (auto simp: latest_tip_def act_bind_def sync_call_def roll_back_to_def refuse_deep_reorg_def write_db_def act_err_def set_alert_def
          Let_def split: if_splits)
  qed
qed

lemma updates_recorded:
  assumes ok: "db_ok L A (ps_db s)" and run: "updates P A L N descs s = (Inr (), s')"
  shows "\<exists>current latest u txs. chain_tip (ps_db s) = Some current \<and> extends_tip N current latest \<and>
    coherent_reads P A N descs (ps_db s) current latest u txs \<and> recorded L (ps_db s) latest u txs (ps_db s') \<and>
    wl_rescan_timestamp (db_wallet (ps_db s')) = wl_rescan_timestamp (db_wallet (ps_db s)) \<and> load_alert (ps_alert s') = NoAlert"
proof -
  obtain current receive change latest u txs s1 s2 s3 b where tip: "Option.bind (db_chain_tip (ps_db s)) id = Some current"
    and latest: "latest_tip N current receive change s = (Inr latest, s1)" and u: "update_coins P A N current descs s1 = (Inr u, s2)"
    and txs: "collect_txs P N u s2 = (Inr txs, s3)" and again: "try_chain_tip N (ps_bit s3) = (Inr latest, b)"
    and rec: "record_updates A L current latest u txs (s3\<lparr>ps_bit := b\<rparr>) = (Inr (), s')"
    using run unfolding updates_def
    by (auto simp: act_bind_Inr call_Inr ok_or_Inr eq_commute [of "Inr _" "ok_or _ _"] split: if_splits)
  have cur: "chain_tip (ps_db s) = Some current" using tip by (auto simp: db_chain_tip_def bind_eq_Some_conv split: if_splits)
  have db1: "ps_db s1 = ps_db s" using latest_tip_found [OF latest] by blast
  have db3: "ps_db s3 = ps_db s"
    using reading.keepsD [OF reading.keeps_update_coins u] reading.keepsD [OF reading.keeps_collect_txs txs] db1 by (simp add: unchanged_def)
  have "coherent_reads P A N descs (ps_db s) current latest u txs" using db1 u txs again unfolding coherent_reads_def by blast
  moreover have "recorded L (ps_db s) latest u txs (ps_db s') \<and> load_alert (ps_alert s') = NoAlert \<and>
      wl_rescan_timestamp (db_wallet (ps_db s')) = wl_rescan_timestamp (db_wallet (ps_db s))"
    using record_updates_db [OF _ _ rec] ok cur db3 by simp
  ultimately show ?thesis using cur latest_tip_extends [OF latest] by blast
qed

text \<open>Columns of the wallet row that a poll writes after it recorded its updates.\<close>

lemma recorded_wallet_row:
  assumes "recorded L db latest u txs db'"
    and "wl_deposit_index w = wl_deposit_index (db_wallet db')" and "wl_change_index w = wl_change_index (db_wallet db')"
  shows "recorded L db latest u txs (db'\<lparr>db_wallet := w\<rparr>)"
  using assms by (simp add: recorded_def chain_tip_def saved_txids_def branch_index_def)

lemma rollback_db_ok:
  assumes "vault_addresses A" and "db_ok L A db"
  shows "db_ok L A (rollbacks tips db)"
proof (induction tips rule: rev_induct)
  case (snoc tip tips)
  then show ?case using db_step_ok [OF assms(1) step_rollback] by (simp add: rollbacks_append) (simp add: rollbacks_def db_advances_def)
qed (simp add: rollbacks_def assms(2))

lemma poll_result_recorded:
  assumes vault: "vault_addresses A" and ok: "db_ok L A (ps_db s)" and run: "poll_result P A L N descs s = (Inr (), s')"
    and rescan: "rescan = completed_rescan A N (ps_bit s) (ps_db s)"
  shows "\<exists>current latest u txs. chain_tip (rollbacks rescan (ps_db s)) = Some current \<and> extends_tip N current latest \<and>
    coherent_reads P A N descs (rollbacks rescan (ps_db s)) current latest u txs \<and> recorded L (rollbacks rescan (ps_db s)) latest u txs (ps_db s') \<and>
    wl_rescan_timestamp (db_wallet (ps_db s')) = (if rescan = [] then wl_rescan_timestamp (db_wallet (ps_db s)) else None) \<and>
    load_alert (ps_alert s') = NoAlert"
proof -
  obtain r s1 where r: "observe_rescan A N s = (Inr r, s1)" and rest: "(case r of Completed tip \<Rightarrow> act_bind (write_db (\<lambda>db. Some (rollback_tip tip db)))
        (\<lambda>_. act_bind (updates P A L N descs) (\<lambda>_. write_db complete_wallet_rescan)) | _ \<Rightarrow> updates P A L N descs) s1 = (Inr (), s')"
    using run unfolding poll_result_def act_bind_Inr by blast
  note seen = observe_rescan_exact [OF r, folded rescan]
  have same: "ps_db s1 = ps_db s" using reading.keepsD [OF reading.keeps_observe_rescan r] by (simp add: unchanged_def)
  define t where "t = s1\<lparr>ps_db := rollbacks rescan (ps_db s)\<rparr>"
  have t: "ps_db t = rollbacks rescan (ps_db s)" by (simp add: t_def)
  have ok_t: "db_ok L A (ps_db t)" using rollback_db_ok [OF vault ok] t by simp
  show ?thesis
  proof (cases "rescan = []")
    case True
    have "t = s1" unfolding t_def True by (simp add: rollbacks_def same [symmetric])
    then have "updates P A L N descs t = (Inr (), s')" using rest seen True by (cases r) simp_all
    from updates_recorded [OF ok_t this] show ?thesis unfolding t using True by (simp add: rollbacks_keep)
  next
    case False
    then obtain tip where tip: "r = Completed tip" "rescan = [tip]" using seen by (cases r) auto
    then obtain s2 where s2: "updates P A L N descs t = (Inr (), s2)" "write_db complete_wallet_rescan s2 = (Inr (), s')"
      using rest same unfolding t_def by (auto simp: act_bind_Inr rollbacks_def)
    obtain w where w: "ps_db s' = (ps_db s2)\<lparr>db_wallet := w\<rparr>" "wl_deposit_index w = wl_deposit_index (db_wallet (ps_db s2))"
        "wl_change_index w = wl_change_index (db_wallet (ps_db s2))" "wl_rescan_timestamp w = None" "ps_alert s' = ps_alert s2"
      using s2(2) by (auto simp: complete_wallet_rescan_def split: option.splits)
    from updates_recorded [OF ok_t s2(1)] obtain current latest u txs where
      got: "chain_tip (ps_db t) = Some current" "extends_tip N current latest" "coherent_reads P A N descs (ps_db t) current latest u txs"
      "recorded L (ps_db t) latest u txs (ps_db s2)" "load_alert (ps_alert s2) = NoAlert" by blast
    have "recorded L (ps_db t) latest u txs (ps_db s')" unfolding w(1) by (rule recorded_wallet_row [OF got(4) w(2,3)])
    then show ?thesis using got w(1,4,5) False unfolding t
      by (intro exI [of _ current] exI [of _ latest] exI [of _ u] exI [of _ txs]) simp
  qed
qed

lemma poll_meets_spec:
  assumes vault: "vault_addresses A" and ok: "db_ok L A (ps_db s)" and run: "poll P A L N descs now s = (Inr (), s')"
  shows "poll_spec P A L N descs (ps_db s, ps_alert s) (ps_db s', ps_alert s')"
proof (cases "hc_failure (ps_history s') = None")
  case False
  obtain e t where t: "poll_result P A L N descs s = (Inl (Failed e), t)" "s' = fail_poll e now t"
    using poll_failed_result [OF run False] by blast
  then show ?thesis using poll_result_failed [OF t(1) refl] spec_failed [OF refl] by (auto simp: fail_poll_def)
next
  case True
  obtain t w where t: "poll_result P A L N descs s = (Inr (), t)" and s': "ps_db s' = (ps_db t)\<lparr>db_wallet := w\<rparr>" "ps_alert s' = ps_alert t"
    and w: "wl_deposit_index w = wl_deposit_index (db_wallet (ps_db t))" "wl_change_index w = wl_change_index (db_wallet (ps_db t))"
      "wl_rescan_timestamp w = wl_rescan_timestamp (db_wallet (ps_db t))"
    using run True by (auto simp: poll_def Let_def fail_poll_def poll_failed_def poll_done_def set_wallet_last_poll_timestamp_def complete_import_history_def
        split: prod.splits sum.splits poll_error.splits option.splits if_splits wallet_kind.splits)
  obtain current latest u txs where spec: "chain_tip (rollbacks (completed_rescan A N (ps_bit s) (ps_db s)) (ps_db s)) = Some current"
      "extends_tip N current latest" "coherent_reads P A N descs (rollbacks (completed_rescan A N (ps_bit s) (ps_db s)) (ps_db s)) current latest u txs"
      "recorded L (rollbacks (completed_rescan A N (ps_bit s) (ps_db s)) (ps_db s)) latest u txs (ps_db t)"
      "wl_rescan_timestamp (db_wallet (ps_db t)) = (if completed_rescan A N (ps_bit s) (ps_db s) = [] then wl_rescan_timestamp (db_wallet (ps_db s)) else None)"
      "load_alert (ps_alert t) = NoAlert"
    using poll_result_recorded [OF vault ok t refl] by blast
  have "recorded L (rollbacks (completed_rescan A N (ps_bit s) (ps_db s)) (ps_db s)) latest u txs (ps_db s')"
    unfolding s'(1) by (rule recorded_wallet_row [OF spec(4) w(1,2)])
  then show ?thesis using spec_recorded [OF refl spec(1-3)] spec(5,6) w(3) s' by simp
qed

section \<open>The thread\<close>

lemma poll_once_meets_spec:
  assumes "vault_addresses A" and "db_ok L A (ps_db (pl_state p))" and "poll_once P A L N descs now p = (Inr (), p')"
  shows "poll_spec P A L N descs (ps_db (pl_state p), ps_alert (pl_state p)) (ps_db (pl_state p'), ps_alert (pl_state p'))"
proof -
  let ?s = "apply_eager_request N (pl_state p)"
  have "ps_db ?s = ps_db (pl_state p)" "ps_alert ?s = ps_alert (pl_state p)"
    by (simp_all add: apply_eager_request_def take_eager_sync_request_def Let_def)
  then show ?thesis using assms poll_meets_spec [of A L ?s P N descs now "pl_state p'"] by (auto simp: poll_once_def split: prod.splits)
qed

lemma check_synced_alert: "check_synced N p = (r, p') \<Longrightarrow> ps_alert (pl_state p') = ps_alert (pl_state p)"
  by (auto simp: check_synced_def split: if_splits prod.splits sum.splits)

definition poll_reaches ::
  "poll_api \<Rightarrow> address_api \<Rightarrow> btc_api \<Rightarrow> 'b bitcoin_interface \<Rightarrow> descriptor list \<Rightarrow> 'b poller \<Rightarrow> 'b poller \<Rightarrow> bool" where
  "poll_reaches P A L N descs p p' \<longleftrightarrow>
     (poll_spec P A L N descs)\<^sup>*\<^sup>* (ps_db (pl_state p), ps_alert (pl_state p)) (ps_db (pl_state p'), ps_alert (pl_state p'))"

lemma poll_reaches_same:
  "\<lbrakk>ps_db (pl_state p') = ps_db (pl_state p); ps_alert (pl_state p') = ps_alert (pl_state p)\<rbrakk> \<Longrightarrow> poll_reaches P A L N descs p p'"
  by (simp add: poll_reaches_def)

lemma poll_reaches_once:
  assumes "vault_addresses A" and "db_ok L A (ps_db (pl_state p))" and "poll_once P A L N descs now q = (Inr (), p')"
    and "ps_db (pl_state q) = ps_db (pl_state p)" and "ps_alert (pl_state q) = ps_alert (pl_state p)"
  shows "poll_reaches P A L N descs p p'"
  using poll_once_meets_spec [of A L q P N descs now p'] assms by (auto simp: poll_reaches_def)

lemma event_meets_spec:
  assumes vault: "vault_addresses A" and ok: "db_ok L A (ps_db (pl_state p))"
  shows "run_immediate_poll P A L N descs maintenance now p = (Inr (), p') \<Longrightarrow> poll_reaches P A L N descs p p'"
    and "scheduled_poll P A L N descs maintenance now p = (Inr (), p') \<Longrightarrow> poll_reaches P A L N descs p p'"
proof -
  note once = poll_reaches_once [OF vault ok]
  assume run: "run_immediate_poll P A L N descs maintenance now p = (Inr (), p')"
  obtain r q where q: "check_synced N p = (r, q)" by (cases "check_synced N p")
  note same = check_synced_db [OF q] check_synced_alert [OF q]
  show "poll_reaches P A L N descs p p'"
    using run q same once [where q = "q\<lparr>pl_last_poll := Some now\<rparr>" and p' = p'] poll_reaches_same [where p = p and p' = p']
    by (auto simp: run_immediate_poll_def Let_def split: if_splits sum.splits)
next
  note once = poll_reaches_once [OF vault ok]
  assume run: "scheduled_poll P A L N descs maintenance now p = (Inr (), p')"
  obtain r q where q: "check_synced N (p\<lparr>pl_last_poll := Some now\<rparr>) = (r, q)" by (cases "check_synced N (p\<lparr>pl_last_poll := Some now\<rparr>)")
  note same = check_synced_db [OF q] check_synced_alert [OF q]
  show "poll_reaches P A L N descs p p'"
    using run q same once [where q = q and p' = p'] poll_reaches_same [where p = p and p' = p']
    by (auto simp: scheduled_poll_def Let_def split: if_splits sum.splits)
qed

text \<open>
  C33.  The poller thread refines a specification of its polls.  For any backend that reports amounts
  below \<open>2 ^ 63\<close> satoshis and any sequence of messages and timeouts, up to a shutdown or a closed
  channel and short of a panic, the database and the alert move by the polls of the specification and
  nothing else.  Each poll first rolls back to the start of a rescan exactly if one has completed.
  Then either it fails: it rolls back at most once more, by at most 500 blocks, and may raise an
  alert.  Or it records: the backend named a tip that is the stored one or extends its chain, named
  the same tip again after all the poll's reads, and the tables are exactly those reads applied to
  the old tables, with the rescan marker cleared if and only if a rescan has completed.
\<close>

theorem poller_refines_polls:
  assumes "sane_amounts N" and "vault_addresses A" and "db_ok L A (ps_db (pl_state p))"
    and "poll_forever P A L N descs events p = (Inr (), p')"
  shows "(poll_spec P A L N descs)\<^sup>*\<^sup>* (ps_db (pl_state p), ps_alert (pl_state p)) (ps_db (pl_state p'), ps_alert (pl_state p')) \<and>
    db_ok L A (ps_db (pl_state p'))"
  using assms(3,4)
proof (induction events arbitrary: p)
  case (Cons x events)
  obtain event now maintenance where x: "x = (event, now, maintenance)" by (cases x)
  show ?case
  proof (cases "event = Shutdown \<or> event = Disconnected")
    case False
    define handle where "handle = (if event = Timeout then scheduled_poll P A L N descs maintenance now p
      else run_immediate_poll P A L N descs maintenance now p)"
    obtain p1 where p1: "handle = (Inr (), p1)" "poll_forever P A L N descs events p1 = (Inr (), p')"
      using Cons.prems(2) False unfolding x poll_forever.simps handle_def [symmetric] by (auto split: prod.splits sum.splits)
    have "poll_reaches P A L N descs p p1"
      using event_meets_spec [OF assms(2) Cons.prems(1)] p1(1) unfolding handle_def by (auto split: if_splits)
    moreover have "(db_step L A)\<^sup>*\<^sup>* (ps_db (pl_state p)) (ps_db (pl_state p1))"
      using event_steps [OF assms(1)] p1(1) unfolding handle_def by (auto split: if_splits)
    from steps_ok(1) [OF this assms(2) Cons.prems(1)] have "db_ok L A (ps_db (pl_state p1))" .
    ultimately show ?thesis using Cons.IH [OF _ p1(2)] unfolding poll_reaches_def by (meson rtranclp_trans)
  qed (use Cons.prems x in auto)
qed simp

end
