(* ===== verification/Bitcoind_Poll.thy ===== *)
theory Bitcoind_Poll
  imports Poller
begin

text \<open>
  The bitcoind backend's reads for a poll: \<open>coincubed/src/bitcoin/d/poll.rs\<close>, its decoding in
  \<open>poll/parse.rs\<close>, and the poll methods of \<open>impl BitcoinInterface for BitcoinD\<close>
  (\<open>coincubed/src/bitcoin/mod.rs\<close>).  The node and its wallet are a parameter: one function per
  remote procedure, whose answers may change from call to call.  An answer is what the JSON accessors
  of the code see of it.
\<close>

section \<open>Remote procedure calls\<close>

type_synonym ('n, 'a) rpc = "'n \<Rightarrow> (string, 'a) res \<times> 'n"

definition rpc_ok :: "'a \<Rightarrow> ('n, 'a) rpc" where "rpc_ok x n = (Inr x, n)"
definition rpc_res :: "(string, 'a) res \<Rightarrow> ('n, 'a) rpc" where "rpc_res r n = (r, n)"

definition rpc_bind :: "('n, 'a) rpc \<Rightarrow> ('a \<Rightarrow> ('n, 'c) rpc) \<Rightarrow> ('n, 'c) rpc" where
  "rpc_bind m f n = (case m n of (Inl e, n') \<Rightarrow> (Inl e, n') | (Inr x, n') \<Rightarrow> f x n')"

text \<open>The errors a call can end in, as far as the polling reads tell them apart.\<close>

datatype bitcoind_error = PollAborted | RpcCode int string | OtherError string

definition is_unknown_to_wallet :: "bitcoind_error \<Rightarrow> bool" where
  "is_unknown_to_wallet e = (case e of RpcCode code _ \<Rightarrow> code = -5 | _ \<Rightarrow> False)"

text \<open>\<open>bitcoin::Block\<close>, and the transaction of \<open>gettransaction\<close>.\<close>

record node_block =
  nb_hash :: block_hash
  nb_height :: int
  nb_time :: nat

record get_tx_res =
  gt_conflicting_txs :: "txid list"
  gt_block :: "node_block option"
  gt_tx :: transaction
  gt_is_coinbase :: bool
  gt_confirmations :: int

definition has_assumed_confirmation :: "get_tx_res \<Rightarrow> bool" where
  "has_assumed_confirmation r \<longleftrightarrow> gt_block r \<noteq> None \<and> gt_confirmations r = 0"

text \<open>The decoded answers: a structure that does not deserialize is \<open>None\<close>.\<close>

record received_json =
  rj_txid :: txid
  rj_vout :: nat
  rj_amount :: "nat option"
    \<comment> \<open>\<open>Amount::from_btc\<close> of the number\<close>
  rj_blockheight :: "int option"
  rj_address :: string
  rj_parent_descs :: "string list"

record ls_entry =
  le_category :: "string option"
  le_txid :: "string option"
  le_received :: "received_json option"

record transaction_json =
  tj_hex :: string
  tj_confirmations :: int
  tj_confirmations_assumed :: "nat option"
  tj_blockhash :: "block_hash option"
  tj_blockheight :: "int option"
  tj_blocktime :: "nat option"
  tj_walletconflicts :: "txid list"
  tj_generated :: "bool option"

record header_json =
  hj_previousblockhash :: "string option option"
    \<comment> \<open>an absent field, and one that is no string\<close>
  hj_confirmations :: "int option"
  hj_height :: "int option"
  hj_time :: "int option"
  hj_mediantime :: "int option"

datatype txout_answer = TxOutNull | TxOutBestBlock | TxOutOther

record 'n node_rpc =
  poll_abort :: "'n \<Rightarrow> bool"
  getblockhash :: "int \<Rightarrow> 'n \<Rightarrow> (bitcoind_error, string option) res \<times> 'n"
  listsinceblock :: "block_hash \<Rightarrow> 'n \<Rightarrow> (bitcoind_error, ls_entry list option) res \<times> 'n"
  gettransaction :: "txid \<Rightarrow> 'n \<Rightarrow> (bitcoind_error, transaction_json option) res \<times> 'n"
  gettxout :: "outpoint \<Rightarrow> 'n \<Rightarrow> (bitcoind_error, txout_answer) res \<times> 'n"
  getmempoolentry :: "txid \<Rightarrow> 'n \<Rightarrow> (bitcoind_error, bool) res \<times> 'n"
    \<comment> \<open>whether the answer is an object\<close>
  getblockchaininfo :: "'n \<Rightarrow> (bitcoind_error, string option \<times> int option) res \<times> 'n"
    \<comment> \<open>\<open>bestblockhash\<close> and \<open>blocks\<close>\<close>
  getblockheader :: "block_hash \<Rightarrow> 'n \<Rightarrow> (bitcoind_error, header_json) res \<times> 'n"

record node_api =
  lib_error_text :: "bitcoind_error \<Rightarrow> string"
  lib_parse_txid :: "string \<Rightarrow> (string, txid) res"
  lib_parse_hash :: "string \<Rightarrow> (string, block_hash) res"
  lib_parse_desc :: "string \<Rightarrow> descriptor option"
  lib_from_hex :: "string \<Rightarrow> bytes option"

definition poll_request ::
  "'n node_rpc \<Rightarrow> ('n \<Rightarrow> (bitcoind_error, 'a) res \<times> 'n) \<Rightarrow> 'n \<Rightarrow> (bitcoind_error, 'a) res \<times> 'n" where
  "poll_request N request n =
     (if poll_abort N n then (Inl PollAborted, n)
      else (case request n of (result, n') \<Rightarrow> if poll_abort N n' then (Inl PollAborted, n') else (result, n')))"

definition poll_read :: "node_api \<Rightarrow> 'n node_rpc \<Rightarrow> ('n \<Rightarrow> (bitcoind_error, 'a) res \<times> 'n) \<Rightarrow> ('n, 'a) rpc" where
  \<comment> \<open>\<open>.map_err(|e| e.to_string())\<close>\<close>
  "poll_read M N request n = apfst (map_err (lib_error_text M)) (poll_request N request n)"

section \<open>Decoding\<close>

definition parse_received :: "node_api \<Rightarrow> ls_entry \<Rightarrow> (string, (utxo \<times> descriptor list) option) res" where
  "parse_received M entry =
     bind_res (ok_or ''Missing transaction category'' (le_category entry)) (\<lambda>category.
     if category \<notin> {''receive'', ''generate'', ''immature''} then Inr None
     else bind_res (ok_or ''Malformed received coin'' (le_received entry)) (\<lambda>item.
       guard_res (case rj_blockheight item of None \<Rightarrow> False | Some h \<Rightarrow> h < 0) ''Invalid received coin height''
       (bind_res (ok_or ''Invalid received amount'' (rj_amount item)) (\<lambda>amount.
        bind_res (collect_res (\<lambda>s. ok_or ''Invalid parent descriptor'' (lib_parse_desc M s)) (rj_parent_descs item)) (\<lambda>parents.
        Inr (Some (\<lparr>ux_outpoint = OutPoint (rj_txid item) (rj_vout item), ux_amount = amount,
          ux_block_height = rj_blockheight item, ux_address = UAddress (rj_address item),
          ux_is_immature = (category = ''immature'')\<rparr>, parents)))))))"

definition parse_coins :: "node_api \<Rightarrow> ls_entry list option \<Rightarrow> (string, (utxo \<times> descriptor list) list) res" where
  "parse_coins M answer = bind_res (ok_or ''Missing transaction list'' answer) (\<lambda>entries.
     bind_res (collect_res (parse_received M) entries) (\<lambda>found. Inr (List.map_filter id found)))"

definition parse_block :: "transaction_json \<Rightarrow> (string, node_block option) res" where
  "parse_block item = (case (tj_blockhash item, tj_blockheight item, tj_blocktime item) of
       (None, None, None) \<Rightarrow> if tj_confirmations item \<le> 0 then Inr None
         else Inl ''Inconsistent transaction confirmation metadata''
     | (Some hash, Some height, Some time) \<Rightarrow>
         if height \<ge> 0 \<and> (tj_confirmations item > 0 \<or> tj_confirmations item = 0 \<and>
           (case tj_confirmations_assumed item of None \<Rightarrow> False | Some n \<Rightarrow> n > 0))
         then Inr (Some \<lparr>nb_hash = hash, nb_height = height, nb_time = time\<rparr>)
         else Inl ''Inconsistent transaction confirmation metadata''
     | _ \<Rightarrow> Inl ''Inconsistent transaction confirmation metadata'')"

definition parse_transaction :: "node_api \<Rightarrow> btc_api \<Rightarrow> transaction_json option \<Rightarrow> txid \<Rightarrow> (string, get_tx_res) res" where
  "parse_transaction M L answer expected =
     bind_res (ok_or ''Malformed wallet transaction'' answer) (\<lambda>item.
     bind_res (ok_or ''Invalid transaction hex'' (lib_from_hex M (tj_hex item))) (\<lambda>bs.
     bind_res (ok_or ''Invalid transaction bytes'' (lib_deserialize L bs)) (\<lambda>tx.
     guard_res (lib_txid L tx \<noteq> expected) ''Wallet transaction id does not match the request''
     (guard_res (case tj_generated item of None \<Rightarrow> False | Some g \<Rightarrow> g \<noteq> lib_is_coinbase L tx) ''Inconsistent coinbase metadata''
     (bind_res (parse_block item) (\<lambda>block.
      Inr \<lparr>gt_conflicting_txs = tj_walletconflicts item, gt_block = block, gt_tx = tx,
        gt_is_coinbase = lib_is_coinbase L tx, gt_confirmations = tj_confirmations item\<rparr>))))))"

section \<open>The reads\<close>

definition try_get_block_hash :: "node_api \<Rightarrow> 'n node_rpc \<Rightarrow> int \<Rightarrow> ('n, block_hash option) rpc" where
  "try_get_block_hash M N height n = (case poll_request N (getblockhash N height) n of
       (Inr value, n') \<Rightarrow> (bind_res (ok_or ''Invalid block hash response'' value) (\<lambda>s.
         bind_res (lib_parse_hash M s) (\<lambda>h. Inr (Some h))), n')
     | (Inl (RpcCode code text), n') \<Rightarrow> if code = -8 then (Inr None, n') else (Inl (lib_error_text M (RpcCode code text)), n')
     | (Inl e, n') \<Rightarrow> (Inl (lib_error_text M e), n'))"

definition node_chain_tip :: "node_api \<Rightarrow> 'n node_rpc \<Rightarrow> ('n, block_chain_tip) rpc" where
  "node_chain_tip M N = rpc_bind (poll_read M N (getblockchaininfo N)) (\<lambda>(best, blocks). rpc_res (
     bind_res (ok_or ''Missing bestblockhash in getblockchaininfo'' best) (\<lambda>s.
     bind_res (lib_parse_hash M s) (\<lambda>hash.
     bind_res (ok_or ''Invalid blocks in getblockchaininfo'' (Option.bind blocks (\<lambda>h. if h \<ge> 0 then Some h else None))) (\<lambda>h.
     bind_res (ok_or ''Block height exceeds supported range'' (checked_i32 h)) (\<lambda>height.
     Inr \<lparr>bt_height = height, bt_hash = hash\<rparr>))))))"

definition try_list_since_block :: "node_api \<Rightarrow> 'n node_rpc \<Rightarrow> block_hash \<Rightarrow> ('n, (utxo \<times> descriptor list) list) rpc" where
  "try_list_since_block M N hash = rpc_bind (poll_read M N (listsinceblock N hash)) (\<lambda>answer. rpc_res (parse_coins M answer))"

definition try_get_transaction :: "node_api \<Rightarrow> btc_api \<Rightarrow> 'n node_rpc \<Rightarrow> txid \<Rightarrow> ('n, get_tx_res option) rpc" where
  "try_get_transaction M L N txid n = (case poll_request N (gettransaction N txid) n of
       (Inr value, n') \<Rightarrow> (bind_res (parse_transaction M L value txid) (\<lambda>r. Inr (Some r)), n')
     | (Inl e, n') \<Rightarrow> (if is_unknown_to_wallet e then Inr None else Inl (lib_error_text M e), n'))"

definition try_is_spent :: "node_api \<Rightarrow> 'n node_rpc \<Rightarrow> outpoint \<Rightarrow> ('n, bool) rpc" where
  "try_is_spent M N op = rpc_bind (poll_read M N (gettxout N op)) (\<lambda>value. rpc_res (case value of
     TxOutNull \<Rightarrow> Inr True | TxOutBestBlock \<Rightarrow> Inr False | TxOutOther \<Rightarrow> Inl ''Invalid gettxout response''))"

definition try_is_in_mempool :: "node_api \<Rightarrow> 'n node_rpc \<Rightarrow> txid \<Rightarrow> ('n, bool) rpc" where
  "try_is_in_mempool M N txid n = (case poll_request N (getmempoolentry N txid) n of
       (Inr is_object, n') \<Rightarrow> (if is_object then Inr True else Inl ''Invalid getmempoolentry response'', n')
     | (Inl e, n') \<Rightarrow> (if is_unknown_to_wallet e then Inr False else Inl (lib_error_text M e), n'))"

definition spends_outpoint :: "transaction \<Rightarrow> outpoint \<Rightarrow> bool" where
  "spends_outpoint tx op \<longleftrightarrow> (\<exists>i\<in>set (tx_input tx). ti_prev i = op)"

fun find_spender :: "node_api \<Rightarrow> btc_api \<Rightarrow> 'n node_rpc \<Rightarrow> outpoint \<Rightarrow> txid set \<Rightarrow> ls_entry list \<Rightarrow> ('n, txid option) rpc" where
  "find_spender M L N op visited [] = rpc_ok None"
| "find_spender M L N op visited (entry # entries) =
     (if le_category entry \<noteq> Some ''send'' then find_spender M L N op visited entries
      else rpc_bind (rpc_res (bind_res (ok_or ''Missing spender txid'' (le_txid entry)) (lib_parse_txid M))) (\<lambda>txid.
        if txid = op_txid op \<or> txid \<in> visited then find_spender M L N op visited entries
        else rpc_bind (try_get_transaction M L N txid) (\<lambda>found.
          rpc_bind (rpc_res (ok_or ''Spender disappeared during polling'' found)) (\<lambda>tx.
          if \<not> spends_outpoint (gt_tx tx) op then find_spender M L N op (insert txid visited) entries
          else rpc_bind (if gt_confirmations tx = 0 \<and> \<not> has_assumed_confirmation tx \<and> gt_conflicting_txs tx \<noteq> []
              then rpc_bind (try_is_in_mempool M N txid) (\<lambda>b. rpc_ok (\<not> b)) else rpc_ok False) (\<lambda>replaced.
            if replaced then find_spender M L N op (insert txid visited) entries else rpc_ok (Some txid))))))"

definition try_get_spender_txid :: "node_api \<Rightarrow> btc_api \<Rightarrow> 'n node_rpc \<Rightarrow> outpoint \<Rightarrow> ('n, txid option) rpc" where
  "try_get_spender_txid M L N op =
     rpc_bind (try_get_transaction M L N (op_txid op)) (\<lambda>parent. case parent of
       None \<Rightarrow> rpc_ok None
     | Some parent \<Rightarrow>
         rpc_bind (case gt_block parent of Some block \<Rightarrow> rpc_ok (nb_height block)
           | None \<Rightarrow> rpc_bind (node_chain_tip M N) (\<lambda>tip. rpc_ok (bt_height tip))) (\<lambda>height.
         rpc_bind (try_get_block_hash M N (saturating_sub_i32 height 1)) (\<lambda>found. case found of
             None \<Rightarrow> rpc_ok None
           | Some hash \<Rightarrow>
               rpc_bind (poll_read M N (listsinceblock N hash)) (\<lambda>value.
               rpc_bind (rpc_res (ok_or ''Missing transaction list'' value)) (\<lambda>transactions.
               find_spender M L N op {} transactions)))))"

definition header_number :: "string \<Rightarrow> int option \<Rightarrow> (string, int) res" where
  "header_number key value = ok_or (''Invalid block header field '' @ key) value"

definition checked_u32 :: "int \<Rightarrow> nat option" where
  "checked_u32 x = (if 0 \<le> x \<and> x < 2 ^ 32 then Some (nat x) else None)"

definition try_get_block_stats :: "node_api \<Rightarrow> 'n node_rpc \<Rightarrow> block_hash \<Rightarrow> ('n, block_stats) rpc" where
  "try_get_block_stats M N hash = rpc_bind (poll_read M N (getblockheader N hash)) (\<lambda>value. rpc_res (
     bind_res (case hj_previousblockhash value of None \<Rightarrow> Inr None
       | Some v \<Rightarrow> bind_res (ok_or ''Invalid previous block hash'' v) (\<lambda>s. bind_res (lib_parse_hash M s) (\<lambda>h. Inr (Some h)))) (\<lambda>previous.
     bind_res (bind_res (header_number ''confirmations'' (hj_confirmations value)) (\<lambda>x. ok_or ''Invalid confirmations'' (checked_i32 x))) (\<lambda>confirmations.
     bind_res (bind_res (header_number ''height'' (hj_height value)) (\<lambda>x. ok_or ''Invalid height'' (checked_i32 x))) (\<lambda>height.
     bind_res (bind_res (header_number ''time'' (hj_time value)) (\<lambda>x. ok_or ''Invalid time'' (checked_u32 x))) (\<lambda>time.
     bind_res (bind_res (header_number ''mediantime'' (hj_mediantime value)) (\<lambda>x. ok_or ''Invalid median time'' (checked_u32 x))) (\<lambda>median.
     Inr \<lparr>bs_confirmations = confirmations, bs_previous_blockhash = previous, bs_blockhash = hash, bs_height = height,
       bs_time = time, bs_median_time_past = median\<rparr>)))))))"

section \<open>The cache of one pass\<close>

type_synonym tx_cache = "(txid \<times> get_tx_res) list"

text \<open>\<open>CachedTxGetter\<close>: a transaction the wallet has is asked for once.\<close>

definition cached_get_transaction ::
  "node_api \<Rightarrow> btc_api \<Rightarrow> 'n node_rpc \<Rightarrow> txid \<Rightarrow> tx_cache \<Rightarrow> ('n, get_tx_res option \<times> tx_cache) rpc" where
  "cached_get_transaction M L N txid cache = (case map_of cache txid of
       Some tx \<Rightarrow> rpc_ok (Some tx, cache)
     | None \<Rightarrow> rpc_bind (try_get_transaction M L N txid) (\<lambda>tx.
         rpc_ok (tx, case tx of None \<Rightarrow> cache | Some r \<Rightarrow> (txid, r) # cache)))"

section \<open>The poll methods\<close>

definition COINBASE_MATURITY :: int where "COINBASE_MATURITY = 100"

record 'n bitcoind =
  bd_node :: 'n
  bd_replay :: wallet_record_replay
  bd_local_fork_chain :: bool
    \<comment> \<open>whether a chain other than the regular one was admitted\<close>

definition bd_replay_pending :: "'n bitcoind \<Rightarrow> nat option" where
  "bd_replay_pending b = (if bd_local_fork_chain b then None else replay_pending (bd_replay b))"

definition bd_is_in_chain :: "node_api \<Rightarrow> 'n node_rpc \<Rightarrow> block_chain_tip \<Rightarrow> ('n, bool) rpc" where
  "bd_is_in_chain M N tip = rpc_bind (try_get_block_hash M N (bt_height tip)) (\<lambda>h. rpc_ok (h = Some (bt_hash tip)))"

definition bd_received_coins ::
  "node_api \<Rightarrow> 'n node_rpc \<Rightarrow> nat option \<Rightarrow> block_chain_tip \<Rightarrow> descriptor list \<Rightarrow> ('n, utxo list) rpc" where
  "bd_received_coins M N pending tip descs =
     rpc_bind (if pending \<noteq> None
         then rpc_bind (try_get_block_hash M N 0) (\<lambda>h. rpc_res (ok_or ''Missing genesis for wallet record replay'' h))
         else rpc_ok (bt_hash tip)) (\<lambda>hash.
     rpc_bind (try_list_since_block M N hash) (\<lambda>entries.
     rpc_ok (map fst (filter (\<lambda>(u, parents). \<exists>parent\<in>set parents. parent \<in> set descs) entries))))"

fun bd_confirmed_loop ::
  "node_api \<Rightarrow> btc_api \<Rightarrow> 'n node_rpc \<Rightarrow> tx_cache \<Rightarrow> outpoint list \<Rightarrow> ('n, confirmed_coins) rpc" where
  "bd_confirmed_loop M L N cache [] = rpc_ok ([], [])"
| "bd_confirmed_loop M L N cache (op # ops) =
     rpc_bind (cached_get_transaction M L N (op_txid op) cache) (\<lambda>(found, cache).
     rpc_bind (case found of None \<Rightarrow> rpc_ok ([], [])
       | Some tx \<Rightarrow>
           if has_assumed_confirmation tx then rpc_ok ([], [])
           else (case gt_block tx of
               Some block \<Rightarrow> rpc_ok (if \<not> gt_is_coinbase tx \<or> gt_confirmations tx \<ge> COINBASE_MATURITY
                 then [(op, nb_height block, nb_time block)] else [], [])
             | None \<Rightarrow> rpc_bind (try_is_in_mempool M N (op_txid op)) (\<lambda>b. rpc_ok ([], if b then [] else [op])))) (\<lambda>(confirmed, expired).
     rpc_bind (bd_confirmed_loop M L N cache ops) (\<lambda>(more_confirmed, more_expired).
     rpc_ok (confirmed @ more_confirmed, expired @ more_expired))))"

definition bd_confirmed_coins :: "node_api \<Rightarrow> btc_api \<Rightarrow> 'n node_rpc \<Rightarrow> outpoint list \<Rightarrow> ('n, confirmed_coins) rpc" where
  "bd_confirmed_coins M L N = bd_confirmed_loop M L N []"

fun bd_spending_coins :: "node_api \<Rightarrow> btc_api \<Rightarrow> 'n node_rpc \<Rightarrow> outpoint list \<Rightarrow> ('n, (outpoint \<times> txid) list) rpc" where
  "bd_spending_coins M L N [] = rpc_ok []"
| "bd_spending_coins M L N (op # ops) =
     rpc_bind (try_is_spent M N op) (\<lambda>spent.
     rpc_bind (if spent then try_get_spender_txid M L N op else rpc_ok None) (\<lambda>spender.
     rpc_bind (bd_spending_coins M L N ops) (\<lambda>rest.
     rpc_ok (case spender of None \<Rightarrow> rest | Some txid \<Rightarrow> (op, txid) # rest))))"

text \<open>The loop over the conflicts of an unconfirmed spend: the confirmed one that spends the coin, if any,
  and whether one with assumed confirmations was passed that does.\<close>

fun find_conflict ::
  "node_api \<Rightarrow> btc_api \<Rightarrow> 'n node_rpc \<Rightarrow> outpoint \<Rightarrow> tx_cache \<Rightarrow> bool \<Rightarrow> txid list \<Rightarrow>
   ('n, ((txid \<times> node_block) option \<times> bool) \<times> tx_cache) rpc" where
  "find_conflict M L N op cache assumed [] = rpc_ok ((None, assumed), cache)"
| "find_conflict M L N op cache assumed (conflict # rest) =
     rpc_bind (cached_get_transaction M L N conflict cache) (\<lambda>(found, cache). case found of
       None \<Rightarrow> find_conflict M L N op cache assumed rest
     | Some other \<Rightarrow>
         if has_assumed_confirmation other
         then find_conflict M L N op cache (assumed \<or> spends_outpoint (gt_tx other) op) rest
         else (case gt_block other of
             None \<Rightarrow> find_conflict M L N op cache assumed rest
           | Some block \<Rightarrow> if spends_outpoint (gt_tx other) op then rpc_ok ((Some (conflict, block), assumed), cache)
               else find_conflict M L N op cache assumed rest))"

definition bd_spent_one ::
  "node_api \<Rightarrow> btc_api \<Rightarrow> 'n node_rpc \<Rightarrow> tx_cache \<Rightarrow> outpoint \<Rightarrow> txid \<Rightarrow> ('n, (spent_coin list \<times> outpoint list) \<times> tx_cache) rpc" where
  "bd_spent_one M L N cache op txid =
     rpc_bind (cached_get_transaction M L N txid cache) (\<lambda>(found, cache). case found of
         None \<Rightarrow> rpc_ok (([], []), cache)
       | Some tx \<Rightarrow>
           if has_assumed_confirmation tx then rpc_ok (([], []), cache)
           else (case gt_block tx of
               Some block \<Rightarrow> rpc_ok (([(op, txid, nb_height block, nb_time block)], []), cache)
             | None \<Rightarrow> rpc_bind (find_conflict M L N op cache False (gt_conflicting_txs tx)) (\<lambda>((conflict, assumed), cache).
                 case conflict of
                   Some (other, block) \<Rightarrow> rpc_ok (([(op, other, nb_height block, nb_time block)], []), cache)
                 | None \<Rightarrow> if assumed then rpc_ok (([], []), cache)
                     else rpc_bind (try_is_in_mempool M N txid) (\<lambda>b. rpc_ok (([], if b then [] else [op]), cache)))))"

fun bd_spent_loop ::
  "node_api \<Rightarrow> btc_api \<Rightarrow> 'n node_rpc \<Rightarrow> tx_cache \<Rightarrow> (outpoint \<times> txid) list \<Rightarrow> ('n, spent_coin list \<times> outpoint list) rpc" where
  "bd_spent_loop M L N cache [] = rpc_ok ([], [])"
| "bd_spent_loop M L N cache ((op, txid) # ops) =
     rpc_bind (bd_spent_one M L N cache op txid) (\<lambda>((spent, expired), cache).
     rpc_bind (bd_spent_loop M L N cache ops) (\<lambda>(more_spent, more_expired).
     rpc_ok (spent @ more_spent, expired @ more_expired)))"

definition bd_spent_coins ::
  "node_api \<Rightarrow> btc_api \<Rightarrow> 'n node_rpc \<Rightarrow> (outpoint \<times> txid) list \<Rightarrow> ('n, spent_coin list \<times> outpoint list) rpc" where
  "bd_spent_coins M L N = bd_spent_loop M L N []"

definition bd_wallet_transaction ::
  "node_api \<Rightarrow> btc_api \<Rightarrow> 'n node_rpc \<Rightarrow> txid \<Rightarrow> ('n, (transaction \<times> block_info option) option) rpc" where
  "bd_wallet_transaction M L N txid = rpc_bind (try_get_transaction M L N txid) (\<lambda>found. rpc_ok (map_option (\<lambda>tx.
     (gt_tx tx, if has_assumed_confirmation tx then None
       else map_option (\<lambda>b. \<lparr>bi_height = nb_height b, bi_time = nb_time b\<rparr>) (gt_block tx))) found))"

text \<open>
  The backend as the poller sees it.  The methods that are not modelled here keep the values of the
  interface \<open>other\<close>: the synchronization and rescan percentages, the genesis block, and the two
  searches of \<open>Chain_Lookup\<close> on a node that changes while they run.
\<close>

definition on_node :: "('n, 'a) rpc \<Rightarrow> 'n bitcoind \<Rightarrow> (string, 'a) res \<times> 'n bitcoind" where
  "on_node m b = (case m (bd_node b) of (r, n) \<Rightarrow> (r, b\<lparr>bd_node := n\<rparr>))"

definition bitcoind_interface ::
  "node_api \<Rightarrow> btc_api \<Rightarrow> 'n node_rpc \<Rightarrow> 'n bitcoind bitcoin_interface \<Rightarrow> 'n bitcoind bitcoin_interface" where
  "bitcoind_interface M L N other = other\<lparr>
     try_chain_tip := on_node (node_chain_tip M N),
     try_is_in_chain := (\<lambda>tip. on_node (bd_is_in_chain M N tip)),
     sync_wallet := (\<lambda>receive change h b. (Inr None, h, b)),
     try_received_coins := (\<lambda>tip descs b. on_node (bd_received_coins M N (bd_replay_pending b) tip descs) b),
     try_historical_received_coins := (\<lambda>tip descs b. on_node (bd_received_coins M N (bd_replay_pending b) tip descs) b),
     try_confirmed_coins := (\<lambda>ops. on_node (bd_confirmed_coins M L N ops)),
     try_spending_coins := (\<lambda>ops. on_node (bd_spending_coins M L N ops)),
     try_spent_coins := (\<lambda>ops. on_node (bd_spent_coins M L N ops)),
     try_wallet_transaction := (\<lambda>txid. on_node (bd_wallet_transaction M L N txid)),
     walks_common_ancestor := (\<lambda>_. True),
     wallet_record_replay_pending := bd_replay_pending,
     acknowledge_wallet_record_replay := (\<lambda>ticket b. b\<lparr>bd_replay := replay_acknowledge ticket (bd_replay b)\<rparr>),
     bit_request_eager_sync := (\<lambda>b. b),
     is_bitcoind := (\<lambda>_. True)\<rparr>"

section \<open>Which spends are reported\<close>

text \<open>A node that does not change while one pass reads it, and what its wallet knows.\<close>

definition steady :: "'n node_rpc \<Rightarrow> 'n \<Rightarrow> bool" where
  "steady N n \<longleftrightarrow> (\<forall>t. snd (gettransaction N t n) = n) \<and> (\<forall>t. snd (getmempoolentry N t n) = n)"

definition wallet_tx :: "node_api \<Rightarrow> btc_api \<Rightarrow> 'n node_rpc \<Rightarrow> 'n \<Rightarrow> txid \<Rightarrow> get_tx_res option" where
  "wallet_tx M L N n t = (case fst (try_get_transaction M L N t n) of Inl _ \<Rightarrow> None | Inr found \<Rightarrow> found)"

definition in_mempool :: "node_api \<Rightarrow> 'n node_rpc \<Rightarrow> 'n \<Rightarrow> txid \<Rightarrow> bool" where
  "in_mempool M N n t \<longleftrightarrow> fst (try_is_in_mempool M N t n) = Inr True"

definition validated_block :: "get_tx_res \<Rightarrow> node_block option" where
  "validated_block r = (if has_assumed_confirmation r then None else gt_block r)"

definition confirmed_spender :: "node_api \<Rightarrow> btc_api \<Rightarrow> 'n node_rpc \<Rightarrow> 'n \<Rightarrow> outpoint \<Rightarrow> txid \<Rightarrow> bool" where
  "confirmed_spender M L N n op t = (case wallet_tx M L N n t of None \<Rightarrow> False
     | Some r \<Rightarrow> validated_block r \<noteq> None \<and> spends_outpoint (gt_tx r) op)"

definition assumed_spender :: "node_api \<Rightarrow> btc_api \<Rightarrow> 'n node_rpc \<Rightarrow> 'n \<Rightarrow> outpoint \<Rightarrow> txid \<Rightarrow> bool" where
  "assumed_spender M L N n op t = (case wallet_tx M L N n t of None \<Rightarrow> False
     | Some r \<Rightarrow> has_assumed_confirmation r \<and> spends_outpoint (gt_tx r) op)"

definition spent_by :: "node_api \<Rightarrow> btc_api \<Rightarrow> 'n node_rpc \<Rightarrow> 'n \<Rightarrow> outpoint \<Rightarrow> txid \<Rightarrow> spent_coin option" where
  \<comment> \<open>the recorded spender once it is confirmed, else the first of its conflicts that is and spends the coin\<close>
  "spent_by M L N n op t = (case wallet_tx M L N n t of None \<Rightarrow> None
     | Some r \<Rightarrow> (case gt_block r of
         Some b \<Rightarrow> if gt_confirmations r = 0 then None else Some (op, t, nb_height b, nb_time b)
       | None \<Rightarrow> (case find (confirmed_spender M L N n op) (gt_conflicting_txs r) of
           None \<Rightarrow> None
         | Some c \<Rightarrow> map_option (\<lambda>b. (op, c, nb_height b, nb_time b)) (Option.bind (wallet_tx M L N n c) gt_block))))"

definition spend_gone :: "node_api \<Rightarrow> btc_api \<Rightarrow> 'n node_rpc \<Rightarrow> 'n \<Rightarrow> outpoint \<Rightarrow> txid \<Rightarrow> bool" where
  \<comment> \<open>neither confirmed nor in the mempool, and no conflict that spends the coin is in a block\<close>
  "spend_gone M L N n op t = (case wallet_tx M L N n t of None \<Rightarrow> False
     | Some r \<Rightarrow> gt_block r = None \<and> \<not> in_mempool M N n t \<and>
         list_all (\<lambda>c. \<not> confirmed_spender M L N n op c \<and> \<not> assumed_spender M L N n op c) (gt_conflicting_txs r))"

lemma rpc_bind_Inr: "rpc_bind m f n = (Inr y, n'') \<longleftrightarrow> (\<exists>x n'. m n = (Inr x, n') \<and> f x n' = (Inr y, n''))"
  by (auto simp: rpc_bind_def split: prod.splits sum.splits)

lemma rpc_ok_eq [simp]: "rpc_ok x n = (r, n') \<longleftrightarrow> r = Inr x \<and> n' = n"
  by (auto simp: rpc_ok_def)

lemma rpc_res_eq [simp]: "rpc_res q n = (r, n') \<longleftrightarrow> r = q \<and> n' = n"
  by (auto simp: rpc_res_def)

lemma steady_reads:
  assumes "steady N n"
  shows "snd (try_get_transaction M L N t n) = n" "snd (try_is_in_mempool M N t n) = n"
  using assms unfolding steady_def try_get_transaction_def try_is_in_mempool_def poll_request_def
  by (auto split: prod.splits sum.splits) (metis snd_conv)+

definition tx_cache_ok :: "node_api \<Rightarrow> btc_api \<Rightarrow> 'n node_rpc \<Rightarrow> 'n \<Rightarrow> tx_cache \<Rightarrow> bool" where
  "tx_cache_ok M L N n cache \<longleftrightarrow> (\<forall>t r. map_of cache t = Some r \<longrightarrow> wallet_tx M L N n t = Some r)"

lemma cached_get:
  assumes "steady N n" and "tx_cache_ok M L N n cache" and "cached_get_transaction M L N t cache n = (Inr (found, cache'), n')"
  shows "found = wallet_tx M L N n t" "tx_cache_ok M L N n cache'" "n' = n"
proof -
  have "found = wallet_tx M L N n t \<and> tx_cache_ok M L N n cache' \<and> n' = n"
  proof (cases "map_of cache t")
    case None
    then obtain m where m: "try_get_transaction M L N t n = (Inr found, m)" "m = n'" "cache' = (case found of None \<Rightarrow> cache | Some r \<Rightarrow> (t, r) # cache)"
      using assms(3) by (auto simp: cached_get_transaction_def rpc_bind_Inr)
    moreover have "n' = n" using steady_reads(1) [OF assms(1), of M L t] m by simp
    moreover have "wallet_tx M L N n t = found" using m(1) by (simp add: wallet_tx_def)
    ultimately show ?thesis using assms(2) by (auto simp: tx_cache_ok_def split: option.splits)
  qed (use assms(2,3) in \<open>auto simp: cached_get_transaction_def tx_cache_ok_def\<close>)
  then show "found = wallet_tx M L N n t" "tx_cache_ok M L N n cache'" "n' = n" by auto
qed

lemma find_conflict_exact:
  assumes "steady N n" and "tx_cache_ok M L N n cache"
    and "find_conflict M L N op cache assumed cs n = (Inr ((conflict, assumed'), cache'), n')"
  shows "n' = n \<and> tx_cache_ok M L N n cache' \<and>
    conflict = Option.bind (find (confirmed_spender M L N n op) cs) (\<lambda>c. map_option (Pair c) (Option.bind (wallet_tx M L N n c) gt_block)) \<and>
    (find (confirmed_spender M L N n op) cs = None \<longrightarrow> (assumed' \<longleftrightarrow> assumed \<or> list_ex (assumed_spender M L N n op) cs))"
  using assms(2,3)
proof (induction cs arbitrary: cache assumed)
  case (Cons c cs)
  obtain found cache1 n1 where get: "cached_get_transaction M L N c cache n = (Inr (found, cache1), n1)"
    using Cons.prems(2) by (auto simp: rpc_bind_Inr)
  note get' = cached_get [OF assms(1) Cons.prems(1) get]
  have rest: "(case found of
       None \<Rightarrow> find_conflict M L N op cache1 assumed cs
     | Some other \<Rightarrow>
         if has_assumed_confirmation other
         then find_conflict M L N op cache1 (assumed \<or> spends_outpoint (gt_tx other) op) cs
         else (case gt_block other of
             None \<Rightarrow> find_conflict M L N op cache1 assumed cs
           | Some block \<Rightarrow> if spends_outpoint (gt_tx other) op then rpc_ok ((Some (c, block), assumed), cache1)
               else find_conflict M L N op cache1 assumed cs)) n = (Inr ((conflict, assumed'), cache'), n')"
    using Cons.prems(2) get get'(3) by (simp add: rpc_bind_def)
  note spenders = confirmed_spender_def [of M L N n op c] assumed_spender_def [of M L N n op c]
  show ?case
  proof (cases "wallet_tx M L N n c")
    case None
    then show ?thesis using rest get'(1) Cons.IH [OF get'(2)] by (simp add: spenders)
  next
    case (Some r)
    show ?thesis
    proof (cases "validated_block r \<noteq> None \<and> spends_outpoint (gt_tx r) op")
      case True
      then show ?thesis using rest get' Some by (auto simp: spenders validated_block_def split: if_splits)
    next
      case False
      then have "find_conflict M L N op cache1 (assumed \<or> assumed_spender M L N n op c) cs n = (Inr ((conflict, assumed'), cache'), n')"
        using rest get'(1) Some by (auto simp: spenders validated_block_def split: if_splits option.splits)
      note ih = Cons.IH [OF get'(2) this]
      have "\<not> confirmed_spender M L N n op c" using False Some by (simp add: spenders(1))
      then show ?thesis using ih by simp
    qed
  qed
qed (auto simp: rpc_ok_def)

definition exact_outcome ::
  "node_api \<Rightarrow> btc_api \<Rightarrow> 'n node_rpc \<Rightarrow> 'n \<Rightarrow> outpoint \<Rightarrow> txid \<Rightarrow> spent_coin list \<Rightarrow> outpoint list \<Rightarrow> bool" where
  "exact_outcome M L N n op t spent expired \<longleftrightarrow> spent = (case spent_by M L N n op t of None \<Rightarrow> [] | Some y \<Rightarrow> [y]) \<and>
     expired = (if spend_gone M L N n op t then [op] else [])"

lemma unconfirmed_outcome:
  assumes steady: "steady N n" and ok: "tx_cache_ok M L N n cache" and tx: "wallet_tx M L N n t = Some r" "gt_block r = None"
    and fc: "find_conflict M L N op cache False (gt_conflicting_txs r) n = (Inr ((conflict, assumed), cache'), n')"
    and last: "(case conflict of
         Some (other, block) \<Rightarrow> rpc_ok (([(op, other, nb_height block, nb_time block)], []), cache')
       | None \<Rightarrow> if assumed then rpc_ok (([], []), cache')
           else rpc_bind (try_is_in_mempool M N t) (\<lambda>b. rpc_ok (([], if b then [] else [op]), cache'))) n' = (Inr ((s1, e1), cache2), n2)"
  shows "n2 = n \<and> tx_cache_ok M L N n cache2 \<and> exact_outcome M L N n op t s1 e1"
proof (cases "find (confirmed_spender M L N n op) (gt_conflicting_txs r)")
  case (Some c)
  then have c: "confirmed_spender M L N n op c" "c \<in> set (gt_conflicting_txs r)" by (auto simp: find_Some_iff)
  then obtain q b where "wallet_tx M L N n c = Some q" "gt_block q = Some b"
    by (auto simp: confirmed_spender_def validated_block_def split: option.splits if_splits)
  then show ?thesis using find_conflict_exact [OF steady ok fc] last Some tx c
    by (auto simp: exact_outcome_def spent_by_def spend_gone_def list_all_iff)
next
  case None
  then have conf: "conflict = None" "n' = n" "tx_cache_ok M L N n cache'" "assumed = list_ex (assumed_spender M L N n op) (gt_conflicting_txs r)"
    using find_conflict_exact [OF steady ok fc] by auto
  have gone: "spend_gone M L N n op t \<longleftrightarrow> \<not> in_mempool M N n t \<and> \<not> assumed"
    using None tx conf(4) by (auto simp: spend_gone_def list_all_iff list_ex_iff find_None_iff)
  have unspent: "spent_by M L N n op t = None" using None tx by (simp add: spent_by_def)
  show ?thesis
  proof (cases assumed)
    case False
    then obtain b where "try_is_in_mempool M N t n = (Inr b, n2)" "s1 = []" "e1 = (if b then [] else [op])" "cache2 = cache'"
      using last conf by (auto simp: rpc_bind_Inr)
    then show ?thesis using steady_reads(2) [OF steady, of M t] gone unspent conf(3) False by (auto simp: exact_outcome_def in_mempool_def)
  qed (use last conf gone unspent in \<open>simp add: exact_outcome_def\<close>)
qed

lemma bd_spent_one_exact:
  assumes "steady N n" and "tx_cache_ok M L N n cache" and "bd_spent_one M L N cache op t n = (Inr ((s1, e1), cache2), n2)"
  shows "n2 = n \<and> tx_cache_ok M L N n cache2 \<and> exact_outcome M L N n op t s1 e1"
proof -
  obtain found cache1 n1 where get: "cached_get_transaction M L N t cache n = (Inr (found, cache1), n1)"
    using assms(3) by (auto simp: bd_spent_one_def rpc_bind_Inr)
  note get' = cached_get [OF assms(1,2) get]
  show ?thesis
  proof (cases "wallet_tx M L N n t")
    case None
    then show ?thesis using assms(3) get get' by (simp add: bd_spent_one_def rpc_bind_def exact_outcome_def spent_by_def spend_gone_def)
  next
    case tx: (Some r)
    show ?thesis
    proof (cases "gt_block r")
      case (Some b)
      then show ?thesis using assms(3) get get' tx
        by (auto simp: bd_spent_one_def rpc_bind_def exact_outcome_def spent_by_def spend_gone_def has_assumed_confirmation_def split: if_splits)
    next
      case None
      then show ?thesis using assms(3) get get' tx unconfirmed_outcome [OF assms(1) get'(2) tx None]
        by (auto simp: bd_spent_one_def has_assumed_confirmation_def rpc_bind_Inr)
    qed
  qed
qed

lemma bd_spent_loop_exact:
  assumes "steady N n" and "tx_cache_ok M L N n cache" and "bd_spent_loop M L N cache ops n = (Inr (spent, expired), n')"
  shows "spent = List.map_filter (\<lambda>(op, t). spent_by M L N n op t) ops \<and>
    expired = map fst (filter (\<lambda>(op, t). spend_gone M L N n op t) ops)"
  using assms(2,3)
proof (induction ops arbitrary: cache spent expired)
  case (Cons x ops)
  obtain op t where x: "x = (op, t)" by force
  obtain s1 e1 cache2 n2 s2 e2 where one: "bd_spent_one M L N cache op t n = (Inr ((s1, e1), cache2), n2)"
    and rest: "bd_spent_loop M L N cache2 ops n2 = (Inr (s2, e2), n')" and app: "spent = s1 @ s2" "expired = e1 @ e2"
    using Cons.prems(2) by (auto simp: x rpc_bind_Inr)
  show ?case using bd_spent_one_exact [OF assms(1) Cons.prems(1) one] Cons.IH [of cache2 s2 e2] rest app
    by (auto simp: x exact_outcome_def map_filter_def split: option.splits)
qed (auto simp: rpc_ok_def map_filter_def)

text \<open>
  C38. What the bitcoind backend reports of the coins being spent: on a node that does not change
  while the pass reads it, a coin is reported as spent exactly when its recorded spender has
  validated confirmations, or when that spender is in no block and one of its conflicts that spends the
  coin has them; the first such conflict is then named.  A coin is reported as no longer spent
  exactly when its spender is in no block and not in the mempool and no conflict spending the coin
  is in a block, not even one whose confirmations are only assumed.  The cache of the pass does not
  show.
\<close>

theorem bd_spent_coins_exact:
  assumes "steady N n" and "bd_spent_coins M L N ops n = (Inr (spent, expired), n')"
  shows "spent = List.map_filter (\<lambda>(op, t). spent_by M L N n op t) ops \<and>
    expired = map fst (filter (\<lambda>(op, t). spend_gone M L N n op t) ops)"
  using bd_spent_loop_exact [OF assms(1) _ assms(2) [unfolded bd_spent_coins_def]] by (simp add: tx_cache_ok_def)

end
