(* ===== verification/Wallet_Examples.thy ===== *)
theory Wallet_Examples
  imports Wallet_State
begin

text \<open>
  Concrete databases on which the hypotheses of the wallet-database results hold: addresses that
  spell out their branch and index, a small database with two transactions, and new Vault and
  imported databases.
\<close>

section \<open>Addresses\<close>

definition toy_address :: "bool \<Rightarrow> nat \<Rightarrow> string" where
  "toy_address b i = (if b then CHR ''c'' else CHR ''r'') # replicate i (CHR ''x'')"

definition toy_addresses :: address_api where
  "toy_addresses = \<lparr>lib_vault_address = (\<lambda>d b n i. toy_address b i),
     lib_branch_address = (\<lambda>d b n i. if i < 2 ^ 31 then Inr (toy_address b i) else Inl NoDerivation),
     lib_imported_parses = (\<lambda>r c chain. True)\<rparr>"

lemma toy_address_inj: "toy_address b i = toy_address c j \<longleftrightarrow> b = c \<and> i = j"
  by (auto simp: toy_address_def dest: arg_cong [where f = length])

lemma toy_laws: "vault_addresses toy_addresses" "branch_addresses toy_addresses desc network"
  by (auto simp: vault_addresses_def branch_addresses_def toy_addresses_def toy_address_inj split: if_splits)

section \<open>A small database\<close>

definition toy_tx :: "nat \<Rightarrow> outpoint \<Rightarrow> transaction" where
  "toy_tx lt p = \<lparr>tx_version = 2, tx_lock_time = lt,
     tx_input = [\<lparr>ti_prev = p, ti_script_sig = [], ti_sequence = 0, ti_witness = []\<rparr>],
     tx_output = [\<lparr>to_value = 1000, to_script = []\<rparr>]\<rparr>"

definition toy_id :: "nat \<Rightarrow> txid" where
  "toy_id n = le_bytes 4 n @ replicate 28 0"

lemma toy_id_eq: "toy_id n = toy_id m \<longleftrightarrow> le_bytes 4 n = le_bytes 4 m"
  by (simp add: toy_id_def)

lemma toy_ids: "toy_id 1 \<noteq> toy_id 2" "toy_id 2 \<noteq> toy_id 1" "toy_id 1 \<noteq> toy_id 3" "toy_id 3 \<noteq> toy_id 1"
  "toy_id 2 \<noteq> toy_id 3" "toy_id 3 \<noteq> toy_id 2"
  unfolding toy_id_eq by (simp_all add: le_bytes_numeral)

definition toy_row :: "outpoint \<Rightarrow> int option \<Rightarrow> nat option \<Rightarrow> txid option \<Rightarrow> coin_row" where
  "toy_row p h t sp = \<lparr>cr_blockheight = h, cr_blocktime = t, cr_outpoint = p, cr_amount_sat = 1000, cr_derivation_index = 0,
     cr_is_change = False, cr_spend_txid = sp, cr_spend_block_height = None, cr_spend_block_time = None,
     cr_is_immature = False, cr_is_from_self = False\<rparr>"

definition toy_tx_row :: "nat \<Rightarrow> outpoint \<Rightarrow> tx_row" where
  "toy_tx_row n p = \<lparr>tr_txid = toy_id n, tr_tx = toy_tx n p, tr_num_inputs = Some 1, tr_num_outputs = Some 1, tr_is_coinbase = False\<rparr>"

text \<open>A coin confirmed at height 100, spent by an unconfirmed transaction that pays the wallet back.\<close>

definition toy_db :: wallet_db where
  "toy_db = (fresh_tables Regtest \<lparr>wl_timestamp = 0, wl_kind = VaultKind (Descriptor ''toy''), wl_deposit_index = 0,
       wl_change_index = 0, wl_rescan_timestamp = None, wl_last_poll_timestamp = None\<rparr> None)\<lparr>
     db_transactions := [toy_tx_row 1 (OutPoint (toy_id 9) 0), toy_tx_row 2 (OutPoint (toy_id 1) 0)],
     db_coins := [toy_row (OutPoint (toy_id 1) 0) (Some 100) (Some 7) (Some (toy_id 2)), toy_row (OutPoint (toy_id 2) 0) None None None]\<rparr>"

lemmas toy_defs = toy_db_def fresh_tables_def toy_row_def toy_tx_row_def toy_tx_def

lemma toy_coins_ok: "coins_ok toy_db"
  using toy_ids by (simp add: coins_ok_def wf_coin_row_def coin_refs_def saved_txids_def toy_defs)

lemma toy_txs_ok: "txs_ok demo_api toy_db"
  using toy_ids by (simp add: txs_ok_def saved_txids_def toy_defs demo_api_def demo_txid_def toy_id_def)

lemma toy_spends: "spends_are_inputs toy_db"
  using toy_ids by (simp add: spends_are_inputs_def prevouts_def toy_defs)

theorem coins_query_exact_witness:
  "\<exists>cs. coins [Spending] [] toy_db = Some cs \<and>
     map Some cs = map coin_of_row [toy_row (OutPoint (toy_id 1) 0) (Some 100) (Some 7) (Some (toy_id 2))]"
proof -
  have rows: "filter (\<lambda>c. ([Spending] = [] \<or> row_status c \<in> set [Spending]) \<and> ([] = ([] :: outpoint list) \<or> cr_outpoint c \<in> set []))
      (db_coins toy_db) = [toy_row (OutPoint (toy_id 1) 0) (Some 100) (Some 7) (Some (toy_id 2))]"
    by (simp add: toy_defs row_status_def)
  show ?thesis using coins_query_exact [OF toy_coins_ok, of "[Spending]" "[]"] unfolding rows by blast
qed

theorem rollback_exact_witness:
  "chain_tip (rollback_tip \<lparr>bt_height = 99, bt_hash = []\<rparr> toy_db) = Some \<lparr>bt_height = 99, bt_hash = []\<rparr> \<and>
   list_all (\<lambda>c. cr_blockheight c = None) (db_coins (rollback_tip \<lparr>bt_height = 99, bt_hash = []\<rparr> toy_db)) \<and>
   rollback_tip \<lparr>bt_height = 50, bt_hash = []\<rparr> (rollback_tip \<lparr>bt_height = 99, bt_hash = []\<rparr> toy_db) =
     rollback_tip \<lparr>bt_height = 50, bt_hash = []\<rparr> toy_db"
  using rollback_exact [OF toy_coins_ok _ refl, of "\<lparr>bt_height = 50, bt_hash = []\<rparr>" "\<lparr>bt_height = 99, bt_hash = []\<rparr>"]
  by (simp add: rollback_tip_def toy_defs unconfirm_above_def unconfirm_spend_above_def forget_from_self_def above_def)

lemma toy_from_self: "from_self 99 toy_db (OutPoint (toy_id 2) 0)"
proof -
  let ?c = "toy_row (OutPoint (toy_id 2) 0) None None None"
  have "from_self 99 toy_db (cr_outpoint ?c)"
    by (rule from_self.created [where r = "toy_tx_row 2 (OutPoint (toy_id 1) 0)"])
      (use toy_ids in \<open>simp_all add: toy_defs spends_from_def\<close>)
  then show ?thesis by (simp add: toy_row_def)
qed

theorem update_coins_from_self_exact_witness:
  "\<exists>db. update_coins_from_self 99 toy_db = Some db \<and> map cr_is_from_self (db_coins db) = [from_self 99 toy_db (OutPoint (toy_id 1) 0), True]"
  using update_coins_from_self_exact [OF toy_coins_ok toy_txs_ok toy_spends, of 99] toy_from_self
  by (simp add: toy_defs)

section \<open>New databases\<close>

definition toy_imported :: imported_descriptor where
  "toy_imported = \<lparr>id_chain = Regtest, id_receive = ''r'', id_change = ''c''\<rparr>"

definition toy_vault_db :: "wallet_db" where
  "toy_vault_db = (case create_fresh_db toy_addresses Regtest (Descriptor ''toy'') 0 of Inr db \<Rightarrow> db | Inl _ \<Rightarrow> toy_db)"

lemma toy_vault:
  "create_fresh_db toy_addresses Regtest (Descriptor ''toy'') 0 = Inr toy_vault_db" "db_ok L toy_addresses toy_vault_db"
  "wallet_desc toy_addresses toy_vault_db = Some (Vault (Descriptor ''toy''))" "wl_kind (db_wallet toy_vault_db) = VaultKind (Descriptor ''toy'')"
  "db_tip toy_vault_db = \<lparr>tp_network = Net_Regtest, tp_chain = ''regtest'', tp_block_height = None, tp_block_hash = None\<rparr>"
  "wl_deposit_index (db_wallet toy_vault_db) = 0" "wl_change_index (db_wallet toy_vault_db) = 0"
  "db_coins toy_vault_db = []" "db_transactions toy_vault_db = []"
proof -
  obtain w rows where db: "create_fresh_db toy_addresses Regtest (Descriptor ''toy'') 0 = Inr ((fresh_tables Regtest w None)\<lparr>db_addresses := rows\<rparr>)"
    and w: "wl_kind w = VaultKind (Descriptor ''toy'')" "wl_deposit_index w = 0" "wl_change_index w = 0"
    and ok: "addresses_ok toy_addresses ((fresh_tables Regtest w None)\<lparr>db_addresses := rows\<rparr>)"
    using create_fresh_db_ok [OF toy_laws, of Regtest "Descriptor ''toy''" 0] by blast
  have v: "toy_vault_db = (fresh_tables Regtest w None)\<lparr>db_addresses := rows\<rparr>" using db by (simp add: toy_vault_db_def)
  show "create_fresh_db toy_addresses Regtest (Descriptor ''toy'') 0 = Inr toy_vault_db" using db v by simp
  show "db_ok L toy_addresses toy_vault_db" unfolding v using ok by (rule fresh_db_ok)
  show "wallet_desc toy_addresses toy_vault_db = Some (Vault (Descriptor ''toy''))" "wl_kind (db_wallet toy_vault_db) = VaultKind (Descriptor ''toy'')"
    "db_tip toy_vault_db = \<lparr>tp_network = Net_Regtest, tp_chain = ''regtest'', tp_block_height = None, tp_block_hash = None\<rparr>"
    "wl_deposit_index (db_wallet toy_vault_db) = 0" "wl_change_index (db_wallet toy_vault_db) = 0"
    "db_coins toy_vault_db = []" "db_transactions toy_vault_db = []"
    using w by (simp_all add: v wallet_desc_def fresh_tables_def)
qed

lemma toy_addresses_ok: "addresses_ok toy_addresses toy_vault_db"
  using toy_vault(2) [of demo_api] by (simp add: db_ok_def)

lemma toy_indices: "branch_index b toy_vault_db = 0" "highest_index toy_vault_db = 0" "lookahead toy_vault_db = 200"
  using toy_vault(4,6,7) by (simp_all add: branch_index_def highest_index_def lookahead_def LOOK_AHEAD_LIMIT_def)

theorem set_derivation_index_exact_witness:
  "\<exists>rows. set_derivation_index toy_addresses 5 True toy_vault_db = Some ((set_branch_index True 5 toy_vault_db)\<lparr>db_addresses := rows\<rparr>) \<and>
     length rows = 205"
  using set_derivation_index_exact [OF toy_addresses_ok, of 5 True] toy_indices highest_set [of True toy_vault_db 5]
  by (auto simp: addresses_ok_def)

theorem address_lookup_exact_witness:
  "derivation_index_by_address (toy_address True 199) toy_vault_db = Some (Some (199, True)) \<and>
   derivation_index_by_address (toy_address True 200) toy_vault_db = Some None"
proof -
  have addr: "lib_branch_address toy_addresses (Vault (Descriptor ''toy'')) True (tp_network (db_tip toy_vault_db)) i = Inr (toy_address True i)"
    if "i < 2 ^ 31" for i using that by (simp add: toy_addresses_def)
  note look = address_lookup_exact [OF toy_addresses_ok toy_vault(3), THEN conjunct1, rule_format, OF addr, unfolded toy_indices]
  show ?thesis using look [of 199] look [of 200] by simp
qed

theorem reachable_db_ok_witness:
  "db_ok demo_api toy_addresses (rollback_tip \<lparr>bt_height = 1, bt_hash = []\<rparr> toy_vault_db)"
proof -
  have "db_reachable demo_api toy_addresses toy_vault_db"
    by (rule db_reachable.new_vault [OF toy_vault(1)]) (rule toy_laws)
  then have "db_reachable demo_api toy_addresses (rollback_tip \<lparr>bt_height = 1, bt_hash = []\<rparr> toy_vault_db)"
    by (rule db_reachable.step) (rule step_rollback)
  from reachable_db_ok [OF toy_laws(1) this] show ?thesis by blast
qed

lemma toy_reservable: "reservable demo_api toy_addresses (Vault (Descriptor ''toy'')) Net_Regtest toy_vault_db"
  using toy_laws(1) toy_vault by (simp add: reservable_def)

lemma toy_reserve: "\<exists>db'. reserve_next toy_addresses Regtest (Vault (Descriptor ''toy'')) True None toy_vault_db = (Some 1, db')"
  using allocate_change_outcome [OF toy_addresses_ok toy_laws(1) toy_vault(4), of Regtest 1 None] toy_vault(5) toy_indices
  by (auto simp: reserve_next_def LOOK_AHEAD_LIMIT_def)

theorem reserved_indices_unique_witness:
  "\<exists>db'. grants (reserve_next toy_addresses Regtest (Vault (Descriptor ''toy'')) True) (db_step demo_api toy_addresses) toy_vault_db [1] db' \<and>
     derivation_index_by_address (toy_address True 1) db' = Some (Some (1, True))"
proof -
  obtain db' where "reserve_next toy_addresses Regtest (Vault (Descriptor ''toy'')) True None toy_vault_db = (Some 1, db')"
    using toy_reserve by blast
  then have run: "grants (reserve_next toy_addresses Regtest (Vault (Descriptor ''toy'')) True) (db_step demo_api toy_addresses) toy_vault_db [1] db'"
    by (rule grants.grant) (rule grants.finished)
  from reserved_indices_unique [OF toy_reservable run] run show ?thesis by (auto simp: toy_addresses_def)
qed

theorem commit_change_exact_witness:
  "(\<exists>db'. commit_change_if_next toy_addresses Regtest (Descriptor ''toy'') 1 toy_vault_db = (Inr True, db') \<and> branch_index True db' = 1) \<and>
   commit_change_if_next toy_addresses Regtest (Descriptor ''toy'') 2 toy_vault_db = (Inr False, toy_vault_db)"
  using commit_change_exact [OF toy_vault(2) toy_laws(1) toy_vault(4), of 1 Regtest "Descriptor ''toy''" demo_api]
    commit_change_exact [OF toy_vault(2) toy_laws(1) toy_vault(4), of 2 Regtest "Descriptor ''toy''" demo_api] toy_vault(5) toy_indices
  by (auto simp: LOOK_AHEAD_LIMIT_def)

section \<open>Drafts\<close>

definition toy_psbt :: psbt where
  "toy_psbt = \<lparr>ps_unsigned_tx = toy_tx 1 (OutPoint (toy_id 9) 0), ps_version = 0, ps_xpub = [], ps_proprietary = [],
     ps_unknown = [], ps_inputs = [psbt_in_default], ps_outputs = [psbt_out_default]\<rparr>"

definition toy_drafts :: wallet_db where
  "toy_drafts = store_spend demo_api 5 toy_psbt toy_db"

lemma toy_drafts_ok: "drafts_ok demo_api toy_drafts"
  unfolding toy_drafts_def by (rule drafts_ok_store) (simp add: drafts_ok_def toy_defs)

lemma toy_drafts_spends: "db_spends toy_drafts = [\<lparr>sp_psbt = toy_psbt, sp_txid = toy_id 1, sp_updated_at = Some 5, sp_broadcast_txid = None\<rparr>]"
  by (simp add: toy_drafts_def store_spend_def toy_db_def fresh_tables_def toy_psbt_def toy_tx_def demo_api_def demo_txid_def toy_id_def Let_def)

theorem broadcast_recorded_once_witness:
  "\<exists>db'. record_broadcast_txid (toy_id 1) (toy_id 2) toy_drafts = Some db' \<and>
     spend_broadcast_txid (toy_id 1) db' = Some (Some (toy_id 2)) \<and> record_broadcast_txid (toy_id 1) (toy_id 1) db' = None"
proof -
  obtain db' where rec: "record_broadcast_txid (toy_id 1) (toy_id 2) toy_drafts = Some db'"
    by (auto simp: record_broadcast_txid_def toy_drafts_spends records_broadcast_def)
  from broadcast_recorded_once [OF toy_drafts_ok rec] rec toy_ids show ?thesis by auto
qed

end
