(* ===== verification/Poller_Examples.thy ===== *)
theory Poller_Examples
  imports Poller_Total Poller_Refines Bitcoind_Poll Wallet_Examples
begin

text \<open>
  A small backend on which the hypotheses of the poller's results hold, and the run of a poll on a
  bitcoind wallet in which a replaced transaction's replacement was mined between two polls.
\<close>

section \<open>Chain lookups\<close>

definition toy_hash :: "int \<Rightarrow> block_hash option" where
  "toy_hash h = (if 0 \<le> h \<and> h \<le> 3 then Some [of_int h] else None)"

definition toy_stats :: "block_hash \<Rightarrow> block_stats option" where
  "toy_stats hash = (case hash of [x] \<Rightarrow> Some \<lparr>bs_confirmations = 1, bs_previous_blockhash = None, bs_blockhash = hash,
     bs_height = uint x, bs_time = 10 + 10 * unat x, bs_median_time_past = 0\<rparr> | _ \<Rightarrow> None)"

lemma toy_search: "block_before_date 25 \<lparr>bt_height = 3, bt_hash = [3]\<rparr> toy_hash toy_stats = Some (Some \<lparr>bt_height = 1, bt_hash = [1]\<rparr>)"
  by (simp add: block_before_date_def toy_hash_def toy_stats_def search_before.simps [of _ _ _ 0 3] search_before.simps [of _ _ _ 0 1]
      search_before.simps [of _ _ _ 1 1] checked_i32_def)

theorem block_before_date_exact_witness:
  "block_before_date 25 \<lparr>bt_height = 3, bt_hash = [3]\<rparr> toy_hash toy_stats = Some (Some \<lparr>bt_height = 1, bt_hash = [1]\<rparr>) \<and>
   separates (time_at toy_hash toy_stats) 25 1"
  using block_before_date_exact [of toy_hash "\<lparr>bt_height = 3, bt_hash = [3]\<rparr>" _ toy_stats 25, OF _ _ _ refl] toy_search
  by (simp add: toy_hash_def)

section \<open>A backend\<close>

definition toy_block :: "nat \<Rightarrow> block_chain_tip" where
  "toy_block h = \<lparr>bt_height = int h, bt_hash = [of_nat h]\<rparr>"

definition toy_backend :: "(string, block_chain_tip) res \<Rightarrow> utxo list \<Rightarrow> unit bitcoin_interface" where
  "toy_backend tip received = \<lparr>try_chain_tip = (\<lambda>b. (tip, b)), try_is_in_chain = (\<lambda>t b. (Inr True, b)),
     sync_wallet = (\<lambda>r c h b. (Inr None, h, b)), try_received_coins = (\<lambda>t ds b. (Inr received, b)),
     try_historical_received_coins = (\<lambda>t ds b. (Inr received, b)), try_confirmed_coins = (\<lambda>ops b. (Inr ([], []), b)),
     try_spending_coins = (\<lambda>ops b. (Inr [], b)), try_spent_coins = (\<lambda>ops b. (Inr ([], []), b)),
     try_wallet_transaction = (\<lambda>t b. (Inr (if t = toy_id 1 then Some (toy_tx 1 (OutPoint (toy_id 9) 0), None) else None), b)),
     bit_common_ancestor = (\<lambda>t d b. (SearchFailed, b)), walks_common_ancestor = (\<lambda>b. True),
     try_rescan_progress = (\<lambda>b. (Inr False, b)), try_block_before_date = (\<lambda>d b. (Inr None, b)),
     genesis_block = (\<lambda>b. (Inr (toy_block 0), b)), wallet_record_replay_pending = (\<lambda>b. None),
     acknowledge_wallet_record_replay = (\<lambda>t b. b), try_sync_progress = (\<lambda>b. (Inr True, b)),
     bit_request_eager_sync = (\<lambda>b. b), is_bitcoind = (\<lambda>b. False)\<rparr>"

definition toy_utxo :: "nat \<Rightarrow> utxo" where
  "toy_utxo i = \<lparr>ux_outpoint = OutPoint (toy_id 1) 0, ux_amount = 1000, ux_block_height = None, ux_address = DerivIndex i False,
     ux_is_immature = False\<rparr>"

definition toy_poll_api :: poll_api where
  "toy_poll_api = \<lparr>lib_require_network = (\<lambda>a n. True), lib_desc_address = (\<lambda>d n i. Inr (toy_address False i)),
     lib_coin_order = (\<lambda>cs. cs), lib_txid_order = (\<lambda>ts. ts), lib_import_error = ''''\<rparr>"

definition toy_state :: "unit poller_state" where
  "toy_state = \<lparr>ps_bit = (), ps_db = update_tip (toy_block 0) toy_vault_db, ps_alert = 0, ps_history = new_history_cache\<rparr>"

lemma toy_orders: "hash_orders toy_poll_api"
  by (simp add: hash_orders_def toy_poll_api_def)

lemma toy_sane: "sane_amounts (toy_backend tip [])" "sane_amounts (toy_backend tip [toy_utxo i])"
  by (auto simp: sane_amounts_def toy_backend_def toy_utxo_def)

lemma toy_backend_laws: "lists_once (toy_backend tip [toy_utxo i])" "answers_txid demo_api (toy_backend tip [toy_utxo i])"
  by (auto simp: lists_once_def answers_txid_def toy_backend_def toy_tx_def demo_api_def demo_txid_def toy_id_def
      split: if_splits)

lemma toy_state_touches: "touches_coins toy_vault_db (ps_db toy_state)"
  by (simp add: toy_state_def touches_coins_def update_tip_def set_tip_def)

lemma toy_state_db: "db_ok L toy_addresses (ps_db toy_state)" "chain_tip (ps_db toy_state) = Some (toy_block 0)"
  "db_coins (ps_db toy_state) = []" "db_transactions (ps_db toy_state) = []" "lookahead (ps_db toy_state) = 200"
  "branch_index b (ps_db toy_state) = 0"
proof -
  show tables: "db_coins (ps_db toy_state) = []" "db_transactions (ps_db toy_state) = []"
    by (simp_all add: toy_state_def update_tip_def toy_vault)
  show "db_ok L toy_addresses (ps_db toy_state)"
    by (rule touches_coins_ok [OF toy_state_touches toy_vault(2)]) (simp_all add: coins_ok_def txs_ok_def saved_txids_def tables)
  show "chain_tip (ps_db toy_state) = Some (toy_block 0)"
    by (simp add: toy_state_def update_tip_def set_tip_def chain_tip_def toy_block_def)
  show "lookahead (ps_db toy_state) = 200" "branch_index b (ps_db toy_state) = 0"
    using toy_indices(3) toy_vault(6,7) by (simp_all add: toy_state_def update_tip_def lookahead_def branch_index_def)
qed

definition toy_poller :: "unit poller" where
  "toy_poller = \<lparr>pl_state = toy_state, pl_synced = False, pl_last_poll = None\<rparr>"

section \<open>An update that is recorded\<close>

definition toy_updated :: updated_coins where
  "toy_updated = \<lparr>uc_receive_index = 5, uc_change_index = 0, uc_received = [new_coin (toy_utxo 5) 5 False], uc_confirmed = [(OutPoint (toy_id 1) 0, 1, 3)],
     uc_expired = [], uc_spending = [], uc_expired_spending = [], uc_spent = []\<rparr>"

lemma toy_records: "\<exists>s'. record_updates toy_addresses demo_api (toy_block 0) (toy_block 1) toy_updated [toy_tx 1 (OutPoint (toy_id 9) 0)] toy_state = (Inr (), s')"
  by (rule record_updates_runs)
    (simp_all add: toy_state_db saved_txids_def toy_updated_def toy_utxo_def toy_tx_def demo_api_def demo_txid_def toy_id_def)

theorem record_updates_exact_witness:
  "\<exists>s'. record_updates toy_addresses demo_api (toy_block 0) (toy_block 1) toy_updated [toy_tx 1 (OutPoint (toy_id 9) 0)] toy_state = (Inr (), s') \<and>
     map cr_blockheight (db_coins (ps_db s')) = [Some 1] \<and> chain_tip (ps_db s') = Some (toy_block 1) \<and> branch_index False (ps_db s') = 5"
proof -
  obtain s' where run: "record_updates toy_addresses demo_api (toy_block 0) (toy_block 1) toy_updated [toy_tx 1 (OutPoint (toy_id 9) 0)] toy_state = (Inr (), s')"
    using toy_records by blast
  note exact = record_updates_exact [OF toy_state_db(1,2) run]
  have "map cr_blockheight (db_coins (ps_db s')) = map (cr_blockheight \<circ> unmarked) (db_coins (ps_db s'))" by (simp add: unmarked_def)
  also have "\<dots> = map cr_blockheight (map unmarked (updated_rows toy_updated []))" using exact toy_state_db(3) by (metis map_map)
  finally show ?thesis using run exact toy_state_db(6)
    by (simp add: updated_rows_def toy_updated_def unmarked_def received_row_def toy_utxo_def new_coin_def confirm_row_def
        unspend_row_def spending_row_def spent_row_def overwrite_def)
qed

section \<open>A poll that fails\<close>

lemma toy_reads: "db_chain_tip (ps_db toy_state) = Some (Some (toy_block 0))" "receive_index toy_addresses (ps_db toy_state) = Some 0"
  "change_index toy_addresses (ps_db toy_state) = Some 0" "rescan_timestamp toy_addresses (ps_db toy_state) \<noteq> None"
  "tip_decodes (ps_db toy_state)" "addresses_ok toy_addresses (ps_db toy_state)"
proof -
  show ok: "addresses_ok toy_addresses (ps_db toy_state)" using toy_state_db(1) [of demo_api] by (simp add: db_ok_def)
  show dec: "tip_decodes (ps_db toy_state)" using ok by (simp add: addresses_ok_def)
  show "db_chain_tip (ps_db toy_state) = Some (Some (toy_block 0))" using dec by (simp add: db_chain_tip_def toy_state_db(2))
  show "receive_index toy_addresses (ps_db toy_state) = Some 0" "change_index toy_addresses (ps_db toy_state) = Some 0"
    using indices_read [OF ok] by (simp_all add: toy_state_db(6))
  show "rescan_timestamp toy_addresses (ps_db toy_state) \<noteq> None"
    using toy_vault(3) by (simp add: rescan_timestamp_def toy_state_def update_tip_def wallet_desc_def)
qed

definition no_tip :: "unit bitcoin_interface" where
  "no_tip = toy_backend (Inl ''node unavailable'') []"

lemmas poll_evals = poll_result_def observe_rescan_def act_bind_def call_def read_db_def lift_res_def act_ok_def act_err_def ask_def
  set_alert_def write_db_def when_act_def updates_def latest_tip_def sync_call_def new_tip_def ANCESTOR_LOOKUP_ATTEMPTS_def

lemma no_tip_fails: "\<exists>f s'. poll toy_poll_api toy_addresses demo_api no_tip [] 7 toy_state = (Inr (), s') \<and> hc_failure (ps_history s') = Some f"
proof -
  obtain started where started: "rescan_timestamp toy_addresses (ps_db toy_state) = Some started" using toy_reads(4) by blast
  have "\<exists>e s'. poll_result toy_poll_api toy_addresses demo_api no_tip [] toy_state = (Inl (Failed e), s')"
    using toy_reads by (cases started) (simp_all add: poll_evals numeral_3_eq_3 started no_tip_def toy_backend_def)
  then show ?thesis by (auto simp: poll_def Let_def fail_poll_def poll_failed_def split: option.splits)
qed

theorem failed_poll_safe_witness:
  "\<exists>s'. poll toy_poll_api toy_addresses demo_api no_tip [] 7 toy_state = (Inr (), s') \<and> hc_failure (ps_history s') \<noteq> None \<and>
     db_transactions (ps_db s') = [] \<and> map cr_outpoint (db_coins (ps_db s')) = []"
proof -
  obtain f s' where run: "poll toy_poll_api toy_addresses demo_api no_tip [] 7 toy_state = (Inr (), s')" "hc_failure (ps_history s') = Some f"
    using no_tip_fails by blast
  then have "hc_failure (ps_history s') \<noteq> None" by simp
  from failed_poll_safe [OF run(1) this refl] run toy_state_db(3,4) show ?thesis by auto
qed

section \<open>A poll that exhausts the address index\<close>

definition far_backend :: "unit bitcoin_interface" where
  "far_backend = toy_backend (Inr (toy_block 1)) [toy_utxo (2 ^ 31 - 1)]"

lemma far_tip: "latest_tip far_backend (toy_block 0) 0 0 toy_state = (Inr (toy_block 1), toy_state)"
  by (simp add: poll_evals numeral_3_eq_3 far_backend_def toy_backend_def toy_block_def)

lemma map_one:
  assumes "ux_address u = DerivIndex i False" and "0 < i" and "ux_outpoint u \<notin> known"
  shows "map_pending P descs net replay complete db known h
      \<lparr>sn_receive_index = 0, sn_change_index = 0, sn_received = [], sn_unresolved = []\<rparr> [u] =
    Inr \<lparr>sn_receive_index = i, sn_change_index = 0, sn_received = [new_coin u i False], sn_unresolved = []\<rparr>"
  using assms by (simp add: map_pending.simps [of _ _ _ _ _ _ _ _ _ "[u]"] scan_utxo_def map_utxo_def raise_index_def)

lemma toy_state_bit [simp]: "toy_state\<lparr>ps_bit := b\<rparr> = toy_state"
  by (simp add: toy_state_def)

lemma far_update: "update_coins toy_poll_api toy_addresses far_backend (toy_block 0) [] toy_state =
    (Inr \<lparr>uc_receive_index = 2 ^ 31 - 1, uc_change_index = 0, uc_received = [new_coin (toy_utxo (2 ^ 31 - 1)) (2 ^ 31 - 1) False],
      uc_confirmed = [], uc_expired = [], uc_spending = [], uc_expired_spending = [], uc_spent = []\<rparr>, toy_state)"
  using toy_reads
  by (simp add: update_coins_def poll_evals far_backend_def toy_backend_def db_network_def coins_def list_spending_coins_def
      select_coins_where_def toy_state_db history_pending_def map_one toy_utxo_def spending_pairs_def toy_poll_api_def)

lemma far_collect: "collect_txs toy_poll_api far_backend
    \<lparr>uc_receive_index = 2 ^ 31 - 1, uc_change_index = 0, uc_received = [new_coin (toy_utxo (2 ^ 31 - 1)) (2 ^ 31 - 1) False],
      uc_confirmed = [], uc_expired = [], uc_spending = [], uc_expired_spending = [], uc_spent = []\<rparr> toy_state =
    (Inr [toy_tx 1 (OutPoint (toy_id 9) 0)], toy_state)"
  by (simp add: collect_txs_def missing_txids_def saved_txids_def toy_state_db poll_evals toy_poll_api_def far_backend_def toy_backend_def toy_utxo_def)

lemma far_panics: "\<exists>s'. updates toy_poll_api toy_addresses demo_api far_backend [] toy_state = (Inl Panic, s')"
proof -
  obtain db where db: "new_txs demo_api [toy_tx 1 (OutPoint (toy_id 9) 0)] (ps_db toy_state) = Some db"
    using new_txs_total [of "[toy_tx 1 (OutPoint (toy_id 9) 0)]" demo_api "ps_db toy_state"] by (auto simp: toy_tx_def)
  have id: "same_identity (ps_db toy_state) db" by (rule touches_coins_identity [OF new_txs_touches [OF db]])
  have ok: "addresses_ok toy_addresses db" using addresses_ok_cong [OF id] toy_reads(6) by blast
  have idx: "branch_index b db = 0" "lookahead db = 200" for b
    using same_identity_index [OF id] lookahead_kind [of db "ps_db toy_state"] id toy_state_db(5,6) by (auto simp: same_identity_def)
  have "set_derivation_index toy_addresses (2 ^ 31 - 1) False db = None"
    using set_derivation_index_outcome [OF ok, of "2 ^ 31 - 1" False] idx by simp
  then have rec: "record_updates toy_addresses demo_api (toy_block 0) (toy_block 1)
      \<lparr>uc_receive_index = 2 ^ 31 - 1, uc_change_index = 0, uc_received = [new_coin (toy_utxo (2 ^ 31 - 1)) (2 ^ 31 - 1) False],
        uc_confirmed = [], uc_expired = [], uc_spending = [], uc_expired_spending = [], uc_spent = []\<rparr>
      [toy_tx 1 (OutPoint (toy_id 9) 0)] toy_state = (Inl Panic, toy_state\<lparr>ps_db := db, ps_alert := 0\<rparr>)"
    using db indices_read [OF ok] idx by (simp add: poll_evals record_updates_def raise_indices_def)
  have "try_chain_tip far_backend () = (Inr (toy_block 1), ())" by (simp add: far_backend_def toy_backend_def)
  then show ?thesis using toy_reads far_tip far_update far_collect rec by (simp add: updates_def act_bind_def read_db_def call_def)
qed

theorem updates_panic_witness:
  "\<exists>latest s1 u s2 s'. updates toy_poll_api toy_addresses demo_api far_backend [] toy_state = (Inl Panic, s') \<and>
     update_coins toy_poll_api toy_addresses far_backend (toy_block 0) [] s1 = (Inr u, s2) \<and> (index_exhausted (ps_db toy_state) u \<or> unknown_spender (ps_db toy_state) u) \<and>
     latest_tip far_backend (toy_block 0) (branch_index False (ps_db toy_state)) (branch_index True (ps_db toy_state)) toy_state = (Inr latest, s1)"
proof -
  obtain s' where run: "updates toy_poll_api toy_addresses demo_api far_backend [] toy_state = (Inl Panic, s')" using far_panics by blast
  from updates_panic [OF toy_state_db(1,2) toy_orders toy_backend_laws [of "Inr (toy_block 1)" "2 ^ 31 - 1", folded far_backend_def], of "[]"] run
  show ?thesis by blast
qed

section \<open>A poll that finds only a new tip\<close>

definition quiet_backend :: "unit bitcoin_interface" where
  "quiet_backend = toy_backend (Inr (toy_block 1)) []"

lemma quiet_poll: "\<exists>s'. poll toy_poll_api toy_addresses demo_api quiet_backend [] 7 toy_state = (Inr (), s')"
proof -
  let ?u = "\<lparr>uc_receive_index = 0, uc_change_index = 0, uc_received = [], uc_confirmed = [], uc_expired = [], uc_spending = [],
    uc_expired_spending = [], uc_spent = []\<rparr>"
  have tip: "latest_tip quiet_backend (toy_block 0) 0 0 toy_state = (Inr (toy_block 1), toy_state)"
    by (simp add: poll_evals numeral_3_eq_3 quiet_backend_def toy_backend_def toy_block_def)
  have upd: "update_coins toy_poll_api toy_addresses quiet_backend (toy_block 0) [] toy_state = (Inr ?u, toy_state)"
    using toy_reads
    by (simp add: update_coins_def poll_evals quiet_backend_def toy_backend_def db_network_def coins_def list_spending_coins_def
        select_coins_where_def toy_state_db history_pending_def map_pending.simps [of _ _ _ _ _ _ _ _ _ "[]"] spending_pairs_def toy_poll_api_def)
  have col: "collect_txs toy_poll_api quiet_backend ?u toy_state = (Inr [], toy_state)"
    by (simp add: collect_txs_def missing_txids_def poll_evals toy_poll_api_def)
  obtain s' where rec: "record_updates toy_addresses demo_api (toy_block 0) (toy_block 1) ?u [] toy_state = (Inr (), s')"
    using record_updates_runs [of demo_api toy_addresses toy_state "[]" ?u "toy_block 0" "toy_block 1"] toy_state_db by auto
  have "try_chain_tip quiet_backend () = (Inr (toy_block 1), ())" by (simp add: quiet_backend_def toy_backend_def)
  then have run: "updates toy_poll_api toy_addresses demo_api quiet_backend [] toy_state = (Inr (), s')"
    using toy_reads tip upd col rec by (simp add: updates_def act_bind_def read_db_def call_def)
  obtain started where started: "rescan_timestamp toy_addresses (ps_db toy_state) = Some started" using toy_reads(4) by blast
  have idle: "try_rescan_progress quiet_backend () = (Inr False, ())" "try_block_before_date quiet_backend d () = (Inr None, ())"
    "wallet_record_replay_pending quiet_backend b = None" for d b
    by (simp_all add: quiet_backend_def toy_backend_def)
  show ?thesis
  proof (cases started)
    case None
    then have "poll_result toy_poll_api toy_addresses demo_api quiet_backend [] toy_state = (Inr (), s')"
      using run started idle by (simp add: poll_result_def observe_rescan_def act_bind_def call_def read_db_def act_ok_def)
    then show ?thesis using import_history_completes [of "ps_history s'" _ _ "ps_db s'"] idle
      by (auto simp: poll_def Let_def split: option.split)
  next
    case (Some timestamp)
    then have "\<exists>e t. poll_result toy_poll_api toy_addresses demo_api quiet_backend [] toy_state = (Inl (Failed e), t)"
      using started idle by (simp add: poll_result_def observe_rescan_def act_bind_def call_def read_db_def lift_res_def)
    then show ?thesis by (auto simp: poll_def Let_def)
  qed
qed

theorem poller_refines_polls_witness:
  "\<exists>p. poll_forever toy_poll_api toy_addresses demo_api quiet_backend [] [(PollNow, 7, False), (Shutdown, 8, False)] toy_poller = (Inr (), p) \<and>
     (poll_spec toy_poll_api toy_addresses demo_api quiet_backend [])\<^sup>*\<^sup>* (ps_db toy_state, 0) (ps_db (pl_state p), ps_alert (pl_state p)) \<and>
     db_ok demo_api toy_addresses (ps_db (pl_state p))"
proof -
  have start: "apply_eager_request quiet_backend toy_state = toy_state" "is_bitcoind quiet_backend b = False"
      "try_sync_progress quiet_backend b = (Inr True, b)" for b
    by (simp_all add: apply_eager_request_def take_eager_sync_request_def toy_state_def new_history_cache_def Let_def quiet_backend_def toy_backend_def)
  obtain p where run: "poll_forever toy_poll_api toy_addresses demo_api quiet_backend [] [(PollNow, 7, False), (Shutdown, 8, False)] toy_poller = (Inr (), p)"
    using quiet_poll start
    by (auto simp: run_immediate_poll_def paused_for_node_maintenance_def check_synced_def poll_once_def Let_def toy_poller_def)
  have sane: "sane_amounts quiet_backend" unfolding quiet_backend_def by (rule toy_sane(1))
  have ok: "db_ok demo_api toy_addresses (ps_db (pl_state toy_poller))" using toy_state_db(1) by (simp add: toy_poller_def)
  show ?thesis using poller_refines_polls [OF sane toy_laws(1) ok run] run by (intro exI [of _ p]) (simp add: toy_poller_def toy_state_def)
qed

section \<open>A replacement mined between two polls\<close>

text \<open>
  The wallet of \<open>toy_db\<close>, whose coin \<open>1:0\<close> the database records as being spent by transaction 2.
  Transaction 3 has replaced it and was mined in block 101; bitcoind reports transaction 2 with
  -1 confirmations, and lists it before transaction 3.
\<close>

definition race_tx :: "string \<Rightarrow> int \<Rightarrow> int option \<Rightarrow> txid list \<Rightarrow> transaction_json" where
  "race_tx hex confirmations height conflicts = \<lparr>tj_hex = hex, tj_confirmations = confirmations, tj_confirmations_assumed = None,
     tj_blockhash = map_option (\<lambda>h. [1]) height, tj_blockheight = height, tj_blocktime = map_option (\<lambda>h. 8) height,
     tj_walletconflicts = conflicts, tj_generated = None\<rparr>"

definition race_entry :: "string \<Rightarrow> ls_entry" where
  "race_entry t = \<lparr>le_category = Some ''send'', le_txid = Some t, le_received = None\<rparr>"

definition race_node :: "unit node_rpc" where
  "race_node = \<lparr>poll_abort = (\<lambda>n. False),
     getblockhash = (\<lambda>h n. (Inr (Some (if h = 101 then ''bb'' else if h = 100 then ''b'' else [])), n)),
     listsinceblock = (\<lambda>h n. (Inr (Some (if h = [] then [race_entry ''tt'', race_entry ''ttt''] else [])), n)),
     gettransaction = (\<lambda>t n. (if t = toy_id 1 then Inr (Some (race_tx ''t'' 2 (Some 100) []))
       else if t = toy_id 2 then Inr (Some (race_tx ''tt'' (-1) None [toy_id 3]))
       else if t = toy_id 3 then Inr (Some (race_tx ''ttt'' 1 (Some 101) [toy_id 2]))
       else Inl (RpcCode (-5) []), n)),
     gettxout = (\<lambda>p n. (Inr TxOutNull, n)), getmempoolentry = (\<lambda>t n. (Inl (RpcCode (-5) []), n)),
     getblockchaininfo = (\<lambda>n. (Inr (Some ''bb'', Some 101), n)), getblockheader = (\<lambda>h n. (Inl (OtherError []), n))\<rparr>"

definition race_api :: node_api where
  "race_api = \<lparr>lib_error_text = (\<lambda>e. []), lib_parse_txid = (\<lambda>s. Inr (toy_id (length s))),
     lib_parse_hash = (\<lambda>s. Inr (map (\<lambda>c. 1) s)), lib_parse_desc = (\<lambda>s. None), lib_from_hex = (\<lambda>s. Some (map (\<lambda>c. 0) s))\<rparr>"

definition race_lib :: btc_api where
  "race_lib = demo_api\<lparr>lib_deserialize := (\<lambda>bs. Some (toy_tx (length bs) (OutPoint (toy_id (if length bs = 1 then 9 else 1)) 0)))\<rparr>"

definition race_state :: "unit bitcoind poller_state" where
  "race_state = \<lparr>ps_bit = \<lparr>bd_node = (), bd_replay = \<lparr>rr_requested = 1, rr_acknowledged = 1\<rparr>, bd_local_fork_chain = False\<rparr>,
     ps_db = (update_tip \<lparr>bt_height = 100, bt_hash = [1]\<rparr> toy_vault_db)\<lparr>db_transactions := db_transactions toy_db, db_coins := db_coins toy_db\<rparr>,
     ps_alert = 0, ps_history = new_history_cache\<rparr>"

definition race_backend :: "unit bitcoind bitcoin_interface \<Rightarrow> unit bitcoind bitcoin_interface" where
  "race_backend other = bitcoind_interface race_api race_lib race_node other"

lemmas race_evals = rpc_bind_def rpc_ok_def rpc_res_def poll_read_def poll_request_def race_node_def race_api_def

lemma race_lib_simps: "lib_txid race_lib (toy_tx n p) = toy_id n" "\<not> lib_is_coinbase race_lib (toy_tx n (OutPoint t 0))"
  by (simp_all add: race_lib_def demo_api_def demo_txid_def toy_tx_def toy_id_def)

lemma race_decode: "lib_deserialize race_lib bs = Some (toy_tx (length bs) (OutPoint (toy_id (if length bs = 1 then 9 else 1)) 0))"
  by (simp add: race_lib_def)

lemma race_gettx:
  "try_get_transaction race_api race_lib race_node (toy_id 1) () = (Inr (Some \<lparr>gt_conflicting_txs = [], gt_block = Some \<lparr>nb_hash = [1], nb_height = 100, nb_time = 8\<rparr>,
     gt_tx = toy_tx 1 (OutPoint (toy_id 9) 0), gt_is_coinbase = False, gt_confirmations = 2\<rparr>), ())"
  "try_get_transaction race_api race_lib race_node (toy_id 2) () = (Inr (Some \<lparr>gt_conflicting_txs = [toy_id 3], gt_block = None,
     gt_tx = toy_tx 2 (OutPoint (toy_id 1) 0), gt_is_coinbase = False, gt_confirmations = -1\<rparr>), ())"
  "try_get_transaction race_api race_lib race_node (toy_id 3) () = (Inr (Some \<lparr>gt_conflicting_txs = [toy_id 2], gt_block = Some \<lparr>nb_hash = [1], nb_height = 101, nb_time = 8\<rparr>,
     gt_tx = toy_tx 3 (OutPoint (toy_id 1) 0), gt_is_coinbase = False, gt_confirmations = 1\<rparr>), ())"
  using toy_ids
  by (simp_all add: try_get_transaction_def race_evals parse_transaction_def parse_block_def race_tx_def race_lib_simps race_decode
      numeral_2_eq_2 numeral_3_eq_3)

lemma race_not_in_mempool: "try_is_in_mempool race_api race_node t () = (Inr False, ())"
  by (simp add: try_is_in_mempool_def race_evals is_unknown_to_wallet_def)

lemma race_spends: "spends_outpoint (toy_tx i p) q \<longleftrightarrow> p = q"
  by (auto simp: spends_outpoint_def toy_tx_def)

lemma race_confirmed: "bd_confirmed_coins race_api race_lib race_node [OutPoint (toy_id 2) 0] () = (Inr ([], [OutPoint (toy_id 2) 0]), ())"
  by (simp add: bd_confirmed_coins_def cached_get_transaction_def rpc_bind_def rpc_ok_def race_gettx race_not_in_mempool has_assumed_confirmation_def)

lemma race_spending: "bd_spending_coins race_api race_lib race_node [OutPoint (toy_id 1) 0] () = (Inr [(OutPoint (toy_id 1) 0, toy_id 2)], ())"
proof -
  have spent: "try_is_spent race_api race_node (OutPoint (toy_id 1) 0) () = (Inr True, ())" by (simp add: try_is_spent_def race_evals)
  have hash: "try_get_block_hash race_api race_node 99 () = (Inr (Some []), ())" by (simp add: try_get_block_hash_def race_evals)
  have list: "poll_read race_api race_node (listsinceblock race_node []) () = (Inr (Some [race_entry ''tt'', race_entry ''ttt'']), ())"
    by (simp add: race_evals)
  have "find_spender race_api race_lib race_node (OutPoint (toy_id 1) 0) {} [race_entry ''tt'', race_entry ''ttt''] () = (Inr (Some (toy_id 2)), ())"
    using race_gettx(2) toy_ids by (simp add: rpc_bind_def rpc_ok_def rpc_res_def race_entry_def race_api_def [of] race_spends numeral_2_eq_2)
  then show ?thesis using spent hash list race_gettx(1)
    by (simp add: try_get_spender_txid_def rpc_bind_def rpc_ok_def rpc_res_def saturating_sub_i32_def)
qed

lemma race_spent: "bd_spent_coins race_api race_lib race_node [(OutPoint (toy_id 1) 0, toy_id 2), (OutPoint (toy_id 1) 0, toy_id 2)] () =
    (Inr ([(OutPoint (toy_id 1) 0, toy_id 3, 101, 8), (OutPoint (toy_id 1) 0, toy_id 3, 101, 8)], []), ())"
  using toy_ids
  by (simp add: bd_spent_coins_def bd_spent_one_def cached_get_transaction_def rpc_bind_def rpc_ok_def race_gettx has_assumed_confirmation_def race_spends)

lemma race_backend_simps:
  "try_chain_tip (race_backend other) b = (Inr \<lparr>bt_height = 101, bt_hash = [1, 1]\<rparr>, b)"
  "try_is_in_chain (race_backend other) \<lparr>bt_height = 100, bt_hash = [1]\<rparr> b = (Inr True, b)"
  "sync_wallet (race_backend other) r c h b = (Inr None, h, b)"
  "wallet_record_replay_pending (race_backend other) = bd_replay_pending"
  by (simp_all add: race_backend_def bitcoind_interface_def on_node_def node_chain_tip_def bd_is_in_chain_def try_get_block_hash_def race_evals checked_i32_def)

lemma race_backend_received:
  assumes "bd_replay_pending b = None"
  shows "try_received_coins (race_backend other) \<lparr>bt_height = 100, bt_hash = [1]\<rparr> descs b = (Inr [], b)"
    "try_historical_received_coins (race_backend other) \<lparr>bt_height = 100, bt_hash = [1]\<rparr> descs b = (Inr [], b)"
  using assms by (simp_all add: race_backend_def bitcoind_interface_def on_node_def bd_received_coins_def try_list_since_block_def
      parse_coins_def race_evals map_filter_def)

lemma race_backend_coins:
  "try_confirmed_coins (race_backend other) [OutPoint (toy_id 2) 0] b = (Inr ([], [OutPoint (toy_id 2) 0]), b)"
  "try_spending_coins (race_backend other) [OutPoint (toy_id 1) 0] b = (Inr [(OutPoint (toy_id 1) 0, toy_id 2)], b)"
  "try_spent_coins (race_backend other) [(OutPoint (toy_id 1) 0, toy_id 2), (OutPoint (toy_id 1) 0, toy_id 2)] b =
     (Inr ([(OutPoint (toy_id 1) 0, toy_id 3, 101, 8), (OutPoint (toy_id 1) 0, toy_id 3, 101, 8)], []), b)"
  using race_confirmed race_spending race_spent by (simp_all add: race_backend_def bitcoind_interface_def on_node_def)

lemma race_tables: "db_coins (ps_db race_state) = [toy_row (OutPoint (toy_id 1) 0) (Some 100) (Some 7) (Some (toy_id 2)), toy_row (OutPoint (toy_id 2) 0) None None None]"
  "saved_txids (ps_db race_state) = [toy_id 1, toy_id 2]"
  by (simp_all add: race_state_def toy_db_def toy_tx_row_def saved_txids_def)

lemma race_db: "db_ok race_lib toy_addresses (ps_db race_state)"
proof (rule touches_coins_ok [OF _ toy_vault(2)])
  show "touches_coins toy_vault_db (ps_db race_state)" by (simp add: race_state_def touches_coins_def update_tip_def set_tip_def)
  show "coins_ok (ps_db race_state)" using toy_coins_ok coins_ok_cong [of "ps_db race_state" toy_db] by (simp add: race_state_def)
  show "txs_ok race_lib (ps_db race_state)" using toy_txs_ok txs_ok_cong [of "ps_db race_state" toy_db]
    by (simp add: race_state_def txs_ok_def race_lib_def saved_txids_def)
qed

lemma race_reads: "db_chain_tip (ps_db race_state) = Some (Some \<lparr>bt_height = 100, bt_hash = [1]\<rparr>)"
  "receive_index toy_addresses (ps_db race_state) = Some 0" "change_index toy_addresses (ps_db race_state) = Some 0"
  "db_network (ps_db race_state) \<noteq> None" "bd_replay_pending (ps_bit race_state) = None"
proof -
  have ok: "addresses_ok toy_addresses (ps_db race_state)" using race_db by (simp add: db_ok_def)
  show "db_chain_tip (ps_db race_state) = Some (Some \<lparr>bt_height = 100, bt_hash = [1]\<rparr>)" "db_network (ps_db race_state) \<noteq> None"
    using ok by (simp_all add: db_chain_tip_def addresses_ok_def chain_tip_def race_state_def update_tip_def set_tip_def db_network_def)
  show "receive_index toy_addresses (ps_db race_state) = Some 0" "change_index toy_addresses (ps_db race_state) = Some 0"
    using indices_read [OF ok] toy_vault(6,7) by (simp_all add: race_state_def update_tip_def branch_index_def)
  show "bd_replay_pending (ps_bit race_state) = None" by (simp add: race_state_def bd_replay_pending_def replay_pending_def)
qed

definition race_coin :: "outpoint \<Rightarrow> block_info option \<Rightarrow> txid option \<Rightarrow> coin" where
  "race_coin p block spend = \<lparr>cn_outpoint = p, cn_is_immature = False, cn_block_info = block, cn_amount = 1000, cn_derivation_index = 0,
     cn_is_change = False, cn_spend_txid = spend, cn_spend_block = None, cn_is_from_self = False\<rparr>"

definition race_coins :: "coin list" where
  "race_coins = [race_coin (OutPoint (toy_id 1) 0) (Some \<lparr>bi_height = 100, bi_time = 7\<rparr>) (Some (toy_id 2)), race_coin (OutPoint (toy_id 2) 0) None None]"

lemma race_reads_coins: "coins [] [] (ps_db race_state) = Some race_coins" "list_spending_coins (ps_db race_state) = Some [hd race_coins]"
  by (simp_all add: coins_def list_spending_coins_def select_coins_where_def race_tables toy_row_def coin_of_row_def pair_columns_def
      row_status_def race_coins_def race_coin_def)

definition race_updated :: updated_coins where
  "race_updated = \<lparr>uc_receive_index = 0, uc_change_index = 0, uc_received = [], uc_confirmed = [], uc_expired = [OutPoint (toy_id 2) 0],
     uc_spending = [(OutPoint (toy_id 1) 0, toy_id 2)], uc_expired_spending = [],
     uc_spent = [(OutPoint (toy_id 1) 0, toy_id 3, 101, 8), (OutPoint (toy_id 1) 0, toy_id 3, 101, 8)]\<rparr>"

lemma race_tip: "latest_tip (race_backend other) \<lparr>bt_height = 100, bt_hash = [1]\<rparr> 0 0 race_state = (Inr \<lparr>bt_height = 101, bt_hash = [1, 1]\<rparr>, race_state)"
  by (simp add: poll_evals numeral_3_eq_3 race_backend_simps)

lemma race_update: "update_coins toy_poll_api toy_addresses (race_backend other) \<lparr>bt_height = 100, bt_hash = [1]\<rparr> [] race_state = (Inr race_updated, race_state)"
proof -
  obtain net where net: "db_network (ps_db race_state) = Some net" using race_reads(4) by blast
  have known: "to_be_confirmed race_coins = [OutPoint (toy_id 2) 0]" "to_be_spent [OutPoint (toy_id 2) 0] race_coins = [OutPoint (toy_id 1) 0]"
    "spending_pairs [hd race_coins] = Some [(OutPoint (toy_id 1) 0, toy_id 2)]"
    using toy_ids by (simp_all add: to_be_confirmed_def to_be_spent_def spending_pairs_def race_coins_def race_coin_def)
  show ?thesis unfolding update_coins_def
    by (simp add: poll_evals net race_reads race_reads_coins race_backend_received race_backend_coins race_backend_simps known
        wallet_record_replay_requires_complete_mapping_def map_pending.simps [of _ _ _ _ _ _ _ _ _ "[]"] toy_poll_api_def race_updated_def
        del: One_nat_def)
qed

lemma race_record: "\<exists>s'. record_updates toy_addresses race_lib \<lparr>bt_height = 100, bt_hash = [1]\<rparr> tip race_updated [] race_state = (Inl Panic, s')"
proof -
  let ?db = "unspend_coins [] (confirm_coins [] (remove_coins [OutPoint (toy_id 2) 0] (ps_db race_state)))"
  have rows: "db_coins ?db = [toy_row (OutPoint (toy_id 1) 0) (Some 100) (Some 7) (Some (toy_id 2))]" "saved_txids ?db = [toy_id 1, toy_id 2]"
    using toy_ids race_tables by (simp_all add: remove_coins_rows confirm_coins_rows unspend_coins_rows toy_row_def confirm_row_def
        unspend_row_def overwrite_def)
  obtain db2 where db2: "spend_coins [(OutPoint (toy_id 1) 0, toy_id 2)] ?db = Some db2"
    using spend_coins_total [of "[(OutPoint (toy_id 1) 0, toy_id 2)]" ?db] rows by auto
  have "has_coin db2 (OutPoint (toy_id 1) 0)" "saved_txids db2 = [toy_id 1, toy_id 2]"
    using spend_coins_rows [OF db2] rows by (simp_all add: has_coin_def toy_row_def spending_row_def overwrite_def)
  then have "confirm_spend [(OutPoint (toy_id 1) 0, toy_id 3, 101, 8), (OutPoint (toy_id 1) 0, toy_id 3, 101, 8)] db2 = None"
    using toy_ids by (simp add: confirm_spend_def confirm_spend_row_def)
  then show ?thesis using db2 race_reads
    by (simp add: record_updates_def raise_indices_def record_coins_def race_updated_def poll_evals new_unspent_coins_def)
qed

text \<open>
  C37. A replaced transaction can end the poller thread.  When a transaction the database records as
  spending a coin was replaced and its replacement mined between two polls, bitcoind reports the
  replaced one with a negative count of confirmations.  The search for the spender of the coin
  passes over replaced transactions only at exactly zero confirmations, so it still names the
  replaced one; the check of the spends then names the mined replacement, which was never fetched,
  and recording it breaks the foreign key of the coin table: the update panics on a database that
  keeps its invariant, whatever the methods outside the poll's reads answer.
\<close>

theorem replaced_spender_panics:
  "db_ok race_lib toy_addresses (ps_db race_state) \<and>
   (\<exists>s'. updates toy_poll_api toy_addresses race_lib (bitcoind_interface race_api race_lib race_node other) [] race_state = (Inl Panic, s'))"
proof -
  obtain s' where rec: "record_updates toy_addresses race_lib \<lparr>bt_height = 100, bt_hash = [1]\<rparr> \<lparr>bt_height = 101, bt_hash = [1, 1]\<rparr> race_updated [] race_state = (Inl Panic, s')"
    using race_record by blast
  have col: "collect_txs toy_poll_api (race_backend other) race_updated race_state = (Inr [], race_state)"
    by (simp add: collect_txs_def missing_txids_def race_tables race_updated_def poll_evals toy_poll_api_def)
  have "updates toy_poll_api toy_addresses race_lib (race_backend other) [] race_state = (Inl Panic, s')"
    using race_reads race_tip race_update col rec by (simp add: updates_def act_bind_def read_db_def call_def race_backend_simps)
  then show ?thesis using race_db by (simp add: race_backend_def)
qed

theorem bd_spent_coins_exact_witness:
  "bd_spent_coins race_api race_lib race_node [(OutPoint (toy_id 1) 0, toy_id 2), (OutPoint (toy_id 1) 0, toy_id 2)] () =
     (Inr ([(OutPoint (toy_id 1) 0, toy_id 3, 101, 8), (OutPoint (toy_id 1) 0, toy_id 3, 101, 8)], []), ()) \<and>
   spent_by race_api race_lib race_node () (OutPoint (toy_id 1) 0) (toy_id 2) = Some (OutPoint (toy_id 1) 0, toy_id 3, 101, 8)"
proof -
  have "steady race_node ()" by (simp add: steady_def)
  note exact = conjunct1 [OF bd_spent_coins_exact [OF this race_spent]]
  show ?thesis using race_spent exact [unfolded map_filter_simps]
    by (cases "spent_by race_api race_lib race_node () (OutPoint (toy_id 1) 0) (toy_id 2)") (auto simp: map_filter_simps)
qed

section \<open>A fork\<close>

definition fork_block :: "nat \<Rightarrow> int \<Rightarrow> block_stats" where
  "fork_block h confirmations = \<lparr>bs_confirmations = confirmations, bs_previous_blockhash = Some [of_nat h - 1], bs_blockhash = [of_nat h],
     bs_height = int h, bs_time = 0, bs_median_time_past = 0\<rparr>"

definition fork_stats :: "block_hash \<Rightarrow> (string, block_stats) res" where
  "fork_stats hash = (if hash = [3] then Inr (fork_block 3 (-1)) else if hash = [2] then Inr (fork_block 2 (-1))
     else if hash = [1] then Inr (fork_block 1 4) else Inl [])"

lemma fork_search: "common_ancestor fork_stats \<lparr>bt_height = 3, bt_hash = [3]\<rparr> 5 = Found \<lparr>bt_height = 1, bt_hash = [1]\<rparr>"
  "common_ancestor fork_stats \<lparr>bt_height = 3, bt_hash = [3]\<rparr> 1 = TooDeep"
  by (simp_all add: common_ancestor_def fork_stats_def fork_block_def ancestor_walk.simps [of _ 5] ancestor_walk.simps [of _ 4]
      ancestor_walk.simps [of _ 3] ancestor_walk.simps [of _ "Suc 0"] ancestor_walk.simps [of _ 0] split: nat.splits)

theorem common_ancestor_exact_witness:
  "common_ancestor fork_stats \<lparr>bt_height = 3, bt_hash = [3]\<rparr> 1 = TooDeep \<and> list_all (\<lambda>k. stale (ancestor_at fork_stats [3] k)) [0, 1] \<and>
   (\<exists>k s. joins_at (ancestor_at fork_stats [3]) k s \<and> bs_height s = 1)"
proof -
  note deep = common_ancestor_exact [of fork_stats "\<lparr>bt_height = 3, bt_hash = [3]\<rparr>" 1, THEN conjunct2, THEN conjunct1]
  note found = common_ancestor_exact [of fork_stats "\<lparr>bt_height = 3, bt_hash = [3]\<rparr>" 5 "\<lparr>bt_height = 1, bt_hash = [1]\<rparr>", THEN conjunct1]
  have "\<forall>k\<le>1. stale (ancestor_at fork_stats [3] k)" using deep fork_search(2) by simp
  moreover obtain k s where "joins_at (ancestor_at fork_stats [3]) k s" "(if k = 0 then \<lparr>bt_height = 3, bt_hash = [3]\<rparr>
      else \<lparr>bt_height = bs_height s, bt_hash = bs_blockhash s\<rparr>) = \<lparr>bt_height = 1, bt_hash = [1]\<rparr>"
    using found fork_search(1) by auto
  ultimately show ?thesis using fork_search(2) by (auto split: if_splits)
qed

end
