(* ===== verification/Submission.thy ===== *)
theory Submission
  imports Wallet_Db
begin

text \<open>
  \<open>coincubed/src/poison_broadcast.rs\<close> with its \<open>binding\<close>, \<open>connect_transport\<close> and
  \<open>node_transport\<close>: the transports that send one exact signed Claim or Split transaction.  Each is
  guarded by a one-use gate, an atomic cell shared with a handle that can revoke it.  A transport
  runs its checks, enters the gate and sends; nothing before the entry touches the gate, so the
  entry is where concurrent calls and revocations are ordered.  HTTP and the backend are parameters:
  what they answer to one request.
\<close>

section \<open>Errors and outcomes\<close>

datatype submission_error = UnsupportedChain | RetiredRoute | DescriptorMismatch | BackendUnavailable | GateMismatch
  | RevokedError | ExpiredError | AlreadyStarted | OutputMismatch | Uncertain txid bytes

datatype submission_outcome = UpstreamAccepted txid bytes

datatype submission_state = GatePending | GateRevoked | GateStarted | GateExpired

definition gate_state :: "nat \<Rightarrow> submission_state" where
  "gate_state v = (if v = 0 then GatePending else if v = 1 then GateRevoked else if v = 2 then GateStarted else GateExpired)"

section \<open>Gates\<close>

text \<open>The atomic cell is passed separately: the gate and its revoker share it.\<close>

record submission_gate =
  sg_chain :: chain_id
  sg_txid :: txid
  sg_wtxid :: bytes
  sg_not_after :: nat

text \<open>The library calls of the transports.\<close>

record url =
  ur_scheme :: string
  ur_host :: "string option"
  ur_path :: string
  ur_query :: "string option"
  ur_fragment :: "string option"
  ur_username :: string
  ur_password :: "string option"

record node_reply =
  nr_id :: nat
  nr_result :: "txid option"
  nr_error :: bool

record submit_api =
  lib_wtxid :: "transaction \<Rightarrow> bytes"
  lib_parse_url :: "string \<Rightarrow> url option"
  lib_join_url :: "url \<Rightarrow> string \<Rightarrow> string option"
  lib_build_client :: bool
    \<comment> \<open>whether the client and the request can be built\<close>
  lib_utf8 :: "bytes \<Rightarrow> string option"
  lib_parse_trimmed :: "string \<Rightarrow> txid option"
    \<comment> \<open>\<open>Txid::from_str(text.trim())\<close>\<close>
  lib_parse_reply :: "bytes \<Rightarrow> node_reply option"
  lib_receive_script :: "wallet_descriptor \<Rightarrow> nat \<Rightarrow> script option"
    \<comment> \<open>\<open>receive_descriptor().derive(i)?.script_pubkey()\<close>\<close>

definition for_transaction :: "btc_api \<Rightarrow> submit_api \<Rightarrow> chain_id \<Rightarrow> transaction \<Rightarrow> nat \<Rightarrow> submission_gate \<times> nat" where
  "for_transaction L S chain tx not_after =
     (\<lparr>sg_chain = chain, sg_txid = lib_txid L tx, sg_wtxid = lib_wtxid S tx, sg_not_after = not_after\<rparr>, 0)"

definition gate_enter :: "nat \<Rightarrow> submission_gate \<Rightarrow> nat \<Rightarrow> (submission_error, unit) res \<times> nat" where
  "gate_enter now gate cell =
     (let expired = now \<ge> sg_not_after gate; entered = (if expired then 3 else 2) in
      if cell = 0 then (if expired then Inl ExpiredError else Inr (), entered)
      else (Inl (if cell = 1 then RevokedError else if cell = 3 then ExpiredError else AlreadyStarted), cell))"

definition revoke :: "nat \<Rightarrow> submission_state \<times> nat" where
  "revoke cell = (if cell = 0 then (GateRevoked, 1) else (gate_state cell, cell))"

definition legacy_submission_allowed :: "bool \<Rightarrow> (submission_error, unit) res" where
  "legacy_submission_allowed fixture = (if fixture then Inr () else Inl RetiredRoute)"

section \<open>Transports\<close>

datatype endpoint = Http string | Rpc string "string \<times> string" | OwnBackend

record message =
  ms_to :: endpoint
  ms_tx :: transaction

record http_reply =
  hr_status :: nat
  hr_content_length :: "nat option"
  hr_body :: "bytes option"
    \<comment> \<open>\<open>None\<close>: reading it failed\<close>

definition for_chain :: "submit_api \<Rightarrow> string \<Rightarrow> chain_id \<Rightarrow> transaction \<Rightarrow> message option" where
  "for_chain S origin chain tx = (case lib_parse_url S origin of None \<Rightarrow> None
     | Some u \<Rightarrow>
         if ur_scheme u \<notin> {''https'', ''http''} \<or> ur_host u = None \<or> ur_path u \<noteq> ''/'' \<or> ur_query u \<noteq> None \<or>
           ur_fragment u \<noteq> None \<or> ur_username u \<noteq> [] \<or> ur_password u \<noteq> None then None
         else (case (case chain of Bitcoin \<Rightarrow> Some ''api/v1/esplora/bitcoin/mainnet/tx''
                     | BitcoinBlake2b \<Rightarrow> Some ''api/v1/esplora/bitcoin-blake2b/mainnet/tx'' | _ \<Rightarrow> None) of
             None \<Rightarrow> None
           | Some route \<Rightarrow> (case lib_join_url S u route of None \<Rightarrow> None
               | Some endpoint \<Rightarrow> if lib_build_client S then Some \<lparr>ms_to = Http endpoint, ms_tx = tx\<rparr> else None)))"

definition reply_body :: "nat \<Rightarrow> http_reply \<Rightarrow> bytes option" where
  \<comment> \<open>the shared head of both \<open>send\<close>s: status, declared and actual length\<close>
  "reply_body limit r = (if hr_status r \<noteq> 200 \<or> (case hr_content_length r of None \<Rightarrow> False | Some l \<Rightarrow> l > limit) then None
     else (case hr_body r of None \<Rightarrow> None
       | Some body \<Rightarrow> let bs = take (limit + 1) body in if length bs > limit then None else Some bs))"

definition connect_acked :: "submit_api \<Rightarrow> txid \<Rightarrow> http_reply option \<Rightarrow> bool" where
  "connect_acked S txid reply = (case Option.bind (Option.bind reply (reply_body 128)) (lib_utf8 S) of None \<Rightarrow> False
     | Some text \<Rightarrow> lib_parse_trimmed S text = Some txid)"

definition MAX_REPLY :: nat where "MAX_REPLY = 16384"

definition node_acked :: "submit_api \<Rightarrow> txid \<Rightarrow> http_reply option \<Rightarrow> bool" where
  "node_acked S txid reply = (case Option.bind (Option.bind reply (reply_body MAX_REPLY)) (lib_parse_reply S) of None \<Rightarrow> False
     | Some r \<Rightarrow> \<not> (nr_id r \<noteq> 1 \<or> nr_error r \<or> nr_result r \<noteq> Some txid))"

datatype rpc_auth = UserPass string string | CookieFile string

record bitcoind_config =
  bc_addr :: string
  bc_rpc_auth :: rpc_auth

fun trim_newlines :: "string \<Rightarrow> string" where
  \<comment> \<open>\<open>trim_end_matches\<close> of carriage returns and line feeds, on the reversed text\<close>
  "trim_newlines [] = []"
| "trim_newlines (c # cs) = (if c = CHR 0x0D \<or> c = CHR 0x0A then trim_newlines cs else c # cs)"

definition split_once :: "char \<Rightarrow> string \<Rightarrow> (string \<times> string) option" where
  "split_once c s = (case dropWhile (\<lambda>x. x \<noteq> c) s of [] \<Rightarrow> None | _ # rest \<Rightarrow> Some (takeWhile (\<lambda>x. x \<noteq> c) s, rest))"

definition cookie_credentials :: "submit_api \<Rightarrow> bytes option \<Rightarrow> (string \<times> string) option" where
  "cookie_credentials S file = Option.bind file (\<lambda>content. let bs = take 16385 content in
     if length bs > 16384 then None
     else Option.bind (lib_utf8 S bs) (\<lambda>cookie.
       Option.bind (split_once (CHR '':'') (rev (trim_newlines (rev cookie)))) (\<lambda>(user, password).
         if user = [] \<or> password = [] then None else Some (user, password))))"

definition prepared_node :: "submit_api \<Rightarrow> (string \<Rightarrow> bytes option) \<Rightarrow> bitcoind_config \<Rightarrow> transaction \<Rightarrow> message option" where
  "prepared_node S files config tx =
     Option.bind (case bc_rpc_auth config of UserPass user password \<Rightarrow> Some (user, password)
       | CookieFile path \<Rightarrow> cookie_credentials S (files path)) (\<lambda>credentials.
     if lib_build_client S then Some \<lparr>ms_to = Rpc (bc_addr config) credentials, ms_tx = tx\<rparr> else None)"

section \<open>The daemon and its backend binding\<close>

record electrum_config =
  el_addr :: string
  el_validate_domain :: bool

record esplora_config =
  es_addr :: string
  es_token :: "string option"
  es_fallback_addr :: "string option"
  es_fallback_token :: "string option"
  es_secondary_fallback_addr :: "string option"
  es_secondary_fallback_token :: "string option"

datatype bitcoin_backend = BitcoindBackend bitcoind_config | ElectrumBackend electrum_config | EsploraBackend esplora_config

text \<open>The fields of the controller and its configuration that the transports read.\<close>

record daemon_control =
  dc_backend :: nat
    \<comment> \<open>the backend instance, by address\<close>
  dc_chain :: chain_id
  dc_network :: network
  dc_main_descriptor :: wallet_descriptor
  dc_bitcoin_backend :: "bitcoin_backend option"
  dc_fallback_esplora :: "esplora_config option"

record claim_backend_binding =
  cb_backend :: nat
  cb_chain :: chain_id
  cb_network :: network
  cb_descriptor :: "descriptor option"
  cb_selection :: "bitcoin_backend option"
  cb_fallback :: "esplora_config option"

definition as_vault :: "wallet_descriptor \<Rightarrow> descriptor option" where
  "as_vault w = (case w of Vault d \<Rightarrow> Some d | Imported _ \<Rightarrow> None)"

definition claim_backend_binding_of :: "daemon_control \<Rightarrow> claim_backend_binding" where
  "claim_backend_binding_of dc = \<lparr>cb_backend = dc_backend dc, cb_chain = dc_chain dc, cb_network = dc_network dc,
     cb_descriptor = as_vault (dc_main_descriptor dc), cb_selection = dc_bitcoin_backend dc, cb_fallback = dc_fallback_esplora dc\<rparr>"

definition binding_matches :: "claim_backend_binding \<Rightarrow> daemon_control \<Rightarrow> bool" where
  "binding_matches b dc \<longleftrightarrow> b = claim_backend_binding_of dc"

text \<open>The configuration of a controller never changes, so the binding check before the backend's lock
  and the one under it read the same values.  What one call finds around it: the time at the gate, the backend's lock, files and replies.\<close>

record surroundings =
  sr_now :: nat
  sr_lock_ok :: bool
  sr_files :: "string \<Rightarrow> bytes option"
  sr_reply :: "http_reply option"
  sr_broadcast_ok :: bool

definition check_claim_backend_binding :: "surroundings \<Rightarrow> daemon_control \<Rightarrow> claim_backend_binding \<Rightarrow> (submission_error, unit) res" where
  "check_claim_backend_binding E dc b = guard_res (\<not> sr_lock_ok E) BackendUnavailable
     (guard_res (\<not> binding_matches b dc) BackendUnavailable (Inr ()))"

section \<open>Submission\<close>

type_synonym submitted = "(submission_error, submission_outcome) res \<times> nat \<times> message list"

definition send_once :: "btc_api \<Rightarrow> submit_api \<Rightarrow> surroundings \<Rightarrow> submission_gate \<Rightarrow> message \<Rightarrow> bool \<Rightarrow> nat \<Rightarrow> submitted" where
  \<comment> \<open>\<open>gate.enter()?; request.send().map_err(..Uncertain..)?; Ok(..)\<close>\<close>
  "send_once L S E gate m acked cell = (case gate_enter (sr_now E) gate cell of
       (Inl e, cell) \<Rightarrow> (Inl e, cell, [])
     | (Inr _, cell) \<Rightarrow> (if acked then Inr (UpstreamAccepted (lib_txid L (ms_tx m)) (lib_wtxid S (ms_tx m)))
         else Inl (Uncertain (lib_txid L (ms_tx m)) (lib_wtxid S (ms_tx m))), cell, [m]))"

definition checked :: "(submission_error, message) res \<Rightarrow> (message \<Rightarrow> nat \<Rightarrow> submitted) \<Rightarrow> nat \<Rightarrow> submitted" where
  \<comment> \<open>the checks before the gate return early\<close>
  "checked r f cell = (case r of Inl e \<Rightarrow> (Inl e, cell, []) | Inr m \<Rightarrow> f m cell)"

definition gate_mismatch :: "btc_api \<Rightarrow> submit_api \<Rightarrow> submission_gate \<Rightarrow> chain_id \<Rightarrow> transaction \<Rightarrow> bool" where
  "gate_mismatch L S gate chain tx \<longleftrightarrow> sg_chain gate \<noteq> chain \<or> sg_txid gate \<noteq> lib_txid L tx \<or> sg_wtxid gate \<noteq> lib_wtxid S tx"

record verified =
  vf_chain :: chain_id
  vf_descriptor :: descriptor
  vf_transaction :: transaction

definition legacy :: "bool \<Rightarrow> (nat \<Rightarrow> submitted) \<Rightarrow> nat \<Rightarrow> submitted" where
  \<comment> \<open>\<open>legacy_submission_fixture_only()?\<close>, with \<open>fixture\<close> for \<open>cfg!(test)\<close>\<close>
  "legacy fixture f cell = (case legacy_submission_allowed fixture of Inl e \<Rightarrow> (Inl e, cell, []) | Inr _ \<Rightarrow> f cell)"

definition submit_verified_split_step1_to_connect ::
  "bool \<Rightarrow> btc_api \<Rightarrow> submit_api \<Rightarrow> surroundings \<Rightarrow> verified \<Rightarrow> submission_gate \<Rightarrow> string \<Rightarrow> nat \<Rightarrow> submitted" where
  "submit_verified_split_step1_to_connect fixture L S E v gate origin = legacy fixture (
     checked (guard_res (vf_chain v \<noteq> Bitcoin) UnsupportedChain
       (guard_res (gate_mismatch L S gate Bitcoin (vf_transaction v)) GateMismatch
       (ok_or BackendUnavailable (for_chain S origin Bitcoin (vf_transaction v)))))
     (\<lambda>m. send_once L S E gate m (connect_acked S (lib_txid L (vf_transaction v)) (sr_reply E))))"

definition submit_exact_ancestry_pair_side_to_connect ::
  "btc_api \<Rightarrow> submit_api \<Rightarrow> surroundings \<Rightarrow> chain_id \<Rightarrow> transaction \<Rightarrow> submission_gate \<Rightarrow> string \<Rightarrow> nat \<Rightarrow> submitted" where
  "submit_exact_ancestry_pair_side_to_connect L S E chain tx gate origin =
     checked (guard_res (chain \<noteq> Bitcoin \<and> chain \<noteq> BitcoinBlake2b) UnsupportedChain
       (guard_res (gate_mismatch L S gate chain tx) GateMismatch
       (ok_or BackendUnavailable (for_chain S origin chain tx))))
     (\<lambda>m. send_once L S E gate m (connect_acked S (lib_txid L tx) (sr_reply E)))"

record verified_pair =
  vp_bitcoin :: verified
  vp_fork :: verified

definition submit_ancestry_claim_bitcoin_to_connect ::
  "btc_api \<Rightarrow> submit_api \<Rightarrow> surroundings \<Rightarrow> verified_pair \<Rightarrow> submission_gate \<Rightarrow> string \<Rightarrow> nat \<Rightarrow> submitted" where
  "submit_ancestry_claim_bitcoin_to_connect L S E pair gate origin =
     submit_exact_ancestry_pair_side_to_connect L S E (vf_chain (vp_bitcoin pair)) (vf_transaction (vp_bitcoin pair)) gate origin"

definition submit_ancestry_claim_fork_to_connect ::
  "btc_api \<Rightarrow> submit_api \<Rightarrow> surroundings \<Rightarrow> verified_pair \<Rightarrow> submission_gate \<Rightarrow> string \<Rightarrow> nat \<Rightarrow> submitted" where
  "submit_ancestry_claim_fork_to_connect L S E pair gate origin =
     submit_exact_ancestry_pair_side_to_connect L S E (vf_chain (vp_fork pair)) (vf_transaction (vp_fork pair)) gate origin"

definition submit_ancestry_split_bitcoin_to_connect ::
  "btc_api \<Rightarrow> submit_api \<Rightarrow> surroundings \<Rightarrow> verified_pair \<Rightarrow> submission_gate \<Rightarrow> string \<Rightarrow> nat \<Rightarrow> submitted" where
  "submit_ancestry_split_bitcoin_to_connect L S E pair gate origin =
     submit_exact_ancestry_pair_side_to_connect L S E (vf_chain (vp_bitcoin pair)) (vf_transaction (vp_bitcoin pair)) gate origin"

definition submit_ancestry_split_fork_to_connect ::
  "btc_api \<Rightarrow> submit_api \<Rightarrow> surroundings \<Rightarrow> verified_pair \<Rightarrow> submission_gate \<Rightarrow> string \<Rightarrow> nat \<Rightarrow> submitted" where
  "submit_ancestry_split_fork_to_connect L S E pair gate origin =
     submit_exact_ancestry_pair_side_to_connect L S E (vf_chain (vp_fork pair)) (vf_transaction (vp_fork pair)) gate origin"

definition submit_exact_claim_transaction ::
  "btc_api \<Rightarrow> submit_api \<Rightarrow> surroundings \<Rightarrow> daemon_control \<Rightarrow> verified \<Rightarrow> submission_gate \<Rightarrow> nat \<Rightarrow> submitted" where
  "submit_exact_claim_transaction L S E dc v gate =
     checked (guard_res (as_vault (dc_main_descriptor dc) \<noteq> Some (vf_descriptor v)) DescriptorMismatch
       (guard_res (gate_mismatch L S gate (vf_chain v) (vf_transaction v)) GateMismatch
       (guard_res (\<not> sr_lock_ok E) BackendUnavailable
       (Inr \<lparr>ms_to = OwnBackend, ms_tx = vf_transaction v\<rparr>))))
     (\<lambda>m. send_once L S E gate m (sr_broadcast_ok E))"

definition submit_verified_poison :: "bool \<Rightarrow> btc_api \<Rightarrow> submit_api \<Rightarrow> surroundings \<Rightarrow> daemon_control \<Rightarrow> verified \<Rightarrow> submission_gate \<Rightarrow> nat \<Rightarrow> submitted" where
  "submit_verified_poison fixture L S E dc v gate = legacy fixture (
     if dc_chain dc \<noteq> Bitcoin \<or> vf_chain v \<noteq> Bitcoin then checked (Inl UnsupportedChain) (\<lambda>m. send_once L S E gate m False)
     else submit_exact_claim_transaction L S E dc v gate)"

definition submit_verified_ancestry :: "bool \<Rightarrow> btc_api \<Rightarrow> submit_api \<Rightarrow> surroundings \<Rightarrow> daemon_control \<Rightarrow> verified \<Rightarrow> submission_gate \<Rightarrow> nat \<Rightarrow> submitted" where
  "submit_verified_ancestry fixture L S E dc v gate = legacy fixture (
     if dc_chain dc \<noteq> Bitcoin \<or> vf_chain v \<noteq> Bitcoin then checked (Inl UnsupportedChain) (\<lambda>m. send_once L S E gate m False)
     else submit_exact_claim_transaction L S E dc v gate)"

definition submit_verified_claim_fork :: "bool \<Rightarrow> btc_api \<Rightarrow> submit_api \<Rightarrow> surroundings \<Rightarrow> daemon_control \<Rightarrow> verified \<Rightarrow> submission_gate \<Rightarrow> nat \<Rightarrow> submitted" where
  "submit_verified_claim_fork fixture L S E dc v gate = legacy fixture (
     if dc_chain dc \<noteq> BitcoinBlake2b \<or> vf_chain v \<noteq> BitcoinBlake2b then checked (Inl UnsupportedChain) (\<lambda>m. send_once L S E gate m False)
     else submit_exact_claim_transaction L S E dc v gate)"

definition submit_exact_bound_claim ::
  "btc_api \<Rightarrow> submit_api \<Rightarrow> surroundings \<Rightarrow> daemon_control \<Rightarrow> verified \<Rightarrow> claim_backend_binding \<Rightarrow> submission_gate \<Rightarrow> string option \<Rightarrow> nat \<Rightarrow> submitted" where
  "submit_exact_bound_claim L S E dc v b gate connect_origin =
     checked (guard_res (vf_chain v \<noteq> Bitcoin \<or> dc_chain dc \<noteq> vf_chain v) UnsupportedChain
       (guard_res (as_vault (dc_main_descriptor dc) \<noteq> Some (vf_descriptor v)) DescriptorMismatch
       (guard_res (gate_mismatch L S gate (vf_chain v) (vf_transaction v)) GateMismatch
       (guard_res (\<not> binding_matches b dc) BackendUnavailable
       (bind_res (ok_or BackendUnavailable (case connect_origin of
           Some origin \<Rightarrow> for_chain S origin Bitcoin (vf_transaction v)
         | None \<Rightarrow> (case dc_bitcoin_backend dc of
             Some (BitcoindBackend node) \<Rightarrow> prepared_node S (sr_files E) node (vf_transaction v) | _ \<Rightarrow> None))) (\<lambda>m.
        guard_res (\<not> sr_lock_ok E) BackendUnavailable
        (guard_res (\<not> binding_matches b dc) BackendUnavailable (Inr m))))))))
     (\<lambda>m. send_once L S E gate m (case connect_origin of
         Some _ \<Rightarrow> connect_acked S (lib_txid L (vf_transaction v)) (sr_reply E)
       | None \<Rightarrow> node_acked S (lib_txid L (vf_transaction v)) (sr_reply E)))"

definition submit_verified_poison_to_node ::
  "bool \<Rightarrow> btc_api \<Rightarrow> submit_api \<Rightarrow> surroundings \<Rightarrow> daemon_control \<Rightarrow> verified \<Rightarrow> claim_backend_binding \<Rightarrow> submission_gate \<Rightarrow> nat \<Rightarrow> submitted" where
  "submit_verified_poison_to_node fixture L S E dc v b gate = legacy fixture (submit_exact_bound_claim L S E dc v b gate None)"

definition submit_verified_poison_to_connect ::
  "bool \<Rightarrow> btc_api \<Rightarrow> submit_api \<Rightarrow> surroundings \<Rightarrow> daemon_control \<Rightarrow> verified \<Rightarrow> claim_backend_binding \<Rightarrow> submission_gate \<Rightarrow> string \<Rightarrow> nat \<Rightarrow> submitted" where
  "submit_verified_poison_to_connect fixture L S E dc v b gate origin = legacy fixture (submit_exact_bound_claim L S E dc v b gate (Some origin))"

definition submit_verified_ancestry_to_node ::
  "bool \<Rightarrow> btc_api \<Rightarrow> submit_api \<Rightarrow> surroundings \<Rightarrow> daemon_control \<Rightarrow> verified \<Rightarrow> claim_backend_binding \<Rightarrow> submission_gate \<Rightarrow> nat \<Rightarrow> submitted" where
  "submit_verified_ancestry_to_node fixture L S E dc v b gate = legacy fixture (submit_exact_bound_claim L S E dc v b gate None)"

definition submit_verified_ancestry_to_connect ::
  "bool \<Rightarrow> btc_api \<Rightarrow> submit_api \<Rightarrow> surroundings \<Rightarrow> daemon_control \<Rightarrow> verified \<Rightarrow> claim_backend_binding \<Rightarrow> submission_gate \<Rightarrow> string \<Rightarrow> nat \<Rightarrow> submitted" where
  "submit_verified_ancestry_to_connect fixture L S E dc v b gate origin = legacy fixture (submit_exact_bound_claim L S E dc v b gate (Some origin))"

definition check_split_target ::
  "btc_api \<Rightarrow> submit_api \<Rightarrow> daemon_control \<Rightarrow> verified \<Rightarrow> child_number \<Rightarrow> submission_gate \<Rightarrow> (submission_error, unit) res" where
  "check_split_target L S dc v target_index gate =
     guard_res (dc_chain dc \<noteq> BitcoinBlake2b \<or> vf_chain v \<noteq> BitcoinBlake2b \<or> dc_network dc \<noteq> Net_Bitcoin) UnsupportedChain
     (guard_res (case target_index of Hardened _ \<Rightarrow> True
       | Normal i \<Rightarrow> (case tx_output (vf_transaction v) of
           [out] \<Rightarrow> lib_receive_script S (dc_main_descriptor dc) i \<noteq> Some (to_script out) | _ \<Rightarrow> True)) OutputMismatch
     (guard_res (gate_mismatch L S gate BitcoinBlake2b (vf_transaction v)) GateMismatch (Inr ())))"

definition submit_split_target ::
  "btc_api \<Rightarrow> submit_api \<Rightarrow> surroundings \<Rightarrow> daemon_control \<Rightarrow> verified \<Rightarrow> claim_backend_binding \<Rightarrow> submission_gate \<Rightarrow> (submission_error, unit) res \<Rightarrow> nat \<Rightarrow> submitted" where
  \<comment> \<open>after the target check, whose result is the last argument\<close>
  "submit_split_target L S E dc v b gate target =
     checked (bind_res target (\<lambda>_.
       guard_res (\<not> binding_matches b dc) BackendUnavailable
       (guard_res (\<not> sr_lock_ok E) BackendUnavailable
       (guard_res (\<not> binding_matches b dc) BackendUnavailable
       (Inr \<lparr>ms_to = OwnBackend, ms_tx = vf_transaction v\<rparr>)))))
     (\<lambda>m. send_once L S E gate m (sr_broadcast_ok E))"

definition submit_split_target_to_node ::
  "btc_api \<Rightarrow> submit_api \<Rightarrow> surroundings \<Rightarrow> daemon_control \<Rightarrow> verified \<Rightarrow> claim_backend_binding \<Rightarrow> submission_gate \<Rightarrow> (submission_error, unit) res \<Rightarrow> nat \<Rightarrow> submitted" where
  "submit_split_target_to_node L S E dc v b gate target =
     checked (bind_res target (\<lambda>_.
       guard_res (\<not> binding_matches b dc) BackendUnavailable
       (bind_res (ok_or BackendUnavailable (case dc_bitcoin_backend dc of
             Some (BitcoindBackend node) \<Rightarrow> prepared_node S (sr_files E) node (vf_transaction v) | _ \<Rightarrow> None)) (\<lambda>m.
        guard_res (\<not> sr_lock_ok E) BackendUnavailable
        (guard_res (\<not> binding_matches b dc) BackendUnavailable (Inr m))))))
     (\<lambda>m. send_once L S E gate m (node_acked S (lib_txid L (vf_transaction v)) (sr_reply E)))"

definition submit_verified_split_step2 ::
  "bool \<Rightarrow> btc_api \<Rightarrow> submit_api \<Rightarrow> surroundings \<Rightarrow> daemon_control \<Rightarrow> verified \<Rightarrow> child_number \<Rightarrow> claim_backend_binding \<Rightarrow> submission_gate \<Rightarrow> nat \<Rightarrow> submitted" where
  "submit_verified_split_step2 fixture L S E dc v target_index b gate =
     legacy fixture (submit_split_target L S E dc v b gate (check_split_target L S dc v target_index gate))"

definition submit_verified_split_step2_to_node ::
  "bool \<Rightarrow> btc_api \<Rightarrow> submit_api \<Rightarrow> surroundings \<Rightarrow> daemon_control \<Rightarrow> verified \<Rightarrow> child_number \<Rightarrow> claim_backend_binding \<Rightarrow> submission_gate \<Rightarrow> nat \<Rightarrow> submitted" where
  "submit_verified_split_step2_to_node fixture L S E dc v target_index b gate =
     legacy fixture (submit_split_target_to_node L S E dc v b gate (check_split_target L S dc v target_index gate))"

definition submit_verified_unified_sweep ::
  "bool \<Rightarrow> btc_api \<Rightarrow> submit_api \<Rightarrow> surroundings \<Rightarrow> daemon_control \<Rightarrow> verified \<Rightarrow> child_number \<Rightarrow> claim_backend_binding \<Rightarrow> submission_gate \<Rightarrow> nat \<Rightarrow> submitted" where
  "submit_verified_unified_sweep fixture L S E dc v target_index b gate =
     legacy fixture (submit_split_target L S E dc v b gate (check_split_target L S dc v target_index gate))"

definition submit_verified_unified_sweep_to_node ::
  "bool \<Rightarrow> btc_api \<Rightarrow> submit_api \<Rightarrow> surroundings \<Rightarrow> daemon_control \<Rightarrow> verified \<Rightarrow> child_number \<Rightarrow> claim_backend_binding \<Rightarrow> submission_gate \<Rightarrow> nat \<Rightarrow> submitted" where
  "submit_verified_unified_sweep_to_node fixture L S E dc v target_index b gate =
     legacy fixture (submit_split_target_to_node L S E dc v b gate (check_split_target L S dc v target_index gate))"

text \<open>Every public entry point of the module, with its arguments.\<close>

datatype submission_call =
    SplitStep1ToConnect verified string
  | AncestryClaimBitcoin verified_pair string
  | AncestryClaimFork verified_pair string
  | AncestrySplitBitcoin verified_pair string
  | AncestrySplitFork verified_pair string
  | SubmitPoison daemon_control verified
  | SubmitAncestry daemon_control verified
  | SubmitClaimFork daemon_control verified
  | PoisonToNode daemon_control verified claim_backend_binding
  | PoisonToConnect daemon_control verified claim_backend_binding string
  | AncestryToNode daemon_control verified claim_backend_binding
  | AncestryToConnect daemon_control verified claim_backend_binding string
  | SplitStep2 daemon_control verified child_number claim_backend_binding
  | SplitStep2ToNode daemon_control verified child_number claim_backend_binding
  | UnifiedSweep daemon_control verified child_number claim_backend_binding
  | UnifiedSweepToNode daemon_control verified child_number claim_backend_binding

definition submit :: "bool \<Rightarrow> btc_api \<Rightarrow> submit_api \<Rightarrow> submission_gate \<Rightarrow> surroundings \<times> submission_call \<Rightarrow> nat \<Rightarrow> submitted" where
  "submit fixture L S gate = (\<lambda>(E, c). case c of
       SplitStep1ToConnect v origin \<Rightarrow> submit_verified_split_step1_to_connect fixture L S E v gate origin
     | AncestryClaimBitcoin pair origin \<Rightarrow> submit_ancestry_claim_bitcoin_to_connect L S E pair gate origin
     | AncestryClaimFork pair origin \<Rightarrow> submit_ancestry_claim_fork_to_connect L S E pair gate origin
     | AncestrySplitBitcoin pair origin \<Rightarrow> submit_ancestry_split_bitcoin_to_connect L S E pair gate origin
     | AncestrySplitFork pair origin \<Rightarrow> submit_ancestry_split_fork_to_connect L S E pair gate origin
     | SubmitPoison dc v \<Rightarrow> submit_verified_poison fixture L S E dc v gate
     | SubmitAncestry dc v \<Rightarrow> submit_verified_ancestry fixture L S E dc v gate
     | SubmitClaimFork dc v \<Rightarrow> submit_verified_claim_fork fixture L S E dc v gate
     | PoisonToNode dc v b \<Rightarrow> submit_verified_poison_to_node fixture L S E dc v b gate
     | PoisonToConnect dc v b origin \<Rightarrow> submit_verified_poison_to_connect fixture L S E dc v b gate origin
     | AncestryToNode dc v b \<Rightarrow> submit_verified_ancestry_to_node fixture L S E dc v b gate
     | AncestryToConnect dc v b origin \<Rightarrow> submit_verified_ancestry_to_connect fixture L S E dc v b gate origin
     | SplitStep2 dc v i b \<Rightarrow> submit_verified_split_step2 fixture L S E dc v i b gate
     | SplitStep2ToNode dc v i b \<Rightarrow> submit_verified_split_step2_to_node fixture L S E dc v i b gate
     | UnifiedSweep dc v i b \<Rightarrow> submit_verified_unified_sweep fixture L S E dc v i b gate
     | UnifiedSweepToNode dc v i b \<Rightarrow> submit_verified_unified_sweep_to_node fixture L S E dc v i b gate)"

section \<open>Runs of one gate\<close>

text \<open>Calls and revocations on one gate, in the order of their atomic operations: the cell, what was
  sent, and whether a revocation was granted.\<close>

inductive gate_run :: "('c \<Rightarrow> nat \<Rightarrow> submitted) \<Rightarrow> nat \<Rightarrow> message list \<Rightarrow> bool \<Rightarrow> bool" for sub where
  fresh: "gate_run sub 0 [] False"
| called: "\<lbrakk>gate_run sub cell sent revoked; sub c cell = (r, cell', ms)\<rbrakk> \<Longrightarrow> gate_run sub cell' (sent @ ms) revoked"
| revoked: "\<lbrakk>gate_run sub cell sent revoked; revoke cell = (st, cell')\<rbrakk> \<Longrightarrow> gate_run sub cell' sent (revoked \<or> st = GateRevoked)"

definition honest :: "(message \<Rightarrow> txid \<Rightarrow> bytes \<Rightarrow> bool) \<Rightarrow> submitted \<Rightarrow> bool" where
  \<comment> \<open>an acknowledgement and an uncertain result name the one message that was sent; nothing else sends\<close>
  "honest names out = (case out of (r, cell, sent) \<Rightarrow> (case r of
       Inr (UpstreamAccepted t w) \<Rightarrow> \<exists>m. sent = [m] \<and> names m t w
     | Inl (Uncertain t w) \<Rightarrow> \<exists>m. sent = [m] \<and> names m t w
     | Inl _ \<Rightarrow> sent = []))"

locale one_shot =
  fixes sub :: "'c \<Rightarrow> nat \<Rightarrow> submitted" and names :: "message \<Rightarrow> txid \<Rightarrow> bytes \<Rightarrow> bool" and fits :: "message \<Rightarrow> bool"
  assumes honest_result: "honest names (sub c cell)"
    and gated: "sub c cell = (r, cell', ms) \<Longrightarrow>
      ms = [] \<and> (cell' = cell \<or> cell = 0 \<and> cell' = 3) \<or> (\<exists>m. ms = [m] \<and> fits m) \<and> cell = 0 \<and> cell' = 2"
begin

lemma run_cells:
  assumes "gate_run sub cell sent revoked"
  shows "cell \<le> 3 \<and> (cell = 1 \<longleftrightarrow> revoked) \<and> (cell = 2 \<longleftrightarrow> sent \<noteq> []) \<and> length sent \<le> 1 \<and> (\<forall>m\<in>set sent. fits m)"
  using assms
proof induction
  case (called cell sent revoked c r cell' ms)
  from gated [OF called.hyps(2)] called.IH show ?case by auto
next
  case (revoked cell sent granted st cell')
  then show ?case by (auto simp: revoke_def gate_state_def split: if_splits)
qed simp

lemma later_calls_refused:
  assumes "gate_run sub cell sent revoked" and "sent \<noteq> [] \<or> revoked" and "sub c cell = (r, cell', ms)"
  shows "ms = [] \<and> cell' = cell \<and> (\<forall>x. r \<noteq> Inr x)"
proof -
  have "cell \<noteq> 0" using run_cells [OF assms(1)] assms(2) by auto
  then have "ms = []" "cell' = cell" using gated [OF assms(3)] by auto
  moreover have "r \<noteq> Inr x" for x using honest_result [of c cell] assms(3) \<open>ms = []\<close> by (cases x) (auto simp: honest_def)
  ultimately show ?thesis by blast
qed

end

section \<open>Every transport is one shot\<close>

definition claim_route :: "chain_id \<Rightarrow> string" where
  "claim_route chain = (if chain = Bitcoin then ''api/v1/esplora/bitcoin/mainnet/tx'' else ''api/v1/esplora/bitcoin-blake2b/mainnet/tx'')"

definition names_message :: "btc_api \<Rightarrow> submit_api \<Rightarrow> message \<Rightarrow> txid \<Rightarrow> bytes \<Rightarrow> bool" where
  "names_message L S m t w \<longleftrightarrow> t = lib_txid L (ms_tx m) \<and> w = lib_wtxid S (ms_tx m)"

definition gate_admits :: "bool \<Rightarrow> btc_api \<Rightarrow> submit_api \<Rightarrow> submission_gate \<Rightarrow> message \<Rightarrow> bool" where
  \<comment> \<open>the gate's own transaction, to the endpoint of the gate's chain; in production only over Connect\<close>
  "gate_admits fixture L S gate m \<longleftrightarrow> lib_txid L (ms_tx m) = sg_txid gate \<and> lib_wtxid S (ms_tx m) = sg_wtxid gate \<and>
     sg_chain gate \<in> {Bitcoin, BitcoinBlake2b} \<and>
     (case ms_to m of Http e \<Rightarrow> \<exists>u. lib_join_url S u (claim_route (sg_chain gate)) = Some e | _ \<Rightarrow> fixture)"

lemma for_chain_Some:
  assumes "for_chain S origin chain tx = Some m"
  shows "ms_tx m = tx \<and> chain \<in> {Bitcoin, BitcoinBlake2b} \<and> (\<exists>u e. ms_to m = Http e \<and> lib_join_url S u (claim_route chain) = Some e)"
  using assms unfolding for_chain_def claim_route_def
  by (cases chain) (auto split: option.splits if_splits)

lemma prepared_node_Some:
  assumes "prepared_node S files config tx = Some m"
  shows "ms_tx m = tx \<and> (\<exists>a c. ms_to m = Rpc a c)"
  using assms by (auto simp: prepared_node_def bind_eq_Some_conv split: if_splits)

lemma send_once_gated:
  assumes "send_once L S E gate m acked cell = (r, cell', ms)"
  shows "(ms = [] \<and> (cell' = cell \<or> cell = 0 \<and> cell' = 3) \<or> ms = [m] \<and> cell = 0 \<and> cell' = 2 \<and> sr_now E < sg_not_after gate)"
  using assms by (auto simp: send_once_def gate_enter_def Let_def split: if_splits)

lemma send_once_honest: "honest (names_message L S) (send_once L S E gate m acked cell)"
  by (auto simp: send_once_def gate_enter_def Let_def honest_def names_message_def)

definition well_guarded :: "bool \<Rightarrow> btc_api \<Rightarrow> submit_api \<Rightarrow> surroundings \<Rightarrow> submission_gate \<Rightarrow> (nat \<Rightarrow> submitted) \<Rightarrow> bool" where
  \<comment> \<open>checks that admit only the gate's transaction, then one guarded send\<close>
  "well_guarded fixture L S E gate f \<longleftrightarrow> (\<exists>r0 acked. f = checked r0 (\<lambda>m. send_once L S E gate m acked) \<and>
     (\<forall>m. r0 = Inr m \<longrightarrow> gate_admits fixture L S gate m) \<and> (\<forall>t w. r0 \<noteq> Inl (Uncertain t w)))"

lemma well_guardedI:
  assumes "\<And>m. r0 = Inr m \<Longrightarrow> gate_admits fixture L S gate m" and "\<And>t w. r0 \<noteq> Inl (Uncertain t w)"
  shows "well_guarded fixture L S E gate (checked r0 (\<lambda>m. send_once L S E gate m acked))"
  using assms unfolding well_guarded_def by blast

lemma well_guarded_gated:
  assumes "well_guarded fixture L S E gate f" and "f cell = (r, cell', ms)"
  shows "ms = [] \<and> (cell' = cell \<or> cell = 0 \<and> cell' = 3) \<or>
    (\<exists>m. ms = [m] \<and> gate_admits fixture L S gate m) \<and> cell = 0 \<and> cell' = 2 \<and> sr_now E < sg_not_after gate"
proof -
  obtain r0 acked where f: "f = checked r0 (\<lambda>m. send_once L S E gate m acked)" and adm: "\<forall>m. r0 = Inr m \<longrightarrow> gate_admits fixture L S gate m"
    using assms(1) unfolding well_guarded_def by blast
  show ?thesis
  proof (cases r0)
    case (Inr m)
    then have "send_once L S E gate m acked cell = (r, cell', ms)" using assms(2) by (simp add: f checked_def)
    then show ?thesis using send_once_gated adm Inr by blast
  qed (use assms(2) in \<open>simp add: f checked_def\<close>)
qed

lemma well_guarded_honest:
  assumes "well_guarded fixture L S E gate f"
  shows "honest (names_message L S) (f cell)"
proof -
  obtain r0 acked where f: "f = checked r0 (\<lambda>m. send_once L S E gate m acked)" and err: "\<forall>t w. r0 \<noteq> Inl (Uncertain t w)"
    using assms unfolding well_guarded_def by blast
  show ?thesis
  proof (cases r0)
    case (Inl e)
    then show ?thesis using err by (cases e) (auto simp: f checked_def honest_def)
  qed (simp add: f checked_def send_once_honest)
qed

lemmas entry_points = submit_verified_split_step1_to_connect_def submit_ancestry_claim_bitcoin_to_connect_def submit_ancestry_claim_fork_to_connect_def submit_ancestry_split_bitcoin_to_connect_def submit_ancestry_split_fork_to_connect_def submit_verified_poison_def submit_verified_ancestry_def submit_verified_claim_fork_def submit_verified_poison_to_node_def submit_verified_poison_to_connect_def submit_verified_ancestry_to_node_def submit_verified_ancestry_to_connect_def submit_verified_split_step2_def submit_verified_split_step2_to_node_def submit_verified_unified_sweep_def submit_verified_unified_sweep_to_node_def

lemma check_split_target_Inr:
  assumes "check_split_target L S dc v i gate = Inr u"
  shows "\<not> gate_mismatch L S gate BitcoinBlake2b (vf_transaction v)"
  using assms by (simp add: check_split_target_def res_rules)

lemma admitsI:
  assumes "\<not> gate_mismatch L S gate chain (ms_tx m)" and "chain \<in> {Bitcoin, BitcoinBlake2b}"
    and "(\<exists>u e. ms_to m = Http e \<and> lib_join_url S u (claim_route chain) = Some e) \<or> fixture \<and> (ms_to m = OwnBackend \<or> (\<exists>a c. ms_to m = Rpc a c))"
  shows "gate_admits fixture L S gate m"
  using assms by (auto simp: gate_admits_def gate_mismatch_def)

lemma node_message:
  assumes "(case backend of Some (BitcoindBackend node) \<Rightarrow> prepared_node S files node tx | _ \<Rightarrow> None) = Some m"
  shows "ms_tx m = tx \<and> (\<exists>a c. ms_to m = Rpc a c)"
  using assms by (auto dest!: prepared_node_Some split: option.splits bitcoin_backend.splits)

lemma check_split_target_Inl: "check_split_target L S dc v i gate \<noteq> Inl (Uncertain t w)"
  by (auto simp: check_split_target_def guard_res_Inl)

lemmas res_errors = bind_res_Inl guard_res_Inl ok_or_Inl check_split_target_Inl

lemma well_guarded_legacy:
  assumes "fixture \<Longrightarrow> well_guarded fixture L S E gate f"
  shows "well_guarded fixture L S E gate (legacy fixture f)"
proof (cases fixture)
  case False
  have "legacy fixture f = checked (Inl RetiredRoute) (\<lambda>m. send_once L S E gate m False)"
    by (rule ext) (simp add: legacy_def legacy_submission_allowed_def False checked_def)
  then show ?thesis by (auto intro!: well_guardedI)
next
  case True
  then have "legacy fixture f = f" by (intro ext) (simp add: legacy_def legacy_submission_allowed_def)
  then show ?thesis using assms True by simp
qed

lemma pair_side_guarded: "well_guarded fixture L S E gate (submit_exact_ancestry_pair_side_to_connect L S E chain tx gate origin)"
  unfolding submit_exact_ancestry_pair_side_to_connect_def
  by (rule well_guardedI) (auto simp: res_rules res_errors dest!: for_chain_Some intro!: admitsI)

lemma claim_guarded:
  assumes "vf_chain v \<in> {Bitcoin, BitcoinBlake2b}"
  shows "well_guarded True L S E gate (submit_exact_claim_transaction L S E dc v gate)"
  unfolding submit_exact_claim_transaction_def
  by (rule well_guardedI) (use assms in \<open>auto simp: res_rules res_errors intro!: admitsI\<close>)

lemma bound_guarded: "well_guarded True L S E gate (submit_exact_bound_claim L S E dc v b gate origin)"
  unfolding submit_exact_bound_claim_def
  by (rule well_guardedI, cases origin) (auto simp: res_rules res_errors dest!: for_chain_Some node_message intro!: admitsI)

lemma split_guarded:
  "well_guarded True L S E gate (submit_split_target L S E dc v b gate (check_split_target L S dc v i gate))"
  "well_guarded True L S E gate (submit_split_target_to_node L S E dc v b gate (check_split_target L S dc v i gate))"
  unfolding submit_split_target_def submit_split_target_to_node_def
  by (rule well_guardedI, auto simp: res_rules res_errors dest!: check_split_target_Inr node_message intro!: admitsI)+

lemma step1_guarded: "well_guarded fixture L S E gate (submit_verified_split_step1_to_connect fixture L S E v gate origin)"
  unfolding submit_verified_split_step1_to_connect_def
  by (rule well_guarded_legacy, rule well_guardedI) (auto simp: res_rules res_errors dest!: for_chain_Some intro!: admitsI)

lemma refused_guarded: "well_guarded fixture L S E gate (checked (Inl UnsupportedChain) (\<lambda>m. send_once L S E gate m False))"
  by (rule well_guardedI) simp_all

lemma submit_well_guarded: "well_guarded fixture L S E gate (submit fixture L S gate (E, k))"
  by (cases k) (auto simp: submit_def entry_points intro!: well_guarded_legacy step1_guarded [unfolded entry_points] pair_side_guarded
      claim_guarded bound_guarded split_guarded refused_guarded)

interpretation transport: one_shot "submit fixture L S gate" "names_message L S" "gate_admits fixture L S gate" for fixture L S gate
proof
  fix c :: "surroundings \<times> submission_call" and cell r cell' ms
  obtain E k where c: "c = (E, k)" by force
  show "honest (names_message L S) (submit fixture L S gate c cell)" unfolding c by (rule well_guarded_honest [OF submit_well_guarded])
  assume "submit fixture L S gate c cell = (r, cell', ms)"
  then show "ms = [] \<and> (cell' = cell \<or> cell = 0 \<and> cell' = 3) \<or> (\<exists>m. ms = [m] \<and> gate_admits fixture L S gate m) \<and> cell = 0 \<and> cell' = 2"
    using well_guarded_gated [OF submit_well_guarded] unfolding c by blast
qed

text \<open>
  C4. One gate sends at most once.  Whatever calls of whatever routes meet on one gate, with whatever
  revocations between them and in whatever order their atomic operations take effect, at most
  one message is sent in all; it carries the gate's own transaction, witness included, to the
  fixed endpoint of the gate's chain, and outside test builds it goes over Connect only.  Once a
  message was sent or a revocation granted, every later call sends nothing and fails; a granted
  revocation means that nothing was sent.
\<close>

theorem submission_at_most_once:
  assumes "gate_run (submit fixture L S gate) cell sent revoked"
  shows "length sent \<le> 1 \<and> list_all (gate_admits fixture L S gate) sent \<and> \<not> (revoked \<and> sent \<noteq> []) \<and>
    (\<forall>c r cell' ms. submit fixture L S gate c cell = (r, cell', ms) \<and> (sent \<noteq> [] \<or> revoked) \<longrightarrow> ms = [] \<and> cell' = cell \<and> (\<exists>e. r = Inl e))"
proof -
  have "length sent \<le> 1" "list_all (gate_admits fixture L S gate) sent" "\<not> (revoked \<and> sent \<noteq> [])"
    using transport.run_cells [OF assms] by (auto simp: list_all_iff)
  moreover have "ms = [] \<and> cell' = cell \<and> (\<exists>e. r = Inl e)" if "submit fixture L S gate c cell = (r, cell', ms)" "sent \<noteq> [] \<or> revoked" for c r cell' ms
    using transport.later_calls_refused [OF assms that(2,1)] by (cases r) auto
  ultimately show ?thesis by blast
qed

fun retired :: "submission_call \<Rightarrow> bool" where
  \<comment> \<open>every route but the four of verified ancestry pairs\<close>
  "retired (AncestryClaimBitcoin _ _) = False"
| "retired (AncestryClaimFork _ _) = False"
| "retired (AncestrySplitBitcoin _ _) = False"
| "retired (AncestrySplitFork _ _) = False"
| "retired _ = True"

text \<open>
  C5. What a submission's result means.  An acknowledgement and an uncertain result name exactly the
  transaction that was sent, once, before the gate's deadline; every other error means that
  nothing was sent.  A retired route outside test builds fails before it touches the gate.
\<close>

theorem submission_result_exact:
  assumes "submit fixture L S gate (E, k) cell = (r, cell', sent)"
  shows "(case r of
       Inr (UpstreamAccepted t w) \<Rightarrow> t = sg_txid gate \<and> w = sg_wtxid gate \<and> map (lib_txid L \<circ> ms_tx) sent = [t]
     | Inl (Uncertain t w) \<Rightarrow> t = sg_txid gate \<and> w = sg_wtxid gate \<and> map (lib_txid L \<circ> ms_tx) sent = [t]
     | Inl _ \<Rightarrow> sent = []) \<and>
    (sent \<noteq> [] \<longrightarrow> sr_now E < sg_not_after gate \<and> cell = 0 \<and> cell' = 2) \<and>
    (\<not> fixture \<and> retired k \<longrightarrow>
      r = Inl RetiredRoute \<and> cell' = cell \<and> sent = [])"
proof -
  have hon: "honest (names_message L S) (r, cell', sent)" using well_guarded_honest [OF submit_well_guarded] assms by metis
  note gated = well_guarded_gated [OF submit_well_guarded assms]
  have "r = Inl RetiredRoute \<and> cell' = cell \<and> sent = []"
    if "\<not> fixture" "retired k"
    using that assms by (cases k) (auto simp: submit_def entry_points legacy_def legacy_submission_allowed_def)
  moreover have "sent \<noteq> [] \<longrightarrow> sr_now E < sg_not_after gate \<and> cell = 0 \<and> cell' = 2" using gated by blast
  moreover have "case r of
       Inr (UpstreamAccepted t w) \<Rightarrow> t = sg_txid gate \<and> w = sg_wtxid gate \<and> map (lib_txid L \<circ> ms_tx) sent = [t]
     | Inl (Uncertain t w) \<Rightarrow> t = sg_txid gate \<and> w = sg_wtxid gate \<and> map (lib_txid L \<circ> ms_tx) sent = [t]
     | Inl _ \<Rightarrow> sent = []"
    using hon gated by (auto simp: honest_def names_message_def gate_admits_def split: sum.splits submission_error.splits submission_outcome.splits)
  ultimately show ?thesis by blast
qed

section \<open>A submission\<close>

definition demo_sent :: transaction where
  "demo_sent = \<lparr>tx_version = 2, tx_lock_time = 7, tx_input = [], tx_output = []\<rparr>"

definition demo_submit :: submit_api where
  "demo_submit = \<lparr>lib_wtxid = demo_txid, lib_parse_url = (\<lambda>s. Some \<lparr>ur_scheme = ''https'', ur_host = Some s, ur_path = ''/'', ur_query = None,
     ur_fragment = None, ur_username = [], ur_password = None\<rparr>), lib_join_url = (\<lambda>u route. Some route), lib_build_client = True,
     lib_utf8 = (\<lambda>bs. Some []), lib_parse_trimmed = (\<lambda>s. Some (demo_txid demo_sent)), lib_parse_reply = (\<lambda>bs. None),
     lib_receive_script = (\<lambda>d i. None)\<rparr>"

definition demo_gate :: submission_gate where
  "demo_gate = fst (for_transaction demo_api demo_submit Bitcoin demo_sent 10)"

definition demo_around :: "nat \<Rightarrow> surroundings" where
  "demo_around now = \<lparr>sr_now = now, sr_lock_ok = True, sr_files = (\<lambda>p. None),
     sr_reply = Some \<lparr>hr_status = 200, hr_content_length = None, hr_body = Some []\<rparr>, sr_broadcast_ok = True\<rparr>"

definition demo_call :: submission_call where
  "demo_call = AncestryClaimBitcoin \<lparr>vp_bitcoin = \<lparr>vf_chain = Bitcoin, vf_descriptor = Descriptor [], vf_transaction = demo_sent\<rparr>,
     vp_fork = \<lparr>vf_chain = BitcoinBlake2b, vf_descriptor = Descriptor [], vf_transaction = demo_sent\<rparr>\<rparr> ''connect''"

definition demo_packet :: message where
  "demo_packet = \<lparr>ms_to = Http ''api/v1/esplora/bitcoin/mainnet/tx'', ms_tx = demo_sent\<rparr>"

lemmas demo_submission_defs = submit_def entry_points submit_exact_ancestry_pair_side_to_connect_def demo_call_def demo_around_def demo_gate_def for_transaction_def demo_submit_def
  demo_packet_def checked_def gate_mismatch_def for_chain_def send_once_def gate_enter_def connect_acked_def reply_body_def

lemma demo_lib_txid: "lib_txid demo_api = demo_txid"
  by (simp add: demo_api_def)

lemma demo_first: "submit False demo_api demo_submit demo_gate (demo_around 5, demo_call) 0 =
    (Inr (UpstreamAccepted (demo_txid demo_sent) (demo_txid demo_sent)), 2, [demo_packet])"
  by (simp add: demo_submission_defs demo_lib_txid)

lemma demo_second: "submit False demo_api demo_submit demo_gate (demo_around 6, demo_call) 2 = (Inl AlreadyStarted, 2, [])"
  by (simp add: demo_submission_defs demo_lib_txid)

theorem submission_at_most_once_witness:
  "gate_run (submit False demo_api demo_submit demo_gate) 2 [demo_packet] False \<and>
   list_all (gate_admits False demo_api demo_submit demo_gate) [demo_packet] \<and>
   submit False demo_api demo_submit demo_gate (demo_around 6, demo_call) 2 = (Inl AlreadyStarted, 2, [])"
proof -
  have run: "gate_run (submit False demo_api demo_submit demo_gate) 2 [demo_packet] False"
    using gate_run.called [of "submit False demo_api demo_submit demo_gate", OF gate_run.fresh demo_first] by simp
  show ?thesis using submission_at_most_once [OF run] run demo_second by blast
qed

theorem submission_result_exact_witness:
  "sg_txid demo_gate = demo_txid demo_sent \<and> map (lib_txid demo_api \<circ> ms_tx) [demo_packet] = [demo_txid demo_sent] \<and> sr_now (demo_around 5) < sg_not_after demo_gate"
  using submission_result_exact [OF demo_first] by auto

end
