(* ===== verification/Imported_Spend.thy ===== *)
theory Imported_Spend
  imports Spend_Construction Wallet_Addresses
begin

text \<open>
  \<open>coincube-core/src/imported_spend.rs\<close>: ordinary spends from an imported public Bitcoin wallet, from
  the derivation of its branches to the checked PSBT.  Definite descriptors are miniscript's: their
  scripts, satisfaction weights and the PSBT metadata they give are fields of \<open>imported_api\<close>.
  Checking and finalizing signatures is not part of this theory.
\<close>

section \<open>Descriptors\<close>

record definite =
  df_text :: string
  df_script :: script      \<comment> \<open>\<open>script_pubkey()\<close>\<close>
  df_is_pkh :: bool

record imported_api =
  lib_at_index :: "string \<Rightarrow> nat \<Rightarrow> definite option"
    \<comment> \<open>\<open>at_derivation_index\<close> of a branch, by its text\<close>
  lib_weight_to_satisfy :: "definite \<Rightarrow> nat option"
    \<comment> \<open>\<open>max_weight_to_satisfy()\<close>\<close>
  lib_input_metadata :: "definite \<Rightarrow> txin \<Rightarrow> psbt_in \<Rightarrow> psbt_in option"
    \<comment> \<open>the new input of \<open>update_input_with_descriptor\<close>, which changes no other\<close>
  lib_output_metadata :: "definite \<Rightarrow> txout \<Rightarrow> psbt_out \<Rightarrow> psbt_out option"
    \<comment> \<open>the new output of \<open>update_output_with_descriptor\<close>\<close>

definition FORK_SPEND_UNAVAILABLE :: string where
  "FORK_SPEND_UNAVAILABLE = ''Ordinary imported Bitcoin Blake2b spending is not available yet''"

definition require_bitcoin_wallet :: "imported_descriptor \<Rightarrow> (spend_error, unit) res" where
  "require_bitcoin_wallet w = guard_res (is_blake2b (id_chain w)) (InvalidImportedWallet FORK_SPEND_UNAVAILABLE) (Inr ())"

definition imported_branch :: "imported_api \<Rightarrow> imported_descriptor \<Rightarrow> addr_info \<Rightarrow> (spend_error, definite) res" where
  "imported_branch I w info = (case ai_index info of
       Hardened _ \<Rightarrow> Inl (InvalidImportedWallet ''hardened address index'')
     | Normal index \<Rightarrow> ok_or (InvalidImportedWallet ''address derivation failed'')
         (lib_at_index I (if ai_is_change info then id_change w else id_receive w) index))"

definition own_output :: "imported_api \<Rightarrow> imported_descriptor \<Rightarrow> spend_output_address \<Rightarrow> (spend_error, definite option) res" where
  "own_output I w a = (case so_info a of None \<Rightarrow> Inr None
     | Some info \<Rightarrow> bind_res (imported_branch I w info) (\<lambda>derived.
         guard_res (df_script derived \<noteq> address_script (so_addr a))
           (InvalidImportedWallet ''owned address does not match wallet descriptor'') (Inr (Some derived))))"

definition is_segwit :: "definite \<Rightarrow> bool" where
  "is_segwit d \<longleftrightarrow> \<not> df_is_pkh d"

definition coin_info :: "candidate_coin \<Rightarrow> addr_info" where
  "coin_info c = \<lparr>ai_index = cc_deriv_index c, ai_is_change = cc_is_change c\<rparr>"

section \<open>Verification before broadcast\<close>

fun locate_derivation :: "imported_api \<Rightarrow> imported_descriptor \<Rightarrow> script \<Rightarrow> (pubkey \<times> key_source) list \<Rightarrow> definite option" where
  \<comment> \<open>a path that is too short ends the search, any other mismatch moves on\<close>
  "locate_derivation I w script [] = None"
| "locate_derivation I w script ((_, _, path) # rest) = (case rev path of
       [] \<Rightarrow> None
     | Hardened _ # _ \<Rightarrow> locate_derivation I w script rest
     | [Normal _] \<Rightarrow> None
     | Normal index # branch # _ \<Rightarrow>
         if branch \<noteq> Normal 0 \<and> branch \<noteq> Normal 1 then locate_derivation I w script rest
         else (case lib_at_index I (if branch = Normal 1 then id_change w else id_receive w) index of
             None \<Rightarrow> locate_derivation I w script rest
           | Some derived \<Rightarrow> if df_script derived = script then Some derived else locate_derivation I w script rest))"

definition locate_input :: "imported_api \<Rightarrow> imported_descriptor \<Rightarrow> psbt_in \<Rightarrow> script \<Rightarrow> definite option" where
  "locate_input I w input script = locate_derivation I w script (pi_bip32_derivation input)"

definition same_metadata :: "psbt_in \<Rightarrow> psbt_in \<Rightarrow> bool" where
  "same_metadata a b \<longleftrightarrow> pi_bip32_derivation a = pi_bip32_derivation b \<and> pi_redeem_script a = pi_redeem_script b \<and>
     pi_witness_script a = pi_witness_script b"

fun verify_inputs ::
  "btc_api \<Rightarrow> imported_api \<Rightarrow> imported_descriptor \<Rightarrow> psbt \<Rightarrow> nat \<Rightarrow> nat \<Rightarrow> bool \<Rightarrow> (psbt_in \<times> txin) list \<Rightarrow>
   (spend_error, nat \<times> nat \<times> bool) res" where
  \<comment> \<open>the total, the satisfaction weight and whether an input is segwit\<close>
  "verify_inputs L I w psbt value_in sat_weight any_segwit [] = Inr (value_in, sat_weight, any_segwit)"
| "verify_inputs L I w psbt value_in sat_weight any_segwit ((input, txin) # rest) =
     bind_res (map_err (InputAuthentication (ti_prev txin))
       (authenticate_previous_output L (ti_prev txin) (pi_non_witness_utxo input) (pi_witness_utxo input))) (\<lambda>out.
     bind_res (ok_or (InputAuthentication (ti_prev txin) ScriptMismatch) (locate_input I w input (to_script out))) (\<lambda>desc.
     bind_res (ok_or (SanityCheckFailure psbt) (checked_add64 value_in (to_value out))) (\<lambda>value_in.
     bind_res (ok_or (InvalidImportedWallet ''input descriptor cannot be satisfied'') (lib_weight_to_satisfy I desc)) (\<lambda>weight.
     bind_res (ok_or (InvalidImportedWallet ''satisfaction weight overflow'') (checked_add64 sat_weight weight)) (\<lambda>sat_weight.
     bind_res (ok_or (InvalidImportedWallet ''input descriptor metadata is invalid'')
       (lib_input_metadata I desc txin
          (input\<lparr>pi_bip32_derivation := [], pi_redeem_script := None, pi_witness_script := None\<rparr>))) (\<lambda>expected.
     guard_res (\<not> same_metadata expected input) (InvalidImportedWallet ''input signer metadata differs from wallet descriptor'')
     (verify_inputs L I w psbt value_in sat_weight (any_segwit \<or> is_segwit desc) rest)))))))"

definition verify_imported_spend_before_broadcast ::
  "btc_api \<Rightarrow> imported_api \<Rightarrow> imported_descriptor \<Rightarrow> psbt \<Rightarrow> (spend_error, unit) res" where
  "verify_imported_spend_before_broadcast L I w psbt =
     bind_res (require_bitcoin_wallet w) (\<lambda>_. let tx = ps_unsigned_tx psbt in
     guard_res (tx_input tx = [] \<or> tx_output tx = [] \<or> length (ps_inputs psbt) \<noteq> length (tx_input tx) \<or>
       length (ps_outputs psbt) \<noteq> length (tx_output tx)) (SanityCheckFailure psbt)
     (bind_res (verify_inputs L I w psbt 0 0 False (zip (ps_inputs psbt) (tx_input tx))) (\<lambda>(value_in, sat_weight, any_segwit).
      bind_res (ok_or (SanityCheckFailure psbt) (try_sum64 0 (map to_value (tx_output tx)))) (\<lambda>out.
      bind_res (ok_or (InsaneFees NegativeFee) (checked_sub value_in out)) (\<lambda>fee.
      guard_res (fee > MAX_FEE) (InsaneFees (TooHighFee fee))
      (bind_res (ok_or (InvalidImportedWallet ''signed weight overflow'')
         (Option.bind (checked_add64 (lib_tx_weight L tx) sat_weight) (\<lambda>weight.
          checked_add64 weight (if any_segwit then 2 + length (tx_input tx) else 0)))) (\<lambda>signed_weight.
       let maximum_vbytes = min (signed_weight + 3) (2 ^ 64 - 1) div 4 in
       bind_res (ok_or (InsaneFees InvalidFeerateInfo) (checked_div fee maximum_vbytes)) (\<lambda>feerate.
       guard_res (\<not> (1 \<le> feerate \<and> feerate \<le> MAX_FEERATE)) (InsaneFees (TooHighFeerate feerate))
       (guard_res (list_ex (\<lambda>txo. to_value txo < lib_minimal_non_dust L (to_script txo)) (tx_output tx)) (SanityCheckFailure psbt)
         (Inr ()))))))))))"

section \<open>Construction\<close>

definition imported_destination ::
  "imported_api \<Rightarrow> imported_descriptor \<Rightarrow> spend_output_address \<times> nat \<Rightarrow> (spend_error, txout \<times> definite option) res" where
  "imported_destination I w dest =
     bind_res (check_output_value (snd dest)) (\<lambda>_.
     bind_res (own_output I w (fst dest)) (\<lambda>owned.
     Inr (\<lparr>to_value = snd dest, to_script = address_script (so_addr (fst dest))\<rparr>, owned)))"

definition output_metadata :: "imported_api \<Rightarrow> txout \<times> definite option \<Rightarrow> (spend_error, psbt_out) res" where
  "output_metadata I = (\<lambda>(txo, owned). case owned of None \<Rightarrow> Inr psbt_out_default
     | Some desc \<Rightarrow> ok_or (InvalidImportedWallet ''owned output descriptor does not match'') (lib_output_metadata I desc txo psbt_out_default))"

definition imported_input ::
  "btc_api \<Rightarrow> imported_api \<Rightarrow> imported_descriptor \<Rightarrow> tx_getter \<Rightarrow> bool \<Rightarrow> candidate_coin \<Rightarrow> (spend_error, psbt_in) res" where
  \<comment> \<open>the loop body over the selected coins\<close>
  "imported_input L I w getter segwit coin =
     bind_res (imported_branch I w (coin_info coin)) (\<lambda>definite.
     let previous = getter (op_txid (cc_outpoint coin)) in
     bind_res (map_err (InputAuthentication (cc_outpoint coin))
       (authenticate_previous_output L (cc_outpoint coin) previous None)) (\<lambda>authenticated.
     guard_res (to_value authenticated \<noteq> cc_amount coin)
       (InputAuthentication (cc_outpoint coin) (AmountMismatch (cc_amount coin) (to_value authenticated)))
     (guard_res (to_script authenticated \<noteq> df_script definite) (InputAuthentication (cc_outpoint coin) ScriptMismatch)
     (ok_or (InvalidImportedWallet ''input descriptor metadata is invalid'')
       (lib_input_metadata I definite (coin_txin coin)
          (psbt_in_default\<lparr>pi_non_witness_utxo := previous,
             pi_witness_utxo := (if segwit then Some authenticated else None)\<rparr>))))))"

definition create_imported_spend ::
  "'s select_api \<Rightarrow> btc_api \<Rightarrow> imported_api \<Rightarrow> imported_descriptor \<Rightarrow> tx_getter \<Rightarrow> (spend_output_address \<times> nat) list \<Rightarrow>
   candidate_coin list \<Rightarrow> spend_tx_fees \<Rightarrow> spend_output_address \<Rightarrow> nat \<Rightarrow> (spend_error, create_spend_res) res" where
  "create_imported_spend S L I w getter destinations candidate_coins fees change_addr locktime =
     bind_res (require_bitcoin_wallet w) (\<lambda>_.
     let (feerate, replaced_fee) = (case fees of Regular f \<Rightarrow> (f, None) | Rbf f fee \<Rightarrow> (f, Some fee)) in
     guard_res (feerate = 0) (InvalidFeerate feerate)
     (guard_res (feerate > MAX_FEERATE) (InsaneFees (TooHighFeerate feerate))
     (guard_res (case so_info change_addr of None \<Rightarrow> True | Some info \<Rightarrow> \<not> ai_is_change info)
       (InvalidImportedWallet ''change must be an owned change-branch address'')
     (bind_res (own_output I w change_addr) (\<lambda>change_own.
      bind_res (ok_or (InvalidImportedWallet ''missing change derivation'') change_own) (\<lambda>change_desc.
      bind_res (fold_res (\<lambda>seen coin.
          guard_res (cc_outpoint coin \<in> set seen) (InvalidImportedWallet ''duplicate candidate outpoint'')
          (bind_res (imported_branch I w (coin_info coin)) (\<lambda>_. Inr (cc_outpoint coin # seen)))) [] candidate_coins) (\<lambda>_.
      bind_res (collect_res (imported_destination I w) destinations) (\<lambda>dests.
      bind_res (ok_or (InvalidImportedWallet ''descriptor derivation failed'') (lib_at_index I (id_receive w) 0)) (\<lambda>representative.
      let segwit = is_segwit representative; change_script = address_script (so_addr change_addr) in
      bind_res (ok_or (InvalidImportedWallet ''descriptor cannot be satisfied'') (lib_weight_to_satisfy I representative)) (\<lambda>weight.
      bind_res (ok_or (InvalidImportedWallet ''satisfaction weight overflow'') (checked_add64 weight (of_bool segwit))) (\<lambda>max_sat_weight.
      guard_res (feerate \<ge> 2 ^ 16) (InsaneFees (TooHighFeerate feerate))
      (bind_res (map_err CoinSelectionError (select_coins_for_spend S L candidate_coins
          \<lparr>tx_version = 2, tx_lock_time = locktime, tx_input = [], tx_output = map fst dests\<rparr>
          \<lparr>to_value = 2 ^ 64 - 1, to_script = change_script\<rparr> feerate replaced_fee max_sat_weight segwit (destinations = []))) (\<lambda>sel.
       let has_change = sr_change_amount sel > 0 in
       bind_res (if has_change then bind_res (check_output_value (sr_change_amount sel)) (\<lambda>_.
            Inr [(\<lparr>to_value = sr_change_amount sel, to_script = change_script\<rparr>, Some change_desc)]) else Inr []) (\<lambda>change_outs.
       let warnings = (if \<not> has_change \<and> sr_max_change_amount sel > 0 then [ChangeAddedToFee (sr_max_change_amount sel)] else []) @
            (if sr_fee_for_ancestors sel > 0 then [AdditionalFeeForAncestors (sr_fee_for_ancestors sel)] else []);
          outs = dests @ change_outs
       in
       bind_res (collect_res (output_metadata I) outs) (\<lambda>psbt_outs.
       bind_res (collect_res (imported_input L I w getter segwit) (sr_selected sel)) (\<lambda>psbt_ins.
       let psbt = \<lparr>ps_unsigned_tx = \<lparr>tx_version = 2, tx_lock_time = locktime, tx_input = map coin_txin (sr_selected sel),
              tx_output = map fst outs\<rparr>, ps_version = 0, ps_xpub = [], ps_proprietary = [], ps_unknown = [],
            ps_inputs = psbt_ins, ps_outputs = psbt_outs\<rparr>
       in
       bind_res (verify_imported_spend_before_broadcast L I w psbt) (\<lambda>_.
       Inr \<lparr>cs_psbt = psbt, cs_has_change = has_change, cs_warnings = warnings\<rparr>)))))))))))))))))"

section \<open>What an imported spend contains\<close>

text \<open>Miniscript fills in scripts and key origins; it leaves the spent outputs alone.\<close>

definition metadata_keeps_utxos :: "imported_api \<Rightarrow> bool" where
  "metadata_keeps_utxos I \<longleftrightarrow> (\<forall>d txin pin pin'. lib_input_metadata I d txin pin = Some pin' \<longrightarrow>
     pi_non_witness_utxo pin' = pi_non_witness_utxo pin \<and> pi_witness_utxo pin' = pi_witness_utxo pin)"

definition imported_coin ::
  "btc_api \<Rightarrow> imported_api \<Rightarrow> imported_descriptor \<Rightarrow> candidate_coin \<Rightarrow> psbt_in \<Rightarrow> bool" where
  \<comment> \<open>the input carries the transaction its outpoint commits to, which pays the coin's amount to the
    script of the coin's own branch and index\<close>
  "imported_coin L I w c pin \<longleftrightarrow> (\<exists>prev dd. imported_branch I w (coin_info c) = Inr dd \<and> pi_non_witness_utxo pin = Some prev \<and>
     lib_txid L prev = op_txid (cc_outpoint c) \<and> op_vout (cc_outpoint c) < length (tx_output prev) \<and>
     tx_output prev ! op_vout (cc_outpoint c) = \<lparr>to_value = cc_amount c, to_script = df_script dd\<rparr>)"

lemma imported_input_coin:
  assumes "metadata_keeps_utxos I" and "imported_input L I w getter segwit c = Inr pin"
  shows "imported_coin L I w c pin"
proof -
  obtain dd out prev where dd: "imported_branch I w (coin_info c) = Inr dd"
    and out: "authenticate_previous_output L (cc_outpoint c) (getter (op_txid (cc_outpoint c))) None = Inr out"
    and eq: "to_value out = cc_amount c" "to_script out = df_script dd"
    and pin: "lib_input_metadata I dd (coin_txin c) (psbt_in_default\<lparr>pi_non_witness_utxo := getter (op_txid (cc_outpoint c)),
        pi_witness_utxo := (if segwit then Some out else None)\<rparr>) = Some pin"
    using assms(2) unfolding imported_input_def Let_def by (auto simp: res_rules)
  have "pi_non_witness_utxo pin = getter (op_txid (cc_outpoint c))"
    using assms(1) pin unfolding metadata_keeps_utxos_def by fastforce
  moreover have "out = \<lparr>to_value = cc_amount c, to_script = df_script dd\<rparr>" using eq by (intro txout_eqI) simp_all
  ultimately show ?thesis using out dd unfolding imported_coin_def authenticate_iff by auto
qed

lemma imported_inputs_coins:
  assumes "metadata_keeps_utxos I" and "collect_res (imported_input L I w getter segwit) cs = Inr pins"
  shows "list_all2 (imported_coin L I w) cs pins"
  using assms(2) unfolding collect_res_Inr
  by (rule list_all2_mono) (rule imported_input_coin [OF assms(1)])

definition signs_with :: "imported_api \<Rightarrow> imported_descriptor \<Rightarrow> candidate_coin \<times> psbt_in \<Rightarrow> definite \<times> nat \<Rightarrow> bool" where
  \<comment> \<open>the descriptor that the key origins of the coin's input lead to, which has the coin's script, and
    its largest satisfaction\<close>
  "signs_with I w = (\<lambda>(c, pin) (desc, weight). lib_weight_to_satisfy I desc = Some weight \<and>
     (\<exists>dd. imported_branch I w (coin_info c) = Inr dd \<and> locate_input I w pin (df_script dd) = Some desc))"

definition signed_vbytes :: "btc_api \<Rightarrow> transaction \<Rightarrow> (definite \<times> nat) list \<Rightarrow> nat" where
  \<comment> \<open>the virtual size of the transaction with all its inputs satisfied\<close>
  "signed_vbytes L tx signers = (lib_tx_weight L tx + sum_list (map snd signers) +
     (if \<exists>s\<in>set signers. is_segwit (fst s) then 2 + length (tx_input tx) else 0) + 3) div 4"

lemma verify_inputs_total:
  assumes "verify_inputs L I w psbt v s seg (zip pins (map coin_txin cs)) = Inr (v', s', seg')"
    and "list_all2 (imported_coin L I w) cs pins"
  shows "v' = v + sum_list (map cc_amount cs) \<and> (\<exists>signers. list_all2 (signs_with I w) (zip cs pins) signers \<and>
    s' = s + sum_list (map snd signers) \<and> seg' = (seg \<or> (\<exists>x\<in>set signers. is_segwit (fst x))))"
  using assms(2,1)
proof (induction arbitrary: v s seg rule: list_all2_induct)
  case (Cons c cs pin pins)
  from Cons.prems obtain out desc weight where out: "authenticate_previous_output L (cc_outpoint c) (pi_non_witness_utxo pin) (pi_witness_utxo pin) = Inr out"
    and desc: "locate_input I w pin (to_script out) = Some desc" "lib_weight_to_satisfy I desc = Some weight"
    and rest: "verify_inputs L I w psbt (v + to_value out) (s + weight) (seg \<or> is_segwit desc) (zip pins (map coin_txin cs)) = Inr (v', s', seg')"
    by (auto simp: res_rules)
  obtain dd where dd: "imported_branch I w (coin_info c) = Inr dd" "to_value out = cc_amount c" "to_script out = df_script dd"
    using out Cons.hyps(1) unfolding imported_coin_def authenticate_iff by auto
  from Cons.IH [OF rest] obtain signers where "list_all2 (signs_with I w) (zip cs pins) signers"
      "s' = s + weight + sum_list (map snd signers)" "seg' = ((seg \<or> is_segwit desc) \<or> (\<exists>x\<in>set signers. is_segwit (fst x)))"
    "v' = v + to_value out + sum_list (map cc_amount cs)" by blast
  then show ?case using desc dd by (intro conjI exI [of _ "(desc, weight) # signers"]) (auto simp: signs_with_def)
qed simp

lemma imported_destinations:
  assumes "collect_res (imported_destination I w) dests = Inr outs"
  shows "map fst outs = map dest_output dests \<and> (\<forall>dest\<in>set dests. DUST_OUTPUT_SATS \<le> snd dest \<and> snd dest \<le> max_money)"
proof -
  have "list_all2 (\<lambda>dest out. fst out = dest_output dest \<and> DUST_OUTPUT_SATS \<le> snd dest \<and> snd dest \<le> max_money) dests outs"
    using assms unfolding collect_res_Inr
    by (rule list_all2_mono) (auto simp: imported_destination_def res_rules check_output_value_iff dest_output_def)
  then show ?thesis by (induction rule: list_all2_induct) auto
qed

lemma own_output_Some:
  assumes "own_output I w a = Inr (Some dd)"
  shows "\<exists>info. so_info a = Some info \<and> imported_branch I w info = Inr dd \<and> df_script dd = address_script (so_addr a)"
  using assms by (auto simp: own_output_def res_rules split: option.splits)

lemma verified_fee:
  assumes "verify_imported_spend_before_broadcast L I w psbt = Inr ()"
  shows "\<not> is_blake2b (id_chain w) \<and> tx_input (ps_unsigned_tx psbt) \<noteq> [] \<and>
    (\<exists>v s seg fee vb. verify_inputs L I w psbt 0 0 False (zip (ps_inputs psbt) (tx_input (ps_unsigned_tx psbt))) = Inr (v, s, seg) \<and>
      v = sum_list (map to_value (tx_output (ps_unsigned_tx psbt))) + fee \<and> fee \<le> MAX_FEE \<and>
      vb = (lib_tx_weight L (ps_unsigned_tx psbt) + s + (if seg then 2 + length (tx_input (ps_unsigned_tx psbt)) else 0) + 3) div 4 \<and>
      vb \<le> fee \<and> fee < (MAX_FEERATE + 1) * vb)"
proof -
  let ?tx = "ps_unsigned_tx psbt"
  obtain v s seg out where c: "\<not> is_blake2b (id_chain w)" "tx_input ?tx \<noteq> []"
    and v: "verify_inputs L I w psbt 0 0 False (zip (ps_inputs psbt) (tx_input ?tx)) = Inr (v, s, seg)"
    and out: "try_sum64 0 (map to_value (tx_output ?tx)) = Some out" "out \<le> v" "v - out \<le> MAX_FEE"
    and raw: "(\<lambda>weight. weight < 2 ^ 64 \<and> min (weight + 3) (2 ^ 64 - 1) div 4 \<noteq> 0 \<and> 1 \<le> (v - out) div (min (weight + 3) (2 ^ 64 - 1) div 4) \<and>
      (v - out) div (min (weight + 3) (2 ^ 64 - 1) div 4) \<le> MAX_FEERATE) (lib_tx_weight L ?tx + s + (if seg then 2 + length (tx_input ?tx) else 0))"
    using assms unfolding verify_imported_spend_before_broadcast_def require_bitcoin_wallet_def Let_def
    by (simp only: res_rules split_paired_Ex prod.case bind_eq_Some_conv) (auto simp: not_less)
  define weight where "weight = lib_tx_weight L ?tx + s + (if seg then 2 + length (tx_input ?tx) else 0)"
  note rate = raw [folded weight_def, THEN conjunct2]
  define vb where "vb = min (weight + 3) (2 ^ 64 - 1) div 4"
  have vb: "vb \<noteq> 0" "1 \<le> (v - out) div vb" "(v - out) div vb \<le> MAX_FEERATE" using rate unfolding vb_def by blast+
  then have le: "vb \<le> v - out" by (metis One_nat_def Suc_le_eq div_greater_zero_iff)
  have "(v - out) div vb < MAX_FEERATE + 1" using vb(3) by simp
  then have lt: "v - out < (MAX_FEERATE + 1) * vb" using vb(1) by (simp add: div_less_iff_less_mult)
  have "vb \<le> 100000000" using le out(3) by (simp add: MAX_FEE_def one_btc_def)
  then have "vb = (weight + 3) div 4" unfolding vb_def by (cases "weight + 3 \<le> 2 ^ 64 - 1") auto
  moreover have "v = sum_list (map to_value (tx_output ?tx)) + (v - out)" using try_sum64_Some [OF out(1)] out(2) by simp
  ultimately show ?thesis using c v out(3) le lt unfolding weight_def by blast
qed

text \<open>
  C9.  A spend from an imported wallet is what was asked for.  If one is created, the wallet is on a
  Bitcoin chain; the transaction spends distinct candidate coins, among them every coin that had to be
  selected, and nothing else; each input carries the complete transaction its outpoint commits to,
  which pays the wallet's amount to the script of that coin's own branch and index; the outputs are the
  destinations in order and at most one change output, to the wallet's own change branch; and, with no
  overflow, inputs minus outputs is a fee of at most one bitcoin.  The fee is at least one and under
  1,001 satoshis per virtual byte of the signed transaction, whose size is that of the unsigned one
  with the largest satisfaction of the descriptor each input's key origins lead to in the wallet.
\<close>

theorem imported_spend_sound:
  assumes laws: "selector_laws S" and keeps: "metadata_keeps_utxos I"
    and run: "create_imported_spend S L I w getter dests cands fees change_addr locktime = Inr r"
  shows "\<exists>selected change fee signers. \<not> is_blake2b (id_chain w) \<and> selected \<noteq> [] \<and>
    distinct (map cc_outpoint selected) \<and> set selected \<subseteq> set cands \<and> (\<forall>c\<in>set cands. cc_must_select c \<longrightarrow> c \<in> set selected) \<and>
    prevouts (ps_unsigned_tx (cs_psbt r)) = map cc_outpoint selected \<and>
    list_all2 (imported_coin L I w) selected (ps_inputs (cs_psbt r)) \<and>
    (\<forall>dest\<in>set dests. 500 \<le> snd dest \<and> snd dest \<le> max_money) \<and>
    (change = [] \<or> (\<exists>amount info dd. 500 \<le> amount \<and> amount \<le> max_money \<and> so_info change_addr = Some info \<and> ai_is_change info \<and>
        imported_branch I w info = Inr dd \<and> df_script dd = address_script (so_addr change_addr) \<and>
        change = [\<lparr>to_value = amount, to_script = df_script dd\<rparr>])) \<and>
    tx_output (ps_unsigned_tx (cs_psbt r)) = map dest_output dests @ change \<and>
    sum_list (map cc_amount selected) = sum_list (map to_value (tx_output (ps_unsigned_tx (cs_psbt r)))) + fee \<and>
    fee \<le> 100000000 \<and> list_all2 (signs_with I w) (zip selected (ps_inputs (cs_psbt r))) signers \<and>
    signed_vbytes L (ps_unsigned_tx (cs_psbt r)) signers \<le> fee \<and> fee < 1001 * signed_vbytes L (ps_unsigned_tx (cs_psbt r)) signers"
proof -
  obtain f rf where fees: "(case fees of Regular f \<Rightarrow> (f, None) | Rbf f fee \<Rightarrow> (f, Some fee)) = (f, rf)" by fastforce
  from run obtain info change_desc outs rep weight sel ch pouts pins where
    info: "(case so_info change_addr of None \<Rightarrow> True | Some info \<Rightarrow> \<not> ai_is_change info) = False"
    and own: "own_output I w change_addr = Inr (Some change_desc)"
    and outs: "collect_res (imported_destination I w) dests = Inr outs"
    and sel: "select_coins_for_spend S L cands \<lparr>tx_version = 2, tx_lock_time = locktime, tx_input = [], tx_output = map fst outs\<rparr>
        \<lparr>to_value = 2 ^ 64 - 1, to_script = address_script (so_addr change_addr)\<rparr> f rf weight (is_segwit rep) (dests = []) = Inr sel"
    and ch: "(if sr_change_amount sel > 0 then bind_res (check_output_value (sr_change_amount sel)) (\<lambda>_.
        Inr [(\<lparr>to_value = sr_change_amount sel, to_script = address_script (so_addr change_addr)\<rparr>, Some change_desc)]) else Inr []) = Inr ch"
    and pins: "collect_res (imported_input L I w getter (is_segwit rep)) (sr_selected sel) = Inr pins"
    and ver: "verify_imported_spend_before_broadcast L I w (cs_psbt r) = Inr ()"
    and psbt: "cs_psbt r = \<lparr>ps_unsigned_tx = \<lparr>tx_version = 2, tx_lock_time = locktime, tx_input = map coin_txin (sr_selected sel),
        tx_output = map fst (outs @ ch)\<rparr>, ps_version = 0, ps_xpub = [], ps_proprietary = [], ps_unknown = [],
        ps_inputs = pins, ps_outputs = pouts\<rparr>"
    unfolding create_imported_spend_def fees Let_def prod.case by (simp only: res_rules) auto
  have ok: "selection_ok cands (dests = []) sel" by (rule select_coins_ok(2) [OF laws sel])
  let ?sel = "sr_selected sel" and ?tx = "ps_unsigned_tx (cs_psbt r)"
  have tx: "tx_input ?tx = map coin_txin ?sel" "ps_inputs (cs_psbt r) = pins" "tx_output ?tx = map dest_output dests @ map fst ch"
    using imported_destinations [OF outs] by (simp_all add: psbt)
  have own_coins: "list_all2 (imported_coin L I w) ?sel pins" by (rule imported_inputs_coins [OF keeps pins])
  obtain v s seg fee vb where fee: "\<not> is_blake2b (id_chain w)" "tx_input ?tx \<noteq> []"
      "verify_inputs L I w (cs_psbt r) 0 0 False (zip (ps_inputs (cs_psbt r)) (tx_input ?tx)) = Inr (v, s, seg)"
      "v = sum_list (map to_value (tx_output ?tx)) + fee" "fee \<le> MAX_FEE"
      "vb = (lib_tx_weight L ?tx + s + (if seg then 2 + length (tx_input ?tx) else 0) + 3) div 4" "vb \<le> fee" "fee < (MAX_FEERATE + 1) * vb"
    using verified_fee [OF ver] by blast
  obtain signers where v: "v = sum_list (map cc_amount ?sel)" and signers: "list_all2 (signs_with I w) (zip ?sel pins) signers"
      "s = sum_list (map snd signers)" "seg = (\<exists>x\<in>set signers. is_segwit (fst x))"
    using verify_inputs_total [OF fee(3) [unfolded tx] own_coins] by auto
  have vb: "vb = signed_vbytes L ?tx signers" using fee(6) unfolding signed_vbytes_def signers(2,3) .
  have change: "map fst ch = [] \<or> (\<exists>amount info dd. 500 \<le> amount \<and> amount \<le> max_money \<and> so_info change_addr = Some info \<and> ai_is_change info \<and>
        imported_branch I w info = Inr dd \<and> df_script dd = address_script (so_addr change_addr) \<and>
        map fst ch = [\<lparr>to_value = amount, to_script = df_script dd\<rparr>])"
    using ch own_output_Some [OF own] info
    by (auto simp: res_rules check_output_value_iff DUST_OUTPUT_SATS_def split: if_splits)
  have sel: "distinct (map cc_outpoint ?sel)" "set ?sel \<subseteq> set cands" "\<forall>c\<in>set cands. cc_must_select c \<longrightarrow> c \<in> set ?sel"
    using selection_ok_outpoints [OF ok] ok by (auto simp: selection_ok_def)
  have "prevouts ?tx = map cc_outpoint ?sel" by (simp add: prevouts_def tx comp_def)
  moreover have "\<forall>dest\<in>set dests. 500 \<le> snd dest \<and> snd dest \<le> max_money"
    using imported_destinations [OF outs] by (simp add: DUST_OUTPUT_SATS_def)
  moreover have "?sel \<noteq> []" using fee(2) by (simp add: tx)
  moreover have "fee \<le> 100000000" "fee < 1001 * vb" using fee(5,8) by (simp_all add: MAX_FEE_def one_btc_def MAX_FEERATE_def)
  ultimately show ?thesis using fee(1,4,7) v own_coins sel change tx signers(1) unfolding vb
    by (intro exI [of _ ?sel] exI [of _ "map fst ch"] exI [of _ fee] exI [of _ signers]) simp
qed

section \<open>An imported wallet\<close>

definition demo_imported :: imported_api where
  "demo_imported = \<lparr>
     lib_at_index = (\<lambda>text n. Some \<lparr>df_text = text, df_script = demo_script (text = ''c'') n, df_is_pkh = False\<rparr>),
     lib_weight_to_satisfy = (\<lambda>d. Some 99),
     lib_input_metadata = (\<lambda>d txin pin. Some (pin\<lparr>pi_bip32_derivation :=
       [([2], ([0], [Normal (unat (df_script d ! 0)), Normal (unat (df_script d ! 1))]))]\<rparr>)),
     lib_output_metadata = (\<lambda>d txo out. Some out)\<rparr>"

definition demo_import :: imported_descriptor where
  "demo_import = \<lparr>id_chain = Bitcoin, id_receive = ''r'', id_change = ''c''\<rparr>"

definition demo_import_in :: "nat \<Rightarrow> psbt_in" where
  "demo_import_in n = psbt_in_default\<lparr>pi_non_witness_utxo := Some (demo_prev n),
     pi_witness_utxo := Some \<lparr>to_value = 100000, to_script = demo_script False n\<rparr>,
     pi_bip32_derivation := [([2], ([0], [Normal 0, Normal n]))]\<rparr>"

definition demo_import_psbt :: psbt where
  "demo_import_psbt = \<lparr>ps_unsigned_tx = \<lparr>tx_version = 2, tx_lock_time = 0, tx_input = map coin_txin (demo_coins 1 2),
       tx_output = [\<lparr>to_value = 199100, to_script = demo_script True 9\<rparr>]\<rparr>,
     ps_version = 0, ps_xpub = [], ps_proprietary = [], ps_unknown = [],
     ps_inputs = [demo_import_in 1, demo_import_in 2], ps_outputs = [psbt_out_default]\<rparr>"

lemma demo_keeps_utxos: "metadata_keeps_utxos demo_imported"
  by (auto simp: metadata_keeps_utxos_def demo_imported_def)

lemma demo_authenticates:
  assumes "n \<in> {1, 2}"
  shows "authenticate_previous_output demo_api (OutPoint (demo_txid (demo_prev n)) 0) (Some (demo_prev n)) w =
    (if w = None \<or> w = Some \<lparr>to_value = 100000, to_script = demo_script False n\<rparr>
     then Inr \<lparr>to_value = 100000, to_script = demo_script False n\<rparr> else Inl WitnessUtxoConflict)"
proof -
  have txid: "lib_txid demo_api (demo_prev n) = demo_txid (demo_prev n)" by (simp add: demo_api_def)
  have out: "tx_output (demo_prev n) = [\<lparr>to_value = 100000, to_script = demo_script False n\<rparr>]" by (simp add: demo_prev_def)
  show ?thesis by (cases w) (simp_all add: authenticate_previous_output_def Let_def txid out nth_opt_def max_money_def guard_res_def)
qed

lemma demo_import_input:
  assumes "n \<in> {1, 2}"
  shows "imported_input demo_api demo_imported demo_import demo_getter True (demo_wallet_coin n) = Inr (demo_import_in n)"
proof -
  have "demo_getter (demo_txid (demo_prev n)) = Some (demo_prev n)" using demo_getter_prev assms by blast
  moreover have "unat (of_nat n :: byte) = n" using assms by (auto simp: unat_of_nat_byte)
  ultimately show ?thesis using demo_authenticates [OF assms, of None]
    by (simp add: imported_input_def Let_def imported_branch_def coin_info_def demo_imported_def demo_import_def demo_import_in_def demo_script_def
        demo_wallet_coin_def guard_res_def)
qed

lemma demo_import_locate:
  assumes "n \<in> {1, 2}"
  shows "locate_input demo_imported demo_import (demo_import_in n) (demo_script False n) =
    Some \<lparr>df_text = ''r'', df_script = demo_script False n, df_is_pkh = False\<rparr>"
  by (simp add: locate_input_def demo_import_in_def demo_imported_def demo_import_def)

lemma demo_import_metadata:
  assumes "n \<in> {1, 2}"
  shows "\<exists>x. lib_input_metadata demo_imported \<lparr>df_text = ''r'', df_script = demo_script False n, df_is_pkh = False\<rparr> txin
      (demo_import_in n\<lparr>pi_bip32_derivation := [], pi_redeem_script := None, pi_witness_script := None\<rparr>) = Some x \<and>
    same_metadata x (demo_import_in n)"
proof -
  have "unat (of_nat n :: byte) = n" using assms by (auto simp: unat_of_nat_byte)
  then show ?thesis by (simp add: demo_imported_def same_metadata_def demo_import_in_def demo_script_def psbt_in_default_def)
qed

lemma demo_import_verifies: "verify_imported_spend_before_broadcast demo_api demo_imported demo_import demo_import_psbt = Inr ()"
proof -
  have one: "verify_inputs demo_api demo_imported demo_import demo_import_psbt v s g ((demo_import_in n, coin_txin (demo_wallet_coin n)) # rest) =
      verify_inputs demo_api demo_imported demo_import demo_import_psbt (v + 100000) (s + 99) True rest"
    if "n \<in> {1, 2}" "v \<le> 100000" "s \<le> 99" for n v s g rest
  proof -
    note n = that
    obtain x where x: "lib_input_metadata demo_imported \<lparr>df_text = ''r'', df_script = demo_script False n, df_is_pkh = False\<rparr>
        (coin_txin (demo_wallet_coin n)) (demo_import_in n\<lparr>pi_bip32_derivation := [], pi_redeem_script := None, pi_witness_script := None\<rparr>) = Some x"
      "same_metadata x (demo_import_in n)" using demo_import_metadata [OF n(1)] by blast
    have utxo: "pi_non_witness_utxo (demo_import_in n) = Some (demo_prev n)"
      "pi_witness_utxo (demo_import_in n) = Some \<lparr>to_value = 100000, to_script = demo_script False n\<rparr>" by (simp_all add: demo_import_in_def)
    have "lib_weight_to_satisfy demo_imported d = Some 99" for d by (simp add: demo_imported_def)
    then show ?thesis using n demo_authenticates [OF n(1), of "Some \<lparr>to_value = 100000, to_script = demo_script False n\<rparr>"]
        demo_import_locate [OF n(1)] x utxo
      by (simp add: checked_add64_def is_segwit_def guard_res_def)
  qed
  have "verify_inputs demo_api demo_imported demo_import demo_import_psbt 0 0 False
      (zip (ps_inputs demo_import_psbt) (tx_input (ps_unsigned_tx demo_import_psbt))) = Inr (200000, 198, True)"
    using one [of 1 0 0] one [of 2 100000 99] by (simp add: demo_import_psbt_def del: verify_inputs.simps(2) One_nat_def)
  then show ?thesis
    by (simp add: verify_imported_spend_before_broadcast_def require_bitcoin_wallet_def Let_def demo_import_def)
      (simp add: demo_import_psbt_def demo_api_def checked_add64_def checked_sub_def checked_div_def MAX_FEE_def one_btc_def MAX_FEERATE_def)
qed

lemma demo_import_runs:
  "create_imported_spend demo_selector demo_api demo_imported demo_import demo_getter [] (demo_coins 1 2) (Regular 3) (demo_change Net_Bitcoin 9) 0 =
    Inr \<lparr>cs_psbt = demo_import_psbt, cs_has_change = True, cs_warnings = []\<rparr>"
proof -
  have branch: "imported_branch demo_imported demo_import info = Inr \<lparr>df_text = (if ai_is_change info then ''c'' else ''r''),
      df_script = demo_script (ai_is_change info) n, df_is_pkh = False\<rparr>" if "ai_index info = Normal n" for info n
    using that by (simp add: imported_branch_def demo_imported_def demo_import_def)
  have at0: "lib_at_index demo_imported (id_receive demo_import) 0 = Some \<lparr>df_text = ''r'', df_script = demo_script False 0, df_is_pkh = False\<rparr>"
    by (simp add: demo_imported_def demo_import_def)
  have sel: "select_coins_for_spend demo_selector demo_api (demo_coins 1 2) \<lparr>tx_version = 2, tx_lock_time = 0, tx_input = [], tx_output = []\<rparr> txo 3 None 100 True True =
      Inr \<lparr>sr_selected = demo_coins 1 2, sr_change_amount = 199100, sr_max_change_amount = 199100, sr_fee_for_ancestors = 0\<rparr>" for txo
    using demo_selection_sweep [of 1 2 3] by simp
  have own: "own_output demo_imported demo_import (demo_change Net_Bitcoin 9) =
      Inr (Some \<lparr>df_text = ''c'', df_script = demo_script True 9, df_is_pkh = False\<rparr>)"
    by (simp add: own_output_def demo_change_def branch address_script_def)
  have script: "address_script (so_addr (demo_change Net_Bitcoin 9)) = demo_script True 9" by (simp add: demo_change_def address_script_def)
  have info: "so_info (demo_change Net_Bitcoin 9) = Some \<lparr>ai_index = Normal 9, ai_is_change = True\<rparr>" by (simp add: demo_change_def)
  have weight: "lib_weight_to_satisfy demo_imported d = Some 99" "lib_output_metadata demo_imported d txo out = Some out" for d txo out
    by (simp_all add: demo_imported_def)
  have ops: "demo_txid (demo_prev 2) \<noteq> demo_txid (demo_prev 1)" by (simp add: demo_txid_prev)
  have coin: "coin_info (demo_wallet_coin n) = \<lparr>ai_index = Normal n, ai_is_change = False\<rparr>" for n
    by (simp add: coin_info_def demo_wallet_coin_def)
  have bitcoin: "require_bitcoin_wallet demo_import = Inr ()" by (simp add: require_bitcoin_wallet_def demo_import_def)
  have "check_output_value 199100 = Inr ()" by (simp add: check_output_value_def max_money_def DUST_OUTPUT_SATS_def)
  then show ?thesis
    using demo_import_verifies demo_import_input [of 1] demo_import_input [of 2] sel ops
    unfolding create_imported_spend_def
    by (simp add: bitcoin Let_def MAX_FEERATE_def info own script at0 weight coin branch checked_add64_def is_segwit_def output_metadata_def
        demo_import_psbt_def del: One_nat_def)
qed

theorem imported_spend_sound_witness:
  "\<exists>selected fee signers. selected \<noteq> [] \<and> distinct (map cc_outpoint selected) \<and> prevouts (ps_unsigned_tx demo_import_psbt) = map cc_outpoint selected \<and>
     list_all2 (imported_coin demo_api demo_imported demo_import) selected (ps_inputs demo_import_psbt) \<and>
     sum_list (map cc_amount selected) = 199100 + fee \<and> fee \<le> 100000000 \<and>
     list_all2 (signs_with demo_imported demo_import) (zip selected (ps_inputs demo_import_psbt)) signers \<and>
     fee < 1001 * signed_vbytes demo_api (ps_unsigned_tx demo_import_psbt) signers"
proof -
  have out: "sum_list (map to_value (tx_output (ps_unsigned_tx demo_import_psbt))) = 199100" by (simp add: demo_import_psbt_def)
  from imported_spend_sound [OF demo_selector_laws demo_keeps_utxos demo_import_runs] show ?thesis
    unfolding create_spend_res.simps out by blast
qed

end
