(* ===== verification/Commands.thy ===== *)
theory Commands
  imports Poller Submission Imported_Spend
begin

text \<open>
  \<open>coincubed/src/commands/mod.rs\<close>: the commands of the daemon that build spends, replacements and
  recoveries and hand out addresses, over the wallet database, the spend construction of the core
  and a Bitcoin backend.  Every database call is one transaction of its own, and between two of them
  the poller and the commands of other connections may run: \<open>ce_others\<close> is what they commit before
  the \<open>n\<close>th access.  A core function reads the previous transactions it needs at once.  The backend is
  a record of the methods the commands call, each a function of the backend's own state.
\<close>

section \<open>Errors\<close>

datatype rbf_error_info = MissingFeerate | SuperfluousFeerate | TooLowFeerate nat nat | NotSignaling

text \<open>The errors that the commands below report.  Texts that the source formats from values are shortened to
  their fixed part.\<close>

datatype command_error =
    NoOutpointForSelfSend
  | InvalidCommandFeerate nat
  | UnknownOutpoint outpoint
  | AlreadySpent outpoint
  | ImmatureCoinbase outpoint
  | WrongNetworkAddress
  | SpendCreation spend_error
  | UnknownSpend txid
  | ImportedSpendValidation string
  | AlreadyRescanning
  | InsaneRescanTimestamp nat
  | RescanTrigger string
  | RescanGenesis string
  | RecoveryNotAvailable
  | ChainTipUnavailable string
  | MempoolUnavailable string
  | OutpointNotRecoverable outpoint nat
  | InvalidDerivationIndex
  | ChangeReservation reservation_error
  | ChangeReservationContended
  | RbfError rbf_error_info
  | EmptyFilterList

datatype command_failure = Refused command_error | CommandPanic | CommandDiverged

section \<open>Surroundings\<close>

record mempool_entry =
  me_vsize :: nat
  me_ancestor_vsize :: nat
  me_base :: nat         \<comment> \<open>\<open>fees.base\<close>, in satoshis\<close>
  me_ancestor :: nat
  me_descendant :: nat

record 'b command_backend =
  chain_tip_result :: "'b \<Rightarrow> (string, block_chain_tip) res \<times> 'b"
  tip_time :: "'b \<Rightarrow> nat option \<times> 'b"
  mempool_entry_result :: "txid \<Rightarrow> 'b \<Rightarrow> (string, mempool_entry option) res \<times> 'b"
  mempool_spenders_result :: "outpoint list \<Rightarrow> 'b \<Rightarrow> (string, mempool_entry list) res \<times> 'b"
  sees_mempool :: "'b \<Rightarrow> bool"
  genesis_block_timestamp :: "'b \<Rightarrow> (string, nat) res \<times> 'b"
  rescan_progress_result :: "'b \<Rightarrow> (string, bool) res \<times> 'b"
    \<comment> \<open>whether a rescan runs\<close>
  bit_start_rescan :: "descriptor \<Rightarrow> nat \<Rightarrow> 'b \<Rightarrow> (string, unit) res \<times> 'b"

text \<open>The library calls of the commands, the iteration order of a table of coins included.\<close>

record command_api =
  lib_valid_for :: "address \<Rightarrow> network \<Rightarrow> bool"
    \<comment> \<open>\<open>Address::require_network\<close> succeeds\<close>
  lib_address_text :: "address \<Rightarrow> string"
  lib_from_script :: "script \<Rightarrow> network \<Rightarrow> address option"
  lib_wallet_address :: "wallet_descriptor \<Rightarrow> bool \<Rightarrow> network \<Rightarrow> nat \<Rightarrow> address option"
    \<comment> \<open>\<open>change_descriptor()\<close> or \<open>receive_descriptor()\<close>, \<open>.derive(i)?.address(network)?\<close>\<close>
  lib_first_timelock :: "descriptor \<Rightarrow> nat"
    \<comment> \<open>the smallest timelock of the descriptor's policy\<close>
  lib_coins_order :: "coin list \<Rightarrow> coin list"
  lib_clock :: "nat \<times> nat"
    \<comment> \<open>seconds and nanoseconds\<close>
  lib_vsize :: "transaction \<Rightarrow> nat"
  lib_finalized :: "psbt \<Rightarrow> transaction option"
    \<comment> \<open>\<open>finalize_mut\<close>, then \<open>extract_tx_unchecked_fee_rate\<close>\<close>

record ('s, 'b) command_env =
  ce_control :: daemon_control
  ce_select :: "'s select_api"
  ce_btc :: btc_api
  ce_desc :: desc_api
  ce_addresses :: address_api
  ce_imported :: imported_api
  ce_lib :: command_api
  ce_node :: "'b command_backend"
  ce_others :: "nat \<Rightarrow> wallet_db \<Rightarrow> wallet_db"

record 'b command_state =
  cm_bit :: 'b
  cm_db :: wallet_db
  cm_turn :: nat
  cm_cache :: "txid \<Rightarrow> transaction option option"
    \<comment> \<open>the cache of \<open>DbTxGetter\<close>\<close>

type_synonym ('b, 'a) command = "'b command_state \<Rightarrow> (command_failure, 'a) res \<times> 'b command_state"

abbreviation ce_chain :: "('s, 'b) command_env \<Rightarrow> chain_id" where "ce_chain C \<equiv> dc_chain (ce_control C)"
abbreviation ce_network :: "('s, 'b) command_env \<Rightarrow> network" where "ce_network C \<equiv> dc_network (ce_control C)"
abbreviation ce_main :: "('s, 'b) command_env \<Rightarrow> wallet_descriptor" where "ce_main C \<equiv> dc_main_descriptor (ce_control C)"

definition cmd_ok :: "'a \<Rightarrow> ('b, 'a) command" where "cmd_ok x s = (Inr x, s)"
definition cmd_fail :: "command_failure \<Rightarrow> ('b, 'a) command" where "cmd_fail e s = (Inl e, s)"
abbreviation cmd_err :: "command_error \<Rightarrow> ('b, 'a) command" where "cmd_err e \<equiv> cmd_fail (Refused e)"

definition cmd_bind :: "('b, 'a) command \<Rightarrow> ('a \<Rightarrow> ('b, 'c) command) \<Rightarrow> ('b, 'c) command" where
  "cmd_bind m f s = (case m s of (r, s') \<Rightarrow> (case r of Inl e \<Rightarrow> (Inl e, s') | Inr x \<Rightarrow> f x s'))"

definition cmd_guard :: "bool \<Rightarrow> command_error \<Rightarrow> ('b, 'a) command \<Rightarrow> ('b, 'a) command" where
  "cmd_guard bad e m = (if bad then cmd_err e else m)"

definition cmd_expect :: "'a option \<Rightarrow> ('b, 'a) command" where
  "cmd_expect x = (case x of None \<Rightarrow> cmd_fail CommandPanic | Some y \<Rightarrow> cmd_ok y)"

fun cmd_collect :: "('a \<Rightarrow> ('b, 'c) command) \<Rightarrow> 'a list \<Rightarrow> ('b, 'c list) command" where
  "cmd_collect f [] = cmd_ok []"
| "cmd_collect f (x # xs) = cmd_bind (f x) (\<lambda>y. cmd_bind (cmd_collect f xs) (\<lambda>ys. cmd_ok (y # ys)))"

definition turn :: "('s, 'b) command_env \<Rightarrow> 'b command_state \<Rightarrow> 'b command_state" where
  "turn C s = s\<lparr>cm_db := ce_others C (cm_turn s) (cm_db s), cm_turn := Suc (cm_turn s)\<rparr>"

definition conn :: "('s, 'b) command_env \<Rightarrow> (wallet_db \<Rightarrow> (command_failure, 'a) res \<times> wallet_db) \<Rightarrow> ('b, 'a) command" where
  "conn C f s = (case f (cm_db (turn C s)) of (r, db) \<Rightarrow> (r, (turn C s)\<lparr>cm_db := db\<rparr>))"

definition conn_read :: "('s, 'b) command_env \<Rightarrow> (wallet_db \<Rightarrow> 'a option) \<Rightarrow> ('b, 'a) command" where
  "conn_read C f = conn C (\<lambda>db. (ok_or CommandPanic (f db), db))"

definition conn_write :: "('s, 'b) command_env \<Rightarrow> (wallet_db \<Rightarrow> wallet_db option) \<Rightarrow> ('b, unit) command" where
  "conn_write C f = conn C (\<lambda>db. case f db of None \<Rightarrow> (Inl CommandPanic, db) | Some db' \<Rightarrow> (Inr (), db'))"

definition conn_reserve :: "('s, 'b) command_env \<Rightarrow> (wallet_db \<Rightarrow> 'a db_result) \<Rightarrow> ('b, 'a) command" where
  "conn_reserve C f = conn C (\<lambda>db. case f db of (r, db') \<Rightarrow> (map_err (\<lambda>e. Refused (ChangeReservation e)) r, db'))"

definition node_call :: "(string \<Rightarrow> command_error) \<Rightarrow> ('b \<Rightarrow> (string, 'a) res \<times> 'b) \<Rightarrow> ('b, 'a) command" where
  "node_call g f s = (case f (cm_bit s) of (r, b) \<Rightarrow> (map_err (\<lambda>e. Refused (g e)) r, s\<lparr>cm_bit := b\<rparr>))"

definition node_ask :: "('b \<Rightarrow> 'a \<times> 'b) \<Rightarrow> ('b, 'a) command" where
  "node_ask f s = (case f (cm_bit s) of (r, b) \<Rightarrow> (Inr r, s\<lparr>cm_bit := b\<rparr>))"

definition child_of :: "nat \<Rightarrow> child_number" where
  \<comment> \<open>\<open>ChildNumber::from(u32)\<close>\<close>
  "child_of i = (if i < 2 ^ 31 then Normal i else Hardened (i - 2 ^ 31))"

definition index_of :: "child_number \<Rightarrow> nat" where
  \<comment> \<open>\<open>u32::from(ChildNumber)\<close>\<close>
  "index_of c = (case c of Normal i \<Rightarrow> i | Hardened i \<Rightarrow> i + 2 ^ 31)"

definition increment :: "nat \<Rightarrow> nat option" where
  \<comment> \<open>\<open>ChildNumber::increment\<close>\<close>
  "increment i = (if i < 2 ^ 31 then from_normal_idx (i + 1) else if i + 1 < 2 ^ 32 then Some (i + 1) else None)"

section \<open>Previous transactions\<close>

definition stored_tx :: "txid \<Rightarrow> wallet_db \<Rightarrow> transaction option" where
  \<comment> \<open>\<open>list_wallet_transactions(&[txid]).pop()\<close>: a stored transaction that a coin names\<close>
  "stored_tx t db = (if \<exists>c\<in>set (db_coins db). op_txid (cr_outpoint c) = t \<or> cr_spend_txid c = Some t
     then map_option tr_tx (List.find (\<lambda>r. tr_txid r = t) (db_transactions db)) else None)"

definition cached_tx :: "(txid \<Rightarrow> transaction option option) \<Rightarrow> wallet_db \<Rightarrow> tx_getter" where
  "cached_tx cache db t = (case cache t of Some r \<Rightarrow> r | None \<Rightarrow> stored_tx t db)"

definition remember :: "txid list \<Rightarrow> tx_getter \<Rightarrow> (txid \<Rightarrow> transaction option option) \<Rightarrow> txid \<Rightarrow> transaction option option" where
  "remember ts getter cache t = (if t \<in> set ts then Some (getter t) else cache t)"

definition get_tx :: "('s, 'b) command_env \<Rightarrow> txid \<Rightarrow> ('b, transaction option) command" where
  "get_tx C t s = (case cm_cache s t of Some r \<Rightarrow> (Inr r, s)
     | None \<Rightarrow> let s' = turn C s; r = stored_tx t (cm_db s') in (Inr r, s'\<lparr>cm_cache := (cm_cache s')(t := Some r)\<rparr>))"

section \<open>Addresses and indices\<close>

definition require_ordinary_imported_spend_support :: "('s, 'b) command_env \<Rightarrow> ('b, unit) command" where
  "require_ordinary_imported_spend_support C = cmd_guard (is_blake2b (ce_chain C) \<and> as_vault (ce_main C) = None)
     (ImportedSpendValidation ''Ordinary spending from an imported Bitcoin Blake2b wallet is not available yet'') (cmd_ok ())"

definition validate_address :: "('s, 'b) command_env \<Rightarrow> address \<Rightarrow> ('b, address) command" where
  "validate_address C a = cmd_guard (\<not> lib_valid_for (ce_lib C) a (ce_network C)) WrongNetworkAddress (cmd_ok a)"

definition address_info :: "('s, 'b) command_env \<Rightarrow> address \<Rightarrow> ('b, addr_info option) command" where
  "address_info C a = cmd_bind (conn_read C (derivation_index_by_address (lib_address_text (ce_lib C) a))) (\<lambda>found.
     cmd_ok (map_option (\<lambda>(index, is_change). \<lparr>ai_index = child_of index, ai_is_change = is_change\<rparr>) found))"

definition spend_addr :: "('s, 'b) command_env \<Rightarrow> address \<Rightarrow> ('b, spend_output_address) command" where
  "spend_addr C a = cmd_bind (address_info C a) (\<lambda>info. cmd_ok \<lparr>so_addr = a, so_info = info\<rparr>)"

definition change_addr_at :: "('s, 'b) command_env \<Rightarrow> nat \<Rightarrow> ('b, spend_output_address) command" where
  "change_addr_at C index = cmd_bind (cmd_expect (lib_wallet_address (ce_lib C) (ce_main C) True (ce_network C) index)) (\<lambda>a.
     cmd_ok \<lparr>so_addr = a, so_info = Some \<lparr>ai_index = child_of index, ai_is_change = True\<rparr>\<rparr>)"

definition next_change_addr :: "('s, 'b) command_env \<Rightarrow> ('b, spend_output_address) command" where
  "next_change_addr C = cmd_bind (conn_read C (change_index (ce_addresses C))) (\<lambda>index. case increment index of
       None \<Rightarrow> cmd_err (ChangeReservation Exhausted)
     | Some i \<Rightarrow> change_addr_at C i)"

definition reserve_change_command :: "('s, 'b) command_env \<Rightarrow> ('b, change_reservation) command" where
  "reserve_change_command C = (case ce_main C of
       Imported _ \<Rightarrow> cmd_err RecoveryNotAvailable
     | Vault vault \<Rightarrow> conn_reserve C (reserve_change (ce_addresses C) (ce_chain C) vault))"

definition commit_change :: "('s, 'b) command_env \<Rightarrow> addr_info option \<Rightarrow> ('b, bool) command" where
  "commit_change C change = (case change of None \<Rightarrow> cmd_ok True
     | Some info \<Rightarrow> if \<not> ai_is_change info then cmd_ok True
         else (case ce_main C of
             Imported imported \<Rightarrow> conn_reserve C (commit_imported_change_if_next (ce_addresses C) (ce_chain C) imported (index_of (ai_index info)))
           | Vault vault \<Rightarrow> conn_reserve C (commit_change_if_next (ce_addresses C) (ce_chain C) vault (index_of (ai_index info)))))"

definition branch_index_of :: "address_api \<Rightarrow> bool \<Rightarrow> wallet_db \<Rightarrow> nat option" where
  "branch_index_of A is_change = (if is_change then change_index A else receive_index A)"

definition maybe_increase_last_deriv_index :: "('s, 'b) command_env \<Rightarrow> addr_info option \<Rightarrow> ('b, unit) command" where
  "maybe_increase_last_deriv_index C info = (case info of None \<Rightarrow> cmd_ok ()
     | Some i \<Rightarrow> cmd_bind (conn_read C (branch_index_of (ce_addresses C) (ai_is_change i))) (\<lambda>current.
         if current < index_of (ai_index i)
         then conn_write C (set_derivation_index (ce_addresses C) (index_of (ai_index i)) (ai_is_change i)) else cmd_ok ()))"

fun increase_all :: "('s, 'b) command_env \<Rightarrow> addr_info option list \<Rightarrow> ('b, unit) command" where
  "increase_all C [] = cmd_ok ()"
| "increase_all C (i # is) = cmd_bind (maybe_increase_last_deriv_index C i) (\<lambda>_. increase_all C is)"

definition try_get_new_address :: "('s, 'b) command_env \<Rightarrow> ('b, string \<times> nat) command" where
  \<comment> \<open>the address as its text\<close>
  "try_get_new_address C = (case ce_main C of
       Imported imported \<Rightarrow> conn_reserve C (reserve_imported_receive (ce_addresses C) (ce_chain C) imported)
     | Vault _ \<Rightarrow>
         cmd_bind (conn_read C (receive_index (ce_addresses C))) (\<lambda>index.
         cmd_bind (cmd_expect (increment index)) (\<lambda>new_index.
         cmd_bind (conn_write C (set_derivation_index (ce_addresses C) new_index False)) (\<lambda>_.
         cmd_bind (cmd_expect (lib_wallet_address (ce_lib C) (ce_main C) False (ce_network C) new_index)) (\<lambda>a.
         cmd_ok (lib_address_text (ce_lib C) a, new_index))))))"

definition MAX_INCREMENT_GAP :: nat where "MAX_INCREMENT_GAP = 1000"

definition update_branch :: "('s, 'b) command_env \<Rightarrow> bool \<Rightarrow> nat \<Rightarrow> nat option \<Rightarrow> ('b, nat) command" where
  \<comment> \<open>one of the two symmetric halves: the index read before and the one asked for\<close>
  "update_branch C is_change current asked = (case asked of None \<Rightarrow> cmd_ok current
     | Some index \<Rightarrow>
         cmd_guard (from_normal_idx index = None) InvalidDerivationIndex
         (if index > current then (let i = current + min (index - current) MAX_INCREMENT_GAP in
            (case from_normal_idx i of None \<Rightarrow> cmd_err InvalidDerivationIndex
             | Some i \<Rightarrow> cmd_bind (conn_write C (set_derivation_index (ce_addresses C) i is_change)) (\<lambda>_. cmd_ok i)))
          else cmd_ok current))"

definition update_deriv_indexes :: "('s, 'b) command_env \<Rightarrow> nat option \<Rightarrow> nat option \<Rightarrow> ('b, nat \<times> nat) command" where
  "update_deriv_indexes C receive change =
     cmd_bind (conn_read C (receive_index (ce_addresses C))) (\<lambda>db_receive.
     cmd_bind (conn_read C (change_index (ce_addresses C))) (\<lambda>db_change.
     cmd_bind (update_branch C False db_receive receive) (\<lambda>final_receive.
     cmd_bind (update_branch C True db_change change) (\<lambda>final_change. cmd_ok (final_receive, final_change)))))"

section \<open>Candidates\<close>

definition locktime_for_tip :: "('s, 'b) command_env \<Rightarrow> int \<Rightarrow> nat option \<Rightarrow> ('b, nat) command" where
  "locktime_for_tip C height time = cmd_bind (cmd_expect (if 0 \<le> height then Some (nat height) else None)) (\<lambda>h.
     cmd_expect (anti_fee_sniping_locktime (fst (lib_clock (ce_lib C))) (snd (lib_clock (ce_lib C))) h time))"

definition command_locktime :: "('s, 'b) command_env \<Rightarrow> ('b, nat) command" where
  \<comment> \<open>an unreachable backend counts as a stale tip\<close>
  "command_locktime C s = (case chain_tip_result (ce_node C) (cm_bit s) of
       (Inl _, b) \<Rightarrow> locktime_for_tip C 0 None (s\<lparr>cm_bit := b\<rparr>)
     | (Inr tip, b) \<Rightarrow> cmd_bind (node_ask (tip_time (ce_node C))) (locktime_for_tip C (bt_height tip)) (s\<lparr>cm_bit := b\<rparr>))"

definition ancestor_info_of :: "('s, 'b) command_env \<Rightarrow> txid \<Rightarrow> ('b, ancestor_info option) command" where
  "ancestor_info_of C t = cmd_bind (node_call MempoolUnavailable (mempool_entry_result (ce_node C) t)) (\<lambda>entry. case entry of
       None \<Rightarrow> cmd_ok None
     | Some info \<Rightarrow> cmd_guard (me_ancestor info \<ge> 2 ^ 32) (MempoolUnavailable ''ancestor fee is more than coin selection supports'')
         (cmd_ok (Some \<lparr>an_vsize = me_ancestor_vsize info, an_fee = me_ancestor info\<rparr>)))"

definition coin_to_candidate :: "coin \<Rightarrow> bool \<Rightarrow> nat option \<Rightarrow> ancestor_info option \<Rightarrow> candidate_coin" where
  "coin_to_candidate c must_select sequence ancestor = \<lparr>cc_outpoint = cn_outpoint c, cc_amount = cn_amount c,
     cc_deriv_index = child_of (cn_derivation_index c), cc_is_change = cn_is_change c, cc_must_select = must_select,
     cc_sequence = sequence, cc_ancestor_info = ancestor\<rparr>"

definition read_coins :: "('s, 'b) command_env \<Rightarrow> coin_status list \<Rightarrow> outpoint list \<Rightarrow> ('b, coin list) command" where
  "read_coins C statuses outpoints = cmd_bind (conn_read C (coins statuses outpoints)) (\<lambda>cs. cmd_ok (lib_coins_order (ce_lib C) cs))"

definition usable_unasked :: "coin \<Rightarrow> bool" where
  "usable_unasked c \<longleftrightarrow> cn_block_info c \<noteq> None \<or> cn_is_from_self c"

definition candidate_with_ancestors :: "('s, 'b) command_env \<Rightarrow> bool \<Rightarrow> coin \<Rightarrow> ('b, candidate_coin) command" where
  "candidate_with_ancestors C must c =
     (if cn_block_info c \<noteq> None then cmd_ok (coin_to_candidate c must None None)
      else cmd_bind (ancestor_info_of C (op_txid (cn_outpoint c))) (\<lambda>info. cmd_ok (coin_to_candidate c must None info)))"

definition check_chosen :: "coin list \<Rightarrow> outpoint \<Rightarrow> ('b, unit) command" where
  "check_chosen cs op = (case List.find (\<lambda>c. cn_outpoint c = op) cs of
       None \<Rightarrow> cmd_err (UnknownOutpoint op)
     | Some c \<Rightarrow> cmd_guard (is_spent c) (AlreadySpent op) (cmd_guard (cn_is_immature c) (ImmatureCoinbase op) (cmd_ok ())))"

definition candidate_coins :: "('s, 'b) command_env \<Rightarrow> outpoint list \<Rightarrow> ('b, candidate_coin list) command" where
  "candidate_coins C outpoints =
     (if outpoints = [] then cmd_bind (read_coins C [Unconfirmed, Confirmed] []) (\<lambda>cs.
        cmd_collect (candidate_with_ancestors C False) (filter usable_unasked cs))
      else cmd_bind (read_coins C [] outpoints) (\<lambda>cs.
        cmd_bind (cmd_collect (check_chosen cs) outpoints) (\<lambda>_.
        cmd_collect (candidate_with_ancestors C True) cs)))"

section \<open>Building a spend\<close>

definition CHANGE_COMMIT_CONFLICT_LIMIT :: nat where "CHANGE_COMMIT_CONFLICT_LIMIT = 8"

datatype build_outcome = Built create_spend_res | Missing nat

definition build_result :: "(spend_error, create_spend_res) res \<Rightarrow> (command_failure, build_outcome) res" where
  "build_result r = (case r of
       Inr res \<Rightarrow> Inr (Built res)
     | Inl (CoinSelectionError (InsufficientFunds missing)) \<Rightarrow> Inr (Missing missing)
     | Inl (CoinSelectionError _) \<Rightarrow> Inl CommandPanic
     | Inl SpendPanicked \<Rightarrow> Inl CommandPanic
     | Inl e \<Rightarrow> Inl (Refused (SpendCreation e)))"

definition core_spend ::
  "('s, 'b) command_env \<Rightarrow> tx_getter \<Rightarrow> (spend_output_address \<times> nat) list \<Rightarrow> candidate_coin list \<Rightarrow> spend_tx_fees \<Rightarrow> spend_output_address \<Rightarrow>
   nat \<Rightarrow> (spend_error, create_spend_res) res" where
  "core_spend C getter dests cands fees change locktime = (case ce_main C of
       Vault vault \<Rightarrow> create_spend (ce_select C) (ce_btc C) (ce_desc C) vault getter dests cands fees change locktime
     | Imported imported \<Rightarrow> create_imported_spend (ce_select C) (ce_btc C) (ce_imported C) imported getter dests cands fees change locktime)"

definition build_spend ::
  "('s, 'b) command_env \<Rightarrow> (spend_output_address \<times> nat) list \<Rightarrow> candidate_coin list \<Rightarrow> spend_tx_fees \<Rightarrow> spend_output_address \<Rightarrow> nat \<Rightarrow>
   ('b, build_outcome) command" where
  \<comment> \<open>a built spend has read the transactions of its inputs, which stay in the cache\<close>
  "build_spend C dests cands fees change locktime s = (let s' = turn C s; getter = cached_tx (cm_cache s') (cm_db s');
      r = core_spend C getter dests cands fees change locktime in
     (build_result r, case r of Inl _ \<Rightarrow> s'
      | Inr res \<Rightarrow> s'\<lparr>cm_cache := remember (map op_txid (prevouts (ps_unsigned_tx (cs_psbt res)))) getter (cm_cache s')\<rparr>))"

datatype create_spend_result = SpendSuccess psbt "create_spend_warning list" | SpendInsufficientFunds nat

definition finish_spend ::
  "('s, 'b) command_env \<Rightarrow> (spend_output_address \<times> nat) list \<Rightarrow> addr_info option \<Rightarrow> create_spend_res \<Rightarrow> ('b, create_spend_result) command" where
  "finish_spend C dests change_info res =
     cmd_bind (increase_all C (map (\<lambda>(a, _). so_info a) dests)) (\<lambda>_.
     cmd_bind (if cs_has_change res then maybe_increase_last_deriv_index C change_info else cmd_ok ()) (\<lambda>_.
     cmd_bind (case ce_main C of Vault _ \<Rightarrow> cmd_ok ()
       | Imported _ \<Rightarrow> conn C (\<lambda>db. case store_imported_construction (ce_btc C) (fst (lib_clock (ce_lib C))) (cs_psbt res) db of
           None \<Rightarrow> (Inl (Refused (ImportedSpendValidation ''the construction was not stored'')), db)
         | Some db' \<Rightarrow> (Inr (), db'))) (\<lambda>_.
     cmd_ok (SpendSuccess (cs_psbt res) (cs_warnings res)))))"

fun spend_loop ::
  "nat \<Rightarrow> ('s, 'b) command_env \<Rightarrow> (spend_output_address \<times> nat) list \<Rightarrow> candidate_coin list \<Rightarrow> nat \<Rightarrow> bool \<Rightarrow> nat \<Rightarrow> spend_output_address \<Rightarrow>
   ('b, create_spend_result) command" where
  \<comment> \<open>the first argument is how many conflicts are still allowed; it starts positive\<close>
  "spend_loop 0 C dests cands feerate fresh_change locktime change = cmd_err ChangeReservationContended"
| "spend_loop (Suc n) C dests cands feerate fresh_change locktime change =
     cmd_bind (build_spend C dests cands (Regular feerate) change locktime) (\<lambda>b. case b of
       Missing missing \<Rightarrow> cmd_ok (SpendInsufficientFunds missing)
     | Built res \<Rightarrow>
         cmd_bind (if cs_has_change res \<and> fresh_change then commit_change C (so_info change) else cmd_ok True) (\<lambda>committed.
         if committed then finish_spend C dests (so_info change) res
         else if n = 0 then cmd_err ChangeReservationContended
         else cmd_bind (next_change_addr C) (spend_loop n C dests cands feerate fresh_change locktime)))"

definition destination_of :: "('s, 'b) command_env \<Rightarrow> address \<times> nat \<Rightarrow> ('b, spend_output_address \<times> nat) command" where
  "destination_of C = (\<lambda>(a, value_sat). cmd_bind (validate_address C a) (\<lambda>a. cmd_bind (spend_addr C a) (\<lambda>so. cmd_ok (so, value_sat))))"

definition change_or_next :: "('s, 'b) command_env \<Rightarrow> address option \<Rightarrow> ('b, spend_output_address) command" where
  "change_or_next C change_address = (case change_address of
       Some a \<Rightarrow> cmd_bind (validate_address C a) (spend_addr C)
     | None \<Rightarrow> next_change_addr C)"

definition create_spend_command ::
  "('s, 'b) command_env \<Rightarrow> (address \<times> nat) list \<Rightarrow> outpoint list \<Rightarrow> nat \<Rightarrow> address option \<Rightarrow> ('b, create_spend_result) command" where
  \<comment> \<open>the destinations in the order in which their table is iterated\<close>
  "create_spend_command C destinations coins_outpoints feerate_vb change_address =
     cmd_bind (require_ordinary_imported_spend_support C) (\<lambda>_.
     cmd_guard (destinations = [] \<and> coins_outpoints = []) NoOutpointForSelfSend
     (cmd_guard (feerate_vb < 1) (InvalidCommandFeerate feerate_vb)
     (cmd_bind (cmd_collect (destination_of C) destinations) (\<lambda>dests.
      cmd_bind (change_or_next C change_address) (\<lambda>change.
      cmd_bind (candidate_coins C coins_outpoints) (\<lambda>cands.
      cmd_bind (command_locktime C) (\<lambda>locktime.
      spend_loop CHANGE_COMMIT_CONFLICT_LIMIT C dests cands feerate_vb (change_address = None) locktime change)))))))"

section \<open>Replacements\<close>

definition is_explicitly_rbf :: "transaction \<Rightarrow> bool" where
  "is_explicitly_rbf tx \<longleftrightarrow> (\<exists>i\<in>set (tx_input tx). ti_sequence i < 0xFFFFFFFE)"

definition previous_transaction :: "('s, 'b) command_env \<Rightarrow> txid \<Rightarrow> psbt option \<Rightarrow> ('b, transaction) command" where
  "previous_transaction C t prev_psbt = (case prev_psbt of
       Some psbt \<Rightarrow> cmd_ok (ps_unsigned_tx psbt)
     | None \<Rightarrow> cmd_bind (read_coins C [Spending] []) (\<lambda>cs.
         case List.find (\<lambda>c. cn_spend_txid c = Some t) cs of
           None \<Rightarrow> cmd_err (UnknownSpend t)
         | Some _ \<Rightarrow> cmd_bind (get_tx C t) (\<lambda>tx. case tx of None \<Rightarrow> cmd_err (UnknownSpend t) | Some tx \<Rightarrow> cmd_ok tx)))"

definition entry_minimums :: "nat \<times> nat \<Rightarrow> mempool_entry \<Rightarrow> (command_error, nat \<times> nat) res" where
  "entry_minimums = (\<lambda>(min_feerate, descendant_fee) entry. let unusable = MempoolUnavailable ''unusable mempool entry'' in
     bind_res (ok_or unusable (Option.bind (checked_div (me_base entry) (me_vsize entry)) (\<lambda>feerate. checked_add64 feerate 1))) (\<lambda>entry_feerate.
     bind_res (ok_or unusable (checked_add64 descendant_fee (me_descendant entry))) (\<lambda>descendant_fee.
     Inr (max min_feerate entry_feerate, descendant_fee))))"

definition known_value :: "coin list \<Rightarrow> coin list \<Rightarrow> outpoint \<Rightarrow> nat option" where
  \<comment> \<open>the table collected from the previous coins, then the spending ones\<close>
  "known_value prev_coins spending op = map_option cn_amount (List.find (\<lambda>c. cn_outpoint c = op) (rev (prev_coins @ spending)))"

definition price :: "('s, 'b) command_env \<Rightarrow> (outpoint \<Rightarrow> nat option) \<Rightarrow> transaction \<Rightarrow> (nat \<times> nat) option" where
  "price C values tx =
     Option.bind (try_fold (\<lambda>acc txin. Option.bind (values (ti_prev txin)) (checked_add64 acc)) 0 (tx_input tx)) (\<lambda>spent.
     Option.bind (try_sum64 0 (map to_value (tx_output tx))) (\<lambda>created.
     Option.bind (checked_sub spent created) (\<lambda>fee.
     if fee \<le> max_money then Some (fee, lib_vsize (ce_lib C) tx) else None)))"

definition add_fee :: "nat \<Rightarrow> nat \<Rightarrow> nat" where
  "add_fee total_fee fee = (case checked_add64 total_fee fee of None \<Rightarrow> max_money | Some fees \<Rightarrow> min fees max_money)"

definition conflicts_of :: "txid \<Rightarrow> coin list \<Rightarrow> txid list" where
  "conflicts_of t prev_coins = (let cs = sort (remdups (List.map_filter cn_spend_txid prev_coins)) in if cs = [] then [t] else cs)"

definition conflict_transaction ::
  "('s, 'b) command_env \<Rightarrow> txid \<Rightarrow> transaction \<Rightarrow> psbt option \<Rightarrow> txid \<Rightarrow> ('b, transaction option) command" where
  "conflict_transaction C t prev_tx prev_psbt conflict = cmd_bind (get_tx C conflict) (\<lambda>stored.
     cmd_ok (if conflict \<noteq> t then stored else (case stored of Some tx \<Rightarrow> Some tx
       | None \<Rightarrow> (case (if is_blake2b (ce_chain C) then None else Option.bind prev_psbt (lib_finalized (ce_lib C))) of
           Some tx \<Rightarrow> Some tx | None \<Rightarrow> Some prev_tx))))"

fun price_conflicts ::
  "('s, 'b) command_env \<Rightarrow> txid \<Rightarrow> transaction \<Rightarrow> psbt option \<Rightarrow> (outpoint \<Rightarrow> nat option) \<Rightarrow> nat \<Rightarrow> nat \<Rightarrow> txid list \<Rightarrow> ('b, nat \<times> nat) command" where
  "price_conflicts C t prev_tx prev_psbt values min_feerate replaced [] = cmd_ok (min_feerate, replaced)"
| "price_conflicts C t prev_tx prev_psbt values min_feerate replaced (c # cs) =
     cmd_bind (conflict_transaction C t prev_tx prev_psbt c) (\<lambda>tx. case map_option (price C values) tx of
       None \<Rightarrow> price_conflicts C t prev_tx prev_psbt values min_feerate replaced cs
     | Some None \<Rightarrow> cmd_err (MempoolUnavailable ''cannot work out the fee of a conflict from our records'')
     | Some (Some (fee, vsize)) \<Rightarrow> price_conflicts C t prev_tx prev_psbt values
         (case Option.bind (checked_div fee vsize) (\<lambda>feerate. checked_add64 feerate 1) of None \<Rightarrow> min_feerate | Some floor \<Rightarrow> max min_feerate floor)
         (add_fee replaced fee) cs)"

fun new_children :: "txid list \<Rightarrow> txid list \<Rightarrow> txid list" where
  \<comment> \<open>the children that are inserted into the set of seen ones, in order\<close>
  "new_children seen [] = []"
| "new_children seen (c # cs) = (if c \<in> set seen then new_children seen cs else c # new_children (c # seen) cs)"

lemma new_children_set: "set (new_children seen cs) = set cs - set seen" "distinct (new_children seen cs)"
  by (induction cs arbitrary: seen) auto

definition children_of :: "coin list \<Rightarrow> txid \<Rightarrow> txid list" where
  "children_of spending parent = List.map_filter cn_spend_txid (filter (\<lambda>c. op_txid (cn_outpoint c) = parent) spending)"

lemma children_of_subset: "set (children_of spending p) \<subseteq> set (List.map_filter cn_spend_txid spending)"
  by (auto simp: children_of_def List.map_filter_def)

function descendants :: "coin list \<Rightarrow> txid list \<Rightarrow> txid list \<Rightarrow> txid list" where
  \<comment> \<open>the order in which the source visits them; the stack's top is its head\<close>
  "descendants spending seen [] = []"
| "descendants spending seen (parent # parents) = (let new = new_children seen (children_of spending parent) in
     new @ descendants spending (new @ seen) (rev new @ parents))"
  by pat_completeness auto
termination
proof (relation "measure (\<lambda>(spending, seen, parents).
    length parents + card (set (List.map_filter cn_spend_txid spending) - set seen))", goal_cases)
  case (2 spending seen parent parents x)
  let ?all = "set (List.map_filter cn_spend_txid spending)"
  have x: "set x \<subseteq> ?all - set seen" "distinct x"
    using new_children_set [of seen "children_of spending parent"] children_of_subset [of spending parent] 2 by auto
  have "?all - set (x @ seen) = (?all - set seen) - set x" by auto
  then have "card (?all - set (x @ seen)) + length x = card (?all - set seen)"
    using x card_mono [OF _ x(1)] by (simp add: card_Diff_subset distinct_card)
  then show ?case by simp
qed simp

fun price_descendants :: "('s, 'b) command_env \<Rightarrow> (outpoint \<Rightarrow> nat option) \<Rightarrow> nat \<Rightarrow> txid list \<Rightarrow> ('b, nat) command" where
  "price_descendants C values replaced [] = cmd_ok replaced"
| "price_descendants C values replaced (c # cs) = cmd_bind (get_tx C c) (\<lambda>tx.
     price_descendants C values (case Option.bind tx (price C values) of None \<Rightarrow> replaced | Some (fee, _) \<Rightarrow> add_fee replaced fee) cs)"

definition replacement_minimums_from_records ::
  "('s, 'b) command_env \<Rightarrow> txid \<Rightarrow> transaction \<Rightarrow> psbt option \<Rightarrow> coin list \<Rightarrow> ('b, nat \<times> nat) command" where
  "replacement_minimums_from_records C t prev_tx prev_psbt prev_coins =
     cmd_bind (read_coins C [Spending] []) (\<lambda>spending.
     let values = known_value prev_coins spending; conflicts = conflicts_of t prev_coins in
     cmd_bind (price_conflicts C t prev_tx prev_psbt values 1 0 conflicts) (\<lambda>(min_feerate, replaced).
     cmd_bind (price_descendants C values replaced (descendants spending conflicts (rev conflicts))) (\<lambda>replaced.
     cmd_ok (min_feerate, replaced))))"

definition replacement_minimums ::
  "('s, 'b) command_env \<Rightarrow> txid \<Rightarrow> transaction \<Rightarrow> psbt option \<Rightarrow> coin list \<Rightarrow> ('b, nat \<times> nat) command" where
  "replacement_minimums C t prev_tx prev_psbt prev_coins s =
     (if sees_mempool (ce_node C) (cm_bit s)
      then cmd_bind (node_call MempoolUnavailable (mempool_spenders_result (ce_node C) (prevouts prev_tx))) (\<lambda>entries.
        case fold_res entry_minimums (1, 0) entries of Inl e \<Rightarrow> cmd_err e | Inr m \<Rightarrow> cmd_ok m) s
      else replacement_minimums_from_records C t prev_tx prev_psbt prev_coins s)"

definition previous_output :: "('s, 'b) command_env \<Rightarrow> txout \<Rightarrow> ('b, address \<times> nat \<times> (nat \<times> bool) option) command" where
  "previous_output C txo = cmd_bind (cmd_expect (lib_from_script (ce_lib C) (to_script txo) (ce_network C))) (\<lambda>a.
     cmd_bind (conn_read C (derivation_index_by_address (lib_address_text (ce_lib C) a))) (\<lambda>deriv. cmd_ok (a, to_value txo, deriv)))"

fun largest_change :: "(address \<times> nat \<times> nat) option \<Rightarrow> (address \<times> nat \<times> (nat \<times> bool) option) list \<Rightarrow> (address \<times> nat \<times> nat) option" where
  \<comment> \<open>\<open>max_by\<close> keeps the last of several maxima\<close>
  "largest_change best [] = best"
| "largest_change best ((a, amount, Some (index, True)) # rest) = largest_change (case best of
       None \<Rightarrow> Some (a, amount, index)
     | Some (_, amount', index') \<Rightarrow> if amount < amount' \<or> (amount = amount' \<and> index < index') then best else Some (a, amount, index)) rest"
| "largest_change best (_ # rest) = largest_change best rest"

definition previous_change :: "(address \<times> nat \<times> (nat \<times> bool) option) list \<Rightarrow> address option" where
  "previous_change outs = map_option fst (largest_change None outs)"

definition kept_destination :: "('s, 'b) command_env \<Rightarrow> address \<times> nat \<times> (nat \<times> bool) option \<Rightarrow> ('b, spend_output_address \<times> nat) command" where
  "kept_destination C = (\<lambda>(a, amount, _). cmd_bind (spend_addr C a) (\<lambda>so. cmd_ok (so, amount)))"

definition require_all :: "candidate_coin \<Rightarrow> candidate_coin" where
  "require_all c = c\<lparr>cc_must_select := True\<rparr>"

fun rbf_loop ::
  "nat \<Rightarrow> nat \<Rightarrow> ('s, 'b) command_env \<Rightarrow> bool \<Rightarrow> (spend_output_address \<times> nat) list \<Rightarrow> candidate_coin list \<Rightarrow> spend_tx_fees \<Rightarrow> bool \<Rightarrow> nat \<Rightarrow>
   candidate_coin list \<Rightarrow> spend_output_address \<Rightarrow> ('b, create_spend_result) command" where
  \<comment> \<open>fuel, and the conflicts still allowed\<close>
  "rbf_loop 0 left C is_cancel dests confirmed fees fresh_change locktime cands change = cmd_fail CommandDiverged"
| "rbf_loop (Suc fuel) left C is_cancel dests confirmed fees fresh_change locktime cands change =
     cmd_bind (build_spend C dests cands fees change locktime) (\<lambda>b. case b of
       Built res \<Rightarrow>
         cmd_bind (if cs_has_change res \<and> fresh_change then commit_change C (so_info change) else cmd_ok True) (\<lambda>committed.
         if committed then finish_spend C dests (so_info change) res
         else if left \<le> 1 then cmd_err ChangeReservationContended
         else cmd_bind (next_change_addr C) (rbf_loop fuel (left - 1) C is_cancel dests confirmed fees fresh_change locktime cands))
     | Missing missing \<Rightarrow>
         if is_cancel \<and> list_all (\<lambda>c. \<not> cc_must_select c) cands
         then rbf_loop fuel left C is_cancel dests confirmed fees fresh_change locktime (map require_all cands @ confirmed) change
         else cmd_ok (SpendInsufficientFunds missing))"

definition RBF_FUEL :: nat where "RBF_FUEL = CHANGE_COMMIT_CONFLICT_LIMIT + 1"

definition replacement_candidates :: "('s, 'b) command_env \<Rightarrow> bool \<Rightarrow> coin list \<Rightarrow> ('b, candidate_coin list \<times> candidate_coin list) command" where
  \<comment> \<open>the first candidates, and the confirmed coins that may be added\<close>
  "replacement_candidates C is_cancel prev_coins =
     cmd_bind (read_coins C [Confirmed] []) (\<lambda>cs.
     let own = map (\<lambda>c. coin_to_candidate c (\<not> is_cancel) None None) prev_coins;
       confirmed = map (\<lambda>c. coin_to_candidate c False None None) (filter (\<lambda>c. cn_outpoint c \<notin> cn_outpoint ` set prev_coins) cs) in
     cmd_ok (if is_cancel then own else own @ confirmed, confirmed))"

definition replaceable_coins :: "('s, 'b) command_env \<Rightarrow> outpoint list \<Rightarrow> ('b, coin list) command" where
  "replaceable_coins C outpoints = cmd_bind (read_coins C [] outpoints) (\<lambda>prev_coins.
     case List.find (\<lambda>op. op \<notin> cn_outpoint ` set prev_coins) outpoints of
       Some op \<Rightarrow> cmd_err (UnknownOutpoint op)
     | None \<Rightarrow> (case List.find (\<lambda>c. cn_spend_block c \<noteq> None) prev_coins of
         Some c \<Rightarrow> cmd_err (AlreadySpent (cn_outpoint c))
       | None \<Rightarrow> cmd_ok prev_coins))"

definition replacement_feerate :: "bool \<Rightarrow> nat option \<Rightarrow> nat \<Rightarrow> ('b, nat) command" where
  "replacement_feerate is_cancel feerate_vb min_feerate =
     cmd_bind (if is_cancel then cmd_ok min_feerate
       else (case feerate_vb of None \<Rightarrow> cmd_err (RbfError MissingFeerate) | Some f \<Rightarrow> cmd_ok f)) (\<lambda>feerate.
     cmd_guard (feerate < min_feerate) (RbfError (TooLowFeerate feerate min_feerate)) (cmd_ok feerate))"

definition rbf_psbt :: "('s, 'b) command_env \<Rightarrow> txid \<Rightarrow> bool \<Rightarrow> nat option \<Rightarrow> ('b, create_spend_result) command" where
  "rbf_psbt C t is_cancel feerate_vb =
     cmd_bind (require_ordinary_imported_spend_support C) (\<lambda>_.
     cmd_guard (is_cancel \<and> feerate_vb \<noteq> None) (RbfError SuperfluousFeerate)
     (cmd_bind (conn_read C (\<lambda>db. Some (spend_tx t db))) (\<lambda>prev_psbt.
      cmd_bind (previous_transaction C t prev_psbt) (\<lambda>prev_tx.
      cmd_guard (\<not> is_explicitly_rbf prev_tx) (RbfError NotSignaling)
      (cmd_bind (replaceable_coins C (prevouts prev_tx)) (\<lambda>prev_coins.
       cmd_bind (replacement_minimums C t prev_tx prev_psbt prev_coins) (\<lambda>(min_feerate, descendant_fees).
       cmd_bind (replacement_feerate is_cancel feerate_vb min_feerate) (\<lambda>feerate.
       cmd_bind (cmd_collect (previous_output C) (tx_output prev_tx)) (\<lambda>prev_derivs.
       let prev_change = previous_change prev_derivs in
       cmd_bind (if is_cancel then cmd_ok [] else cmd_collect (kept_destination C) (filter (\<lambda>(a, _). prev_change \<noteq> Some a) prev_derivs)) (\<lambda>dests.
       cmd_bind (case prev_change of Some a \<Rightarrow> spend_addr C a | None \<Rightarrow> next_change_addr C) (\<lambda>change.
       cmd_bind (replacement_candidates C is_cancel prev_coins) (\<lambda>(cands, confirmed).
       cmd_bind (command_locktime C) (\<lambda>locktime.
       rbf_loop RBF_FUEL CHANGE_COMMIT_CONFLICT_LIMIT C is_cancel dests confirmed (Rbf feerate descendant_fees) (prev_change = None) locktime cands change)))))))))))))"

section \<open>Recovery\<close>

definition recoverable_coins :: "('s, 'b) command_env \<Rightarrow> outpoint list \<Rightarrow> ('b, coin list) command" where
  "recoverable_coins C outpoints =
     (if outpoints = [] then read_coins C [Confirmed] []
      else cmd_bind (read_coins C [] outpoints) (\<lambda>cs.
        cmd_bind (cmd_collect (\<lambda>op. case List.find (\<lambda>c. cn_outpoint c = op) cs of
            None \<Rightarrow> cmd_err (UnknownOutpoint op)
          | Some c \<Rightarrow> cmd_guard (is_spent c) (AlreadySpent op) (cmd_ok ())) outpoints) (\<lambda>_. cmd_ok cs)))"

definition is_sweepable :: "int \<Rightarrow> nat \<Rightarrow> coin \<Rightarrow> bool" where
  \<comment> \<open>at the next block\<close>
  "is_sweepable current_height timelock c = (case cn_block_info c of None \<Rightarrow> False
     | Some b \<Rightarrow> current_height + 1 \<ge> bi_height b + int timelock)"

fun sweepable_coins :: "bool \<Rightarrow> int \<Rightarrow> nat \<Rightarrow> coin list \<Rightarrow> ('b, candidate_coin list) command" where
  "sweepable_coins all height timelock [] = cmd_ok []"
| "sweepable_coins all height timelock (c # cs) =
     (if is_sweepable height timelock c
      then cmd_bind (sweepable_coins all height timelock cs) (\<lambda>r. cmd_ok (coin_to_candidate c True (Some timelock) None # r))
      else if \<not> all then cmd_err (OutpointNotRecoverable (cn_outpoint c) timelock)
      else sweepable_coins all height timelock cs)"

definition create_recovery :: "('s, 'b) command_env \<Rightarrow> address \<Rightarrow> outpoint list \<Rightarrow> nat \<Rightarrow> nat option \<Rightarrow> ('b, psbt) command" where
  "create_recovery C address coins_outpoints feerate_vb timelock =
     cmd_guard (feerate_vb < 1) (InvalidCommandFeerate feerate_vb)
     (cmd_bind (validate_address C address) (\<lambda>a.
      cmd_bind (spend_addr C a) (\<lambda>sweep_addr.
      cmd_bind (node_call ChainTipUnavailable (chain_tip_result (ce_node C))) (\<lambda>tip.
      case ce_main C of Imported _ \<Rightarrow> cmd_err RecoveryNotAvailable
      | Vault vault \<Rightarrow> let timelock = (case timelock of None \<Rightarrow> lib_first_timelock (ce_lib C) vault | Some t \<Rightarrow> t) in
        cmd_bind (recoverable_coins C coins_outpoints) (\<lambda>cs.
        cmd_bind (sweepable_coins (coins_outpoints = []) (bt_height tip) timelock cs) (\<lambda>cands.
        cmd_guard (cands = []) RecoveryNotAvailable
        (cmd_bind (command_locktime C) (\<lambda>locktime.
         cmd_bind (build_spend C [] cands (Regular feerate_vb) sweep_addr locktime) (\<lambda>b. case b of
           Missing missing \<Rightarrow> cmd_err (SpendCreation (CoinSelectionError (InsufficientFunds missing)))
         | Built res \<Rightarrow> cmd_bind (if cs_has_change res then maybe_increase_last_deriv_index C (so_info sweep_addr) else cmd_ok ()) (\<lambda>_.
             cmd_ok (cs_psbt res)))))))))))"

section \<open>Other commands\<close>

definition list_spend_command :: "('s, 'b) command_env \<Rightarrow> txid list option \<Rightarrow> ('b, (psbt \<times> nat option \<times> txid option) list) command" where
  "list_spend_command C txids = cmd_guard (txids = Some []) EmptyFilterList
     (cmd_bind (conn_read C (\<lambda>db. Some (list_spend db))) (\<lambda>spends.
      cmd_ok (filter (\<lambda>(psbt, _). case txids of None \<Rightarrow> True | Some ids \<Rightarrow> lib_txid (ce_btc C) (ps_unsigned_tx psbt) \<in> set ids) spends)))"

definition delete_spend_command :: "('s, 'b) command_env \<Rightarrow> txid \<Rightarrow> ('b, unit) command" where
  "delete_spend_command C t = conn_write C (\<lambda>db. Some (delete_spend t db))"

definition start_rescan :: "('s, 'b) command_env \<Rightarrow> nat \<Rightarrow> ('b, unit) command" where
  "start_rescan C timestamp =
     cmd_bind (node_call RescanGenesis (genesis_block_timestamp (ce_node C))) (\<lambda>genesis.
     cmd_bind (node_ask (tip_time (ce_node C))) (\<lambda>tip. case tip of
       None \<Rightarrow> cmd_err (RescanTrigger ''Cannot determine current tip timestamp; retry when the backend is available'')
     | Some tip_timestamp \<Rightarrow>
         cmd_guard (timestamp < genesis \<or> timestamp \<ge> tip_timestamp) (InsaneRescanTimestamp timestamp)
         (cmd_bind (node_call RescanTrigger (rescan_progress_result (ce_node C))) (\<lambda>backend_rescanning.
          cmd_bind (conn_read C (rescan_timestamp (ce_addresses C))) (\<lambda>stored.
          cmd_guard (stored \<noteq> None \<or> backend_rescanning) AlreadyRescanning
          (case ce_main C of Imported _ \<Rightarrow> cmd_err RecoveryNotAvailable
           | Vault vault \<Rightarrow> cmd_bind (node_call RescanTrigger (bit_start_rescan (ce_node C) vault timestamp)) (\<lambda>_.
               conn_write C (\<lambda>db. Some (set_wallet_rescan_timestamp timestamp db)))))))))"

end
