(* ===== verification/Commands_Safety.thy ===== *)
theory Commands_Safety
  imports Commands
begin

text \<open>
  What the commands may do to the wallet database.  The locale \<open>command_relation\<close> is a relation that
  every method a command calls obeys, and what others commit in between; all the commands then
  obey it.  It is interpreted on "steps of the database's state machine" and, for a command that
  runs alone, on "coins, transactions and labels are unchanged".
\<close>

section \<open>Taking commands apart\<close>

named_theorems cmd_rules "inversion of commands that succeed"

lemma cmd_bind_Inr [cmd_rules]: "cmd_bind m f s = (Inr y, s') \<longleftrightarrow> (\<exists>x t. m s = (Inr x, t) \<and> f x t = (Inr y, s'))"
  by (auto simp: cmd_bind_def split: prod.splits sum.splits)

lemma cmd_ok_Inr [cmd_rules]: "cmd_ok x s = (Inr y, s') \<longleftrightarrow> y = x \<and> s' = s"
  by (auto simp: cmd_ok_def)

lemma cmd_fail_Inr [cmd_rules]: "cmd_fail e s = (Inr y, s') \<longleftrightarrow> False"
  by (simp add: cmd_fail_def)

lemma cmd_guard_Inr [cmd_rules]: "cmd_guard b e m s = (Inr y, s') \<longleftrightarrow> \<not> b \<and> m s = (Inr y, s')"
  by (simp add: cmd_guard_def cmd_fail_def)

lemma cmd_expect_Inr [cmd_rules]: "cmd_expect x s = (Inr y, s') \<longleftrightarrow> x = Some y \<and> s' = s"
  by (auto simp: cmd_expect_def cmd_ok_def cmd_fail_def split: option.splits)

lemma conn_Inr: "conn C f s = (Inr y, s') \<longleftrightarrow> (\<exists>db. f (cm_db (turn C s)) = (Inr y, db) \<and> s' = (turn C s)\<lparr>cm_db := db\<rparr>)"
  by (auto simp: conn_def split: prod.splits)

lemma conn_read_Inr [cmd_rules]: "conn_read C f s = (Inr y, s') \<longleftrightarrow> f (cm_db (turn C s)) = Some y \<and> s' = turn C s"
  by (auto simp: conn_read_def conn_Inr res_rules)

lemma conn_write_Inr [cmd_rules]:
  "conn_write C f s = (Inr y, s') \<longleftrightarrow> (\<exists>db. f (cm_db (turn C s)) = Some db \<and> s' = (turn C s)\<lparr>cm_db := db\<rparr>)"
  by (auto simp: conn_write_def conn_Inr split: option.splits)

lemma conn_reserve_Inr [cmd_rules]:
  "conn_reserve C f s = (Inr y, s') \<longleftrightarrow> (\<exists>db. f (cm_db (turn C s)) = (Inr y, db) \<and> s' = (turn C s)\<lparr>cm_db := db\<rparr>)"
  by (auto simp: conn_reserve_def conn_Inr res_rules split: prod.splits)

lemma node_call_Inr [cmd_rules]: "node_call g f s = (Inr y, s') \<longleftrightarrow> (\<exists>b. f (cm_bit s) = (Inr y, b) \<and> s' = s\<lparr>cm_bit := b\<rparr>)"
  by (auto simp: node_call_def res_rules split: prod.splits)

lemma node_ask_Inr [cmd_rules]: "node_ask f s = (Inr y, s') \<longleftrightarrow> (\<exists>b. f (cm_bit s) = (y, b) \<and> s' = s\<lparr>cm_bit := b\<rparr>)"
  by (auto simp: node_ask_def split: prod.splits)

section \<open>A relation that commands obey\<close>

definition obeys :: "(wallet_db \<Rightarrow> wallet_db \<Rightarrow> bool) \<Rightarrow> ('b, 'a) command \<Rightarrow> bool" where
  "obeys R m \<longleftrightarrow> (\<forall>s. R (cm_db s) (cm_db (snd (m s))))"

lemma obeysD: "\<lbrakk>obeys R m; m s = (r, s')\<rbrakk> \<Longrightarrow> R (cm_db s) (cm_db s')"
  unfolding obeys_def by (metis snd_conv)

locale command_relation =
  fixes C :: "('s, 'b) command_env" and R :: "wallet_db \<Rightarrow> wallet_db \<Rightarrow> bool"
  assumes refl: "R db db"
    and trans: "\<lbrakk>R a b; R b c\<rbrakk> \<Longrightarrow> R a c"
    and others: "R db (ce_others C n db)"
    and set_index: "set_derivation_index (ce_addresses C) i change db = Some db' \<Longrightarrow> R db db'"
    and reserve_vault: "allocate_change (ce_addresses C) chain d e db = (r, db') \<Longrightarrow> R db db'"
    and reserve_imported: "allocate_imported_branch (ce_addresses C) chain im ch e db = (ri, db') \<Longrightarrow> R db db'"
    and store_imported: "store_imported_construction (ce_btc C) now p db = Some db' \<Longrightarrow> R db db'"
    and remove_spend: "R db (delete_spend t db)"
    and set_rescan: "R db (set_wallet_rescan_timestamp timestamp db)"
begin

lemma obeys_ok: "obeys R (cmd_ok x)"
  by (simp add: obeys_def cmd_ok_def refl)

lemma obeys_fail: "obeys R (cmd_fail e)"
  by (simp add: obeys_def cmd_fail_def refl)

lemma obeys_bind: "\<lbrakk>obeys R m; \<And>x. obeys R (f x)\<rbrakk> \<Longrightarrow> obeys R (cmd_bind m f)"
proof -
  assume m: "obeys R m" and f: "\<And>x. obeys R (f x)"
  have "R (cm_db s) (cm_db (snd (cmd_bind m f s)))" for s
  proof (cases "m s")
    case (Pair r t)
    have t: "R (cm_db s) (cm_db t)" by (rule obeysD [OF m Pair])
    show ?thesis
    proof (cases r)
      case (Inr x)
      have "R (cm_db t) (cm_db (snd (f x t)))" using f [of x] by (simp add: obeys_def)
      then show ?thesis using trans [OF t] by (simp add: cmd_bind_def Pair Inr)
    qed (simp add: cmd_bind_def Pair t)
  qed
  then show ?thesis by (simp add: obeys_def)
qed

lemma obeys_guard: "obeys R m \<Longrightarrow> obeys R (cmd_guard b e m)"
  by (simp add: cmd_guard_def obeys_fail)

lemma obeys_expect: "obeys R (cmd_expect x)"
  by (simp add: cmd_expect_def obeys_fail obeys_ok split: option.split)

lemma obeys_collect: "(\<And>x. obeys R (f x)) \<Longrightarrow> obeys R (cmd_collect f xs)"
  by (induction xs) (simp_all add: obeys_ok obeys_bind)

lemma turn_obeys: "R (cm_db s) (cm_db (turn C s))"
  by (simp add: turn_def others)

lemma obeys_conn: "(\<And>db r db'. f db = (r, db') \<Longrightarrow> R db db') \<Longrightarrow> obeys R (conn C f)"
proof -
  assume f: "\<And>db r db'. f db = (r, db') \<Longrightarrow> R db db'"
  have "R (cm_db s) (cm_db (snd (conn C f s)))" for s
  proof (cases "f (cm_db (turn C s))")
    case (Pair r db)
    show ?thesis using trans [OF turn_obeys f [OF Pair]] by (simp add: conn_def Pair)
  qed
  then show ?thesis by (simp add: obeys_def)
qed

lemma obeys_read: "obeys R (conn_read C f)"
  unfolding conn_read_def by (rule obeys_conn) (auto intro: refl)

lemma obeys_write: "(\<And>db db'. f db = Some db' \<Longrightarrow> R db db') \<Longrightarrow> obeys R (conn_write C f)"
  unfolding conn_write_def by (rule obeys_conn) (auto intro: refl split: option.splits)

lemma obeys_reserve: "(\<And>db r db'. f db = (r, db') \<Longrightarrow> R db db') \<Longrightarrow> obeys R (conn_reserve C f)"
  unfolding conn_reserve_def by (rule obeys_conn) (auto split: prod.splits)

lemma obeys_node: "obeys R (node_call g h)" "obeys R (node_ask h')"
  by (auto simp: obeys_def node_call_def node_ask_def refl split: prod.split)

lemmas obeys_basic = obeys_ok obeys_fail obeys_bind obeys_guard obeys_expect obeys_collect obeys_read obeys_node

lemma obeys_get_tx: "obeys R (get_tx C t)"
  by (auto simp: obeys_def get_tx_def Let_def refl turn_obeys split: option.split)

lemma obeys_build: "obeys R (build_spend C dests cands fees change locktime)"
  by (auto simp: obeys_def build_spend_def Let_def turn_obeys split: sum.split)

lemma obeys_locktime: "obeys R (command_locktime C)"
proof -
  have tip: "obeys R (locktime_for_tip C h t)" for h t unfolding locktime_for_tip_def by (intro obeys_basic)
  have ask: "obeys R (cmd_bind (node_ask (tip_time (ce_node C))) (locktime_for_tip C h))" for h by (intro obeys_bind obeys_node tip)
  have "R (cm_db s) (cm_db (snd (command_locktime C s)))" for s
  proof (cases "chain_tip_result (ce_node C) (cm_bit s)")
    case (Pair r b)
    have same: "cm_db (s\<lparr>cm_bit := b\<rparr>) = cm_db s" by simp
    show ?thesis using tip [of 0 None] ask unfolding obeys_def command_locktime_def Pair
      by (cases r) (metis (no_types, lifting) old.prod.case old.sum.simps(5,6) same)+
  qed
  then show ?thesis by (simp add: obeys_def)
qed

lemma obeys_spend_addr: "obeys R (spend_addr C a)"
  unfolding spend_addr_def address_info_def by (intro obeys_basic)

lemma obeys_validate: "obeys R (validate_address C a)"
  unfolding validate_address_def by (intro obeys_basic)

lemma obeys_next_change: "obeys R (next_change_addr C)"
  unfolding next_change_addr_def change_addr_at_def by (auto intro!: obeys_basic split: option.split)

lemma allocate_results:
  "commit_change_if_next (ce_addresses C) chain d i db = (r, db') \<Longrightarrow> R db db'"
  "commit_imported_change_if_next (ce_addresses C) chain im i db = (r, db') \<Longrightarrow> R db db'"
  "reserve_imported_receive (ce_addresses C) chain im db = (ra, db') \<Longrightarrow> R db db'"
  "reserve_change (ce_addresses C) chain d db = (rv, db') \<Longrightarrow> R db db'"
  by (auto simp: commit_change_if_next_def commit_imported_change_if_next_def reserve_imported_receive_def reserve_change_def refl
      split: prod.splits if_splits dest: reserve_vault reserve_imported)

lemma obeys_commit: "obeys R (commit_change C info)"
  unfolding commit_change_def
  by (auto intro!: obeys_basic obeys_reserve split: option.split wallet_descriptor.split dest: allocate_results)

lemma obeys_increase: "obeys R (maybe_increase_last_deriv_index C info)"
  unfolding maybe_increase_last_deriv_index_def
  by (auto intro!: obeys_basic obeys_write split: option.split dest: set_index)

lemma obeys_increase_all: "obeys R (increase_all C is)"
  by (induction "is") (simp_all add: obeys_ok obeys_bind obeys_increase)

lemma obeys_finish: "obeys R (finish_spend C dests info res)"
  unfolding finish_spend_def
  by (auto intro!: obeys_basic obeys_conn obeys_increase obeys_increase_all split: wallet_descriptor.split option.splits
      dest: store_imported intro: refl)

lemma obeys_read_coins: "obeys R (read_coins C st ops)"
  unfolding read_coins_def by (intro obeys_basic)

lemma obeys_candidate: "obeys R (candidate_with_ancestors C must c)"
  unfolding candidate_with_ancestors_def ancestor_info_of_def by (auto intro!: obeys_basic split: option.split)

lemma obeys_check_chosen: "obeys R (check_chosen cs op)"
  unfolding check_chosen_def by (auto intro!: obeys_basic split: option.split)

lemma obeys_candidates: "obeys R (candidate_coins C ops)"
  unfolding candidate_coins_def by (auto intro!: obeys_basic obeys_read_coins obeys_candidate obeys_check_chosen)

lemma obeys_spend_loop: "obeys R (spend_loop n C dests cands feerate fresh locktime change)"
proof (induction n arbitrary: change)
  case (Suc n)
  then show ?case by (auto intro!: obeys_basic obeys_build obeys_commit obeys_finish obeys_next_change split: build_outcome.split)
qed (simp add: obeys_fail)

lemmas obeys_parts = obeys_basic obeys_get_tx obeys_build obeys_locktime obeys_spend_addr obeys_validate obeys_next_change
  obeys_commit obeys_increase obeys_increase_all obeys_finish obeys_read_coins obeys_candidate obeys_candidates

lemma create_spend_obeys: "obeys R (create_spend_command C destinations ops feerate change)"
  unfolding create_spend_command_def require_ordinary_imported_spend_support_def destination_of_def change_or_next_def
  by (auto intro!: obeys_parts obeys_spend_loop split: option.split prod.split)

lemma obeys_price_conflicts: "obeys R (price_conflicts C t tx psbt values m f cs)"
proof (induction cs arbitrary: m f)
  case (Cons c cs)
  have "obeys R (conflict_transaction C t tx psbt c)" unfolding conflict_transaction_def by (intro obeys_bind obeys_get_tx obeys_ok)
  then show ?case using Cons by (auto intro!: obeys_bind obeys_fail split: option.split prod.split)
qed (simp add: obeys_ok)

lemma obeys_price_descendants: "obeys R (price_descendants C values f cs)"
  by (induction cs arbitrary: f) (auto intro!: obeys_bind obeys_get_tx obeys_ok)

lemma obeys_minimums: "obeys R (replacement_minimums C t tx psbt prev)"
proof -
  have "obeys R (replacement_minimums_from_records C t tx psbt prev)"
    unfolding replacement_minimums_from_records_def Let_def
    by (auto intro!: obeys_parts obeys_price_conflicts obeys_price_descendants split: prod.split)
  moreover have "obeys R (cmd_bind (node_call MempoolUnavailable (mempool_spenders_result (ce_node C) (prevouts tx))) (\<lambda>entries.
        case fold_res entry_minimums (1, 0) entries of Inl e \<Rightarrow> cmd_err e | Inr m \<Rightarrow> cmd_ok m))"
    by (auto intro!: obeys_parts split: sum.split)
  ultimately show ?thesis by (simp add: obeys_def replacement_minimums_def)
qed

lemma obeys_rbf_loop: "obeys R (rbf_loop fuel left C cancel dests confirmed fees fresh locktime cands change)"
proof (induction fuel arbitrary: left cands change)
  case (Suc fuel)
  then show ?case by (auto intro!: obeys_parts split: build_outcome.split)
qed (simp add: obeys_fail)

lemma rbf_obeys: "obeys R (rbf_psbt C t cancel feerate)"
  unfolding rbf_psbt_def Let_def require_ordinary_imported_spend_support_def previous_transaction_def replaceable_coins_def replacement_feerate_def
    previous_output_def kept_destination_def replacement_candidates_def
  by (auto intro!: obeys_parts obeys_minimums obeys_rbf_loop split: option.split prod.split)

lemma obeys_sweepable: "obeys R (sweepable_coins all height timelock cs)"
  by (induction cs) (auto intro!: obeys_basic)

lemma recovery_obeys: "obeys R (create_recovery C address ops feerate timelock)"
  unfolding create_recovery_def recoverable_coins_def Let_def
  by (auto intro!: obeys_parts obeys_sweepable split: option.split wallet_descriptor.split build_outcome.split)

lemma new_address_obeys: "obeys R (try_get_new_address C)"
  unfolding try_get_new_address_def
  by (auto intro!: obeys_basic obeys_reserve obeys_write split: wallet_descriptor.split dest: allocate_results set_index)

lemma update_indexes_obeys: "obeys R (update_deriv_indexes C receive change)"
  unfolding update_deriv_indexes_def update_branch_def Let_def
  by (auto intro!: obeys_basic obeys_write split: option.split dest: set_index)

lemma reserve_command_obeys: "obeys R (reserve_change_command C)"
  unfolding reserve_change_command_def by (auto intro!: obeys_basic obeys_reserve split: wallet_descriptor.split dest: allocate_results)

lemma delete_command_obeys: "obeys R (delete_spend_command C t)"
  unfolding delete_spend_command_def by (rule obeys_write) (auto intro: remove_spend)

lemma rescan_obeys: "obeys R (start_rescan C timestamp)"
  unfolding start_rescan_def
  by (auto intro!: obeys_basic obeys_write split: option.split wallet_descriptor.split intro: set_rescan)

end

section \<open>Steps of the database\<close>

inductive command_step :: "('s, 'b) command_env \<Rightarrow> wallet_db \<Rightarrow> wallet_db \<Rightarrow> bool" for C where
  by_others: "command_step C db (ce_others C n db)"
| raising: "set_derivation_index (ce_addresses C) i change db = Some db' \<Longrightarrow> command_step C db db'"
| reserving: "allocate_change (ce_addresses C) chain d e db = (r, db') \<Longrightarrow> command_step C db db'"
| reserving_imported: "allocate_imported_branch (ce_addresses C) chain im ch e db = (ri, db') \<Longrightarrow> command_step C db db'"
| storing: "store_imported_construction (ce_btc C) now p db = Some db' \<Longrightarrow> command_step C db db'"
| deleting: "command_step C db (delete_spend t db)"
| rescanning: "command_step C db (set_wallet_rescan_timestamp timestamp db)"

interpretation stepping: command_relation C "(command_step C)\<^sup>*\<^sup>*" for C
  by unfold_locales (auto intro: command_step.intros rtranclp_trans)

definition others_step :: "('s, 'b) command_env \<Rightarrow> bool" where
  "others_step C \<longleftrightarrow> (\<forall>n db. (db_step (ce_btc C) (ce_addresses C))\<^sup>*\<^sup>* db (ce_others C n db))"

lemma command_step_db:
  assumes "others_step C" and "(command_step C)\<^sup>*\<^sup>* db db'"
  shows "(db_step (ce_btc C) (ce_addresses C))\<^sup>*\<^sup>* db db'"
  using assms(2)
proof (induction rule: rtranclp_induct)
  case (step y z)
  from step.hyps(2) have "(db_step (ce_btc C) (ce_addresses C))\<^sup>*\<^sup>* y z"
  proof cases
    case (by_others n)
    then show ?thesis using assms(1) by (simp add: others_step_def)
  qed (auto intro: db_step.intros)
  with step.IH show ?case by (rule rtranclp_trans)
qed simp

lemma db_steps_advance:
  assumes "vault_addresses A" and "(db_step L A)\<^sup>*\<^sup>* db db'" and "db_ok L A db"
  shows "db_advances L A db db'"
  using assms(2)
proof (induction rule: rtranclp_induct)
  case base
  then show ?case using assms(3) by (simp add: db_advances_def)
next
  case (step y z)
  then have "db_advances L A y z" using db_step_ok [OF assms(1)] by (simp add: db_advances_def)
  with step.IH show ?case unfolding db_advances_def by (metis order_trans)
qed

section \<open>A command that runs alone\<close>

definition alone :: "('s, 'b) command_env \<Rightarrow> ('s, 'b) command_env" where
  "alone C = C\<lparr>ce_others := (\<lambda>n db. db)\<rparr>"

definition records_kept :: "wallet_db \<Rightarrow> wallet_db \<Rightarrow> bool" where
  "records_kept db db' \<longleftrightarrow> db_coins db' = db_coins db \<and> db_transactions db' = db_transactions db \<and> db_tip db' = db_tip db \<and>
     db_label_rows db' = db_label_rows db"

lemma records_kept_simps [simp]: "records_kept db db" "records_kept db (set_branch_index b i db)" "records_kept db (db\<lparr>db_addresses := rows\<rparr>)"
    "records_kept db (delete_spend t db)" "records_kept db (set_wallet_rescan_timestamp timestamp db)"
  by (simp_all add: records_kept_def set_branch_index_def delete_spend_def set_wallet_rescan_timestamp_def)

lemma records_kept_trans: "\<lbrakk>records_kept a b; records_kept b c\<rbrakk> \<Longrightarrow> records_kept a c"
  by (simp add: records_kept_def)

lemma insert_address_kept: "insert_address db r c i = Some db' \<Longrightarrow> records_kept db db'"
  by (auto simp: insert_address_def split: if_splits)

lemma set_derivation_index_kept:
  assumes "set_derivation_index A i change db = Some db'"
  shows "records_kept db db'"
proof -
  have one: "records_kept s t" if "map_lookahead A desc net la s x = Some t" for desc net la s x t
    using that insert_address_kept by (auto simp: map_lookahead_def split: option.splits sum.splits)
  have "records_kept db t" if "try_fold (map_lookahead A desc net la) (set_branch_index change i db) xs = Some t" for desc net la xs t
    using try_fold_invariant [OF that, of "records_kept db"] one records_kept_trans by simp
  then show ?thesis using assms unfolding set_derivation_index_def by (auto split: option.splits if_splits)
qed

lemma allocate_change_kept: "allocate_change A chain d e db = (r, db') \<Longrightarrow> records_kept db db'"
proof (cases "vault_next chain d db")
  case (Inr nx)
  assume run: "allocate_change A chain d e db = (r, db')"
  have "records_kept db t" if "insert_address (set_branch_index True nx db) a b i = Some t" for a b i t
    using insert_address_kept [OF that] records_kept_trans records_kept_simps(2) by blast
  with run Inr show ?thesis unfolding allocate_change_def Let_def
    by (auto simp: res_rules bind_res_Inr split: if_splits sum.splits)
qed (auto simp: allocate_change_def)

lemma allocate_imported_kept: "allocate_imported_branch A chain im ch e db = (r, db') \<Longrightarrow> records_kept db db'"
proof (cases "imported_next chain im ch db")
  case (Inr nx)
  assume run: "allocate_imported_branch A chain im ch e db = (r, db')"
  have "records_kept db t" if "insert_address (set_branch_index ch i db) a b j = Some t" for a b i j t
    using insert_address_kept [OF that] records_kept_trans records_kept_simps(2) by blast
  with run Inr show ?thesis unfolding allocate_imported_branch_def Let_def
    by (cases nx) (auto simp: res_rules split: if_splits sum.splits)
qed (auto simp: allocate_imported_branch_def)

lemma store_imported_kept: "store_imported_construction L now p db = Some db' \<Longrightarrow> records_kept db db'"
  by (auto simp: store_imported_construction_def Let_def records_kept_def split: if_splits list.splits)

interpretation confined: command_relation "alone C" records_kept for C
proof unfold_locales
  show "records_kept db (ce_others (alone C) n db)" for n db by (simp add: alone_def)
qed (auto simp: set_derivation_index_kept allocate_change_kept allocate_imported_kept store_imported_kept intro: records_kept_trans)

section \<open>All commands\<close>

inductive command_runs :: "('s, 'b) command_env \<Rightarrow> 'b command_state \<Rightarrow> 'b command_state \<Rightarrow> bool" for C where
  "create_spend_command C destinations outpoints feerate change s = (r1, s') \<Longrightarrow> command_runs C s s'"
| "rbf_psbt C txid is_cancel rate s = (r1, s') \<Longrightarrow> command_runs C s s'"
| "create_recovery C address outpoints feerate timelock s = (r2, s') \<Longrightarrow> command_runs C s s'"
| "try_get_new_address C s = (r3, s') \<Longrightarrow> command_runs C s s'"
| "update_deriv_indexes C receive change_to s = (r4, s') \<Longrightarrow> command_runs C s s'"
| "reserve_change_command C s = (r5, s') \<Longrightarrow> command_runs C s s'"
| "delete_spend_command C txid s = (r6, s') \<Longrightarrow> command_runs C s s'"
| "start_rescan C timestamp s = (r7, s') \<Longrightarrow> command_runs C s s'"

lemma command_runs_steps: "command_runs C s s' \<Longrightarrow> (command_step C)\<^sup>*\<^sup>* (cm_db s) (cm_db s')"
  by (induction rule: command_runs.induct)
    (blast intro: obeysD stepping.create_spend_obeys stepping.rbf_obeys stepping.recovery_obeys stepping.new_address_obeys
      stepping.update_indexes_obeys stepping.reserve_command_obeys stepping.delete_command_obeys stepping.rescan_obeys)+

lemma command_runs_kept: "command_runs (alone C) s s' \<Longrightarrow> records_kept (cm_db s) (cm_db s')"
  by (induction rule: command_runs.induct)
    (blast intro: obeysD confined.create_spend_obeys confined.rbf_obeys confined.recovery_obeys confined.new_address_obeys
      confined.update_indexes_obeys confined.reserve_command_obeys confined.delete_command_obeys confined.rescan_obeys)+

text \<open>
  The commands refine the database.  Whatever they are asked, whatever the backend answers and
  however they end, the commands change the database only by methods of the connection, interleaved
  with what others commit, so they keep its invariant and the wallet's identity and never lower an
  index; and a command that runs alone leaves the coins, the transactions, the tip and the labels as
  they are.
\<close>

theorem commands_refine_database:
  assumes "command_runs C s s'" and "others_step C" and "vault_addresses (ce_addresses C)" and "db_ok (ce_btc C) (ce_addresses C) (cm_db s)"
  shows "(db_step (ce_btc C) (ce_addresses C))\<^sup>*\<^sup>* (cm_db s) (cm_db s') \<and> db_advances (ce_btc C) (ce_addresses C) (cm_db s) (cm_db s') \<and>
    ((\<forall>n db. ce_others C n db = db) \<longrightarrow> records_kept (cm_db s) (cm_db s'))"
proof -
  have steps: "(db_step (ce_btc C) (ce_addresses C))\<^sup>*\<^sup>* (cm_db s) (cm_db s')"
    using command_step_db [OF assms(2) command_runs_steps [OF assms(1)]] .
  have "records_kept (cm_db s) (cm_db s')" if "\<forall>n db. ce_others C n db = db"
  proof -
    have "ce_others C = (\<lambda>n db. db)" using that by (intro ext) simp
    then have "alone C = C" by (cases C) (simp add: alone_def)
    then show ?thesis using command_runs_kept [of C s s'] assms(1) by simp
  qed
  then show ?thesis using steps db_steps_advance [OF assms(3) steps assms(4)] by blast
qed

end
