(* ===== verification/Commands_Exact.thy ===== *)
theory Commands_Exact
  imports Commands_Safety "HOL-Library.Multiset"
begin

text \<open>
  What the commands return: which coins a spend, a replacement or a recovery uses and where its
  outputs go, on a database that others change while the command runs.
\<close>

section \<open>Coins of the database\<close>

abbreviation goes :: "('s, 'b) command_env \<Rightarrow> 'b command_state \<Rightarrow> 'b command_state \<Rightarrow> bool" where
  "goes C s s' \<equiv> (command_step C)\<^sup>*\<^sup>* (cm_db s) (cm_db s')"

lemma goes_turn: "goes C s (turn C s)"
  by (rule stepping.turn_obeys)

lemma goesD: "\<lbrakk>obeys (command_step C)\<^sup>*\<^sup>* m; m s = (r, s')\<rbrakk> \<Longrightarrow> goes C s s'"
  by (rule obeysD)

lemma all2_left: "\<lbrakk>list_all2 P xs ys; x \<in> set xs\<rbrakk> \<Longrightarrow> \<exists>y\<in>set ys. P x y"
  by (induction rule: list_all2_induct) auto

lemma all2_right: "\<lbrakk>list_all2 P xs ys; y \<in> set ys\<rbrakk> \<Longrightarrow> \<exists>x\<in>set xs. P x y"
  by (induction rule: list_all2_induct) auto

lemma cmd_collect_Inr:
  assumes "cmd_collect f xs s = (Inr ys, s')"
  shows "list_all2 (\<lambda>x y. \<exists>t t'. f x t = (Inr y, t')) xs ys"
  using assms by (induction xs arbitrary: s ys) (fastforce simp: cmd_rules)+

lemma coin_of_row_fields:
  assumes "coin_of_row r = Some c"
  shows "cn_outpoint c = cr_outpoint r" "cn_spend_txid c = cr_spend_txid r" "cn_is_immature c = cr_is_immature r"
    "cn_is_from_self c = cr_is_from_self r" "map_option bi_height (cn_block_info c) = cr_blockheight r"
    "map_option bi_height (cn_spend_block c) = cr_spend_block_height r" "cn_amount c = nat (cr_amount_sat r)"
  using assms unfolding coin_of_row_def pair_columns_def by (auto split: option.splits if_splits)

definition reads_coins :: "coin_status list \<Rightarrow> outpoint list \<Rightarrow> wallet_db \<Rightarrow> coin list \<Rightarrow> bool" where
  \<comment> \<open>the coins are decoded from the selected rows, in some order\<close>
  "reads_coins statuses ops db cs \<longleftrightarrow> (\<exists>cs'. coins statuses ops db = Some cs' \<and> mset cs = mset cs')"

definition orders_coins :: "('s, 'b) command_env \<Rightarrow> bool" where
  "orders_coins C \<longleftrightarrow> (\<forall>cs. mset (lib_coins_order (ce_lib C) cs) = mset cs)"

lemma read_coins_Inr:
  assumes "orders_coins C" and "read_coins C statuses ops s = (Inr cs, s')"
  shows "s' = turn C s \<and> reads_coins statuses ops (cm_db (turn C s)) cs"
  using assms unfolding read_coins_def by (auto simp: cmd_rules reads_coins_def orders_coins_def)

lemma reads_coins_row:
  assumes "reads_coins statuses ops db cs" and "c \<in> set cs"
  shows "\<exists>r\<in>set (select_coins_where statuses ops db). coin_of_row r = Some c"
proof -
  obtain cs' where cs': "coins statuses ops db = Some cs'" "mset cs = mset cs'" using assms(1) by (auto simp: reads_coins_def)
  then have "c \<in> set cs'" using assms(2) by (metis set_mset_mset)
  then show ?thesis using cs'(1) unfolding coins_def collect_opt_Some by (rule all2_right [rotated])
qed

lemma reads_coins_outpoints:
  assumes "coins_ok db" and "reads_coins statuses ops db cs"
  shows "distinct (map cn_outpoint cs)"
proof -
  obtain cs' where cs': "coins statuses ops db = Some cs'" "mset cs = mset cs'" using assms(2) by (auto simp: reads_coins_def)
  have "list_all2 (\<lambda>r c. coin_of_row r = Some c) (select_coins_where statuses ops db) cs'"
    using cs'(1) by (simp add: coins_def collect_opt_Some)
  then have "map cn_outpoint cs' = map cr_outpoint (select_coins_where statuses ops db)"
    by (auto simp: list_all2_conv_all_nth coin_of_row_fields intro!: nth_equalityI)
  moreover have "distinct (map cr_outpoint (select_coins_where statuses ops db))"
    using assms(1) by (auto simp: coins_ok_def select_coins_where_def distinct_map_filter)
  moreover have "mset (map cn_outpoint cs) = mset (map cn_outpoint cs')" using cs'(2) by (metis mset_map)
  ultimately show ?thesis by (metis mset_eq_imp_distinct_iff)
qed

lemma reads_coins_where:
  assumes "reads_coins statuses ops db cs" and "c \<in> set cs"
  obtains r where "r \<in> set (db_coins db)" "coin_of_row r = Some c" "statuses = [] \<or> (\<exists>st\<in>set statuses. status_condition st r)"
    "ops = [] \<or> cn_outpoint c \<in> set ops"
  using reads_coins_row [OF assms] coin_of_row_fields(1) by (auto simp: select_coins_where_def)

section \<open>Candidates\<close>

definition from_coin :: "bool \<Rightarrow> nat option \<Rightarrow> coin \<Rightarrow> candidate_coin \<Rightarrow> bool" where
  "from_coin must sq c cand \<longleftrightarrow> (\<exists>info. cand = coin_to_candidate c must sq info)"

lemma from_coin_simps:
  assumes "from_coin must sq c cand"
  shows "cc_outpoint cand = cn_outpoint c" "cc_amount cand = cn_amount c" "cc_must_select cand = must" "cc_sequence cand = sq"
  using assms by (auto simp: from_coin_def coin_to_candidate_def)

lemma candidate_with_ancestors_Inr: "candidate_with_ancestors C must c s = (Inr cand, s') \<Longrightarrow> from_coin must None c cand"
  unfolding candidate_with_ancestors_def by (auto simp: cmd_rules from_coin_def split: if_splits)

lemma collected_candidates:
  assumes "cmd_collect (candidate_with_ancestors C must) cs s = (Inr cands, s')"
  shows "list_all2 (from_coin must None) cs cands"
  using cmd_collect_Inr [OF assms] by (rule list_all2_mono) (auto dest: candidate_with_ancestors_Inr)

definition spendable :: "outpoint list \<Rightarrow> coin_row \<Rightarrow> bool" where
  \<comment> \<open>unspent and, when nothing was asked for, confirmed or the wallet's own; otherwise mature\<close>
  "spendable ops r \<longleftrightarrow> cr_spend_txid r = None \<and>
     (if ops = [] then cr_blockheight r \<noteq> None \<or> cr_is_from_self r else \<not> cr_is_immature r)"

lemma check_chosen_Inr:
  fixes s :: "'b command_state"
  assumes "cmd_collect (check_chosen cs) ops s = (Inr us, s')" and "distinct (map cn_outpoint cs)" and "op \<in> set ops"
  shows "\<exists>c\<in>set cs. cn_outpoint c = op" and "\<forall>c\<in>set cs. cn_outpoint c = op \<longrightarrow> \<not> is_spent c \<and> \<not> cn_is_immature c"
proof -
  obtain u and t t' :: "'b command_state" where "check_chosen cs op t = (Inr u, t')"
    using all2_left [OF cmd_collect_Inr [OF assms(1)] assms(3)] by blast
  then obtain c where c: "List.find (\<lambda>c. cn_outpoint c = op) cs = Some c" "\<not> is_spent c" "\<not> cn_is_immature c"
    unfolding check_chosen_def by (auto simp: cmd_rules split: option.splits)
  then have in_cs: "c \<in> set cs" "cn_outpoint c = op" by (auto simp: find_Some_iff)
  then show "\<exists>c\<in>set cs. cn_outpoint c = op" by blast
  show "\<forall>c\<in>set cs. cn_outpoint c = op \<longrightarrow> \<not> is_spent c \<and> \<not> cn_is_immature c"
    using c in_cs assms(2) by (metis (mono_tags, lifting) distinct_map inj_onD)
qed

lemma goes_candidates: "obeys (command_step C)\<^sup>*\<^sup>* (cmd_collect (candidate_with_ancestors C must) cs)"
  by (intro stepping.obeys_collect stepping.obeys_candidate)

lemma goes_choices: "obeys (command_step C)\<^sup>*\<^sup>* (cmd_collect (check_chosen cs) ops)"
  by (intro stepping.obeys_collect stepping.obeys_check_chosen)

lemma goes_destinations: "obeys (command_step C)\<^sup>*\<^sup>* (cmd_collect (destination_of C) ds)"
  by (intro stepping.obeys_collect) (auto intro!: stepping.obeys_parts simp: destination_of_def split: prod.split)

lemma goes_change_or_next: "obeys (command_step C)\<^sup>*\<^sup>* (change_or_next C a)"
  by (auto intro!: stepping.obeys_parts simp: change_or_next_def split: option.split)

lemma candidate_coins_Inr:
  assumes order: "orders_coins C" and ok: "coins_ok (cm_db (turn C s))" and run: "candidate_coins C ops s = (Inr cands, s')"
  shows "\<exists>cs. list_all2 (from_coin (ops \<noteq> []) None) cs cands \<and> distinct (map cn_outpoint cs) \<and> (ops \<noteq> [] \<longrightarrow> cn_outpoint ` set cs = set ops) \<and>
    (\<forall>c\<in>set cs. \<exists>r\<in>set (db_coins (cm_db (turn C s))). coin_of_row r = Some c \<and> spendable ops r) \<and> goes C (turn C s) s'"
proof (cases "ops = []")
  case True
  obtain cs where cs: "reads_coins [Unconfirmed, Confirmed] [] (cm_db (turn C s)) cs"
    and cands: "list_all2 (from_coin False None) (filter usable_unasked cs) cands" and later: "goes C (turn C s) s'"
  proof -
    obtain cs t where cs: "read_coins C [Unconfirmed, Confirmed] [] s = (Inr cs, t)"
      "cmd_collect (candidate_with_ancestors C False) (filter usable_unasked cs) t = (Inr cands, s')"
      using run True unfolding candidate_coins_def by (auto simp: cmd_rules)
    have t: "t = turn C s" "reads_coins [Unconfirmed, Confirmed] [] (cm_db (turn C s)) cs" using read_coins_Inr [OF order cs(1)] by blast+
    show thesis by (rule that [OF t(2) collected_candidates [OF cs(2)] goesD [OF goes_candidates cs(2) [unfolded t(1)]]])
  qed
  have "\<exists>r\<in>set (db_coins (cm_db (turn C s))). coin_of_row r = Some c \<and> spendable ops r" if c: "c \<in> set (filter usable_unasked cs)" for c
  proof -
    have "c \<in> set cs" using c by simp
    then obtain r where r: "r \<in> set (db_coins (cm_db (turn C s)))" "coin_of_row r = Some c" "status_condition Unconfirmed r \<or> status_condition Confirmed r"
      using reads_coins_where [OF cs] by (metis empty_iff empty_set insert_iff list.set(2) list.discI)
    have "cr_spend_txid r = None" using r(3) by auto
    moreover have "cr_blockheight r \<noteq> None \<or> cr_is_from_self r"
      using c coin_of_row_fields(4,5) [OF r(2)] by (cases "cn_block_info c") (auto simp: usable_unasked_def dest: sym)
    ultimately show ?thesis using r(1,2) True by (auto simp: spendable_def)
  qed
  moreover have "distinct (map cn_outpoint (filter usable_unasked cs))"
    using reads_coins_outpoints [OF ok cs] by (rule distinct_map_filter)
  ultimately show ?thesis using cands True later by (intro exI [of _ "filter usable_unasked cs"]) simp
next
  case False
  obtain cs us t where cs: "reads_coins [] ops (cm_db (turn C s)) cs" and chk: "cmd_collect (check_chosen cs) ops (turn C s) = (Inr us, t)"
    and cands: "list_all2 (from_coin True None) cs cands" and later: "goes C (turn C s) s'"
  proof -
    obtain cs us t t' where cs: "read_coins C [] ops s = (Inr cs, t)" "cmd_collect (check_chosen cs) ops t = (Inr us, t')"
      "cmd_collect (candidate_with_ancestors C True) cs t' = (Inr cands, s')"
      using run False unfolding candidate_coins_def by (auto simp: cmd_rules)
    have t: "t = turn C s" "reads_coins [] ops (cm_db (turn C s)) cs" using read_coins_Inr [OF order cs(1)] by blast+
    have "goes C t t'" by (rule goesD [OF goes_choices cs(2)])
    moreover have "goes C t' s'" by (rule goesD [OF goes_candidates cs(3)])
    ultimately have "goes C (turn C s) s'" unfolding t(1) by (rule rtranclp_trans)
    then show thesis using that [OF t(2) cs(2) [unfolded t(1)] collected_candidates [OF cs(3)]] by blast
  qed
  have dist: "distinct (map cn_outpoint cs)" by (rule reads_coins_outpoints [OF ok cs])
  have sub: "cn_outpoint c \<in> set ops" if "c \<in> set cs" for c using reads_coins_where [OF cs that] False by metis
  have "\<exists>r\<in>set (db_coins (cm_db (turn C s))). coin_of_row r = Some c \<and> spendable ops r" if c: "c \<in> set cs" for c
  proof -
    obtain r where r: "r \<in> set (db_coins (cm_db (turn C s)))" "coin_of_row r = Some c" by (rule reads_coins_where [OF cs c])
    have "\<not> is_spent c \<and> \<not> cn_is_immature c" using check_chosen_Inr(2) [OF chk dist sub [OF c]] c by blast
    then show ?thesis using r coin_of_row_fields(2,3) [OF r(2)] False by (auto simp: spendable_def is_spent_def)
  qed
  moreover have "cn_outpoint ` set cs = set ops" using sub check_chosen_Inr(1) [OF chk dist] by blast
  ultimately show ?thesis using cands dist False later by (intro exI [of _ cs]) simp
qed

section \<open>Outputs\<close>

definition paid :: "address \<times> nat \<Rightarrow> txout" where
  "paid = (\<lambda>(a, v). \<lparr>to_value = v, to_script = address_script a\<rparr>)"

lemma destinations_Inr:
  fixes s :: "'b command_state"
  assumes "cmd_collect (destination_of C) ds s = (Inr dests, s')"
  shows "map dest_output dests = map paid ds \<and> (\<forall>d\<in>set ds. lib_valid_for (ce_lib C) (fst d) (ce_network C)) \<and> (ds = [] \<longleftrightarrow> dests = [])"
proof -
  have "list_all2 (\<lambda>d dest. dest_output dest = paid d \<and> lib_valid_for (ce_lib C) (fst d) (ce_network C)) ds dests"
    using cmd_collect_Inr [OF assms]
    by (rule list_all2_mono) (auto simp: destination_of_def validate_address_def spend_addr_def cmd_rules dest_output_def paid_def)
  then show ?thesis by (induction rule: list_all2_induct) auto
qed

lemma paid_amounts:
  assumes "map dest_output dests = map paid ds" and "\<forall>dest\<in>set dests. DUST_OUTPUT_SATS \<le> snd dest \<and> snd dest \<le> max_money"
  shows "\<forall>d\<in>set ds. 500 \<le> snd d \<and> snd d \<le> max_money"
proof
  fix d assume d: "d \<in> set ds"
  have "map (to_value \<circ> dest_output) dests = map (to_value \<circ> paid) ds" using assms(1) by (metis map_map)
  then have "map snd dests = map snd ds" by (simp add: dest_output_def paid_def comp_def case_prod_beta)
  then have "snd ` set dests = snd ` set ds" by (metis set_map)
  then obtain dest where "dest \<in> set dests" "snd d = snd dest" using d by (metis imageE image_eqI)
  then show "500 \<le> snd d \<and> snd d \<le> max_money" using assms(2) by (simp add: DUST_OUTPUT_SATS_def)
qed

definition own_change_at :: "('s, 'b) command_env \<Rightarrow> nat \<Rightarrow> spend_output_address \<Rightarrow> bool" where
  "own_change_at C i ch \<longleftrightarrow> lib_wallet_address (ce_lib C) (ce_main C) True (ce_network C) i = Some (so_addr ch) \<and>
     so_info ch = Some \<lparr>ai_index = child_of i, ai_is_change = True\<rparr>"

lemma index_of_child [simp]: "index_of (child_of i) = i"
  by (simp add: index_of_def child_of_def)

lemma next_change_Inr: "next_change_addr C s = (Inr ch, s') \<Longrightarrow> \<exists>i. own_change_at C i ch"
  unfolding next_change_addr_def change_addr_at_def own_change_at_def by (fastforce simp: cmd_rules split: option.splits)

lemma turn_cache [simp]: "cm_cache (turn C s) = cm_cache s" "cm_bit (turn C s) = cm_bit s"
  by (simp_all add: turn_def)

lemma build_spend_Built:
  assumes "build_spend C dests cands fees change locktime s = (Inr (Built res), s')"
  shows "\<exists>getter. core_spend C getter dests cands fees change locktime = Inr res"
  using assms unfolding build_spend_def Let_def build_result_def by (auto split: sum.splits spend_error.splits select_error.splits)

lemma finish_spend_Inr:
  "finish_spend C dests info res s = (Inr r, s') \<Longrightarrow> r = SpendSuccess (cs_psbt res) (cs_warnings res)"
  unfolding finish_spend_def by (auto simp: cmd_rules)

definition committed_change :: "('s, 'b) command_env \<Rightarrow> 'b command_state \<Rightarrow> spend_output_address \<Rightarrow> 'b command_state \<Rightarrow> bool" where
  \<comment> \<open>the change address is the wallet's at an index that was committed during the command\<close>
  "committed_change C s ch s' \<longleftrightarrow> (\<exists>i t t'. own_change_at C i ch \<and> goes C s t \<and> commit_change C (so_info ch) t = (Inr True, t') \<and> goes C t' s')"

definition change_used :: "('s, 'b) command_env \<Rightarrow> 'b command_state \<Rightarrow> bool \<Rightarrow> spend_output_address \<Rightarrow> create_spend_res \<Rightarrow> spend_output_address \<Rightarrow>
    'b command_state \<Rightarrow> bool" where
  "change_used C s fresh change res ch s' \<longleftrightarrow> (if fresh then cs_has_change res \<longrightarrow> committed_change C s ch s' else ch = change)"

lemma committed_change_later: "\<lbrakk>goes C s t; committed_change C t ch s'\<rbrakk> \<Longrightarrow> committed_change C s ch s'"
  unfolding committed_change_def by (auto intro: rtranclp_trans)

lemma change_used_later: "\<lbrakk>goes C s t; change_used C t True change res ch s'\<rbrakk> \<Longrightarrow> change_used C s True change' res ch s'"
  unfolding change_used_def by (auto intro: committed_change_later)

lemma commit_or_finish:
  assumes run: "cmd_bind (if cs_has_change res \<and> fresh then commit_change C (so_info change) else cmd_ok True)
      (\<lambda>committed. if committed then finish_spend C dests (so_info change) res else retry) t = (Inr (SpendSuccess p ws), s')"
    and own: "fresh \<longrightarrow> (\<exists>i. own_change_at C i change)" and goes: "goes C s t"
  shows "(p = cs_psbt res \<and> ws = cs_warnings res \<and> change_used C s fresh change res change s') \<or>
    (fresh \<and> (\<exists>t'. goes C s t' \<and> retry t' = (Inr (SpendSuccess p ws), s')))"
proof -
  obtain b t' where b: "(if cs_has_change res \<and> fresh then commit_change C (so_info change) else cmd_ok True) t = (Inr b, t')"
    and rest: "(if b then finish_spend C dests (so_info change) res else retry) t' = (Inr (SpendSuccess p ws), s')"
    using run by (auto simp: cmd_rules)
  have "obeys (command_step C)\<^sup>*\<^sup>* (if cs_has_change res \<and> fresh then commit_change C (so_info change) else cmd_ok True)"
    by (simp add: stepping.obeys_commit stepping.obeys_ok)
  from goesD [OF this b] have t': "goes C t t'" .
  show ?thesis
  proof (cases b)
    case True
    then have fin: "finish_spend C dests (so_info change) res t' = (Inr (SpendSuccess p ws), s')" using rest by simp
    have "goes C t' s'" by (rule goesD [OF stepping.obeys_finish fin])
    moreover have "commit_change C (so_info change) t = (Inr True, t')" if "cs_has_change res" fresh using that b True by simp
    ultimately have "change_used C s fresh change res change s'"
      using own goes unfolding change_used_def committed_change_def by auto
    then show ?thesis using finish_spend_Inr [OF fin] by simp
  next
    case False
    then have fresh using b by (auto simp: cmd_rules split: if_splits)
    then show ?thesis using False rest goes t' by (auto intro: rtranclp_trans)
  qed
qed

lemma spend_loop_success:
  assumes "spend_loop n C dests cands f fresh lt change s = (Inr (SpendSuccess p ws), s')" and "fresh \<longrightarrow> (\<exists>i. own_change_at C i change)"
  shows "\<exists>ch res getter. core_spend C getter dests cands (Regular f) ch lt = Inr res \<and> p = cs_psbt res \<and> ws = cs_warnings res \<and>
    change_used C s fresh change res ch s'"
  using assms
proof (induction n arbitrary: change s)
  case (Suc n)
  obtain b t where b: "build_spend C dests cands (Regular f) change lt s = (Inr b, t)" using Suc.prems(1) by (auto simp: cmd_rules)
  have t: "goes C s t" by (rule goesD [OF stepping.obeys_build b])
  show ?case
  proof (cases b)
    case (Built res)
    obtain getter where core: "core_spend C getter dests cands (Regular f) change lt = Inr res"
      using build_spend_Built b Built by blast
    let ?retry = "if n = 0 then cmd_err ChangeReservationContended else cmd_bind (next_change_addr C) (spend_loop n C dests cands f fresh lt)"
    have "cmd_bind (if cs_has_change res \<and> fresh then commit_change C (so_info change) else cmd_ok True)
        (\<lambda>committed. if committed then finish_spend C dests (so_info change) res else ?retry) t = (Inr (SpendSuccess p ws), s')"
      using Suc.prems(1) b Built by (simp add: cmd_rules)
    from commit_or_finish [OF this Suc.prems(2) t] show ?thesis
    proof (elim disjE conjE exE)
      fix t' assume fresh: fresh and t': "goes C s t'" "?retry t' = (Inr (SpendSuccess p ws), s')"
      then obtain ch u where ch: "next_change_addr C t' = (Inr ch, u)" "spend_loop n C dests cands f fresh lt ch u = (Inr (SpendSuccess p ws), s')"
        by (auto simp: cmd_rules split: if_splits)
      have u: "goes C s u" using t'(1) goesD [OF stepping.obeys_next_change ch(1)] by (rule rtranclp_trans)
      from Suc.IH [OF ch(2)] next_change_Inr [OF ch(1)] obtain ch' res' getter' where
        "core_spend C getter' dests cands (Regular f) ch' lt = Inr res'" "p = cs_psbt res'" "ws = cs_warnings res'" "change_used C u fresh ch res' ch' s'"
        by blast
      then show ?thesis using change_used_later [OF u, of ch res' ch' s' change] fresh
        by (intro exI [of _ ch'] exI [of _ res'] exI [of _ getter']) simp
    qed (use core in blast)
  next
    case (Missing m)
    then show ?thesis using Suc.prems(1) b by (auto simp: cmd_rules)
  qed
qed (simp add: cmd_rules)

lemma vault_commit:
  assumes "own_change_at C i ch" and "ce_main C = Vault d" and "commit_change C (so_info ch) t = (Inr True, t')"
  shows "commit_change_if_next (ce_addresses C) (ce_chain C) d i (cm_db (turn C t)) = (Inr True, cm_db t')"
  using assms by (auto simp: commit_change_def own_change_at_def cmd_rules)

lemma vault_commit_next:
  assumes "commit_change_if_next A chain d i db = (Inr True, db')" and "vault_addresses A" and "addresses_ok A db"
  shows "i = branch_index True db + 1 \<and> takes_next A True db db'"
proof -
  obtain r where "allocate_change A chain d (Some i) db = (Inr (Some r), db')"
    using assms(1) by (auto simp: commit_change_if_next_def res_rules split: if_splits prod.splits)
  from allocate_change_step [OF assms(3,2) this] show ?thesis by auto
qed

section \<open>Creating a spend\<close>

definition change_committed :: "('s, 'b) command_env \<Rightarrow> descriptor \<Rightarrow> wallet_db \<Rightarrow> nat \<Rightarrow> wallet_db \<Rightarrow> bool" where
  \<comment> \<open>between the two databases the wallet moved its change index to the given one, by one step of its own\<close>
  "change_committed C d db i db' \<longleftrightarrow> (\<exists>db2 db3. (command_step C)\<^sup>*\<^sup>* db db2 \<and> commit_change_if_next (ce_addresses C) (ce_chain C) d i db2 = (Inr True, db3) \<and>
     branch_index True db2 + 1 = i \<and> branch_index True db3 = i \<and> (command_step C)\<^sup>*\<^sup>* db3 db')"

definition spends_rows :: "wallet_db \<Rightarrow> (coin_row \<Rightarrow> bool) \<Rightarrow> transaction \<Rightarrow> bool" where
  \<comment> \<open>each input spends one row with the property, no two the same, and pays a bounded fee\<close>
  "spends_rows db ok tx \<longleftrightarrow> (\<exists>rows fee. set rows \<subseteq> set (db_coins db) \<and> list_all ok rows \<and> rows \<noteq> [] \<and> prevouts tx = map cr_outpoint rows \<and>
     distinct (prevouts tx) \<and> sum_list (map (nat \<circ> cr_amount_sat) rows) = value_out tx + fee \<and> fee \<le> MAX_FEE)"

lemma spends_rowsI:
  assumes cands: "list_all2 (from_coin must sq) cs cands" and sel: "set selected \<subseteq> set cands" "selected \<noteq> []"
    and rows: "\<forall>c\<in>set cs. \<exists>r\<in>set (db_coins db). coin_of_row r = Some c \<and> ok r"
    and pre: "prevouts tx = map cc_outpoint selected" "distinct (prevouts tx)" and fee: "sum_list (map cc_amount selected) = value_out tx + fee" "fee \<le> MAX_FEE"
  shows "spends_rows db ok tx"
proof -
  have row: "\<exists>r\<in>set (db_coins db). ok r \<and> cr_outpoint r = cc_outpoint x \<and> nat (cr_amount_sat r) = cc_amount x" if "x \<in> set selected" for x
  proof -
    obtain c where c: "c \<in> set cs" "from_coin must sq c x" using all2_right [OF cands] sel(1) \<open>x \<in> set selected\<close> by blast
    then obtain r where r: "r \<in> set (db_coins db)" "coin_of_row r = Some c" "ok r" using rows by blast
    then show ?thesis using from_coin_simps [OF c(2)] coin_of_row_fields [OF r(2)] by (intro bexI [OF _ r(1)]) simp
  qed
  then obtain f where f: "\<And>x. x \<in> set selected \<Longrightarrow> f x \<in> set (db_coins db) \<and> ok (f x) \<and> cr_outpoint (f x) = cc_outpoint x \<and> nat (cr_amount_sat (f x)) = cc_amount x"
    by metis
  have amounts: "map (nat \<circ> cr_amount_sat) (map f selected) = map cc_amount selected" using f by auto
  have "sum_list (map (nat \<circ> cr_amount_sat) (map f selected)) = value_out tx + fee" unfolding amounts by (rule fee(1))
  moreover have "prevouts tx = map cr_outpoint (map f selected)" using f pre(1) by auto
  moreover have "set (map f selected) \<subseteq> set (db_coins db)" "list_all ok (map f selected)" using f by (auto simp: list_all_iff)
  moreover have "map f selected \<noteq> []" using sel(2) by simp
  ultimately show ?thesis unfolding spends_rows_def using pre(2) fee(2) by blast
qed

lemma vault_core_spend:
  assumes "selector_laws (ce_select C)" and "ce_main C = Vault d" and "core_spend C getter dests cands fees ch lt = Inr res"
  shows "\<exists>selected change fee. distinct (map cc_outpoint selected) \<and> set selected \<subseteq> set cands \<and> selected \<noteq> [] \<and>
    (\<forall>c\<in>set cands. cc_must_select c \<longrightarrow> c \<in> set selected) \<and>
    tx_input (ps_unsigned_tx (cs_psbt res)) = map coin_txin selected \<and> prevouts (ps_unsigned_tx (cs_psbt res)) = map cc_outpoint selected \<and>
    tx_output (ps_unsigned_tx (cs_psbt res)) = map dest_output dests @ change_outputs ch change \<and> cs_has_change res = (0 < change) \<and>
    (\<forall>dest\<in>set dests. DUST_OUTPUT_SATS \<le> snd dest \<and> snd dest \<le> max_money) \<and> (change = 0 \<or> DUST_OUTPUT_SATS \<le> change \<and> change \<le> max_money) \<and>
    (dests = [] \<longrightarrow> 0 < change) \<and>
    sum_list (map cc_amount selected) = value_out (ps_unsigned_tx (cs_psbt res)) + fee \<and> fee \<le> MAX_FEE"
proof -
  have run: "create_spend_with_poison (ce_select C) (ce_btc C) (ce_desc C) d getter dests cands fees ch lt None = Inr res"
    using assms(2,3) by (simp add: core_spend_def create_spend_def)
  obtain sel where ok: "selection_ok cands (dests = []) sel"
    and b: "built (ce_btc C) (ce_desc C) d getter dests cands ch lt None (sr_selected sel) (sr_change_amount sel) res"
    using create_spend_built [OF assms(1) run] by blast
  obtain fee vb where fee: "sum_list (map cc_amount (sr_selected sel)) = value_out (ps_unsigned_tx (cs_psbt res)) + fee" "fee \<le> MAX_FEE"
      "vb \<le> fee" "unsigned_tx_max_vbytes (ce_btc C) (ce_desc C) d (ps_unsigned_tx (cs_psbt res)) (primary_path cands) = Some vb"
    using built_amounts [OF b] by blast
  have "0 < vb" using unsigned_tx_max_vbytes_bound [OF fee(4)] fee(3) built_amounts [OF b] fee(4) by (cases "vb = 0") auto
  then have "sr_selected sel \<noteq> []" using fee(1,3) by auto
  moreover have "dests = [] \<longrightarrow> 0 < sr_change_amount sel" using ok by (auto simp: selection_ok_def DUST_OUTPUT_SATS_def)
  moreover have "tx_output (ps_unsigned_tx (cs_psbt res)) = map dest_output dests @ change_outputs ch (sr_change_amount sel)"
    "tx_input (ps_unsigned_tx (cs_psbt res)) = map coin_txin (sr_selected sel)"
    "prevouts (ps_unsigned_tx (cs_psbt res)) = map cc_outpoint (sr_selected sel)"
    using b by (simp_all add: built_def built_psbt_def prevouts_def comp_def poison_outputs_def)
  moreover have "distinct (map cc_outpoint (sr_selected sel))" "set (sr_selected sel) \<subseteq> set cands" by (rule selection_ok_outpoints [OF ok])+
  moreover have "\<forall>c\<in>set cands. cc_must_select c \<longrightarrow> c \<in> set (sr_selected sel)" using ok by (auto simp: selection_ok_def)
  moreover have "\<forall>dest\<in>set dests. DUST_OUTPUT_SATS \<le> snd dest \<and> snd dest \<le> max_money" "cs_has_change res = (0 < sr_change_amount sel)"
    "sr_change_amount sel = 0 \<or> DUST_OUTPUT_SATS \<le> sr_change_amount sel \<and> sr_change_amount sel \<le> max_money"
    using b unfolding built_def by blast+
  ultimately show ?thesis using fee(1,2) by (intro exI [of _ "sr_selected sel"] exI [of _ "sr_change_amount sel"] exI [of _ fee]) simp
qed

lemma chosen_all:
  assumes "list_all2 (from_coin True sq) cs cands" and "set selected \<subseteq> set cands" and "\<forall>c\<in>set cands. cc_must_select c \<longrightarrow> c \<in> set selected"
  shows "cc_outpoint ` set selected = cn_outpoint ` set cs"
proof -
  have "\<forall>c\<in>set cands. cc_must_select c" using all2_right [OF assms(1)] from_coin_simps(3) by fastforce
  then have "set selected = set cands" using assms(2,3) by blast
  moreover have "map cc_outpoint cands = map cn_outpoint cs"
    using assms(1) by (induction rule: list_all2_induct) (auto simp: from_coin_simps)
  ultimately show ?thesis by (metis set_map)
qed

lemma goes_ok:
  assumes "others_step C" and "vault_addresses (ce_addresses C)" and "db_ok (ce_btc C) (ce_addresses C) (cm_db s)" and "goes C s t"
  shows "db_ok (ce_btc C) (ce_addresses C) (cm_db t)"
  using db_steps_advance [OF assms(2) command_step_db [OF assms(1,4)] assms(3)] by (simp add: db_advances_def)

lemma change_used_commits:
  assumes "others_step C" and "vault_addresses (ce_addresses C)" and "db_ok (ce_btc C) (ce_addresses C) (cm_db s)" and "ce_main C = Vault d"
    and "committed_change C s ch s'"
  shows "\<exists>i. lib_wallet_address (ce_lib C) (Vault d) True (ce_network C) i = Some (so_addr ch) \<and> change_committed C d (cm_db s) i (cm_db s')"
proof -
  obtain i t t' where i: "own_change_at C i ch" "goes C s t" "commit_change C (so_info ch) t = (Inr True, t')" "goes C t' s'"
    using assms(5) by (auto simp: committed_change_def)
  note run = vault_commit [OF i(1) assms(4) i(3)]
  have t: "goes C s (turn C t)" using i(2) goes_turn by (rule rtranclp_trans)
  have "db_ok (ce_btc C) (ce_addresses C) (cm_db (turn C t))" by (rule goes_ok [OF assms(1-3) t])
  then have nx: "i = branch_index True (cm_db (turn C t)) + 1 \<and> takes_next (ce_addresses C) True (cm_db (turn C t)) (cm_db t')"
    using vault_commit_next [OF run assms(2)] by (simp add: db_ok_def)
  then show ?thesis using run t i(1,4) takes_next_index [of "ce_addresses C" True "cm_db (turn C t)" "cm_db t'" True] assms(4)
    unfolding change_committed_def own_change_at_def by (intro exI [of _ i]) auto
qed


section \<open>Recovery\<close>

definition recoverable :: "int \<Rightarrow> nat \<Rightarrow> coin_row \<Rightarrow> bool" where
  \<comment> \<open>unspent, confirmed, and its timelock is over at the next block\<close>
  "recoverable height timelock r \<longleftrightarrow> cr_spend_txid r = None \<and> (\<exists>h. cr_blockheight r = Some h \<and> h + int timelock \<le> height + 1)"

lemma is_sweepable_row:
  assumes "coin_of_row r = Some c"
  shows "is_sweepable height timelock c \<longleftrightarrow> (\<exists>h. cr_blockheight r = Some h \<and> h + int timelock \<le> height + 1)"
  using coin_of_row_fields(5) [OF assms] by (cases "cn_block_info c") (auto simp: is_sweepable_def dest: sym)

lemma sweepable_Inr:
  fixes s :: "'b command_state"
  assumes "sweepable_coins every height timelock cs s = (Inr cands, s')"
  shows "s' = s \<and> list_all2 (from_coin True (Some timelock)) (filter (is_sweepable height timelock) cs) cands \<and>
    (every \<or> (\<forall>c\<in>set cs. is_sweepable height timelock c))"
  using assms by (induction cs arbitrary: cands) (auto simp: cmd_rules from_coin_def split: if_splits)

lemma unspent_chosen:
  fixes s :: "'b command_state"
  assumes "cmd_collect (\<lambda>op. case List.find (\<lambda>c. cn_outpoint c = op) cs of None \<Rightarrow> cmd_err (UnknownOutpoint op)
      | Some c \<Rightarrow> cmd_guard (is_spent c) (AlreadySpent op) (cmd_ok ())) ops s = (Inr us, s')"
    and "distinct (map cn_outpoint cs)"
  shows "s' = s \<and> (\<forall>op\<in>set ops. \<exists>c\<in>set cs. cn_outpoint c = op) \<and> (\<forall>c\<in>set cs. cn_outpoint c \<in> set ops \<longrightarrow> \<not> is_spent c)"
  using assms
proof (induction ops arbitrary: us)
  case (Cons op ops)
  then obtain c vs where c: "List.find (\<lambda>c. cn_outpoint c = op) cs = Some c" "\<not> is_spent c"
    "cmd_collect (\<lambda>op. case List.find (\<lambda>c. cn_outpoint c = op) cs of None \<Rightarrow> cmd_err (UnknownOutpoint op)
      | Some c \<Rightarrow> cmd_guard (is_spent c) (AlreadySpent op) (cmd_ok ())) ops s = (Inr vs, s')"
    by (auto simp: cmd_rules split: option.splits)
  then have in_cs: "c \<in> set cs" "cn_outpoint c = op" by (auto simp: find_Some_iff)
  have "\<forall>x\<in>set cs. cn_outpoint x = op \<longrightarrow> x = c" using in_cs assms(2) by (metis distinct_map inj_onD)
  then have "\<forall>x\<in>set cs. cn_outpoint x = op \<longrightarrow> \<not> is_spent x" using c(2) by blast
  moreover have "\<exists>c\<in>set cs. cn_outpoint c = op" using in_cs by blast
  ultimately show ?case using Cons.IH [OF c(3) assms(2)] by simp
qed (auto simp: cmd_rules)

lemma recoverable_coins_Inr:
  assumes order: "orders_coins C" and ok: "coins_ok (cm_db (turn C s))" and run: "recoverable_coins C ops s = (Inr cs, s')"
  shows "s' = turn C s \<and> distinct (map cn_outpoint cs) \<and> (ops \<noteq> [] \<longrightarrow> cn_outpoint ` set cs = set ops) \<and>
    (\<forall>c\<in>set cs. \<exists>r\<in>set (db_coins (cm_db (turn C s))). coin_of_row r = Some c \<and> cr_spend_txid r = None) \<and>
    (ops = [] \<longrightarrow> (\<forall>r\<in>set (db_coins (cm_db (turn C s))). cr_spend_txid r = None \<and> cr_blockheight r \<noteq> None \<longrightarrow> (\<exists>c\<in>set cs. coin_of_row r = Some c)))"
proof (cases "ops = []")
  case True
  have t: "s' = turn C s" "reads_coins [Confirmed] [] (cm_db (turn C s)) cs"
    using read_coins_Inr [OF order, of "[Confirmed]" "[]" s cs s'] run True unfolding recoverable_coins_def by simp_all
  have "\<exists>c\<in>set cs. coin_of_row r = Some c" if "r \<in> set (db_coins (cm_db (turn C s)))" "cr_spend_txid r = None" "cr_blockheight r \<noteq> None" for r
  proof -
    have "cr_blocktime r \<noteq> None" using ok that by (auto simp: coins_ok_def wf_coin_row_def)
    then have r: "r \<in> set (select_coins_where [Confirmed] [] (cm_db (turn C s)))" using that by (simp add: select_coins_where_def)
    obtain cs' where cs': "coins [Confirmed] [] (cm_db (turn C s)) = Some cs'" "mset cs = mset cs'" using t(2) by (auto simp: reads_coins_def)
    have rows: "list_all2 (\<lambda>r c. coin_of_row r = Some c) (select_coins_where [Confirmed] [] (cm_db (turn C s))) cs'"
      using cs'(1) unfolding coins_def collect_opt_Some .
    have "\<exists>c\<in>set cs'. coin_of_row r = Some c" by (rule all2_left [OF rows r])
    then show ?thesis using mset_eq_setD [OF cs'(2)] by simp
  qed
  moreover have "\<exists>r\<in>set (db_coins (cm_db (turn C s))). coin_of_row r = Some c \<and> cr_spend_txid r = None" if "c \<in> set cs" for c
    using reads_coins_row [OF t(2) that] by (auto simp: select_coins_where_def)
  ultimately show ?thesis using t(1) reads_coins_outpoints [OF ok t(2)] True by simp
next
  case False
  obtain us t where cs: "read_coins C [] ops s = (Inr cs, t)" and chk: "cmd_collect (\<lambda>op. case List.find (\<lambda>c. cn_outpoint c = op) cs of
        None \<Rightarrow> cmd_err (UnknownOutpoint op) | Some c \<Rightarrow> cmd_guard (is_spent c) (AlreadySpent op) (cmd_ok ())) ops t = (Inr us, s')"
    using run False unfolding recoverable_coins_def by (auto simp: cmd_rules)
  have t: "t = turn C s" "reads_coins [] ops (cm_db (turn C s)) cs" using read_coins_Inr [OF order cs] by blast+
  have dist: "distinct (map cn_outpoint cs)" by (rule reads_coins_outpoints [OF ok t(2)])
  have chosen: "s' = t" "\<And>op. op \<in> set ops \<Longrightarrow> \<exists>c\<in>set cs. cn_outpoint c = op" "\<And>c. \<lbrakk>c \<in> set cs; cn_outpoint c \<in> set ops\<rbrakk> \<Longrightarrow> \<not> is_spent c"
    using unspent_chosen [OF chk dist] by blast+
  have sub: "cn_outpoint c \<in> set ops" if "c \<in> set cs" for c using reads_coins_where [OF t(2) that] False by metis
  have "\<exists>r\<in>set (db_coins (cm_db (turn C s))). coin_of_row r = Some c \<and> cr_spend_txid r = None" if c: "c \<in> set cs" for c
  proof -
    obtain r where r: "r \<in> set (db_coins (cm_db (turn C s)))" "coin_of_row r = Some c" by (rule reads_coins_where [OF t(2) c])
    then show ?thesis using chosen(3) [OF c sub [OF c]] coin_of_row_fields(2) [OF r(2)] by (intro bexI [OF _ r(1)]) (simp add: is_spent_def)
  qed
  moreover have "cn_outpoint ` set cs = set ops"
  proof (intro equalityI subsetI)
    fix op assume "op \<in> set ops"
    then show "op \<in> cn_outpoint ` set cs" using chosen(2) by blast
  qed (use sub in blast)
  ultimately show ?thesis using t(1) dist False chosen(1) by simp
qed

lemma timelocked_inputs:
  assumes "list_all2 (from_coin True (Some timelock)) cs cands" and "set selected \<subseteq> set cands" and "tx_input tx = map coin_txin selected"
  shows "\<forall>i\<in>set (tx_input tx). ti_sequence i = timelock"
  using assms all2_right [OF assms(1)] from_coin_simps(4) by (fastforce simp: coin_txin_def)

lemma recovery_rest:
  assumes "command_locktime C s4 = (Inr lt, s5)" and "build_spend C dests cands fees change lt s5 = (Inr b, s6)"
    and "(if cond then maybe_increase_last_deriv_index C info else cmd_ok ()) s6 = (Inr u, s')"
  shows "goes C s4 s'"
proof -
  have "obeys (command_step C)\<^sup>*\<^sup>* (if cond then maybe_increase_last_deriv_index C info else cmd_ok ())"
    by (simp add: stepping.obeys_increase stepping.obeys_ok)
  from goesD [OF this assms(3)] have "goes C s6 s'" .
  with goesD [OF stepping.obeys_locktime assms(1)] goesD [OF stepping.obeys_build assms(2)]
  show ?thesis by (meson rtranclp_trans)
qed

text \<open>
  What \<open>createrecovery\<close> returns.  On a valid Vault database, whatever others commit while it runs: a
  recovery transaction that is returned spends distinct coins that were in the database, unspent and
  confirmed, at one moment of the run, each with the timelock over at the block after the tip the backend
  reported; if coins were chosen, exactly those, otherwise every coin that was recoverable at that moment.
  Every input carries the timelock as its sequence, the only output pays the given address, which is valid
  for the network, and the fee is at most one bitcoin.
\<close>

theorem create_recovery_exact:
  assumes laws: "selector_laws (ce_select C)" and order: "orders_coins C" and others: "others_step C"
    and vault: "vault_addresses (ce_addresses C)" "ce_main C = Vault d" and ok: "db_ok (ce_btc C) (ce_addresses C) (cm_db s)"
    and run: "create_recovery C a ops feerate asked s = (Inr p, s')"
  shows "\<exists>db1 tip b b' timelock amount. (command_step C)\<^sup>*\<^sup>* (cm_db s) db1 \<and> (command_step C)\<^sup>*\<^sup>* db1 (cm_db s') \<and>
    chain_tip_result (ce_node C) b = (Inr tip, b') \<and> timelock = (case asked of None \<Rightarrow> lib_first_timelock (ce_lib C) d | Some t \<Rightarrow> t) \<and>
    spends_rows db1 (recoverable (bt_height tip) timelock) (ps_unsigned_tx p) \<and>
    set (prevouts (ps_unsigned_tx p)) =
      (if ops = [] then cr_outpoint ` {r \<in> set (db_coins db1). recoverable (bt_height tip) timelock r} else set ops) \<and>
    (\<forall>i\<in>set (tx_input (ps_unsigned_tx p)). ti_sequence i = timelock) \<and>
    tx_output (ps_unsigned_tx p) = [paid (a, amount)] \<and> 500 \<le> amount \<and> amount \<le> max_money \<and> lib_valid_for (ce_lib C) a (ce_network C)"
proof -
  let ?tl = "case asked of None \<Rightarrow> lib_first_timelock (ce_lib C) d | Some t \<Rightarrow> t"
  from run vault(2) obtain sweep tip cs cands lt b s1 s2 s3 s4 s5 s6 where
    valid: "lib_valid_for (ce_lib C) a (ce_network C)" and sweep: "spend_addr C a s = (Inr sweep, s1)"
    and tip: "node_call ChainTipUnavailable (chain_tip_result (ce_node C)) s1 = (Inr tip, s2)"
    and cs: "recoverable_coins C ops s2 = (Inr cs, s3)" and cands: "sweepable_coins (ops = []) (bt_height tip) ?tl cs s3 = (Inr cands, s4)"
    and lt: "command_locktime C s4 = (Inr lt, s5)" and b: "build_spend C [] cands (Regular feerate) sweep lt s5 = (Inr b, s6)"
    and rest: "(case b of Missing missing \<Rightarrow> cmd_err (SpendCreation (CoinSelectionError (InsufficientFunds missing)))
       | Built res \<Rightarrow> cmd_bind (if cs_has_change res then maybe_increase_last_deriv_index C (so_info sweep) else cmd_ok ()) (\<lambda>_. cmd_ok (cs_psbt res))) s6 =
         (Inr p, s')"
    unfolding create_recovery_def validate_address_def Let_def by (auto simp: cmd_rules)
  from b rest obtain res u where built: "build_spend C [] cands (Regular feerate) sweep lt s5 = (Inr (Built res), s6)"
    and inc: "(if cs_has_change res then maybe_increase_last_deriv_index C (so_info sweep) else cmd_ok ()) s6 = (Inr u, s')" and p: "p = cs_psbt res"
    by (cases b) (auto simp: cmd_rules)
  have tip': "chain_tip_result (ce_node C) (cm_bit s1) = (Inr tip, cm_bit s2)" "cm_db s2 = cm_db s1" using tip by (auto simp: cmd_rules)
  have "goes C s s1" by (rule goesD [OF stepping.obeys_spend_addr sweep])
  then have s2: "goes C s (turn C s2)" using goes_turn [of C s2] unfolding tip'(2) by (rule rtranclp_trans)
  let ?db = "cm_db (turn C s2)" and ?tx = "ps_unsigned_tx p" and ?ok = "recoverable (bt_height tip) ?tl" and ?sw = "filter (is_sweepable (bt_height tip) ?tl) cs"
  have coins: "coins_ok ?db" using goes_ok [OF others vault(1) ok s2] by (simp add: db_ok_def)
  note rec = recoverable_coins_Inr [OF order coins cs]
  note sw = sweepable_Inr [OF cands]
  obtain getter where core: "core_spend C getter [] cands (Regular feerate) sweep lt = Inr res" using build_spend_Built [OF built] by blast
  obtain selected amount fee where sel: "distinct (map cc_outpoint selected)" "set selected \<subseteq> set cands" "selected \<noteq> []"
      "\<forall>c\<in>set cands. cc_must_select c \<longrightarrow> c \<in> set selected" "tx_input ?tx = map coin_txin selected" "prevouts ?tx = map cc_outpoint selected"
    and out: "tx_output ?tx = change_outputs sweep amount" "amount = 0 \<or> DUST_OUTPUT_SATS \<le> amount \<and> amount \<le> max_money" "0 < amount"
    and fee: "sum_list (map cc_amount selected) = value_out ?tx + fee" "fee \<le> MAX_FEE"
    using vault_core_spend [OF laws vault(2) core] unfolding p by auto
  have row: "\<exists>r\<in>set (db_coins ?db). coin_of_row r = Some c \<and> ?ok r" if "c \<in> set ?sw" for c
  proof -
    have c: "c \<in> set cs" "is_sweepable (bt_height tip) ?tl c" using that by simp_all
    then obtain r where r: "r \<in> set (db_coins ?db)" "coin_of_row r = Some c" "cr_spend_txid r = None" using rec by blast
    then show ?thesis using is_sweepable_row [OF r(2)] c(2) by (auto simp: recoverable_def)
  qed
  have rows: "spends_rows ?db ?ok ?tx"
    by (rule spends_rowsI [OF conjunct1 [OF conjunct2 [OF sw]] sel(2,3) _ sel(6) _ fee]) (use row sel(1,6) in simp_all)
  have sweep_a: "so_addr sweep = a" using sweep by (auto simp: spend_addr_def cmd_rules)
  have "tx_output ?tx = [paid (a, amount)]" "500 \<le> amount" "amount \<le> max_money"
    using out by (auto simp: change_outputs_def paid_def sweep_a DUST_OUTPUT_SATS_def)
  moreover have "\<forall>i\<in>set (tx_input ?tx). ti_sequence i = ?tl"
    by (rule timelocked_inputs [OF conjunct1 [OF conjunct2 [OF sw]] sel(2,5)])
  moreover have "set (prevouts ?tx) = cn_outpoint ` set ?sw"
    using chosen_all [OF conjunct1 [OF conjunct2 [OF sw]] sel(2,4)] by (simp add: sel(6))
  moreover have "cn_outpoint ` set ?sw = (if ops = [] then cr_outpoint ` {r \<in> set (db_coins ?db). ?ok r} else set ops)"
  proof (cases "ops = []")
    case True
    have "\<exists>c\<in>set ?sw. coin_of_row r = Some c" if "r \<in> set (db_coins ?db)" "?ok r" for r
      using that rec True is_sweepable_row unfolding recoverable_def by fastforce
    then show ?thesis using row True coin_of_row_fields(1) by (auto simp del: filter_set set_filter) (metis (no_types, lifting) image_eqI mem_Collect_eq)+
  next
    case False
    then show ?thesis using sw rec by (auto simp: filter_id_conv)
  qed
  moreover have "goes C (turn C s2) s'"
    using recovery_rest [OF lt built inc] rec sw by simp
  ultimately show ?thesis using rows s2 tip'(1) valid
    by (intro exI [of _ ?db] exI [of _ tip] exI [of _ "cm_bit s1"] exI [of _ "cm_bit s2"] exI [of _ ?tl] exI [of _ amount]) simp
qed

end
