(* ===== verification/Commands_Rbf.thy ===== *)
theory Commands_Rbf
  imports Commands_Exact
begin

text \<open>
  Replacements: the loop that builds one ends within its fuel, and what \<open>rbf_psbt\<close> returns.
\<close>

section \<open>The loop ends\<close>

definition settles :: "('b, 'a) command \<Rightarrow> bool" where
  "settles m \<longleftrightarrow> (\<forall>s. fst (m s) \<noteq> Inl CommandDiverged)"

lemma settles_ok [intro!]: "settles (cmd_ok x)" by (simp add: settles_def cmd_ok_def)
lemma settles_err [intro!]: "e \<noteq> CommandDiverged \<Longrightarrow> settles (cmd_fail e)" by (simp add: settles_def cmd_fail_def)
lemma settles_guard [intro!]: "settles m \<Longrightarrow> settles (cmd_guard b e m)" by (auto simp: cmd_guard_def)
lemma settles_expect [intro!]: "settles (cmd_expect x)" by (auto simp: cmd_expect_def split: option.split)

lemma settles_bind: "\<lbrakk>settles m; \<And>x s s'. m s = (Inr x, s') \<Longrightarrow> settles (f x)\<rbrakk> \<Longrightarrow> settles (cmd_bind m f)"
  unfolding settles_def cmd_bind_def by (auto split: prod.split sum.split) (metis fst_conv)+

lemma settles_then [intro!]: "\<lbrakk>settles m; \<And>x. settles (f x)\<rbrakk> \<Longrightarrow> settles (cmd_bind m f)"
  by (rule settles_bind)

lemma settles_collect [intro!]: "(\<And>x. settles (f x)) \<Longrightarrow> settles (cmd_collect f xs)"
  by (induction xs) auto

lemma settles_conn:
  assumes "\<And>db. fst (f db) \<noteq> Inl CommandDiverged"
  shows "settles (conn C f)"
  using assms by (auto simp: settles_def conn_def split: prod.split) (metis fst_conv)

lemma settles_read [intro!]: "settles (conn_read C f)"
  unfolding conn_read_def by (rule settles_conn) (simp add: ok_or_def split: option.split)

lemma settles_write [intro!]: "settles (conn_write C f)"
  unfolding conn_write_def by (rule settles_conn) (simp split: option.split)

lemma settles_reserve [intro!]: "settles (conn_reserve C f)"
  unfolding conn_reserve_def by (rule settles_conn) (simp add: map_err_def split: prod.split sum.split)

lemma settles_node [intro!]: "settles (node_call g h)" "settles (node_ask h')"
  by (simp_all add: settles_def node_call_def node_ask_def map_err_def split: prod.split sum.split)

lemma settles_get_tx [intro!]: "settles (get_tx C t)"
  by (simp add: settles_def get_tx_def Let_def split: option.split)

lemma settles_read_coins [intro!]: "settles (read_coins C st ops)"
  unfolding read_coins_def by blast

lemma settles_build [intro!]: "settles (build_spend C dests cands fees change locktime)"
  unfolding settles_def build_spend_def Let_def build_result_def by (auto split: sum.split spend_error.split select_error.split)

lemma settles_locktime [intro!]: "settles (command_locktime C)"
proof -
  have "settles (locktime_for_tip C h time)" for h time unfolding locktime_for_tip_def by blast
  moreover from this have "settles (cmd_bind (node_ask (tip_time (ce_node C))) (locktime_for_tip C h))" for h by blast
  ultimately show ?thesis unfolding settles_def command_locktime_def by (auto split: prod.split sum.split)
qed

lemma settles_addresses [intro!]: "settles (spend_addr C a)" "settles (next_change_addr C)" "settles (commit_change C info)"
  unfolding spend_addr_def address_info_def next_change_addr_def change_addr_at_def commit_change_def
  by (auto split: option.split wallet_descriptor.split)

lemma settles_increase [intro!]: "settles (maybe_increase_last_deriv_index C info)"
  unfolding maybe_increase_last_deriv_index_def by (auto split: option.split)

lemma settles_increase_all [intro!]: "settles (increase_all C is)"
  by (induction "is") auto

lemma settles_finish [intro!]: "settles (finish_spend C dests info res)"
  unfolding finish_spend_def by (auto intro!: settles_conn split: wallet_descriptor.split option.splits)

lemma rbf_loop_settles:
  assumes "max left 1 + (if is_cancel \<and> list_all (\<lambda>c. \<not> cc_must_select c) cands then 1 else 0) \<le> fuel" and "cands \<noteq> []"
  shows "settles (rbf_loop fuel left C is_cancel dests confirmed fees fresh locktime cands change)"
  using assms
proof (induction fuel arbitrary: left cands change)
  case (Suc fuel)
  have retry: "settles (rbf_loop fuel (left - 1) C is_cancel dests confirmed fees fresh locktime cands ch)" if "\<not> left \<le> 1" for ch
    using Suc.prems that by (intro Suc.IH) (auto split: if_splits)
  have more: "settles (rbf_loop fuel left C is_cancel dests confirmed fees fresh locktime (map require_all cands @ confirmed) change)"
    if "is_cancel \<and> list_all (\<lambda>c. \<not> cc_must_select c) cands"
  proof (rule Suc.IH)
    have "\<not> list_all (\<lambda>c. \<not> cc_must_select c) (map require_all cands @ confirmed)"
      using Suc.prems(2) by (cases cands) (simp_all add: require_all_def)
    then show "max left 1 + (if is_cancel \<and> list_all (\<lambda>c. \<not> cc_must_select c) (map require_all cands @ confirmed) then 1 else 0) \<le> fuel"
      using Suc.prems(1) that by (simp del: list_all_append)
  qed (use Suc.prems(2) in simp)
  show ?case using retry more by (auto split: build_outcome.split)
qed simp

lemma settles_prices [intro!]:
  "settles (price_conflicts C t tx psbt values m f cs)" "settles (price_descendants C values f cs)"
proof -
  have "settles (conflict_transaction C t tx psbt c)" for c unfolding conflict_transaction_def by blast
  then show "settles (price_conflicts C t tx psbt values m f cs)" by (induction cs arbitrary: m f) (auto split: option.split prod.split)
  show "settles (price_descendants C values f cs)" by (induction cs arbitrary: f) auto
qed

lemma settles_minimums [intro!]: "settles (replacement_minimums C t tx psbt prev)"
proof -
  have "settles (replacement_minimums_from_records C t tx psbt prev)"
    unfolding replacement_minimums_from_records_def Let_def by (auto split: prod.split)
  moreover have "settles (cmd_bind (node_call MempoolUnavailable (mempool_spenders_result (ce_node C) (prevouts tx))) (\<lambda>entries.
        case fold_res entry_minimums (1, 0) entries of Inl e \<Rightarrow> cmd_err e | Inr m \<Rightarrow> cmd_ok m))"
    by (auto split: sum.split)
  ultimately show ?thesis by (simp add: settles_def replacement_minimums_def)
qed

lemma replaceable_coins_Inr:
  assumes order: "orders_coins C" and run: "replaceable_coins C ops s = (Inr cs, s')"
  shows "s' = turn C s \<and> reads_coins [] ops (cm_db (turn C s)) cs \<and> set ops \<subseteq> cn_outpoint ` set cs \<and> (\<forall>c\<in>set cs. cn_spend_block c = None)"
proof -
  obtain cs' t where cs': "read_coins C [] ops s = (Inr cs', t)" and rest: "(case List.find (\<lambda>op. op \<notin> cn_outpoint ` set cs') ops of
       Some op \<Rightarrow> cmd_err (UnknownOutpoint op)
     | None \<Rightarrow> (case List.find (\<lambda>c. cn_spend_block c \<noteq> None) cs' of
         Some c \<Rightarrow> cmd_err (AlreadySpent (cn_outpoint c)) | None \<Rightarrow> cmd_ok cs')) t = (Inr cs, s')"
    using run unfolding replaceable_coins_def by (auto simp: cmd_rules)
  have t: "t = turn C s" "reads_coins [] ops (cm_db (turn C s)) cs'" using read_coins_Inr [OF order cs'] by blast+
  show ?thesis using rest t by (auto simp: cmd_rules find_None_iff split: option.splits)
qed

lemma replacement_candidates_Inr:
  assumes order: "orders_coins C" and run: "replacement_candidates C is_cancel prev s = (Inr x, s')"
  shows "s' = turn C s \<and> (\<exists>cs. reads_coins [Confirmed] [] (cm_db (turn C s)) cs \<and>
      list_all2 (from_coin False None) (filter (\<lambda>c. cn_outpoint c \<notin> cn_outpoint ` set prev) cs) (snd x)) \<and>
    (\<exists>own. list_all2 (from_coin (\<not> is_cancel) None) prev own \<and> fst x = (if is_cancel then own else own @ snd x))"
proof -
  obtain cs t where cs: "read_coins C [Confirmed] [] s = (Inr cs, t)" and t: "t = s'"
    and x: "snd x = map (\<lambda>c. coin_to_candidate c False None None) (filter (\<lambda>c. cn_outpoint c \<notin> cn_outpoint ` set prev) cs)"
      "fst x = (let own = map (\<lambda>c. coin_to_candidate c (\<not> is_cancel) None None) prev in if is_cancel then own else own @ snd x)"
    using run unfolding replacement_candidates_def Let_def by (auto simp: cmd_rules)
  have made: "list_all2 (from_coin must None) ys (map (\<lambda>c. coin_to_candidate c must None None) ys)" for must ys
    by (simp add: list_all2_map2 list_all2_same from_coin_def) blast
  show ?thesis using read_coins_Inr [OF order cs] t x made by (simp add: Let_def) blast
qed

lemma candidates_nonempty:
  assumes "orders_coins C" and "is_explicitly_rbf tx" and "replaceable_coins C (prevouts tx) s = (Inr prev, s')"
    and "replacement_candidates C is_cancel prev t = (Inr x, t')"
  shows "fst x \<noteq> []"
proof -
  have "prev \<noteq> []" using assms(2) replaceable_coins_Inr [OF assms(1,3)] by (auto simp: is_explicitly_rbf_def prevouts_def)
  then show ?thesis using replacement_candidates_Inr [OF assms(1,4)] by (auto split: if_splits)
qed

lemma settles_passed: "(\<not> b \<Longrightarrow> settles m) \<Longrightarrow> settles (cmd_guard b e m)"
  by (auto simp: cmd_guard_def)

lemma rbf_parts_settle [intro!]:
  "settles (require_ordinary_imported_spend_support C)" "settles (previous_transaction C t p)" "settles (replaceable_coins C ops)"
  "settles (replacement_feerate is_cancel feerate m)" "settles (previous_output C txo)" "settles (kept_destination C x)"
  "settles (replacement_candidates C is_cancel prev)"
  unfolding require_ordinary_imported_spend_support_def previous_transaction_def replaceable_coins_def replacement_feerate_def
    previous_output_def kept_destination_def replacement_candidates_def Let_def
  by (auto split: option.split prod.split)

text \<open>
  \<open>rbf_psbt\<close> always returns.  Whatever the backend answers and others commit, the loop that rebuilds the
  replacement, with the confirmed coins when the coins of a cancelled transaction do not suffice and with
  a new change address when another command took the one it had, ends within its fuel: nine builds are
  enough for the eight conflicts it allows and the one change of candidates.
\<close>

theorem rbf_psbt_returns:
  assumes "orders_coins C"
  shows "fst (rbf_psbt C t is_cancel feerate s) \<noteq> Inl CommandDiverged"
proof -
  have "settles (rbf_psbt C t is_cancel feerate)"
    unfolding rbf_psbt_def Let_def case_prod_beta'
  proof (intro settles_bind settles_passed)
    fix tx prev x cs u dests change lt s1 s2 s3 s4
    assume "\<not> \<not> is_explicitly_rbf tx" "replaceable_coins C (prevouts tx) s1 = (Inr prev, s2)" "replacement_candidates C is_cancel prev s3 = (Inr x, s4)"
    then have "fst x \<noteq> []" using candidates_nonempty [OF assms] by blast
    then show "settles (rbf_loop RBF_FUEL CHANGE_COMMIT_CONFLICT_LIMIT C is_cancel dests (snd x) fees fresh lt (fst x) change)" for fees fresh dests lt change
      by (intro rbf_loop_settles) (simp_all add: RBF_FUEL_def CHANGE_COMMIT_CONFLICT_LIMIT_def)
  qed (auto split: option.split)
  then show ?thesis by (simp add: settles_def)
qed

section \<open>What a replacement spends and pays\<close>

lemma rbf_loop_success:
  assumes "rbf_loop fuel left C is_cancel dests confirmed fees fresh lt cands change s = (Inr (SpendSuccess p ws), s')"
    and "fresh \<longrightarrow> (\<exists>i. own_change_at C i change)" and "cands \<noteq> []"
  shows "\<exists>ch res getter cands'. core_spend C getter dests cands' fees ch lt = Inr res \<and> p = cs_psbt res \<and> change_used C s fresh change res ch s' \<and>
    (cands' = cands \<or> is_cancel \<and> list_all (\<lambda>c. \<not> cc_must_select c) cands \<and> cands' = map require_all cands @ confirmed)"
  using assms
proof (induction fuel arbitrary: left cands change s)
  case (Suc fuel)
  obtain b t where b: "build_spend C dests cands fees change lt s = (Inr b, t)" using Suc.prems(1) by (auto simp: cmd_rules)
  have t: "goes C s t" by (rule goesD [OF stepping.obeys_build b])
  show ?case
  proof (cases b)
    case (Built res)
    obtain getter where core: "core_spend C getter dests cands fees change lt = Inr res" using build_spend_Built b Built by blast
    let ?retry = "if left \<le> 1 then cmd_err ChangeReservationContended
      else cmd_bind (next_change_addr C) (rbf_loop fuel (left - 1) C is_cancel dests confirmed fees fresh lt cands)"
    have "cmd_bind (if cs_has_change res \<and> fresh then commit_change C (so_info change) else cmd_ok True)
        (\<lambda>committed. if committed then finish_spend C dests (so_info change) res else ?retry) t = (Inr (SpendSuccess p ws), s')"
      using Suc.prems(1) b Built by (simp add: cmd_rules)
    from commit_or_finish [OF this Suc.prems(2) t] show ?thesis
    proof (elim disjE conjE exE)
      fix t' assume fresh: fresh and t': "goes C s t'" "?retry t' = (Inr (SpendSuccess p ws), s')"
      then obtain ch u where ch: "next_change_addr C t' = (Inr ch, u)"
          "rbf_loop fuel (left - 1) C is_cancel dests confirmed fees fresh lt cands ch u = (Inr (SpendSuccess p ws), s')"
        by (auto simp: cmd_rules split: if_splits)
      have u: "goes C s u" using t'(1) goesD [OF stepping.obeys_next_change ch(1)] by (rule rtranclp_trans)
      from Suc.IH [OF ch(2) _ Suc.prems(3)] next_change_Inr [OF ch(1)] obtain ch' res' getter' cands' where
        r: "core_spend C getter' dests cands' fees ch' lt = Inr res'" "p = cs_psbt res'" "change_used C u fresh ch res' ch' s'"
        "cands' = cands \<or> is_cancel \<and> list_all (\<lambda>c. \<not> cc_must_select c) cands \<and> cands' = map require_all cands @ confirmed"
        by blast
      then show ?thesis using change_used_later [OF u, of ch res' ch' s' change] fresh
        by (intro exI [of _ ch'] exI [of _ res'] exI [of _ getter'] exI [of _ cands']) simp
    qed (use core in blast)
  next
    case (Missing m)
    let ?more = "map require_all cands @ confirmed"
    have more: "is_cancel" "list_all (\<lambda>c. \<not> cc_must_select c) cands"
        "rbf_loop fuel left C is_cancel dests confirmed fees fresh lt ?more change t = (Inr (SpendSuccess p ws), s')"
      using Suc.prems(1) b Missing by (auto simp: cmd_rules split: if_splits)
    have "\<not> list_all (\<lambda>c. \<not> cc_must_select c) ?more" "?more \<noteq> []"
      using Suc.prems(3) by (cases cands; simp add: require_all_def)+
    with Suc.IH [OF more(3) Suc.prems(2)] obtain ch res getter where
      "core_spend C getter dests ?more fees ch lt = Inr res" "p = cs_psbt res" "change_used C t fresh change res ch s'" by blast
    moreover from this have "change_used C s fresh change res ch s'"
      using change_used_later [OF t, of change res ch s' change] by (cases fresh) (simp_all add: change_used_def)
    ultimately show ?thesis using more(1,2) by blast
  qed
qed (simp add: cmd_rules)

lemma largest_change_mem:
  "largest_change best outs = Some (a, v, i) \<Longrightarrow> best = Some (a, v, i) \<or> (a, v, Some (i, True)) \<in> set outs"
  by (induction best outs rule: largest_change.induct) (fastforce split: if_splits option.splits)+

lemma previous_change_mem: "previous_change outs = Some a \<Longrightarrow> \<exists>v i. (a, v, Some (i, True)) \<in> set outs"
  unfolding previous_change_def using largest_change_mem [of None outs] by fastforce

lemma collect_goes:
  assumes "\<And>x. obeys (command_step C)\<^sup>*\<^sup>* (f x)" and "cmd_collect f xs s = (Inr ys, s')"
  shows "goes C s s' \<and> list_all2 (\<lambda>x y. \<exists>t t'. f x t = (Inr y, t') \<and> goes C s t \<and> goes C t' s') xs ys"
  using assms(2)
proof (induction xs arbitrary: s ys)
  case (Cons x xs)
  then obtain y ys' t where y: "f x s = (Inr y, t)" "cmd_collect f xs t = (Inr ys', s')" "ys = y # ys'" by (auto simp: cmd_rules)
  have t: "goes C s t" by (rule goesD [OF assms(1) y(1)])
  have "list_all2 (\<lambda>x y. \<exists>u u'. f x u = (Inr y, u') \<and> goes C s u \<and> goes C u' s') xs ys'"
    using conjunct2 [OF Cons.IH [OF y(2)]] by (rule list_all2_mono) (use t in \<open>meson rtranclp_trans\<close>)
  moreover have "goes C t s'" using Cons.IH [OF y(2)] by blast
  ultimately show ?case using y(1,3) t by (auto intro: rtranclp_trans)
qed (simp add: cmd_rules)

lemma candidate_outpoints: "list_all2 (from_coin must sq) cs cands \<Longrightarrow> map cc_outpoint cands = map cn_outpoint cs"
  by (induction rule: list_all2_induct) (auto simp: from_coin_simps)

lemma candidates_must: "\<lbrakk>list_all2 (from_coin must sq) cs cands; c \<in> set cands\<rbrakk> \<Longrightarrow> cc_must_select c = must"
  using all2_right from_coin_simps(3) by metis

lemma rbf_inputs:
  assumes own: "list_all2 (from_coin (\<not> is_cancel) None) prev own" and conf: "list_all2 (from_coin False None) cs confirmed"
    and cands: "cands = (if is_cancel then own else own @ confirmed)"
    and cands': "cands' = cands \<or> is_cancel \<and> list_all (\<lambda>c. \<not> cc_must_select c) cands \<and> cands' = map require_all cands @ confirmed"
    and sel: "set selected \<subseteq> set cands'" "selected \<noteq> []" "\<forall>c\<in>set cands'. cc_must_select c \<longrightarrow> c \<in> set selected" and prev: "prev \<noteq> []"
  shows "cc_outpoint ` set selected \<subseteq> cn_outpoint ` set prev \<union> cn_outpoint ` set cs" and
    "if is_cancel then cc_outpoint ` set selected \<inter> cn_outpoint ` set prev \<noteq> {} else cn_outpoint ` set prev \<subseteq> cc_outpoint ` set selected"
proof -
  have ops: "cc_outpoint ` set own = cn_outpoint ` set prev" "cc_outpoint ` set confirmed = cn_outpoint ` set cs"
    using candidate_outpoints [OF own] candidate_outpoints [OF conf] by (metis set_map)+
  have req: "cc_outpoint ` set (map require_all own) = cn_outpoint ` set prev" unfolding ops(1) [symmetric] by (auto simp: require_all_def image_image)
  have all_in: "cn_outpoint ` set prev \<subseteq> cc_outpoint ` set selected" if "set xs \<subseteq> set cands'" "\<forall>c\<in>set xs. cc_must_select c"
    "cc_outpoint ` set xs = cn_outpoint ` set prev" for xs using that sel(3) by blast
  show "cc_outpoint ` set selected \<subseteq> cn_outpoint ` set prev \<union> cn_outpoint ` set cs"
  proof -
    have "set cands' \<subseteq> set own \<union> set (map require_all own) \<union> set confirmed" using cands cands' by (auto split: if_splits)
    then have "cc_outpoint ` set selected \<subseteq> cc_outpoint ` (set own \<union> set (map require_all own) \<union> set confirmed)" using sel(1) by (meson image_mono order_trans)
    then show ?thesis unfolding image_Un ops req by simp
  qed
  show "if is_cancel then cc_outpoint ` set selected \<inter> cn_outpoint ` set prev \<noteq> {} else cn_outpoint ` set prev \<subseteq> cc_outpoint ` set selected"
  proof (cases is_cancel)
    case False
    then show ?thesis using all_in [of own] candidates_must [OF own] cands cands' ops(1) by auto
  next
    case True
    show ?thesis
    proof (cases "cands' = cands")
      case same: True
      then have "cc_outpoint ` set selected \<subseteq> cn_outpoint ` set prev" using sel(1) cands True ops(1) by auto
      then show ?thesis using True sel(2) by (cases selected) auto
    next
      case False
      then have "cn_outpoint ` set prev \<subseteq> cc_outpoint ` set selected"
        using all_in [OF _ _ req] cands' cands True by (auto simp: require_all_def)
      then show ?thesis using True prev by (cases prev) auto
    qed
  qed
qed

definition previous_of :: "txid \<Rightarrow> wallet_db \<Rightarrow> transaction \<Rightarrow> bool" where
  \<comment> \<open>the transaction of the stored draft or the stored wallet transaction\<close>
  "previous_of t db tx \<longleftrightarrow> (\<exists>psbt. spend_tx t db = Some psbt \<and> tx = ps_unsigned_tx psbt) \<or> stored_tx t db = Some tx"

lemma previous_transaction_Inr:
  assumes order: "orders_coins C" and cache: "cm_cache s = (\<lambda>_. None)" and read: "conn_read C (\<lambda>db. Some (spend_tx t db)) s = (Inr pp, s1)"
    and run: "previous_transaction C t pp s1 = (Inr tx, s2)"
  shows "\<exists>db0. (command_step C)\<^sup>*\<^sup>* (cm_db s) db0 \<and> (command_step C)\<^sup>*\<^sup>* db0 (cm_db s2) \<and> previous_of t db0 tx"
proof -
  have s1: "s1 = turn C s" "pp = spend_tx t (cm_db (turn C s))" using read by (auto simp: cmd_rules)
  show ?thesis
  proof (cases pp)
    case (Some psbt)
    then show ?thesis using run s1 goes_turn [of C s] unfolding previous_transaction_def previous_of_def
      by (intro exI [of _ "cm_db (turn C s)"]) (auto simp: cmd_rules)
  next
    case None
    obtain cs u where cs: "read_coins C [Spending] [] s1 = (Inr cs, u)" and got: "get_tx C t u = (Inr (Some tx), s2)"
      using run None unfolding previous_transaction_def by (auto simp: cmd_rules split: option.splits)
    have u: "u = turn C s1" using read_coins_Inr [OF order cs] by blast
    have "cm_cache u t = None" using cache by (simp add: u s1(1))
    then have "stored_tx t (cm_db (turn C u)) = Some tx" "cm_db s2 = cm_db (turn C u)" using got by (auto simp: get_tx_def Let_def)
    moreover have "goes C s (turn C u)" using goes_turn unfolding u s1(1) by (meson rtranclp_trans)
    ultimately show ?thesis by (intro exI [of _ "cm_db (turn C u)"]) (simp add: previous_of_def)
  qed
qed

definition output_known :: "('s, 'b) command_env \<Rightarrow> wallet_db \<Rightarrow> wallet_db \<Rightarrow> txout \<Rightarrow> address \<times> nat \<times> (nat \<times> bool) option \<Rightarrow> bool" where
  \<comment> \<open>the output's address and value, and what the database knew of the address at one moment between the two\<close>
  "output_known C db db' txo out \<longleftrightarrow> (case out of (a, v, deriv) \<Rightarrow> lib_from_script (ce_lib C) (to_script txo) (ce_network C) = Some a \<and>
     v = to_value txo \<and> (\<exists>db3. (command_step C)\<^sup>*\<^sup>* db db3 \<and> (command_step C)\<^sup>*\<^sup>* db3 db' \<and>
     derivation_index_by_address (lib_address_text (ce_lib C) a) db3 = Some deriv))"

lemma previous_outputs_Inr:
  assumes "cmd_collect (previous_output C) outs s = (Inr outs', s')"
  shows "goes C s s' \<and> list_all2 (output_known C (cm_db s) (cm_db s')) outs outs'"
proof -
  have "obeys (command_step C)\<^sup>*\<^sup>* (previous_output C txo)" for txo
    unfolding previous_output_def by (intro stepping.obeys_basic)
  note got = collect_goes [OF this assms]
  have "output_known C (cm_db s) (cm_db s') txo out" if n: "\<exists>t t'. previous_output C txo t = (Inr out, t') \<and> goes C s t \<and> goes C t' s'" for txo out
  proof -
    obtain t t' where t: "previous_output C txo t = (Inr out, t')" "goes C s t" "goes C t' s'" using n by blast
    obtain a deriv where a: "lib_from_script (ce_lib C) (to_script txo) (ce_network C) = Some a" "out = (a, to_value txo, deriv)" "t' = turn C t"
        "derivation_index_by_address (lib_address_text (ce_lib C) a) (cm_db (turn C t)) = Some deriv"
      using t(1) unfolding previous_output_def by (auto simp: cmd_rules)
    have "goes C s (turn C t)" using t(2) goes_turn by (rule rtranclp_trans)
    then show ?thesis using a t(3) by (auto simp: output_known_def)
  qed
  then have "list_all2 (output_known C (cm_db s) (cm_db s')) outs outs'" by (rule list_all2_mono [OF conjunct2 [OF got], rotated])
  then show ?thesis using got by blast
qed

lemma output_known_within:
  assumes "list_all2 (output_known C db db') txos outs" and "(command_step C)\<^sup>*\<^sup>* db1 db" and "(command_step C)\<^sup>*\<^sup>* db' db2"
  shows "list_all2 (output_known C db1 db2) txos outs"
proof (rule list_all2_mono [OF assms(1)])
  fix txo out assume known: "output_known C db db' txo out"
  obtain a v deriv where out: "out = (a, v, deriv)" by (cases out)
  with known obtain db3 where db3: "(command_step C)\<^sup>*\<^sup>* db db3" "(command_step C)\<^sup>*\<^sup>* db3 db'"
      "derivation_index_by_address (lib_address_text (ce_lib C) a) db3 = Some deriv"
    by (auto simp: output_known_def)
  have "(command_step C)\<^sup>*\<^sup>* db1 db3" "(command_step C)\<^sup>*\<^sup>* db3 db2"
    using rtranclp_trans [OF assms(2) db3(1)] rtranclp_trans [OF db3(2) assms(3)] by blast+
  then show "output_known C db1 db2 txo out" using known db3(3) out by (auto simp: output_known_def)
qed

lemma kept_destinations_Inr:
  fixes s :: "'b command_state"
  assumes "cmd_collect (kept_destination C) outs s = (Inr dests, s')"
  shows "map dest_output dests = map (\<lambda>(a, v, _). paid (a, v)) outs"
proof -
  have "list_all2 (\<lambda>(a, v, _) dest. dest_output dest = paid (a, v)) outs dests"
    using cmd_collect_Inr [OF assms] by (rule list_all2_mono) (auto simp: kept_destination_def spend_addr_def cmd_rules dest_output_def paid_def)
  then show ?thesis by (induction rule: list_all2_induct) auto
qed

lemma not_first_goes:
  assumes "(if is_cancel then cmd_ok [] else cmd_collect (kept_destination C) outs) s = (Inr dests, s')"
  shows "goes C s s' \<and> map dest_output dests = (if is_cancel then [] else map (\<lambda>(a, v, _). paid (a, v)) outs)"
proof (cases is_cancel)
  case False
  then have run: "cmd_collect (kept_destination C) outs s = (Inr dests, s')" using assms by simp
  have "obeys (command_step C)\<^sup>*\<^sup>* (kept_destination C x)" for x
    unfolding kept_destination_def by (cases x) (auto intro!: stepping.obeys_parts)
  from collect_goes [OF this run] kept_destinations_Inr [OF run] False show ?thesis by simp
qed (use assms in \<open>auto simp: cmd_rules\<close>)

lemma change_or_fresh:
  assumes "(case keep of Some a \<Rightarrow> spend_addr C a | None \<Rightarrow> next_change_addr C) s = (Inr ch, s')"
  shows "goes C s s'" and "case keep of Some a \<Rightarrow> so_addr ch = a | None \<Rightarrow> \<exists>i. own_change_at C i ch"
proof -
  show "case keep of Some a \<Rightarrow> so_addr ch = a | None \<Rightarrow> \<exists>i. own_change_at C i ch"
    using assms next_change_Inr by (auto simp: spend_addr_def cmd_rules split: option.splits)
  have "obeys (command_step C)\<^sup>*\<^sup>* (case keep of Some a \<Rightarrow> spend_addr C a | None \<Rightarrow> next_change_addr C)"
    by (auto intro!: stepping.obeys_parts split: option.split)
  from goesD [OF this assms] show "goes C s s'" .
qed

lemma change_of_replacement:
  assumes used: "change_used C s4 (keep = None) ch0 res ch s'" and first: "case keep of Some a \<Rightarrow> so_addr ch0 = a | None \<Rightarrow> \<exists>i. own_change_at C i ch0"
    and s4: "goes C s s4" and ok: "others_step C" "vault_addresses (ce_addresses C)" "db_ok (ce_btc C) (ce_addresses C) (cm_db s)" "ce_main C = Vault d"
    and "cs_has_change res"
  shows "case keep of Some b \<Rightarrow> so_addr ch = b
    | None \<Rightarrow> \<exists>i. lib_wallet_address (ce_lib C) (Vault d) True (ce_network C) i = Some (so_addr ch) \<and> change_committed C d (cm_db s) i (cm_db s')"
proof (cases keep)
  case None
  then have "committed_change C s4 ch s'" using used assms(8) by (simp add: change_used_def)
  then show ?thesis using change_used_commits [OF ok committed_change_later [OF s4]] None by simp
next
  case (Some b)
  then show ?thesis using used first by (simp add: change_used_def)
qed

lemma goes_feerate: "obeys (command_step C)\<^sup>*\<^sup>* (replacement_feerate is_cancel feerate m)"
  unfolding replacement_feerate_def by (auto intro!: stepping.obeys_parts split: option.split)

lemma replaced_coins:
  assumes "orders_coins C" and "is_explicitly_rbf tx" and "replaceable_coins C (prevouts tx) s = (Inr cs, s')"
  shows "cn_outpoint ` set cs = set (prevouts tx)" and "cs \<noteq> []"
proof -
  have r: "reads_coins [] (prevouts tx) (cm_db (turn C s)) cs" "set (prevouts tx) \<subseteq> cn_outpoint ` set cs"
    using replaceable_coins_Inr [OF assms(1,3)] by blast+
  have ne: "prevouts tx \<noteq> []" using assms(2) by (auto simp: is_explicitly_rbf_def prevouts_def)
  have "cn_outpoint c \<in> set (prevouts tx)" if "c \<in> set cs" for c using reads_coins_where [OF r(1) that] ne by metis
  then show "cn_outpoint ` set cs = set (prevouts tx)" using r(2) by blast
  then show "cs \<noteq> []" using ne by (cases cs) auto
qed

lemma replaced_rows:
  assumes "orders_coins C" and "replaceable_coins C ops s = (Inr cs, s')" and "op \<in> set ops"
  shows "\<exists>r\<in>set (db_coins (cm_db (turn C s))). cr_outpoint r = op \<and> cr_spend_block_height r = None"
proof -
  have r: "reads_coins [] ops (cm_db (turn C s)) cs" "op \<in> cn_outpoint ` set cs" "\<forall>c\<in>set cs. cn_spend_block c = None"
    using replaceable_coins_Inr [OF assms(1,2)] assms(3) by blast+
  obtain c where c: "c \<in> set cs" "cn_outpoint c = op" using r(2) by blast
  obtain row where row: "row \<in> set (db_coins (cm_db (turn C s)))" "coin_of_row row = Some c" by (rule reads_coins_where [OF r(1) c(1)])
  show ?thesis using c r(3) coin_of_row_fields(1,6) [OF row(2)] by (intro bexI [OF _ row(1)]) simp
qed

lemma confirmed_rows:
  assumes "coins_ok db" and "reads_coins [Confirmed] [] db cs" and "c \<in> set cs"
  shows "cn_outpoint c \<in> cr_outpoint ` {r \<in> set (db_coins db). cr_spend_txid r = None \<and> cr_blockheight r \<noteq> None}"
proof -
  obtain r where r: "r \<in> set (db_coins db)" "coin_of_row r = Some c" "status_condition Confirmed r"
    by (rule reads_coins_where [OF assms(2,3)]) auto
  then have "cr_spend_txid r = None" "cr_blockheight r \<noteq> None" using assms(1) by (auto simp: coins_ok_def wf_coin_row_def)
  then show ?thesis using r(1) coin_of_row_fields(1) [OF r(2)] by blast
qed

text \<open>
  What a replacement spends and pays.  On a valid Vault database, whatever others commit while it
  runs: a replacement that is returned replaces the transaction of the stored draft or the stored wallet
  transaction, which signals that it may be replaced; each input of that transaction was a coin of the
  wallet and not spent by a confirmed transaction.  When it bumps the fee, the replacement spends every
  input of the previous transaction and pays all its outputs but the change again; when it cancels, it
  spends at least one of them, so that the two conflict, and pays nobody else.  All other inputs were
  confirmed and unspent coins.  What is left goes to the change address the previous transaction had, or
  else to the wallet's address at an index that this command itself took as the next one.
\<close>

theorem rbf_psbt_exact:
  assumes laws: "selector_laws (ce_select C)" and order: "orders_coins C" and others: "others_step C"
    and vault: "vault_addresses (ce_addresses C)" "ce_main C = Vault d" and ok: "db_ok (ce_btc C) (ce_addresses C) (cm_db s)"
    and cache: "cm_cache s = (\<lambda>_. None)" and run: "rbf_psbt C t is_cancel feerate s = (Inr (SpendSuccess p ws), s')"
  shows "\<exists>db0 db1 db2 prev outs change. (command_step C)\<^sup>*\<^sup>* (cm_db s) db0 \<and> (command_step C)\<^sup>*\<^sup>* db0 db1 \<and> (command_step C)\<^sup>*\<^sup>* db1 db2 \<and>
    (command_step C)\<^sup>*\<^sup>* db2 (cm_db s') \<and> previous_of t db0 prev \<and> is_explicitly_rbf prev \<and>
    (\<forall>op\<in>set (prevouts prev). \<exists>r\<in>set (db_coins db1). cr_outpoint r = op \<and> cr_spend_block_height r = None) \<and>
    distinct (prevouts (ps_unsigned_tx p)) \<and>
    (if is_cancel then set (prevouts (ps_unsigned_tx p)) \<inter> set (prevouts prev) \<noteq> {} else set (prevouts prev) \<subseteq> set (prevouts (ps_unsigned_tx p))) \<and>
    set (prevouts (ps_unsigned_tx p)) \<subseteq> set (prevouts prev) \<union> cr_outpoint ` {r \<in> set (db_coins db2). cr_spend_txid r = None \<and> cr_blockheight r \<noteq> None} \<and>
    list_all2 (output_known C db1 db2) (tx_output prev) outs \<and>
    tx_output (ps_unsigned_tx p) =
      (if is_cancel then [] else map (\<lambda>(a, v, _). paid (a, v)) (filter (\<lambda>(a, _). previous_change outs \<noteq> Some a) outs)) @ map paid change \<and>
    (change = [] \<or> (\<exists>a amount. change = [(a, amount)] \<and> 500 \<le> amount \<and> amount \<le> max_money \<and> (case previous_change outs of
        Some b \<Rightarrow> a = b \<and> (\<exists>v i. (b, v, Some (i, True)) \<in> set outs)
      | None \<Rightarrow> (\<exists>i. lib_wallet_address (ce_lib C) (Vault d) True (ce_network C) i = Some a \<and> change_committed C d (cm_db s) i (cm_db s')))))"
proof -
  obtain pp prev prev_coins mins f outs dests ch0 x lt s1 s2 s3 s4 s5 s6 s7 s8 s9 s10 where
    pp: "conn_read C (\<lambda>db. Some (spend_tx t db)) s = (Inr pp, s1)" and prev: "previous_transaction C t pp s1 = (Inr prev, s2)"
    and rbf: "is_explicitly_rbf prev" and coins: "replaceable_coins C (prevouts prev) s2 = (Inr prev_coins, s3)"
    and mins: "replacement_minimums C t prev pp prev_coins s3 = (Inr mins, s4)"
    and f: "replacement_feerate is_cancel feerate (fst mins) s4 = (Inr f, s5)"
    and outs: "cmd_collect (previous_output C) (tx_output prev) s5 = (Inr outs, s6)"
    and dests: "(if is_cancel then cmd_ok [] else cmd_collect (kept_destination C) (filter (\<lambda>(a, _). previous_change outs \<noteq> Some a) outs)) s6 = (Inr dests, s7)"
    and ch0: "(case previous_change outs of Some a \<Rightarrow> spend_addr C a | None \<Rightarrow> next_change_addr C) s7 = (Inr ch0, s8)"
    and x: "replacement_candidates C is_cancel prev_coins s8 = (Inr x, s9)" and lt: "command_locktime C s9 = (Inr lt, s10)"
    and loop: "rbf_loop RBF_FUEL CHANGE_COMMIT_CONFLICT_LIMIT C is_cancel dests (snd x) (Rbf f (snd mins)) (previous_change outs = None) lt (fst x) ch0 s10 =
      (Inr (SpendSuccess p ws), s')"
    using run unfolding rbf_psbt_def Let_def require_ordinary_imported_spend_support_def case_prod_beta' by (simp only: cmd_rules) auto
  let ?db1 = "cm_db (turn C s2)" and ?db2 = "cm_db (turn C s8)" and ?tx = "ps_unsigned_tx p"
  obtain db0 where db0: "(command_step C)\<^sup>*\<^sup>* (cm_db s) db0" "(command_step C)\<^sup>*\<^sup>* db0 (cm_db s2)" "previous_of t db0 prev"
    using previous_transaction_Inr [OF order cache pp prev] by blast
  note prevs = replaceable_coins_Inr [OF order coins] and cand = replacement_candidates_Inr [OF order x]
  have s5: "goes C (turn C s2) s5"
    using goesD [OF stepping.obeys_minimums mins] goesD [OF goes_feerate f] prevs by (metis rtranclp_trans)
  have s8: "goes C s6 (turn C s8)"
    using not_first_goes [OF dests] change_or_fresh(1) [OF ch0] goes_turn [of C s8] by (meson rtranclp_trans)
  have s10: "goes C (turn C s8) s10" using goesD [OF stepping.obeys_locktime lt] cand by simp
  have rest: "goes C s10 s'" by (rule goesD [OF stepping.obeys_rbf_loop loop])
  have known: "goes C s5 s6" "list_all2 (output_known C ?db1 ?db2) (tx_output prev) outs"
    using previous_outputs_Inr [OF outs] output_known_within [OF _ s5 s8] by blast+
  have s2: "goes C s s2" "goes C s2 (turn C s2)" using db0 goes_turn by (meson rtranclp_trans)+
  have s12: "goes C (turn C s2) (turn C s8)" using s5 known(1) s8 by (meson rtranclp_trans)
  have ok10: "goes C s s10" using s2 s12 s10 by (meson rtranclp_trans)
  have ne: "fst x \<noteq> []" by (rule candidates_nonempty [OF order rbf coins x])
  obtain ch res getter cands' where core: "core_spend C getter dests cands' (Rbf f (snd mins)) ch lt = Inr res" and p: "p = cs_psbt res"
    and used: "change_used C s10 (previous_change outs = None) ch0 res ch s'"
    and cands': "cands' = fst x \<or> is_cancel \<and> list_all (\<lambda>c. \<not> cc_must_select c) (fst x) \<and> cands' = map require_all (fst x) @ snd x"
    using rbf_loop_success [OF loop _ ne] change_or_fresh(2) [OF ch0] by (auto split: option.splits)
  obtain selected amount where sel: "distinct (map cc_outpoint selected)" "set selected \<subseteq> set cands'" "selected \<noteq> []"
      "\<forall>c\<in>set cands'. cc_must_select c \<longrightarrow> c \<in> set selected" "prevouts ?tx = map cc_outpoint selected"
    and out: "tx_output ?tx = map dest_output dests @ change_outputs ch amount" "cs_has_change res = (0 < amount)"
      "amount = 0 \<or> DUST_OUTPUT_SATS \<le> amount \<and> amount \<le> max_money"
    using vault_core_spend [OF laws vault(2) core] unfolding p by blast
  have ops: "cn_outpoint ` set prev_coins = set (prevouts prev)" "prev_coins \<noteq> []" by (rule replaced_coins [OF order rbf coins])+
  obtain own cs where own: "list_all2 (from_coin (\<not> is_cancel) None) prev_coins own" "fst x = (if is_cancel then own else own @ snd x)"
    and cs: "reads_coins [Confirmed] [] ?db2 cs" "list_all2 (from_coin False None) (filter (\<lambda>c. cn_outpoint c \<notin> cn_outpoint ` set prev_coins) cs) (snd x)"
    using cand by blast
  note inputs = rbf_inputs [OF own(1) cs(2) own(2) cands' sel(2,3,4) ops(2), unfolded ops(1)]
  have "coins_ok ?db2" using goes_ok [OF others vault(1) ok rtranclp_trans [OF rtranclp_trans [OF s2] s12]] by (simp add: db_ok_def)
  then have "cn_outpoint ` set (filter (\<lambda>c. cn_outpoint c \<notin> set (prevouts prev)) cs) \<subseteq>
      cr_outpoint ` {r \<in> set (db_coins ?db2). cr_spend_txid r = None \<and> cr_blockheight r \<noteq> None}"
    using confirmed_rows [OF _ cs(1)] by (auto simp del: image_Collect)
  then have subset: "set (prevouts ?tx) \<subseteq> set (prevouts prev) \<union> cr_outpoint ` {r \<in> set (db_coins ?db2). cr_spend_txid r = None \<and> cr_blockheight r \<noteq> None}"
    using inputs(1) unfolding sel(5) set_map by blast
  have shares: "if is_cancel then set (prevouts ?tx) \<inter> set (prevouts prev) \<noteq> {} else set (prevouts prev) \<subseteq> set (prevouts ?tx)"
    using inputs(2) unfolding sel(5) set_map .
  have unspent: "\<exists>r\<in>set (db_coins ?db1). cr_outpoint r = op \<and> cr_spend_block_height r = None" if "op \<in> set (prevouts prev)" for op
    by (rule replaced_rows [OF order coins that])
  let ?change = "if amount = 0 then [] else [(so_addr ch, amount)]"
  have "?change = [] \<or> (\<exists>a amount. ?change = [(a, amount)] \<and> 500 \<le> amount \<and> amount \<le> max_money \<and> (case previous_change outs of
        Some b \<Rightarrow> a = b \<and> (\<exists>v i. (b, v, Some (i, True)) \<in> set outs)
      | None \<Rightarrow> (\<exists>i. lib_wallet_address (ce_lib C) (Vault d) True (ce_network C) i = Some a \<and> change_committed C d (cm_db s) i (cm_db s'))))"
    using change_of_replacement [OF used change_or_fresh(2) [OF ch0] ok10 others vault(1) ok vault(2)] out(2,3) previous_change_mem [of outs]
    by (cases "amount = 0"; cases "previous_change outs") (simp_all add: DUST_OUTPUT_SATS_def)
  moreover have "tx_output ?tx = (if is_cancel then [] else map (\<lambda>(a, v, _). paid (a, v)) (filter (\<lambda>(a, _). previous_change outs \<noteq> Some a) outs)) @ map paid ?change"
    using out(1) not_first_goes [OF dests] by (simp add: change_outputs_def paid_def)
  moreover have "distinct (prevouts ?tx)" using sel(1,5) by simp
  moreover have "(command_step C)\<^sup>*\<^sup>* db0 ?db1" "(command_step C)\<^sup>*\<^sup>* ?db2 (cm_db s')"
    using rtranclp_trans [OF db0(2) s2(2)] rtranclp_trans [OF s10 rest] by blast+
  ultimately show ?thesis using db0(1,3) s12 rbf unspent shares subset known(2)
    by (intro exI [of _ db0] exI [of _ ?db1] exI [of _ ?db2] exI [of _ prev] exI [of _ outs] exI [of _ ?change] conjI) blast+
qed

end
