(* ===== verification/Commands_Examples.thy ===== *)
theory Commands_Examples
  imports Commands_Rbf Poller_Exact Wallet_Examples
begin

text \<open>
  A daemon with a Vault of three confirmed coins, and a run of \<open>createspend\<close> on it that takes a fresh
  change address.
\<close>

definition vault_row :: "nat \<Rightarrow> coin_row" where
  "vault_row n = \<lparr>cr_blockheight = Some 100, cr_blocktime = Some 7, cr_outpoint = OutPoint (demo_txid (demo_prev n)) 0, cr_amount_sat = 100000,
     cr_derivation_index = n, cr_is_change = False, cr_spend_txid = None, cr_spend_block_height = None, cr_spend_block_time = None,
     cr_is_immature = False, cr_is_from_self = False\<rparr>"

definition vault_tx_row :: "nat \<Rightarrow> tx_row" where
  "vault_tx_row n = \<lparr>tr_txid = demo_txid (demo_prev n), tr_tx = demo_prev n, tr_num_inputs = Some 1, tr_num_outputs = Some 1, tr_is_coinbase = False\<rparr>"

definition vault_db :: wallet_db where
  "vault_db = toy_vault_db\<lparr>db_coins := map vault_row [1, 2, 3], db_transactions := map vault_tx_row [1, 2, 3]\<rparr>"

definition demo_commands :: command_api where
  "demo_commands = \<lparr>lib_valid_for = (\<lambda>a n. True), lib_address_text = map (\<lambda>b. char_of (unat b)) \<circ> address_script, lib_from_script = (\<lambda>s n. Some (Address n s)),
     lib_wallet_address = (\<lambda>w b n i. Some (Address n (demo_script b i))), lib_first_timelock = (\<lambda>d. 10), lib_coins_order = rev,
     lib_clock = (50, 0), lib_vsize = (\<lambda>tx. 200), lib_finalized = (\<lambda>p. None)\<rparr>"

definition demo_command_node :: "unit command_backend" where
  "demo_command_node = \<lparr>chain_tip_result = Pair (Inr \<lparr>bt_height = 110, bt_hash = []\<rparr>), tip_time = Pair None, mempool_entry_result = (\<lambda>t. Pair (Inr None)),
     mempool_spenders_result = (\<lambda>ops. Pair (Inr [])), sees_mempool = (\<lambda>_. True), genesis_block_timestamp = Pair (Inr 0),
     rescan_progress_result = Pair (Inr False), bit_start_rescan = (\<lambda>d t. Pair (Inr ()))\<rparr>"

lemma vault_ids: "demo_txid (demo_prev n) = demo_txid (demo_prev m) \<longleftrightarrow> n = m" if "n \<in> {1, 2, 3}" "m \<in> {1, 2, 3}"
  using that by (intro demo_txid_prev) auto

lemma vault_db_ok: "db_ok demo_api toy_addresses vault_db"
proof -
  have "addresses_ok toy_addresses vault_db \<longleftrightarrow> addresses_ok toy_addresses toy_vault_db"
    by (rule addresses_ok_cong) (simp_all add: vault_db_def same_identity_def)
  moreover have "coins_ok vault_db"
    using vault_ids by (simp add: coins_ok_def wf_coin_row_def coin_refs_def saved_txids_def vault_db_def vault_row_def vault_tx_row_def del: One_nat_def)
  moreover have "txs_ok demo_api vault_db"
    using vault_ids by (simp add: txs_ok_def saved_txids_def vault_db_def vault_tx_row_def demo_api_def del: One_nat_def) (simp add: demo_prev_def)
  moreover have "drafts_ok demo_api vault_db" using toy_vault(2) [of demo_api] by (simp add: vault_db_def db_ok_def drafts_ok_def)
  ultimately show ?thesis using toy_addresses_ok by (simp add: db_ok_def)
qed


definition vault_env :: "(demo_sel, unit) command_env" where
  "vault_env = \<lparr>ce_control = \<lparr>dc_backend = 0, dc_chain = Regtest, dc_network = Net_Regtest, dc_main_descriptor = Vault demo_d,
       dc_bitcoin_backend = None, dc_fallback_esplora = None\<rparr>,
     ce_select = demo_selector, ce_btc = demo_api, ce_desc = demo_desc, ce_addresses = toy_addresses, ce_imported = demo_imported,
     ce_lib = demo_commands, ce_node = demo_command_node, ce_others = (\<lambda>n db. db)\<rparr>"

lemma vault_env_simps [simp]:
  "ce_chain vault_env = Regtest" "ce_network vault_env = Net_Regtest" "ce_main vault_env = Vault demo_d" "ce_select vault_env = demo_selector"
  "ce_btc vault_env = demo_api" "ce_desc vault_env = demo_desc" "ce_addresses vault_env = toy_addresses" "ce_lib vault_env = demo_commands"
  "ce_node vault_env = demo_command_node" "turn vault_env s = s\<lparr>cm_turn := Suc (cm_turn s)\<rparr>"
  by (simp_all add: vault_env_def turn_def)

definition vault_state :: "nat \<Rightarrow> unit command_state" where
  "vault_state n = \<lparr>cm_bit = (), cm_db = vault_db, cm_turn = n, cm_cache = (\<lambda>_. None)\<rparr>"

lemma vault_env_laws: "orders_coins vault_env" "others_step vault_env"
  by (simp_all add: orders_coins_def demo_commands_def others_step_def) (simp add: vault_env_def)

lemma vault_index: "change_index toy_addresses vault_db = Some 0"
proof -
  have "branch_index True vault_db = 0" using toy_indices(1) [of True] by (simp add: vault_db_def branch_index_def)
  then show ?thesis using indices_read(2) [of toy_addresses vault_db] vault_db_ok by (simp add: db_ok_def)
qed

lemma vault_next: "next_change_addr vault_env (vault_state n) = (Inr (demo_change Net_Regtest 1), vault_state (Suc n))"
  by (simp add: next_change_addr_def cmd_bind_def conn_read_def conn_def vault_state_def vault_index ok_or_def increment_def from_normal_idx_def
      change_addr_at_def cmd_expect_def demo_commands_def cmd_ok_def demo_change_def child_of_def)

abbreviation vault_ops :: "outpoint list" where
  "vault_ops \<equiv> [OutPoint (demo_txid (demo_prev 1)) 0, OutPoint (demo_txid (demo_prev 2)) 0]"

definition vault_coin :: "nat \<Rightarrow> coin" where
  "vault_coin n = the (coin_of_row (vault_row n))"

lemma vault_read: "coins [] vault_ops vault_db = Some [vault_coin 1, vault_coin 2]"
proof -
  have "select_coins_where [] vault_ops vault_db = [vault_row 1, vault_row 2]"
    using vault_ids by (simp add: select_coins_where_def vault_db_def vault_row_def del: One_nat_def)
  then show ?thesis by (simp add: coins_def vault_coin_def vault_row_def coin_of_row_def pair_columns_def)
qed

lemma vault_candidates: "candidate_coins vault_env vault_ops (vault_state n) = (Inr (demo_coins 2 1), vault_state (Suc n))"
proof -
  have read: "read_coins vault_env [] vault_ops (vault_state n) = (Inr [vault_coin 2, vault_coin 1], vault_state (Suc n))"
    using vault_read by (simp add: read_coins_def cmd_bind_def conn_read_def conn_def vault_state_def ok_or_def cmd_ok_def demo_commands_def)
  have c: "cn_outpoint (vault_coin k) = OutPoint (demo_txid (demo_prev k)) 0" "\<not> is_spent (vault_coin k)" "\<not> cn_is_immature (vault_coin k)"
    "candidate_with_ancestors vault_env True (vault_coin k) = cmd_ok (coin_to_candidate (vault_coin k) True None None)" for k
    by (simp_all add: vault_coin_def vault_row_def coin_of_row_def pair_columns_def is_spent_def candidate_with_ancestors_def)
  have "coin_to_candidate (vault_coin k) True None None = demo_wallet_coin k" if "k < 3" for k
    using that by (simp add: vault_coin_def vault_row_def coin_of_row_def pair_columns_def coin_to_candidate_def demo_wallet_coin_def child_of_def)
  then show ?thesis using vault_ids
    by (simp add: candidate_coins_def cmd_bind_def read c check_chosen_def cmd_guard_def cmd_ok_def del: One_nat_def)
qed

lemma vault_locktime: "command_locktime vault_env (vault_state n) = (Inr 0, vault_state n)"
  by (simp add: command_locktime_def demo_command_node_def vault_state_def node_ask_def cmd_bind_def locktime_for_tip_def cmd_expect_def cmd_ok_def
      anti_fee_sniping_locktime_def)

lemma vault_getter: "cached_tx (\<lambda>_. None) vault_db = demo_getter"
proof
  fix t
  have "\<exists>c\<in>set (db_coins vault_db). op_txid (cr_outpoint c) = t \<or> cr_spend_txid c = Some t" if "demo_txid (demo_prev k) = t" "k \<in> {1, 2, 3}" for k
    using that by (auto simp: vault_db_def vault_row_def)
  then show "cached_tx (\<lambda>_. None) vault_db t = demo_getter t"
    by (auto simp: cached_tx_def stored_tx_def demo_getter_def vault_db_def vault_tx_row_def vault_row_def simp del: One_nat_def)
qed

lemma vault_build:
  "build_spend vault_env [] (demo_coins 2 1) (Regular 1) (demo_change Net_Regtest 1) 0 (vault_state n) =
     (Inr (Built \<lparr>cs_psbt = demo_built 2 1 Net_Regtest 1 None 1, cs_has_change = True, cs_warnings = []\<rparr>),
      (vault_state (Suc n))\<lparr>cm_cache := remember (map op_txid (prevouts (ps_unsigned_tx (demo_built 2 1 Net_Regtest 1 None 1)))) demo_getter (\<lambda>_. None)\<rparr>)"
proof -
  have "core_spend vault_env demo_getter [] (demo_coins 2 1) (Regular 1) (demo_change Net_Regtest 1) 0 =
      Inr \<lparr>cs_psbt = demo_built 2 1 Net_Regtest 1 None 1, cs_has_change = True, cs_warnings = []\<rparr>"
    using demo_sweep_ok [of 2 1 1 None] by (simp add: core_spend_def create_spend_def)
  then show ?thesis by (simp add: build_spend_def Let_def vault_state_def vault_getter build_result_def del: One_nat_def)
qed

lemma vault_commit_ok:
  "\<exists>db'. commit_change_if_next toy_addresses Regtest demo_d 1 vault_db = (Inr True, db') \<and> change_index toy_addresses db' = Some 1"
proof -
  have ok: "addresses_ok toy_addresses vault_db" using vault_db_ok by (simp add: db_ok_def)
  have kind: "wl_kind (db_wallet vault_db) = VaultKind demo_d" and tip: "db_tip vault_db = db_tip toy_vault_db" and idx: "branch_index True vault_db = 0"
    using toy_vault(4) toy_indices(1) [of True] by (simp_all add: vault_db_def branch_index_def)
  obtain db' where "allocate_change toy_addresses Regtest demo_d (Some 1) vault_db =
        (Inr (Some \<lparr>rv_chain = Regtest, rv_descriptor = demo_d, rv_index = 1\<rparr>), db')" "takes_next toy_addresses True vault_db db'"
    using allocate_change_outcome [OF ok toy_laws(1) kind, of Regtest 1 "Some 1"] tip toy_vault(5) idx by (auto simp: LOOK_AHEAD_LIMIT_def)
  moreover from this have "change_index toy_addresses db' = Some 1"
    using indices_read(2) [of toy_addresses db'] takes_next_index [of toy_addresses True vault_db db' True] idx by (simp add: takes_next_def)
  ultimately show ?thesis by (simp add: commit_change_if_next_def)
qed

lemma vault_spend:
  "\<exists>s'. create_spend_command vault_env [] vault_ops 1 None (vault_state 0) = (Inr (SpendSuccess (demo_built 2 1 Net_Regtest 1 None 1) []), s')"
proof -
  obtain db' where db': "commit_change_if_next toy_addresses Regtest demo_d 1 vault_db = (Inr True, db')" "change_index toy_addresses db' = Some 1"
    using vault_commit_ok by blast
  define res where "res = \<lparr>cs_psbt = demo_built 2 1 Net_Regtest 1 None 1, cs_has_change = True, cs_warnings = []\<rparr>"
  define s where "s = (vault_state 3)\<lparr>cm_cache := remember (map op_txid (prevouts (ps_unsigned_tx (cs_psbt res)))) demo_getter (\<lambda>_. None)\<rparr>"
  define change where "change = demo_change Net_Regtest 1"
  have build: "build_spend vault_env [] (demo_coins 2 1) (Regular 1) change 0 (vault_state 2) = (Inr (Built res), s)"
    using vault_build [of 2] by (simp add: res_def s_def change_def)
  have info: "so_info change = Some \<lparr>ai_index = child_of 1, ai_is_change = True\<rparr>" by (simp add: change_def demo_change_def child_of_def)
  have s: "cm_db s = vault_db" by (simp add: s_def vault_state_def)
  have res: "cs_has_change res" "cs_warnings res = []" by (simp_all add: res_def)
  have commit: "commit_change vault_env (so_info change) s = (Inr True, s\<lparr>cm_turn := Suc (cm_turn s), cm_db := db'\<rparr>)"
    using db'(1) by (simp add: commit_change_def info conn_reserve_def conn_def s map_err_def del: One_nat_def)
  have finish: "\<exists>s'. finish_spend vault_env [] (so_info change) res (s\<lparr>cm_turn := Suc (cm_turn s), cm_db := db'\<rparr>) = (Inr (SpendSuccess (cs_psbt res) []), s')"
    using db'(2) by (simp add: finish_spend_def cmd_bind_def cmd_ok_def maybe_increase_last_deriv_index_def info conn_read_def conn_def
        branch_index_of_def ok_or_def res del: One_nat_def)
  have eight: "(8 :: nat) = Suc 7" by simp
  have loop: "\<exists>s'. spend_loop 8 vault_env [] (demo_coins 2 1) 1 True 0 change (vault_state 2) = (Inr (SpendSuccess (cs_psbt res) []), s')"
    using finish unfolding eight spend_loop.simps by (simp add: cmd_bind_def build commit res del: One_nat_def)
  have psbt: "cs_psbt res = demo_built 2 1 Net_Regtest 1 None 1" by (simp add: res_def)
  have "create_spend_command vault_env [] vault_ops 1 None (vault_state 0) = spend_loop 8 vault_env [] (demo_coins 2 1) 1 True 0 change (vault_state 2)"
    using vault_next [of 0] vault_candidates [of 1] vault_locktime [of 2]
    by (simp add: create_spend_command_def require_ordinary_imported_spend_support_def cmd_bind_def cmd_guard_def cmd_ok_def change_or_next_def
        CHANGE_COMMIT_CONFLICT_LIMIT_def numeral_2_eq_2 change_def)
  then show ?thesis using loop unfolding psbt by simp
qed


section \<open>Two calls that hand out one address\<close>

text \<open>
  \<open>getnewaddress\<close> on a Vault reads the index and writes its successor in two transactions.  When another
  connection runs the whole command between the two, both return the same address.
\<close>

theorem new_address_repeats:
  "\<exists>(C :: (demo_sel, unit) command_env) s a i t t'. others_step C \<and> db_ok (ce_btc C) (ce_addresses C) (cm_db s) \<and>
     try_get_new_address (alone C) s = (Inr (a, i), t) \<and> ce_others C 1 (cm_db s) = cm_db t \<and> try_get_new_address C s = (Inr (a, i), t')"
proof -
  have ok: "addresses_ok toy_addresses vault_db" using vault_db_ok by (simp add: db_ok_def)
  have idx: "branch_index False vault_db = 0" "lookahead vault_db = 200"
    using toy_indices(1) [of False] toy_indices(3) by (simp_all add: vault_db_def branch_index_def lookahead_def)
  then have read: "receive_index toy_addresses vault_db = Some 0" using indices_read(1) [OF ok] by simp
  obtain rows where set1: "set_derivation_index toy_addresses 1 False vault_db = Some ((set_branch_index False 1 vault_db)\<lparr>db_addresses := rows\<rparr>)"
      "addresses_ok toy_addresses ((set_branch_index False 1 vault_db)\<lparr>db_addresses := rows\<rparr>)"
    using set_derivation_index_outcome [OF ok, of 1 False] idx by auto
  define db1 where "db1 = (set_branch_index False 1 vault_db)\<lparr>db_addresses := rows\<rparr>"
  note set1 = set1 [folded db1_def]
  have "branch_index False db1 = 1" by (simp add: db1_def)
  then have set2: "set_derivation_index toy_addresses 1 False db1 = Some db1" using set_derivation_index_outcome [OF set1(2), of 1 False] by simp
  define C where "C = vault_env\<lparr>ce_others := (\<lambda>n db. if n = 1 \<and> db = vault_db then db1 else db)\<rparr>"
  have C: "ce_main C = Vault demo_d" "ce_addresses C = toy_addresses" "ce_lib C = demo_commands" "ce_network C = Net_Regtest" "ce_btc C = demo_api"
    "alone C = vault_env" "ce_others C = (\<lambda>n db. if n = 1 \<and> db = vault_db then db1 else db)"
    by (simp_all add: C_def vault_env_def alone_def)
  let ?a = "lib_address_text demo_commands (Address Net_Regtest (demo_script False 1))"
  have "others_step C" using r_into_rtranclp [of "db_step demo_api toy_addresses", OF step_set_index [OF set1(1)]] by (simp add: others_step_def C)
  moreover have "try_get_new_address (alone C) (vault_state 0) = (Inr (?a, 1), (vault_state 2)\<lparr>cm_db := db1\<rparr>)"
    by (simp add: C(6) try_get_new_address_def cmd_bind_def conn_read_def conn_write_def conn_def vault_state_def read set1(1) ok_or_def increment_def
        from_normal_idx_def cmd_expect_def cmd_ok_def demo_commands_def numeral_2_eq_2 del: One_nat_def)
  moreover have "\<exists>t'. try_get_new_address C (vault_state 0) = (Inr (?a, 1), t')"
    by (simp add: C try_get_new_address_def cmd_bind_def conn_read_def conn_write_def conn_def turn_def vault_state_def read set2 ok_or_def increment_def
        from_normal_idx_def cmd_expect_def cmd_ok_def demo_commands_def del: One_nat_def)
  moreover have "db_ok (ce_btc C) (ce_addresses C) (cm_db (vault_state 0))" "ce_others C 1 (cm_db (vault_state 0)) = db1"
    using vault_db_ok by (simp_all add: C vault_state_def)
  ultimately show ?thesis by (intro exI [of _ C] exI [of _ "vault_state 0"]) (auto simp del: One_nat_def)
qed

end
