(* ===== verification/Spec2Isabelle.thy ===== *)
theory Spec2Isabelle
  imports Claim_Assessable Sighash Ancestry_Retained Ancestry_Search Border_Pattern Poller_Examples Submission Imported_Spend Commands_Examples
begin

text \<open>
  A verification library for the core of COINCUBE, a Bitcoin wallet that can also claim the coins
  of a Blake2b fork of Bitcoin.

  The program.  The crate \<open>coincube-core\<close> holds the wallet logic that needs no network: chain
  identities, the construction and review of spends, the claim of fork coins (assessment,
  transactions, ancestry proofs, the poison output that keeps a transaction off the fork, the
  fork's signature hash) and the Border Wallet backup.  The crate \<open>coincubed\<close> is the daemon: a
  SQLite database of coins, addresses, transactions and drafts, a poller that updates it from a
  Bitcoin backend, and the commands that the desktop application \<open>coincube-gui\<close> calls.  The core
  is pure; the daemon keeps all durable state in the database, one transaction per method; the
  poller is its main writer and the commands interleave with it.

  Theories and sources (paths under src/):

  \<^item> \<open>Prelude\<close>: results as sums, their binds and guards, bytes, saturating and wrapping arithmetic.
  \<^item> \<open>Bitcoin_Types\<close>, \<open>Psbt\<close>: the library data the code handles.  Functions of the Bitcoin library
    are fields of the record \<open>btc_api\<close>; what the code relies on are named hypotheses.
  \<^item> \<open>Chain\<close>: coincube-core/src/chain.rs.
  \<^item> \<open>Claim\<close>: coincube-core/src/claim.rs, the assessment.
  \<^item> \<open>Ancestry\<close>, \<open>Ancestry_Search\<close>, \<open>Ancestry_Retained\<close>: claim_ancestry.rs with its search.rs and
    retained.rs: the path verifier, the bounded breadth-first search and the stored encoding.
  \<^item> \<open>Poison\<close>: split_poison.rs.  \<open>Sighash\<close>: unified_sighash.rs.
  \<^item> \<open>Border_Grid\<close>, \<open>Border_Pattern\<close>: border_wallet/grid.rs, pattern.rs, mod.rs, error.rs.
  \<^item> \<open>Coin_Selection\<close>, \<open>Spend\<close>, \<open>Spend_Construction\<close>: spend.rs.
  \<^item> \<open>Imported_Spend\<close>: imported_spend.rs up to the signatures: spends of an imported wallet.
  \<^item> \<open>Claim_Spend\<close>, \<open>Claim_Transactions\<close>, \<open>Claim_Pair\<close>, \<open>Claim_Assessable\<close>: claim_spend.rs, and
    its composition with the assessment.
  \<^item> \<open>Wallet_Db\<close>, \<open>Wallet_Coins\<close>, \<open>From_Self\<close>, \<open>Wallet_Addresses\<close>, \<open>Wallet_Drafts\<close>:
    coincubed/src/database/sqlite/mod.rs, schema.rs, utils.rs and database/mod.rs: the tables as
    one record of rows, and every method of the connection that changes them.
  \<^item> \<open>Reservation\<close>: coincubed/src/database/sqlite/reservation.rs.
  \<^item> \<open>Wallet_State\<close>: the methods as the steps of one state machine.
  \<^item> \<open>Wallet_Examples\<close>: concrete databases for the hypotheses of these results.
  \<^item> \<open>Chain_Lookup\<close>: coincubed/src/bitcoin/d/utils.rs and the common ancestor of bitcoin/mod.rs.
  \<^item> \<open>History_Sync\<close>: the status records of bitcoin/mod.rs that a poll publishes.
  \<^item> \<open>Poller\<close>: coincubed/src/bitcoin/poller/looper.rs and mod.rs, over any backend: a record of the
    trait methods the poller calls.  \<open>Poller_Safety\<close>, \<open>Poller_Exact\<close>, \<open>Poller_Total\<close>: what a poll
    may write, what a completed one has written, and when it can panic.  \<open>Poller_Refines\<close>: the thread
    against a specification of one poll.
  \<^item> \<open>Bitcoind_Poll\<close>: coincubed/src/bitcoin/d/poll.rs, poll/parse.rs and the poll methods of the
    bitcoind backend in bitcoin/mod.rs, over the node's remote procedures.
  \<^item> \<open>Poller_Examples\<close>: concrete backends, and the run of a poll that panics.
  \<^item> \<open>Submission\<close>: coincubed/src/poison_broadcast.rs with binding.rs, connect_transport.rs and
    node_transport.rs: the transports of signed Claim and Split transactions and their one-use gate.
  \<^item> \<open>Commands\<close>: coincubed/src/commands/mod.rs: the commands that create, replace and recover spends, hand out
    addresses, move indices and start a rescan, with what other connections commit between their
    accesses to the database.  \<open>Commands_Safety\<close>, \<open>Commands_Exact\<close>, \<open>Commands_Rbf\<close>: what they may write, what
    they return, and that the loop of a replacement ends.  \<open>Commands_Examples\<close>: concrete runs.

  What the lemmas show.  The claim group: the assessment answers "eligible" exactly when all its
  conditions hold; the two transactions of a claim spend the intended coins and nothing else, are
  recognised by the assessment, and are rebuilt exactly after a restart.  The ancestry group: the
  verifier accepts exactly the bounded dependency paths, the search reports only paths that it
  accepts and always ends, the stored encoding is lossless and canonical.  The spend group: coin
  selection terminates and respects its constraints, a built spend pays what was asked within the
  fee bounds, and the last check accepts exactly what it documents (one overflow excepted).  The
  database group: all reachable databases keep the invariant of every table, so that decoding
  never panics; rollbacks and the repeated marking of own coins compute their declarative meaning;
  the address table is always exactly the look-ahead window; reserved indices never repeat under
  any interleaving.  The poller group: the poller thread refines a specification of single polls:
  each rolls back to the start of a rescan exactly if one has completed, and then either fails with
  at most one further rollback of at most 500 blocks, or records exactly the backend's answers,
  after the backend named the same tip before and after them; it panics only when an address index
  is exhausted or when the backend names a confirmed spender that is neither stored nor fetched, and
  in the latter case always.  The bitcoind backend does so when a replacement is mined between two
  polls, which is shown by a concrete run.  The submission group: whatever calls
  and revocations meet on a gate, at most one message is ever sent, it carries the gate's own
  transaction to the endpoint of its chain, and the result says exactly whether it was sent.  The
  command group: whatever others commit while a command runs, a created spend uses coins that were
  unspent at one moment of the run, pays what was asked, and takes its fresh change index in
  one step of its own; replacements conflict with what they replace and recoveries respect the timelock; two
  calls for a new receive address, however, can get the same one, which is shown by a concrete run.

  Interfaces are locales, interpreted on the model: a sweep builder (\<open>Claim_Spend\<close>, on the
  wallet's own spend construction), a source of indices (\<open>Reservation\<close>, on the database), textual
  names with a parser (\<open>Chain\<close>), a property kept by every action of the poller (\<open>Poller_Safety\<close>, on
  "the database is unchanged" and on "the database made steps of its state machine"), a sender that
  passes a one-use gate (\<open>Submission\<close>, on the dispatch of every transport), a relation that every
  action of a command obeys (\<open>Commands_Safety\<close>, on "steps of the database" and on "the records are kept").

  Bounds and fuel.  Every loop is structural or has a termination proof, except where the source
  itself bounds it: the ancestry search (its limits on steps, bytes and edges; 1,025 steps always
  suffice) and the marking of own coins (the source's bound of unconfirmed coins plus two passes,
  proved sufficient) and the lookup of a fork point (the source's three attempts).  The mapping of
  received outputs repeats only while fewer remain, which is its termination proof.  The loop of a
  replacement runs on a fuel of nine builds, proved sufficient for the eight conflicts it allows.
  Integers are nat or int with the width written out where the code depends
  on it (checked, saturating or wrapping additions).

  Not modelled: the desktop application, the user-interface toolkit, the foreign-function
  interface and the Spark bridge (event handling, rendering and remote procedure calls); the
  JSON-RPC server and the configuration parsing of the daemon, and its commands that list
  addresses, coins and transactions, keep labels, and update or broadcast stored spends; the Electrum and
  Esplora backends, which scan through a wallet library; synchronization and rescan percentages,
  which are floating-point numbers for display; database migrations from older schemas
  and the paged listing queries; descriptor policy analysis and key parsing, which are miniscript
  library calls; signers and encrypted seed storage, which are cryptographic library calls and
  file input and output; vendored libraries and fuzz targets.
\<close>

end
